(* ===== verification/Machine_Prelude.thy ===== *)
theory Machine_Prelude
  imports Main "HOL-Library.Word" "HOL-Library.Monad_Syntax"
begin

text \<open>
  Shared vocabulary of the development: the fixed-width integer types of the C++ source,
  the C shift operators with their undefined range, the monad of host-level failure
  (\<open>'a option\<close>: \<open>None\<close> stands for a call of \<open>abort()\<close>, a \<open>FATAL\<close>
  exit, or an operation that C++ leaves undefined), and the facts on words that
  several components use.
\<close>

unbundle bit_operations_syntax

named_theorems machine_simps \<open>unfolding equations of small helper operations\<close>
named_theorems width_simps \<open>facts on casts between 8, 16, 32 and 64 bit words\<close>

type_synonym u8 = "8 word"
type_synonym u16 = "16 word"
type_synonym u32 = "32 word"
type_synonym u64 = "64 word"

section \<open>C shifts\<close>

text \<open>
  A shift of a 32-bit operand by a variable count is defined in C++ only for counts
  below 32. The two operators below are used wherever the source shifts by a count
  that is not a literal.
\<close>

definition shr32 :: "u32 \<Rightarrow> u32 \<Rightarrow> u32 option" where
  "shr32 x n = (if n < 32 then Some (drop_bit (unat n) x) else None)"

definition shl32 :: "u32 \<Rightarrow> u32 \<Rightarrow> u32 option" where
  "shl32 x n = (if n < 32 then Some (push_bit (unat n) x) else None)"

definition sar32 :: "u32 \<Rightarrow> u32 \<Rightarrow> u32 option" where
  "sar32 x n = (if n < 32 then Some (signed_drop_bit (unat n) x) else None)"

lemma shr32_ok: "n < 32 \<Longrightarrow> shr32 x n = Some (drop_bit (unat n) x)"
  by (simp add: shr32_def)

lemma shl32_ok: "n < 32 \<Longrightarrow> shl32 x n = Some (push_bit (unat n) x)"
  by (simp add: shl32_def)

lemma sar32_ok: "n < 32 \<Longrightarrow> sar32 x n = Some (signed_drop_bit (unat n) x)"
  by (simp add: sar32_def)

section \<open>Single bits\<close>

lemma and_one_of_bool [simp]: "x AND 1 = of_bool (bit x 0)" for x :: "'a::len word"
  by (rule bit_eqI) (auto simp: bit_simps)

lemma drop_bit_and_one: "drop_bit n x AND 1 = of_bool (bit x n)" for x :: "'a::len word"
  by (simp add: bit_drop_bit_eq)

lemma of_bool_eq_one_iff: "(of_bool b :: 'a::len word) = 1 \<longleftrightarrow> b"
  by (cases b) auto

lemma of_bool_word_inj [simp]: "(of_bool a :: 'a::len word) = of_bool b \<longleftrightarrow> a = b"
  by (cases a; cases b) auto

lemma xor_of_bool: "(of_bool a :: 'a::len word) XOR of_bool b = of_bool (a \<noteq> b)"
  by (cases a; cases b) auto

section \<open>Casts\<close>

lemma word_of_int_take_bit_down:
  assumes "LENGTH('b::len) \<le> n"
  shows "(word_of_int (take_bit n i) :: 'b word) = word_of_int i"
  using assms by (simp add: word_of_int_eq_iff min_absorb1)

lemma ucast_down_add:
  assumes "LENGTH('b::len) \<le> LENGTH('a::len)"
  shows "(ucast (x + y :: 'a word) :: 'b word) = ucast x + ucast y"
  using word_of_int_take_bit_down [OF assms, of "uint x + uint y"]
  by (simp only: ucast_eq uint_word_arith_bintrs wi_hom_add)

lemma ucast_down_diff:
  assumes "LENGTH('b::len) \<le> LENGTH('a::len)"
  shows "(ucast (x - y :: 'a word) :: 'b word) = ucast x - ucast y"
  using word_of_int_take_bit_down [OF assms, of "uint x - uint y"]
  by (simp only: ucast_eq uint_word_arith_bintrs wi_hom_sub)

lemma ucast_down_mult:
  assumes "LENGTH('b::len) \<le> LENGTH('a::len)"
  shows "(ucast (x * y :: 'a word) :: 'b word) = ucast x * ucast y"
  using word_of_int_take_bit_down [OF assms, of "uint x * uint y"]
  by (simp only: ucast_eq uint_word_arith_bintrs wi_hom_mult)

lemma sext8_low: "(ucast (scast (x::u8) :: u32) :: u8) = x"
  by (rule bit_eqI) (simp add: bit_simps)

lemma sext16_low: "(ucast (scast (x::u16) :: u32) :: u16) = x"
  by (rule bit_eqI) (simp add: bit_simps)

lemma zext8_low: "(ucast (ucast (x::u8) :: u32) :: u8) = x"
  by (rule bit_eqI) (simp add: bit_simps)

lemma zext16_low: "(ucast (ucast (x::u16) :: u32) :: u16) = x"
  by (rule bit_eqI) (simp add: bit_simps)

lemma bit_sext8: "n < 32 \<Longrightarrow> bit (scast (x::u8) :: u32) n = bit x (min n 7)"
  by (auto simp: bit_simps min_def)

lemma bit_sext16: "n < 32 \<Longrightarrow> bit (scast (x::u16) :: u32) n = bit x (min n 15)"
  by (auto simp: bit_simps min_def)

lemma bit_zext8: "bit (ucast (x::u8) :: u32) n = bit x n"
  by (auto simp: bit_simps dest: bit_imp_le_length)

lemma bit_zext16: "bit (ucast (x::u16) :: u32) n = bit x n"
  by (auto simp: bit_simps dest: bit_imp_le_length)

lemma bit_low8: "n < 8 \<Longrightarrow> bit (ucast (x::u32) :: u8) n = bit x n"
  by (simp add: bit_simps)

lemma bit_low16: "n < 16 \<Longrightarrow> bit (ucast (x::u32) :: u16) n = bit x n"
  by (simp add: bit_simps)

lemma sext8_eq_0 [simp]: "(scast (x::u8) :: u32) = 0 \<longleftrightarrow> x = 0"
  using sext8_low [of x] by auto

lemma sext16_eq_0 [simp]: "(scast (x::u16) :: u32) = 0 \<longleftrightarrow> x = 0"
  using sext16_low [of x] by auto

lemma zext8_inj [simp]: "(ucast (x::u8) :: u32) = ucast y \<longleftrightarrow> x = y"
  by (metis zext8_low)

lemma zext16_inj [simp]: "(ucast (x::u16) :: u32) = ucast y \<longleftrightarrow> x = y"
  by (metis zext16_low)

lemma uint_zext8 [simp]: "uint (ucast (x::u8) :: u32) = uint x"
proof -
  have "uint x < 2 ^ 32" using uint_lt2p [of x] by simp
  then show ?thesis by (simp add: unsigned_ucast_eq take_bit_int_eq_self)
qed

lemma uint_zext16 [simp]: "uint (ucast (x::u16) :: u32) = uint x"
proof -
  have "uint x < 2 ^ 32" using uint_lt2p [of x] by simp
  then show ?thesis by (simp add: unsigned_ucast_eq take_bit_int_eq_self)
qed

lemmas cast_bits = bit_sext8 bit_sext16 bit_zext8 bit_zext16 bit_low8 bit_low16

section \<open>Masks\<close>

lemma and_mask_take_bit:
  "x AND 7 = take_bit 3 x" "x AND 15 = take_bit 4 x" "x AND 31 = take_bit 5 x"
  "x AND 63 = take_bit 6 x" "x AND 127 = take_bit 7 x" "x AND 255 = take_bit 8 x"
  "x AND 4095 = take_bit 12 x" "x AND 65535 = take_bit 16 x" for x :: "'a::len word"
  by (simp_all add: take_bit_eq_mask mask_eq_exp_minus_1)

lemma low8_as_cast: "x AND 255 = ucast (ucast x :: u8)" for x :: u32
  by (rule bit_eqI) (auto simp: and_mask_take_bit bit_simps)

lemma low16_as_cast: "x AND 65535 = ucast (ucast x :: u16)" for x :: u32
  by (rule bit_eqI) (auto simp: and_mask_take_bit bit_simps)

lemma unat_low4:
  "unat (x AND 15) = of_bool (bit x 0) + 2 * of_bool (bit x 1) + 4 * of_bool (bit x 2)
    + 8 * of_bool (bit x 3)" for x :: u32
proof -
  have "unat (x AND 15) = take_bit 4 (unat x)"
    by (simp add: and_mask_take_bit unsigned_take_bit_eq)
  also have "\<dots> = horner_sum of_bool 2 (map (bit (unat x)) [0..<4])"
    by (rule horner_sum_bit_eq_take_bit [symmetric])
  also have "[0..<4] = [0, 1, 2, 3::nat]"
    by (simp add: upt_rec)
  finally show ?thesis by (simp add: bit_unsigned_iff algebra_simps)
qed

lemma and_7_bits: "x AND 7 = of_bool (bit x 0) + 2 * of_bool (bit x 1) + 4 * of_bool (bit x 2)"
  for x :: "'a::len word"
proof -
  have "x AND 7 = take_bit 3 x"
    by (simp only: and_mask_take_bit)
  also have "\<dots> = horner_sum of_bool 2 (map (bit x) [0..<3])"
    by (rule horner_sum_bit_eq_take_bit [symmetric])
  also have "[0..<3] = [0, 1, 2::nat]"
    by (simp add: upt_rec)
  finally show ?thesis by (simp add: algebra_simps)
qed

lemma and_7_cases:
  fixes x :: "'a::len word"
  obtains "x AND 7 = 0" | "x AND 7 = 1" | "x AND 7 = 2" | "x AND 7 = 3"
  | "x AND 7 = 4" | "x AND 7 = 5" | "x AND 7 = 6" | "x AND 7 = 7"
  using and_7_bits [of x]
  by (cases "bit x 0"; cases "bit x 1"; cases "bit x 2") simp_all

section \<open>Two words side by side\<close>

lemma bit_cat16: "bit (word_cat (a::u16) (b::u16) :: u32) i \<longleftrightarrow> i < 32 \<and> (if i < 16 then bit b i else bit a (i - 16))"
  by (subst bit_word_cat_iff) (simp only: len_num1 len_of_numeral_defs, simp)

lemma bit_cat32: "bit (word_cat (a::u32) (b::u32) :: u64) i \<longleftrightarrow> i < 64 \<and> (if i < 32 then bit b i else bit a (i - 32))"
  by (subst bit_word_cat_iff) (simp only: len_num1 len_of_numeral_defs, simp)

end
