(* ===== verification/Word_Carry.thy ===== *)
theory Word_Carry
  imports Machine_Prelude
begin

text \<open>
  Carry, borrow, overflow and half-carry of fixed-width addition and subtraction, read
  off the operand and result bits. The emulator never computes a carry: it keeps
  operands and result and reconstructs the flag from these bit patterns, so the
  lemmas of this theory are what its flag formulas rest on.
\<close>

section \<open>The top bit\<close>

lemma len_Suc: obtains m where "LENGTH('a::len) = Suc m"
  using len_gt_0 [where 'a='a] gr0_implies_Suc by blast


lemma int_bit_top: "0 \<le> (u::int) \<Longrightarrow> u < 2 * 2 ^ m \<Longrightarrow> bit u m \<longleftrightarrow> 2 ^ m \<le> u"
proof -
  assume "0 \<le> u" "u < 2 * 2 ^ m"
  then have "u div 2 ^ m = (if 2 ^ m \<le> u then 1 else 0)"
    by (auto simp: div_pos_pos_trivial intro!: int_div_pos_eq [where r = "u - 2 ^ m"])
  then show ?thesis by (simp add: bit_iff_odd)
qed

lemma bit_top: "bit x (LENGTH('a) - 1) \<longleftrightarrow> 2 ^ (LENGTH('a) - 1) \<le> uint x" for x :: "'a::len word"
proof -
  obtain m where L: "LENGTH('a) = Suc m" by (rule len_Suc)
  show ?thesis using int_bit_top [of "uint x" m] uint_lt2p [of x] by (simp add: L bit_uint_iff)
qed

lemma sint_uint_top: "sint x = uint x - (if bit x (LENGTH('a) - 1) then 2 ^ LENGTH('a) else 0)" for x :: "'a::len word"
proof -
  obtain m where L: "LENGTH('a) = Suc m" by (rule len_Suc)
  have t: "take_bit (Suc m) (uint x) = uint x"
    using uint_lt2p [of x] by (simp add: L take_bit_int_eq_self del: power_Suc)
  show ?thesis
    by (simp add: sint_uint L signed_take_bit_eq_take_bit_minus bit_uint_iff t)
qed

lemma uint_add_carry:
  "uint (a + b + of_bool c) =
    (if 2 ^ LENGTH('a) \<le> uint a + uint b + of_bool c
     then uint a + uint b + of_bool c - 2 ^ LENGTH('a) else uint a + uint b + of_bool c)"
  for a b :: "'a::len word"
proof (cases c)
  case False
  then show ?thesis by (simp add: uint_plus_if')
next
  case True
  define M :: int where "M = 2 ^ LENGTH('a)"
  define i j k where "i = uint a" and "j = uint b" and "k = uint (a + b)"
  have "k = (if i + j < M then i + j else i + j - M)"
    by (simp add: i_def j_def k_def M_def uint_plus_if')
  moreover have "uint (a + b + 1) = (if k + 1 < M then k + 1 else k + 1 - M)"
    by (simp add: k_def M_def uint_plus_if' [of "a + b" 1])
  moreover have "0 \<le> i" "i < M" "0 \<le> j" "j < M"
    by (simp_all add: i_def j_def M_def)
  ultimately have "uint (a + b + 1) = (if M \<le> i + j + 1 then i + j + 1 - M else i + j + 1)"
    by simp
  then show ?thesis using True by (simp add: i_def j_def M_def)
qed

lemma uint_sub_borrow:
  "uint (a - b - of_bool c) =
    (if uint a < uint b + of_bool c
     then uint a - uint b - of_bool c + 2 ^ LENGTH('a) else uint a - uint b - of_bool c)"
  for a b :: "'a::len word"
proof (cases c)
  case False
  then show ?thesis by (simp add: uint_sub_if')
next
  case True
  define M :: int where "M = 2 ^ LENGTH('a)"
  define i j k where "i = uint a" and "j = uint b" and "k = uint (a - b)"
  have "k = (if j \<le> i then i - j else i - j + M)"
    by (simp add: i_def j_def k_def M_def uint_sub_if')
  moreover have "uint (a - b - 1) = (if 1 \<le> k then k - 1 else k - 1 + M)"
    by (simp add: k_def M_def uint_sub_if' [of "a - b" 1])
  moreover have "0 \<le> i" "i < M" "0 \<le> j" "j < M"
    by (simp_all add: i_def j_def M_def)
  ultimately have "uint (a - b - 1) = (if i < j + 1 then i - j - 1 + M else i - j - 1)"
    by (simp split: if_splits)
  then show ?thesis using True by (simp add: i_def j_def M_def)
qed

lemma carry_out:
  fixes a b :: "'a::len word" and c :: bool
  defines "n \<equiv> LENGTH('a) - 1" and "r \<equiv> a + b + of_bool c"
  shows "2 ^ LENGTH('a) \<le> uint a + uint b + of_bool c \<longleftrightarrow>
    (if bit a n = bit b n then bit a n else \<not> bit r n)"
  and "sint a + sint b + of_bool c = sint r \<longleftrightarrow> (bit a n \<noteq> bit b n \<or> bit r n = bit a n)"
proof -
  obtain m where L: "LENGTH('a) = Suc m" by (rule len_Suc)
  have nm: "n = m" using L by (simp add: n_def)
  define h :: int where "h = 2 ^ m"
  have hh: "2 ^ LENGTH('a) = 2 * h" by (simp add: L h_def)
  have h0: "0 < h" by (simp add: h_def)
  have bt: "bit x m \<longleftrightarrow> h \<le> uint x" "sint x = uint x - (if h \<le> uint x then 2 * h else 0)" "0 \<le> uint x" "uint x < 2 * h"
     for x :: "'a word" 
    using bit_top [of x] sint_uint_top [of x] hh uint_lt2p [of x] by (simp_all add: L h_def)
  have r: "uint r = (if 2 * h \<le> uint a + uint b + of_bool c then uint a + uint b + of_bool c - 2 * h else uint a + uint b + of_bool c)"
    using uint_add_carry [of a b c] by (simp add: r_def hh)
  have c: "0 \<le> (of_bool c :: int)" "(of_bool c :: int) \<le> 1" by simp_all
  show "2 ^ LENGTH('a) \<le> uint a + uint b + of_bool c \<longleftrightarrow>
    (if bit a n = bit b n then bit a n else \<not> bit r n)"
    unfolding nm hh bt using r c bt(3,4) [of a] bt(3,4) [of b] h0 by (simp split: if_splits; linarith)
  show "sint a + sint b + of_bool c = sint r \<longleftrightarrow> (bit a n \<noteq> bit b n \<or> bit r n = bit a n)"
    unfolding nm bt using r c bt(3,4) [of a] bt(3,4) [of b] h0 by (simp split: if_splits; linarith)
qed

lemma borrow_out:
  fixes a b :: "'a::len word" and c :: bool
  defines "n \<equiv> LENGTH('a) - 1" and "r \<equiv> a - b - of_bool c"
  shows "uint a < uint b + of_bool c \<longleftrightarrow>
    (if bit a n = bit b n then bit r n else bit b n)"
  and "sint a - sint b - of_bool c = sint r \<longleftrightarrow> (bit a n = bit b n \<or> bit r n = bit a n)"
proof -
  obtain m where L: "LENGTH('a) = Suc m" by (rule len_Suc)
  have nm: "n = m" using L by (simp add: n_def)
  define h :: int where "h = 2 ^ m"
  have hh: "2 ^ LENGTH('a) = 2 * h" by (simp add: L h_def)
  have h0: "0 < h" by (simp add: h_def)
  have bt: "bit x m \<longleftrightarrow> h \<le> uint x" "sint x = uint x - (if h \<le> uint x then 2 * h else 0)" "0 \<le> uint x" "uint x < 2 * h"
     for x :: "'a word" 
    using bit_top [of x] sint_uint_top [of x] hh uint_lt2p [of x] by (simp_all add: L h_def)
  have r: "uint r = (if uint a < uint b + of_bool c then uint a - uint b - of_bool c + 2 * h else uint a - uint b - of_bool c)"
    using uint_sub_borrow [of a b c] by (simp add: r_def hh)
  have c: "0 \<le> (of_bool c :: int)" "(of_bool c :: int) \<le> 1" by simp_all
  show "uint a < uint b + of_bool c \<longleftrightarrow>
    (if bit a n = bit b n then bit r n else bit b n)"
    unfolding nm bt using r c bt(3,4) [of a] bt(3,4) [of b] h0 by (simp split: if_splits; linarith)
  show "sint a - sint b - of_bool c = sint r \<longleftrightarrow> (bit a n = bit b n \<or> bit r n = bit a n)"
    unfolding nm bt using r c bt(3,4) [of a] bt(3,4) [of b] h0 by (simp split: if_splits; linarith)
qed

section \<open>The carry into bit 4\<close>

lemma int_half_carry:
  fixes i j k :: int
  assumes k: "0 \<le> k" "k \<le> 1"
  shows "odd ((i + j + k) div 16) \<longleftrightarrow>
    ((odd (i div 16) \<noteq> odd (j div 16)) \<noteq> (16 \<le> i mod 16 + j mod 16 + k))"
proof -
  define p m where "p = i div 16" and "m = i mod 16"
  define q n where "q = j div 16" and "n = j mod 16"
  have eq: "i + j + k = (m + n + k) + (p + q) * 16"
    by (simp add: p_def m_def q_def n_def algebra_simps)
  have "0 \<le> m" "m < 16" "0 \<le> n" "n < 16" by (simp_all add: m_def n_def)
  then have "(m + n + k) div 16 = (if 16 \<le> m + n + k then 1 else 0)"
    using k by (auto simp: div_pos_pos_trivial intro!: int_div_pos_eq [where r = "m + n + k - 16"])
  then have "(i + j + k) div 16 = p + q + (if 16 \<le> m + n + k then 1 else 0)"
    unfolding eq by simp
  then show ?thesis by (auto simp: p_def q_def m_def n_def)
qed

lemma int_half_borrow:
  fixes i j k :: int
  assumes k: "0 \<le> k" "k \<le> 1"
  shows "odd ((i - j - k) div 16) \<longleftrightarrow>
    ((odd (i div 16) \<noteq> odd (j div 16)) \<noteq> (i mod 16 < j mod 16 + k))"
proof -
  define p m where "p = i div 16" and "m = i mod 16"
  define q n where "q = j div 16" and "n = j mod 16"
  have eq: "i - j - k = (m - n - k) + (p - q) * 16"
    by (simp add: p_def m_def q_def n_def algebra_simps)
  have "0 \<le> m" "m < 16" "0 \<le> n" "n < 16" by (simp_all add: m_def n_def)
  then have "(m - n - k) div 16 = (if m < n + k then -1 else 0)"
    using k by (auto simp: div_pos_pos_trivial intro!: int_div_pos_eq [where r = "m - n - k + 16"])
  then have "(i - j - k) div 16 = p - q + (if m < n + k then -1 else 0)"
    unfolding eq by simp
  then show ?thesis by (auto simp: p_def q_def m_def n_def)
qed

lemma bit_uint_4: "4 < LENGTH('a) \<Longrightarrow> bit x 4 \<longleftrightarrow> odd (uint x div 16)" for x :: "'a::len word"
  using bit_uint_iff [of x 4] by (simp add: bit_iff_odd)

lemma bit_of_uint_take: "n < LENGTH('a) \<Longrightarrow> uint x = take_bit LENGTH('a) i \<Longrightarrow> bit x n \<longleftrightarrow> bit i n"
  for x :: "'a::len word"
  using bit_uint_iff [of x n] by (simp add: bit_take_bit_iff)

lemma half_carry:
  fixes a b :: "'a::len word" and c :: bool
  assumes "4 < LENGTH('a)"
  shows "((bit a 4 \<noteq> bit b 4) \<noteq> bit (a + b + of_bool c) 4) \<longleftrightarrow>
     16 \<le> uint a mod 16 + uint b mod 16 + of_bool c"
proof -
  have "uint (a + b + of_bool c) = take_bit LENGTH('a) (uint a + uint b + of_bool c)"
    by (cases c) (simp_all add: uint_word_arith_bintrs take_bit_eq_mod mod_simps)
  then have "bit (a + b + of_bool c) 4 \<longleftrightarrow> odd ((uint a + uint b + of_bool c) div 16)"
    using bit_of_uint_take [OF assms] by (simp add: bit_iff_odd)
  then show ?thesis
    using int_half_carry [of "of_bool c" "uint a" "uint b"] assms by (auto simp: bit_uint_4)
qed

lemma half_borrow:
  fixes a b :: "'a::len word" and c :: bool
  assumes "4 < LENGTH('a)"
  shows "((bit a 4 \<noteq> bit b 4) \<noteq> bit (a - b - of_bool c) 4) \<longleftrightarrow>
     uint a mod 16 < uint b mod 16 + of_bool c"
proof -
  have "uint (a - b - of_bool c) = take_bit LENGTH('a) (uint a - uint b - of_bool c)"
    by (cases c) (simp_all add: uint_word_arith_bintrs take_bit_eq_mod mod_simps)
  then have "bit (a - b - of_bool c) 4 \<longleftrightarrow> odd ((uint a - uint b - of_bool c) div 16)"
    using bit_of_uint_take [OF assms] by (simp add: bit_iff_odd)
  then show ?thesis
    using int_half_borrow [of "of_bool c" "uint a" "uint b"] assms by (auto simp: bit_uint_4)
qed

section \<open>Increment and decrement\<close>

lemma top_half_facts:
  assumes L: "LENGTH('a::len) = Suc m"
  shows "bit (x::'a word) m \<longleftrightarrow> 2 ^ m \<le> uint x" "uint (2 ^ m :: 'a word) = 2 ^ m"
proof -
  show "bit x m \<longleftrightarrow> 2 ^ m \<le> uint x"
    using bit_top [of x] by (simp add: L)
  have "uint (word_of_int (2 ^ m) :: 'a word) = 2 ^ m"
    unfolding uint_word_of_int_eq by (rule take_bit_int_eq_self) (simp_all add: L)
  then show "uint (2 ^ m :: 'a word) = 2 ^ m" by simp
qed

lemma inc_overflow:
  fixes a :: "'a::len word"
  assumes "1 < LENGTH('a)"
  shows "sint a + 1 \<noteq> sint (a + 1) \<longleftrightarrow> a + 1 = 2 ^ (LENGTH('a) - 1)"
proof -
  obtain m where L: "LENGTH('a) = Suc m" by (rule len_Suc)
  define h :: int where "h = 2 ^ m"
  have h: "2 ^ LENGTH('a) = 2 * h" "1 < h" using assms by (simp_all add: L h_def)
  have m0: "m \<noteq> 0" using assms L by simp
  have n1: "\<not> bit (1::'a word) m" using m0 by (simp add: bit_1_iff)
  note b = top_half_facts(1) [OF L, folded h_def] and uh = top_half_facts(2) [OF L, folded h_def]
  have u1: "uint (a + 1) = (if 2 * h \<le> uint a + 1 then uint a + 1 - 2 * h else uint a + 1)"
    using uint_add_carry [of a 1 False] h by simp
  have "sint a + 1 \<noteq> sint (a + 1) \<longleftrightarrow> \<not> h \<le> uint a \<and> h \<le> uint (a + 1)"
    using carry_out(2) [of a 1 False] n1 assms by (auto simp: L b)
  also have "\<dots> \<longleftrightarrow> uint (a + 1) = h"
    using u1 h uint_lt2p [of a] uint_ge_0 [of a] by (simp split: if_splits; linarith)
  finally show ?thesis using uh by (simp add: L word_uint_eq_iff)
qed

lemma dec_overflow:
  fixes a :: "'a::len word"
  assumes "1 < LENGTH('a)"
  shows "sint a - 1 \<noteq> sint (a - 1) \<longleftrightarrow> a - 1 = 2 ^ (LENGTH('a) - 1) - 1"
proof -
  obtain m where L: "LENGTH('a) = Suc m" by (rule len_Suc)
  define h :: int where "h = 2 ^ m"
  have h: "2 ^ LENGTH('a) = 2 * h" "1 < h" using assms by (simp_all add: L h_def)
  have m0: "m \<noteq> 0" using assms L by simp
  have n1: "\<not> bit (1::'a word) m" using m0 by (simp add: bit_1_iff)
  note b = top_half_facts(1) [OF L, folded h_def] and uh = top_half_facts(2) [OF L, folded h_def]
  have u1: "uint (a - 1) = (if uint a < 1 then uint a - 1 + 2 * h else uint a - 1)"
    using uint_sub_borrow [of a 1 False] h by simp
  have "sint a - 1 \<noteq> sint (a - 1) \<longleftrightarrow> h \<le> uint a \<and> \<not> h \<le> uint (a - 1)"
    using borrow_out(2) [of a 1 False] n1 assms by (auto simp: L b)
  also have "\<dots> \<longleftrightarrow> uint a = h"
    using u1 h uint_lt2p [of a] uint_ge_0 [of a] by (simp split: if_splits; linarith)
  also have "\<dots> \<longleftrightarrow> a = 2 ^ m" using uh by (simp add: word_uint_eq_iff)
  also have "\<dots> \<longleftrightarrow> a - 1 = 2 ^ m - 1" by simp
  finally show ?thesis by (simp add: L)
qed

lemma and_15_uint: "uint (x AND 15) = uint x mod 16" for x :: "'a::len word"
  by (simp only: and_mask_take_bit unsigned_take_bit_eq) (simp add: take_bit_eq_mod)

lemma uint_mod_16:
  fixes x :: "'a::len word"
  assumes "4 < LENGTH('a)" "uint x = i mod 2 ^ LENGTH('a)"
  shows "uint x mod 16 = i mod 16"
proof -
  have "(2::int) ^ 4 dvd 2 ^ LENGTH('a)"
    using assms(1) by (intro le_imp_power_dvd) simp
  then have "(16::int) dvd 2 ^ LENGTH('a)" by simp
  then show ?thesis by (simp add: assms(2) mod_mod_cancel)
qed

lemma uint_15: "4 < LENGTH('a::len) \<Longrightarrow> uint (15::'a word) = 15"
proof -
  assume "4 < LENGTH('a)"
  then have "(2::int) ^ 4 \<le> 2 ^ LENGTH('a)" by (intro power_increasing) auto
  then have "take_bit LENGTH('a) (15::int) = 15" by (intro take_bit_int_eq_self) auto
  then show ?thesis by simp
qed

lemma inc_half:
  fixes a :: "'a::len word"
  assumes "4 < LENGTH('a)"
  shows "(a + 1) AND 15 = 0 \<longleftrightarrow> 16 \<le> uint a mod 16 + 1"
proof -
  have "uint (a + 1) = (uint a + 1) mod 2 ^ LENGTH('a)"
    using assms by (simp add: uint_word_ariths)
  from uint_mod_16 [OF assms this] have "uint ((a + 1) AND 15) = (uint a + 1) mod 16"
    by (simp only: and_15_uint)
  then show ?thesis by (simp only: word_uint_eq_iff unsigned_0) presburger
qed

lemma dec_half:
  fixes a :: "'a::len word"
  assumes "4 < LENGTH('a)"
  shows "(a - 1) AND 15 = 15 \<longleftrightarrow> uint a mod 16 < 1"
proof -
  have "uint (a - 1) = (uint a - 1) mod 2 ^ LENGTH('a)"
    using assms by (simp add: uint_word_ariths)
  from uint_mod_16 [OF assms this] have "uint ((a - 1) AND 15) = (uint a - 1) mod 16"
    by (simp only: and_15_uint)
  then show ?thesis by (simp only: word_uint_eq_iff uint_15 [OF assms]) presburger
qed

section \<open>Signed comparison\<close>

lemma sint_diff_cases:
  fixes a b :: "'a::len word"
  obtains "sint (a - b) = sint a - sint b"
  | "sint (a - b) < 0" "sint b < sint a" "sint (a - b) \<noteq> sint a - sint b"
  | "0 \<le> sint (a - b)" "sint a < sint b" "sint (a - b) \<noteq> sint a - sint b"
proof -
  obtain m where L: "LENGTH('a) = Suc m" by (rule len_Suc)
  define h :: int where "h = 2 ^ m"
  define d where "d = sint a - sint b"
  have h: "0 < h" by (simp add: h_def)
  have bd: "- h \<le> sint x \<and> sint x < h" for x :: "'a word"
    using sint_greater_eq [of x] sint_less [of x] by (simp add: L h_def)
  have e: "sint (a - b) = (d + h) mod (2 * h) - h"
    by (simp add: sint_word_ariths L d_def h_def signed_take_bit_eq_take_bit_shift take_bit_eq_mod)
  have dr: "- (2 * h) < d" "d < 2 * h" using bd [of a] bd [of b] by (auto simp: d_def)
  consider "- h \<le> d" "d < h" | "h \<le> d" | "d < - h" by linarith
  then show ?thesis
  proof cases
    case 1
    then have "(d + h) mod (2 * h) = d + h" by simp
    then show ?thesis using e that(1) by (simp add: d_def)
  next
    case 2
    then have "(d + h) mod (2 * h) = (d - h) mod (2 * h)"
      using mod_add_self2 [of "d - h" "2 * h"] by (simp add: algebra_simps)
    also have "\<dots> = d - h" using 2 dr by simp
    finally have "sint (a - b) = d - 2 * h" using e by simp
    then show ?thesis using 2 dr h that(2) by (simp add: d_def)
  next
    case 3
    then have "(d + h) mod (2 * h) = (d + 3 * h) mod (2 * h)"
      using mod_add_self2 [of "d + h" "2 * h"] by (simp add: algebra_simps)
    also have "\<dots> = d + 3 * h" using 3 dr by simp
    finally have "sint (a - b) = d + 2 * h" using e by simp
    then show ?thesis using 3 dr h that(3) by (simp add: d_def)
  qed
qed

lemma sless_by_flags:
  "(sint (a - b) < 0) \<noteq> (sint a - sint b \<noteq> sint (a - b)) \<longleftrightarrow> sint a < sint b"
  for a b :: "'a::len word"
  by (rule sint_diff_cases [of a b]) auto

end
