(* ===== verification/Cpu_State.thy ===== *)
theory Cpu_State
  imports Word_Carry
begin

text \<open>
  The part of class \<open>CPU\<close> (src/src/cpu/cpu.h) that the modelled operations
  read and write, as a chain of records: the cycle counters and the interrupt line
  (\<open>cpu_clk\<close>), the lazily evaluated flags (\<open>cpu_flags\<close>) and the general
  registers (\<open>cpu_regs\<close>). An operation is polymorphic in the rest of the record, so
  it applies to every extension. An \<open>int\<close> of the source is kept as the 32-bit
  pattern it is stored in. With each record come the operations of cpu.cpp on it.
\<close>

section \<open>Cycle counters and the interrupt line\<close>

record cpu_clk =
  m_cycles :: u64
  m_cycles_to_run :: u32
  m_refill_counter :: u32
  m_cycle_offset :: u32
  m_intr_line_state :: u32
  m_interrupts_blocked :: u32
  m_exit_reason :: u32

definition cpu_get_cycles :: "'z cpu_clk_scheme \<Rightarrow> u64" where
  "cpu_get_cycles s = m_cycles s + scast (m_cycle_offset s - m_cycles_to_run s)"

text \<open>
  The block that ends the current slice: the cycles run so far are accounted, the rest
  goes to the refill counter and one cycle is left. It appears verbatim in
  \<open>cpu_request_fast_return\<close>, \<open>cpu_set_eflags\<close> and the code invalidation.
\<close>

definition cpu_request_fast_return :: "u32 \<Rightarrow> 'z cpu_clk_scheme \<Rightarrow> 'z cpu_clk_scheme" where
  "cpu_request_fast_return reason s =
     s\<lparr>m_cycles := m_cycles s + (cpu_get_cycles s - m_cycles s),
       m_refill_counter := m_cycles_to_run s - 1,
       m_cycles_to_run := 1,
       m_cycle_offset := 1\<rparr>"

definition cpu_cancel_execution_cycle :: "u32 \<Rightarrow> 'z cpu_clk_scheme \<Rightarrow> 'z cpu_clk_scheme" where
  "cpu_cancel_execution_cycle reason s =
     s\<lparr>m_exit_reason := reason,
       m_cycles := m_cycles s + (cpu_get_cycles s - m_cycles s),
       m_cycles_to_run := 1,
       m_cycle_offset := 1,
       m_refill_counter := 0\<rparr>"

definition cpu_raise_intr_line :: "'z cpu_clk_scheme \<Rightarrow> 'z cpu_clk_scheme" where
  "cpu_raise_intr_line s = s\<lparr>m_intr_line_state := 1\<rparr>"

definition cpu_lower_intr_line :: "'z cpu_clk_scheme \<Rightarrow> 'z cpu_clk_scheme" where
  "cpu_lower_intr_line s = s\<lparr>m_intr_line_state := 0\<rparr>"

definition cpu_get_exit_reason :: "'z cpu_clk_scheme \<Rightarrow> u32" where
  "cpu_get_exit_reason s = m_exit_reason s"

text \<open>Ending a slice loses no cycle: the clock the devices read is unchanged.\<close>

lemma get_cycles_fast_return [simp]:
  "cpu_get_cycles (cpu_request_fast_return r s) = cpu_get_cycles s"
  by (simp add: cpu_get_cycles_def cpu_request_fast_return_def)

lemma get_cycles_cancel [simp]:
  "cpu_get_cycles (cpu_cancel_execution_cycle r s) = cpu_get_cycles s"
  by (simp add: cpu_get_cycles_def cpu_cancel_execution_cycle_def)

lemma get_cycles_intr_line [simp]:
  "cpu_get_cycles (cpu_raise_intr_line s) = cpu_get_cycles s"
  "cpu_get_cycles (cpu_lower_intr_line s) = cpu_get_cycles s"
  by (simp_all add: cpu_get_cycles_def cpu_raise_intr_line_def cpu_lower_intr_line_def)

section \<open>Lazy flags\<close>

record cpu_flags = cpu_clk +
  m_eflags :: u32
  m_laux :: u32
  m_lop1 :: u32
  m_lop2 :: u32
  m_lr :: u32

text \<open>The operation tags of the enumeration at the head of cpu.h.\<close>

datatype flag_op =
    ADD8 | ADD16 | ADD32 | BIT | ADC8 | ADC16 | ADC32 | SBB8 | SBB16 | SBB32
  | SUB8 | SUB16 | SUB32 | SHL8 | SHL16 | SHL32 | SHR8 | SHR16 | SHR32
  | SAR8 | SAR16 | SAR32 | SHLD16 | SHLD32 | SHRD16 | SHRD32 | MUL
  | INC8 | INC16 | INC32 | DEC8 | DEC16 | DEC32 | EFLAGS_FULL_UPDATE

definition flag_ops :: "flag_op list" where
  "flag_ops =
    [ADD8, ADD16, ADD32, BIT, ADC8, ADC16, ADC32, SBB8, SBB16, SBB32,
     SUB8, SUB16, SUB32, SHL8, SHL16, SHL32, SHR8, SHR16, SHR32,
     SAR8, SAR16, SAR32, SHLD16, SHLD32, SHRD16, SHRD32, MUL,
     INC8, INC16, INC32, DEC8, DEC16, DEC32, EFLAGS_FULL_UPDATE]"

fun op_code :: "flag_op \<Rightarrow> u32" where
  "op_code ADD8 = 0" | "op_code ADD16 = 1" | "op_code ADD32 = 2" | "op_code BIT = 3"
| "op_code ADC8 = 4" | "op_code ADC16 = 5" | "op_code ADC32 = 6"
| "op_code SBB8 = 7" | "op_code SBB16 = 8" | "op_code SBB32 = 9"
| "op_code SUB8 = 10" | "op_code SUB16 = 11" | "op_code SUB32 = 12"
| "op_code SHL8 = 13" | "op_code SHL16 = 14" | "op_code SHL32 = 15"
| "op_code SHR8 = 16" | "op_code SHR16 = 17" | "op_code SHR32 = 18"
| "op_code SAR8 = 19" | "op_code SAR16 = 20" | "op_code SAR32 = 21"
| "op_code SHLD16 = 22" | "op_code SHLD32 = 23" | "op_code SHRD16 = 24" | "op_code SHRD32 = 25"
| "op_code MUL = 26"
| "op_code INC8 = 27" | "op_code INC16 = 28" | "op_code INC32 = 29"
| "op_code DEC8 = 30" | "op_code DEC16 = 31" | "op_code DEC32 = 32"
| "op_code EFLAGS_FULL_UPDATE = 33"

definition op_of :: "u32 \<Rightarrow> flag_op option" where
  "op_of w = (if unat w < length flag_ops then Some (flag_ops ! unat w) else None)"

lemma op_of_code [simp]: "op_of (op_code op) = Some op"
  by (cases op) (simp_all add: op_of_def flag_ops_def)

lemma op_code_and_63 [simp]: "op_code op AND 63 = op_code op"
  by (cases op) simp_all

lemma op_code_less: "op_code op < 34"
  by (cases op) simp_all

lemma op_of_None_iff: "op_of w = None \<longleftrightarrow> 34 \<le> w"
  by (simp add: op_of_def flag_ops_def word_le_nat_alt not_less)

text \<open>The tag that the low six bits of \<open>m_laux\<close> hold.\<close>

definition laux_op :: "'z cpu_flags_scheme \<Rightarrow> flag_op option" where
  "laux_op s = op_of (m_laux s AND 63)"

lemma laux_op_set [simp]: "laux_op (s\<lparr>m_laux := op_code op\<rparr>) = Some op"
  by (simp add: laux_op_def)

lemma laux_retag: "((x AND NOT 63) OR op_code op) AND 63 = op_code op"
proof -
  have "((x AND NOT 63) OR op_code op) AND 63 = (x AND (NOT 63 AND 63)) OR (op_code op AND 63)"
    by (simp only: bit.conj_disj_distrib2 and.assoc)
  then show ?thesis by simp
qed

end
