(* ===== verification/Bit_Scan.thy ===== *)
theory Bit_Scan
  imports Machine_Prelude
begin

text \<open>
  The compiler intrinsics \<open>__builtin_ctz\<close> and \<open>__builtin_clz\<close>: the number of clear
  bits below the lowest and above the highest set bit of a 32-bit word. The source never
  calls them on zero, where they are undefined.
\<close>

definition ctz32 :: "u32 \<Rightarrow> nat" where
  "ctz32 x = length (takeWhile (\<lambda>i. \<not> bit x i) [0..<32])"

definition clz32 :: "u32 \<Rightarrow> nat" where
  "clz32 x = length (takeWhile (\<lambda>i. \<not> bit x (31 - i)) [0..<32])"

section \<open>The scans\<close>

lemma takeWhile_upt_least:
  assumes "P n" "n < m" "\<And>i. i < n \<Longrightarrow> \<not> P i"
  shows "length (takeWhile (\<lambda>i. \<not> P i) [0..<m]) = n"
proof -
  have "[0..<m] = [0..<n] @ n # [Suc n..<m]"
    using assms(2) upt_add_eq_append [of 0 n "m - n"] upt_conv_Cons [of n m] by simp
  then have "takeWhile (\<lambda>i. \<not> P i) [0..<m] = [0..<n]"
    using assms(1,3) by (simp only:) (subst takeWhile_append2, auto)
  then show ?thesis by simp
qed

lemma ctz32_lowest:
  assumes "x \<noteq> 0"
  shows "ctz32 x < 32" "bit x (ctz32 x)" "i < ctz32 x \<Longrightarrow> \<not> bit x i"
proof -
  define n where "n = (LEAST i. bit x i)"
  obtain j where j: "bit x j" using assms by (auto simp: bit_eq_iff)
  have n: "bit x n" unfolding n_def by (rule LeastI [of "bit x", OF j])
  then have lt: "n < 32" using bit_imp_le_length [of x n] by simp
  have least: "i < n \<Longrightarrow> \<not> bit x i" for i unfolding n_def by (rule not_less_Least)
  have "ctz32 x = n" unfolding ctz32_def using n lt least by (rule takeWhile_upt_least)
  then show "ctz32 x < 32" "bit x (ctz32 x)" "i < ctz32 x \<Longrightarrow> \<not> bit x i"
    using n lt least by simp_all
qed

lemma clz32_highest:
  assumes "x \<noteq> 0"
  shows "clz32 x < 32" "bit x (31 - clz32 x)" "31 - clz32 x < i \<Longrightarrow> \<not> bit x i"
proof -
  define n where "n = (LEAST i. bit x (31 - i))"
  obtain j where j: "bit x j" using assms by (auto simp: bit_eq_iff)
  then have "j < 32" using bit_imp_le_length [of x j] by simp
  then have j': "bit x (31 - (31 - j))" using j by simp
  have n: "bit x (31 - n)" unfolding n_def by (rule LeastI [of "\<lambda>i. bit x (31 - i)", OF j'])
  have "n \<le> 31 - j" unfolding n_def by (rule Least_le) (rule j')
  then have lt: "n < 32" by simp
  have least: "i < n \<Longrightarrow> \<not> bit x (31 - i)" for i
    unfolding n_def using not_less_Least [of i "\<lambda>i. bit x (31 - i)"] by simp
  have c: "clz32 x = n" unfolding clz32_def using n lt least by (rule takeWhile_upt_least)
  show "clz32 x < 32" "bit x (31 - clz32 x)" using n lt c by simp_all
  show "\<not> bit x i" if "31 - clz32 x < i"
  proof (cases "i < 32")
    case True
    then have "31 - (31 - i) = i" "31 - i < n" using that c lt by auto
    then show ?thesis using least [of "31 - i"] by simp
  next
    case False
    then show ?thesis using bit_imp_le_length [of x i] by auto
  qed
qed

lemma xor_31: "n < 32 \<Longrightarrow> (of_nat n :: u32) XOR 31 = of_nat (31 - n)"
proof -
  assume n: "n < 32"
  have "\<forall>k\<in>{0..<32}. (of_nat k :: u32) XOR 31 = of_nat (31 - k)"
    by code_simp
  then show ?thesis using n by simp
qed

end
