(* ===== verification/Intr_State.thy ===== *)
theory Intr_State
  imports Cpu_State Bit_Scan
begin

text \<open>
  The state of the interrupt fabric: the two 8259 controllers (src/src/pic.cpp), the I/O
  APIC (src/src/ioapic.cpp), the local APIC (src/src/apic.cpp), the interrupt line and the
  cycle counters of the CPU, and the tick base of src/src/util.cpp. The fixed-size arrays
  of the source are functions from the index; every operation stays below their length.
  An \<open>int\<close> or a \<open>uint8_t\<close> that is only a truth value keeps its width.
\<close>

section \<open>Records\<close>

record pic_controller =
  p_vector_offset :: u8
  p_imr :: u8
  p_irr :: u8
  p_isr :: u8
  p_pin_state :: u8
  p_icw :: "nat \<Rightarrow> u8"
  p_icw_index :: u8
  p_ocw :: "nat \<Rightarrow> u8"
  p_read_isr :: u8
  p_autoeoi :: u8
  p_rotate_on_autoeoi :: u8
  p_priority_base :: u8
  p_in_initialization :: u8
  p_highest :: u8
  p_raised_intr_line :: u8
  p_elcr :: u8

record ioapic_info =
  io_base :: u32
  io_register_selected :: u32
  io_id :: u32
  io_pin_state :: u32
  io_irr :: u32
  io_arbitration_id :: u32
  io_redtbl :: "nat \<Rightarrow> u32"
  io_enabled :: u32
  io_temp_data :: u32

record apic_info =
  a_base :: u32
  a_spurious_interrupt_vector :: u32
  a_lvt :: "nat \<Rightarrow> u32"
  a_isr :: "nat \<Rightarrow> u32"
  a_tmr :: "nat \<Rightarrow> u32"
  a_irr :: "nat \<Rightarrow> u32"
  a_icr :: "nat \<Rightarrow> u32"
  a_id :: u32
  a_error :: u32
  a_cached_error :: u32
  a_timer_divide :: u32
  a_timer_initial_count :: u32
  a_timer_reload_time :: u64
  a_timer_next :: u64
  a_destination_format :: u32
  a_logical_destination :: u32
  a_dest_format_physical :: u32
  a_intr_line_state :: u32
  a_task_priority :: u32
  a_processor_priority :: u32
  a_enabled :: u32
  a_temp_data :: u32

record intr_board =
  b_cpu :: cpu_clk
  b_tick_base :: u64
  b_apic :: apic_info
  b_ioapic :: ioapic_info
  b_pic :: "nat \<Rightarrow> pic_controller"

section \<open>Access to the parts\<close>

definition upd_cpu :: "(cpu_clk \<Rightarrow> cpu_clk) \<Rightarrow> intr_board \<Rightarrow> intr_board" where
  "upd_cpu f b = b\<lparr>b_cpu := f (b_cpu b)\<rparr>"

definition upd_apic :: "(apic_info \<Rightarrow> apic_info) \<Rightarrow> intr_board \<Rightarrow> intr_board" where
  "upd_apic f b = b\<lparr>b_apic := f (b_apic b)\<rparr>"

definition upd_ioapic :: "(ioapic_info \<Rightarrow> ioapic_info) \<Rightarrow> intr_board \<Rightarrow> intr_board" where
  "upd_ioapic f b = b\<lparr>b_ioapic := f (b_ioapic b)\<rparr>"

definition upd_pic :: "nat \<Rightarrow> (pic_controller \<Rightarrow> pic_controller) \<Rightarrow> intr_board \<Rightarrow> intr_board" where
  "upd_pic k f b = b\<lparr>b_pic := (b_pic b)(k := f (b_pic b k))\<rparr>"

lemma upd_parts [simp]:
  "b_cpu (upd_cpu f b) = f (b_cpu b)" "b_apic (upd_cpu f b) = b_apic b"
  "b_ioapic (upd_cpu f b) = b_ioapic b" "b_pic (upd_cpu f b) = b_pic b"
  "b_tick_base (upd_cpu f b) = b_tick_base b"
  "b_cpu (upd_apic g b) = b_cpu b" "b_apic (upd_apic g b) = g (b_apic b)"
  "b_ioapic (upd_apic g b) = b_ioapic b" "b_pic (upd_apic g b) = b_pic b"
  "b_tick_base (upd_apic g b) = b_tick_base b"
  "b_cpu (upd_ioapic h b) = b_cpu b" "b_apic (upd_ioapic h b) = b_apic b"
  "b_ioapic (upd_ioapic h b) = h (b_ioapic b)" "b_pic (upd_ioapic h b) = b_pic b"
  "b_tick_base (upd_ioapic h b) = b_tick_base b"
  "b_cpu (upd_pic k j b) = b_cpu b" "b_apic (upd_pic k j b) = b_apic b"
  "b_ioapic (upd_pic k j b) = b_ioapic b" "b_tick_base (upd_pic k j b) = b_tick_base b"
  "b_pic (upd_pic k j b) i = (if i = k then j (b_pic b k) else b_pic b i)"
  by (simp_all add: upd_cpu_def upd_apic_def upd_ioapic_def upd_pic_def)

lemma upd_twice [simp]:
  "upd_pic k f (upd_pic k g b) = upd_pic k (\<lambda>c. f (g c)) b"
  "upd_cpu p (upd_cpu q b) = upd_cpu (\<lambda>c. p (q c)) b"
  by (simp_all add: upd_pic_def upd_cpu_def)

text \<open>\<open>cpu_raise_intr_line\<close> followed by \<open>cpu_request_fast_return(EXIT_STATUS_IRQ)\<close>.\<close>

definition signal_irq :: "intr_board \<Rightarrow> intr_board" where
  "signal_irq = upd_cpu (\<lambda>c. cpu_request_fast_return 1 (cpu_raise_intr_line c))"

lemma signal_irq_parts [simp]:
  "b_apic (signal_irq b) = b_apic b" "b_ioapic (signal_irq b) = b_ioapic b"
  "b_pic (signal_irq b) = b_pic b" "b_tick_base (signal_irq b) = b_tick_base b"
  "m_intr_line_state (b_cpu (signal_irq b)) = 1"
  "cpu_get_cycles (b_cpu (signal_irq b)) = cpu_get_cycles (b_cpu b)"
  by (simp_all add: signal_irq_def cpu_request_fast_return_def cpu_raise_intr_line_def cpu_get_cycles_def)

text \<open>\<open>get_now\<close> of util.cpp.\<close>

definition get_now :: "intr_board \<Rightarrow> u64" where
  "get_now b = b_tick_base b + cpu_get_cycles (b_cpu b)"


section \<open>A board at power on\<close>

text \<open>The static objects of the source start as zero.\<close>

definition zero_clk :: cpu_clk where
  "zero_clk = \<lparr>m_cycles = 0, m_cycles_to_run = 0, m_refill_counter = 0, m_cycle_offset = 0,
     m_intr_line_state = 0, m_interrupts_blocked = 0, m_exit_reason = 0\<rparr>"

definition zero_pic :: pic_controller where
  "zero_pic = \<lparr>p_vector_offset = 0, p_imr = 0, p_irr = 0, p_isr = 0, p_pin_state = 0, p_icw = (\<lambda>_. 0),
     p_icw_index = 0, p_ocw = (\<lambda>_. 0), p_read_isr = 0, p_autoeoi = 0, p_rotate_on_autoeoi = 0,
     p_priority_base = 0, p_in_initialization = 0, p_highest = 0, p_raised_intr_line = 0, p_elcr = 0\<rparr>"

definition zero_ioapic :: ioapic_info where
  "zero_ioapic = \<lparr>io_base = 0, io_register_selected = 0, io_id = 0, io_pin_state = 0, io_irr = 0,
     io_arbitration_id = 0, io_redtbl = (\<lambda>_. 0), io_enabled = 0, io_temp_data = 0\<rparr>"

definition zero_apic :: apic_info where
  "zero_apic = \<lparr>a_base = 0, a_spurious_interrupt_vector = 0, a_lvt = (\<lambda>_. 0), a_isr = (\<lambda>_. 0),
     a_tmr = (\<lambda>_. 0), a_irr = (\<lambda>_. 0), a_icr = (\<lambda>_. 0), a_id = 0, a_error = 0, a_cached_error = 0,
     a_timer_divide = 0, a_timer_initial_count = 0, a_timer_reload_time = 0, a_timer_next = 0,
     a_destination_format = 0, a_logical_destination = 0, a_dest_format_physical = 0,
     a_intr_line_state = 0, a_task_priority = 0, a_processor_priority = 0, a_enabled = 0,
     a_temp_data = 0\<rparr>"

definition zero_board :: intr_board where
  "zero_board = \<lparr>b_cpu = zero_clk, b_tick_base = 0, b_apic = zero_apic, b_ioapic = zero_ioapic,
     b_pic = (\<lambda>_. zero_pic)\<rparr>"

lemma zero_board_parts [simp]:
  "b_apic zero_board = zero_apic" "b_ioapic zero_board = zero_ioapic" "b_pic zero_board k = zero_pic"
  "b_cpu zero_board = zero_clk" "b_tick_base zero_board = 0"
  by (simp_all add: zero_board_def)

end
