(* ===== verification/Apic.thy ===== *)
theory Apic
  imports Intr_State
begin

text \<open>
  Model of src/src/apic.cpp, the local APIC: request, in-service and trigger-mode bitmaps
  of 256 vectors in eight words, the priority test, interrupt delivery to the CPU, the
  register file and the timer. \<open>None\<close> is \<open>APIC_FATAL\<close>, a C++ operation without a
  defined result (modulo zero), or an index outside the bitmap words.
\<close>

section \<open>Bitmaps of 256 vectors\<close>

definition set_bit256 :: "(nat \<Rightarrow> u32) \<Rightarrow> nat \<Rightarrow> bool \<Rightarrow> nat \<Rightarrow> u32" where
  "set_bit256 ptr bitpos on =
     (let ptr_loc = bitpos div 32 mod 8; bit_loc = bitpos mod 32 in
      ptr(ptr_loc := (if \<not> on then ptr ptr_loc AND NOT (push_bit bit_loc 1)
                      else ptr ptr_loc OR push_bit bit_loc 1)))"

definition get_bit256 :: "(nat \<Rightarrow> u32) \<Rightarrow> nat \<Rightarrow> bool" where
  "get_bit256 ptr k \<longleftrightarrow> ptr (k div 32 mod 8) AND push_bit (k mod 32) 1 \<noteq> 0"

text \<open>The loop from word 7 down: \<open>None\<close> is the result \<open>-1\<close>.\<close>

fun highest_set_bit_from :: "nat \<Rightarrow> (nat \<Rightarrow> u32) \<Rightarrow> nat option" where
  "highest_set_bit_from 0 ptr = None"
| "highest_set_bit_from (Suc i) ptr =
     (if ptr i = 0 then highest_set_bit_from i ptr
      else Some (31 - clz32 (ptr i) + 32 * i))"

definition highest_set_bit :: "(nat \<Rightarrow> u32) \<Rightarrow> nat option" where
  "highest_set_bit ptr = highest_set_bit_from 8 ptr"

definition vector_invalid :: "nat \<Rightarrow> bool" where
  "vector_invalid vector \<longleftrightarrow> \<not> (of_nat vector AND (0xF0 :: u32) \<noteq> 0) \<or> 0xFF \<le> vector"

section \<open>Delivery\<close>

definition apic_send_highest_priority_interrupt :: "intr_board \<Rightarrow> intr_board" where
  "apic_send_highest_priority_interrupt b =
     (if a_intr_line_state (b_apic b) = 1 then b
      else case highest_set_bit (a_irr (b_apic b)) of
        None \<Rightarrow> b
      | Some requested \<Rightarrow>
          if (case highest_set_bit (a_isr (b_apic b)) of None \<Rightarrow> True | Some v \<Rightarrow> v < requested) then
            if of_nat requested AND 0xF0 > a_task_priority (b_apic b) AND 0xF0 then
              signal_irq (upd_apic (\<lambda>a. a\<lparr>a_processor_priority := of_nat requested AND 0xF0,
                                           a_intr_line_state := 1\<rparr>) b)
            else b
          else b)"

definition apic_get_interrupt :: "intr_board \<Rightarrow> (nat \<times> intr_board) option" where
  "apic_get_interrupt b =
     (case highest_set_bit (a_irr (b_apic b)) of
        None \<Rightarrow> None
      | Some v \<Rightarrow>
          let b = upd_apic (\<lambda>a. a\<lparr>a_irr := set_bit256 (a_irr a) v False,
                                  a_isr := set_bit256 (a_isr a) v True,
                                  a_intr_line_state := 0\<rparr>) b
          in Some (v, upd_cpu cpu_lower_intr_line b))"

definition apic_has_interrupt :: "intr_board \<Rightarrow> bool" where
  "apic_has_interrupt b \<longleftrightarrow> a_intr_line_state (b_apic b) \<noteq> 0"

text \<open>The message types are the delivery modes 0 to 7; an unlisted one does nothing.\<close>

definition apic_receive_bus_message :: "nat \<Rightarrow> nat \<Rightarrow> bool \<Rightarrow> intr_board \<Rightarrow> intr_board option" where
  "apic_receive_bus_message vector type trigger_mode b =
     (if type = 5 \<or> type = 4 \<or> type = 2 then None
      else if type = 7 then
        Some (apic_send_highest_priority_interrupt
          (upd_apic (\<lambda>a. a\<lparr>a_irr := set_bit256 (a_irr a) vector True\<rparr>) b))
      else if type = 0 \<or> type = 3 then
        let b = (if vector_invalid vector
                 then upd_apic (\<lambda>a. a\<lparr>a_error := a_error a OR 64\<rparr>) b else b) in
        if get_bit256 (a_irr (b_apic b)) vector then Some b
        else Some (apic_send_highest_priority_interrupt
          (upd_apic (\<lambda>a. a\<lparr>a_irr := set_bit256 (a_irr a) vector True,
                           a_tmr := set_bit256 (a_tmr a) vector trigger_mode\<rparr>) b))
      else Some b)"

definition apic_send_ipi :: "nat \<Rightarrow> nat \<Rightarrow> bool \<Rightarrow> intr_board \<Rightarrow> intr_board option" where
  "apic_send_ipi vector mode trigger b =
     (let b = (if vector_invalid vector
               then upd_apic (\<lambda>a. a\<lparr>a_error := a_error a OR 32\<rparr>) b else b)
      in apic_receive_bus_message vector mode trigger b)"

definition apic_send_ipi2 :: "nat \<Rightarrow> nat \<Rightarrow> bool \<Rightarrow> u32 \<Rightarrow> intr_board \<Rightarrow> intr_board option" where
  "apic_send_ipi2 vector mode trigger destination b =
     (let b = (if vector_invalid vector
               then upd_apic (\<lambda>a. a\<lparr>a_error := a_error a OR 32\<rparr>) b else b)
      in if destination = a_id (b_apic b)
         then apic_receive_bus_message vector mode trigger b else Some b)"

section \<open>Timer\<close>

definition apic_get_clock_divide :: "apic_info \<Rightarrow> nat" where
  "apic_get_clock_divide a =
     unat ((((drop_bit 1 (a_timer_divide a) AND 4) OR (a_timer_divide a AND 3)) + 1) AND 7)"

definition apic_get_count :: "intr_board \<Rightarrow> u32 option" where
  "apic_get_count b =
     (let a = b_apic b in
      if a_timer_initial_count a = 0 then None
      else Some (a_timer_initial_count a -
        drop_bit (apic_get_clock_divide a) (ucast (cpu_get_cycles (b_cpu b) - a_timer_reload_time a) :: u32)
          mod a_timer_initial_count a))"

definition apic_get_period :: "apic_info \<Rightarrow> u64" where
  "apic_get_period a = push_bit (apic_get_clock_divide a) (ucast (a_timer_initial_count a))"

text \<open>\<open>apic_next\<close>: the state and the number of ticks to the next event (\<open>- 1\<close>: none).\<close>

definition apic_next :: "u64 \<Rightarrow> intr_board \<Rightarrow> (u32 \<times> intr_board) option" where
  "apic_next now b =
     (let next = (\<lambda>b. let d = a_timer_next (b_apic b) - now
                       in Some (if d > 0xFFFFFFFF then - 1 else ucast d, b)) in
      if a_enabled (b_apic b) = 0 then Some (- 1, b)
      else if a_timer_initial_count (b_apic b) = 0 then Some (- 1, b)
      else
        let info = drop_bit 16 (a_lvt (b_apic b) 1) in
        if a_timer_next (b_apic b) \<le> now then do {
          let enabled = \<not> bit info 0;
          b \<leftarrow> (if enabled
                then apic_receive_bus_message (unat (a_lvt (b_apic b) 1 AND 0xFF)) 0 False b
                else Some b);
          let mode = drop_bit 1 info AND 3;
          if mode = 2 then None
          else if mode = 1 then
            let b = upd_apic (\<lambda>a. a\<lparr>a_timer_next := a_timer_next a + apic_get_period a\<rparr>) b
            in if enabled then Some (- 1, b) else next b
          else if mode = 0 then
            Some (- 1, upd_apic (\<lambda>a. a\<lparr>a_timer_next := - 1\<rparr>) b)
          else Some (- 1, b)
        }
        else next b)"

section \<open>The register file\<close>

text \<open>Index of the local vector table entry of a register number.\<close>

definition get_lvt_idx :: "u32 \<Rightarrow> nat option" where
  "get_lvt_idx r =
     (if r = 0x2F then Some 0
      else if 0x32 \<le> r \<and> r \<le> 0x37 then Some (unat r - 0x31)
      else None)"

definition apic_read :: "u32 \<Rightarrow> intr_board \<Rightarrow> u32 option" where
  "apic_read addr b =
     (let a = b_apic b; r = drop_bit 4 (addr - a_base a); w = unat (r AND 7) in
      if r = 0x02 then Some (a_id a)
      else if r = 0x03 then Some (0x14 OR push_bit 16 5)
      else if r = 0x08 then Some (a_task_priority a)
      else if r = 0x0B then Some 0
      else if r = 0x0D then Some (a_logical_destination a)
      else if r = 0x0E then Some (a_destination_format a)
      else if r = 0x0F then Some (a_spurious_interrupt_vector a)
      else if 0x10 \<le> r \<and> r \<le> 0x17 then Some (a_isr a w)
      else if 0x18 \<le> r \<and> r \<le> 0x1F then Some (a_tmr a w)
      else if 0x20 \<le> r \<and> r \<le> 0x27 then Some (a_irr a w)
      else if r = 0x28 then Some (a_cached_error a)
      else if r = 0x30 \<or> r = 0x31 then Some (a_icr a (unat (r AND 1)))
      else if r = 0x38 then Some (a_timer_initial_count a)
      else if r = 0x39 then apic_get_count b
      else if r = 0x3E then Some (a_timer_divide a)
      else map_option (a_lvt a) (get_lvt_idx r))"

text \<open>\<open>ioapic_remote_eoi\<close>, which an end of interrupt of a level-triggered vector calls.\<close>

definition ioapic_remote_eoi :: "nat \<Rightarrow> intr_board \<Rightarrow> intr_board" where
  "ioapic_remote_eoi irq b =
     upd_ioapic (\<lambda>io. io\<lparr>io_redtbl := (\<lambda>j.
       if even j \<and> j < 48 \<and> unat (io_redtbl io j AND 0xFF) = irq \<and> io_redtbl io j AND push_bit 14 1 \<noteq> 0
       then io_redtbl io j AND NOT (push_bit 14 1) else io_redtbl io j)\<rparr>) b"

definition apic_write :: "u32 \<Rightarrow> u32 \<Rightarrow> intr_board \<Rightarrow> intr_board option" where
  "apic_write addr data b =
     (let r = drop_bit 4 (addr - a_base (b_apic b)); w = unat (r AND 7) in
      if r = 0x03 then Some (upd_apic (\<lambda>a. a\<lparr>a_error := a_error a OR 128\<rparr>) b)
      else if r = 0x02 then Some (upd_apic (\<lambda>a. a\<lparr>a_id := data\<rparr>) b)
      else if r = 0x08 then
        let b = upd_apic (\<lambda>a. a\<lparr>a_task_priority := data AND 0xFF\<rparr>) b;
            tpr = a_task_priority (b_apic b);
            ppr = (case highest_set_bit (a_isr (b_apic b)) of
                     None \<Rightarrow> tpr
                   | Some v \<Rightarrow> if tpr AND 0xF0 > of_nat v AND 0xF0 then tpr else of_nat v AND 0xF0)
        in Some (apic_send_highest_priority_interrupt
             (upd_apic (\<lambda>a. a\<lparr>a_processor_priority := ppr\<rparr>) b))
      else if r = 0x0B then
        (case highest_set_bit (a_isr (b_apic b)) of
           None \<Rightarrow> Some b
         | Some v \<Rightarrow>
             let b = upd_apic (\<lambda>a. a\<lparr>a_isr := set_bit256 (a_isr a) v False\<rparr>) b;
                 b = (if get_bit256 (a_tmr (b_apic b)) v then ioapic_remote_eoi v b else b)
             in Some (apic_send_highest_priority_interrupt b))
      else if r = 0x0D then Some (upd_apic (\<lambda>a. a\<lparr>a_logical_destination := data AND 0xFF000000\<rparr>) b)
      else if r = 0x0E then
        let b = upd_apic (\<lambda>a. a\<lparr>a_destination_format :=
                  (a_destination_format a AND NOT 0xF0000000) OR (data AND 0xF0000000)\<rparr>) b
        in Some (upd_apic (\<lambda>a. a\<lparr>a_dest_format_physical :=
                  of_bool (a_destination_format a = 0xFFFFFFFF)\<rparr>) b)
      else if r = 0x0F then
        let b = upd_apic (\<lambda>a. a\<lparr>a_spurious_interrupt_vector := data\<rparr>) b
        in if data AND 0x100 \<noteq> 0
           then Some (upd_apic (\<lambda>a. a\<lparr>a_lvt :=
                  (\<lambda>i. if i < 7 then a_lvt a i OR push_bit 16 1 else a_lvt a i)\<rparr>) b)
           else Some b
      else if 0x10 \<le> r \<and> r \<le> 0x17 then Some (upd_apic (\<lambda>a. a\<lparr>a_isr := (a_isr a)(w := data)\<rparr>) b)
      else if 0x18 \<le> r \<and> r \<le> 0x1F then Some (upd_apic (\<lambda>a. a\<lparr>a_tmr := (a_tmr a)(w := data)\<rparr>) b)
      else if 0x20 \<le> r \<and> r \<le> 0x27 then Some (upd_apic (\<lambda>a. a\<lparr>a_irr := (a_irr a)(w := data)\<rparr>) b)
      else if r = 0x28 then Some (upd_apic (\<lambda>a. a\<lparr>a_cached_error := a_error a, a_error := 0\<rparr>) b)
      else if r = 0x30 then
        let b = upd_apic (\<lambda>a. a\<lparr>a_icr := (a_icr a)(0 := data)\<rparr>) b;
            vector = unat (data AND 0xFF);
            delivery_mode = unat (drop_bit 8 data AND 7);
            level = bit data 14; trigger = bit data 15;
            shorthand = drop_bit 18 data AND 3;
            destination = drop_bit 24 (a_icr (b_apic b) 1)
        in if delivery_mode = 5 \<and> \<not> level \<and> trigger then Some b
           else if shorthand = 0 then apic_send_ipi2 vector delivery_mode trigger destination b
           else if shorthand = 1 then apic_send_ipi vector 0 trigger b
           else if shorthand = 2 then apic_send_ipi vector delivery_mode trigger b
           else Some b
      else if r = 0x31 then Some (upd_apic (\<lambda>a. a\<lparr>a_icr := (a_icr a)(1 := data)\<rparr>) b)
      else if r = 0x38 then
        let b = upd_apic (\<lambda>a. a\<lparr>a_timer_initial_count := data, a_timer_reload_time := get_now b\<rparr>) b;
            b = upd_apic (\<lambda>a. a\<lparr>a_timer_next := a_timer_reload_time a + apic_get_period a\<rparr>) b
        in Some (upd_cpu (cpu_cancel_execution_cycle 0) b)
      else if r = 0x39 then Some b
      else if r = 0x3E then
        Some (upd_cpu (cpu_cancel_execution_cycle 0) (upd_apic (\<lambda>a. a\<lparr>a_timer_divide := data\<rparr>) b))
      else case get_lvt_idx r of
        None \<Rightarrow> None
      | Some i \<Rightarrow> Some (upd_apic (\<lambda>a. a\<lparr>a_lvt := (a_lvt a)(i := data)\<rparr>) b))"

text \<open>Byte accesses: reads select a byte, writes collect four bytes before they act.\<close>

definition apic_readb :: "u32 \<Rightarrow> intr_board \<Rightarrow> u32 option" where
  "apic_readb addr b =
     map_option (\<lambda>v. drop_bit (8 * unat (addr AND 3)) v AND 0xFF) (apic_read (addr AND NOT 3) b)"

definition apic_writeb :: "u32 \<Rightarrow> u32 \<Rightarrow> intr_board \<Rightarrow> intr_board option" where
  "apic_writeb addr data b =
     (let offset = unat (addr AND 3);
          b = upd_apic (\<lambda>a. a\<lparr>a_temp_data :=
                (a_temp_data a AND NOT (push_bit (8 * offset) 0xFF)) OR push_bit (8 * offset) data\<rparr>) b
      in if offset = 3 then apic_write (addr AND NOT 3) (a_temp_data (b_apic b)) b else Some b)"

definition apic_reset :: "intr_board \<Rightarrow> intr_board" where
  "apic_reset b =
     upd_apic (\<lambda>a. a\<lparr>a_spurious_interrupt_vector := 0xFF, a_base := 0xFEE00000, a_id := 0, a_error := 0,
                     a_destination_format := - 1, a_dest_format_physical := 1,
                     a_lvt := (\<lambda>i. if i < 7 then push_bit 16 1 else a_lvt a i)\<rparr>) b"

text \<open>The start-up; the registrations it makes are calls of \<open>Io_Bus\<close>, whose table is not part of the board.\<close>

definition apic_init :: "u32 \<Rightarrow> intr_board \<Rightarrow> intr_board" where
  "apic_init apic_enabled b = upd_apic (\<lambda>a. a\<lparr>a_enabled := apic_enabled\<rparr>) b"

definition apic_is_enabled :: "intr_board \<Rightarrow> bool" where
  "apic_is_enabled b \<longleftrightarrow> a_enabled (b_apic b) \<noteq> 0"

end
