(* ===== verification/Pic_Fabric.thy ===== *)
theory Pic_Fabric
  imports Apic
begin

text \<open>
  Model of src/src/pic.cpp (the cascaded 8259 pair) and src/src/ioapic.cpp, which call each
  other: raising a line goes to the I/O APIC and to the controller of the line; an I/O APIC
  entry with delivery mode ExtINT acknowledges the 8259; the slave controller signals
  through line 2 of the master. Controller 0 is the master. The call graph is stratified
  (local APIC, acknowledge, I/O APIC, master, slave), so each level is a definition over the
  levels below it.
\<close>

section \<open>Acknowledging the 8259\<close>

definition rol :: "u8 \<Rightarrow> u8 \<Rightarrow> u8" where
  "rol value priority_base =
     (let count = unat (priority_base XOR 7); v = ucast value :: u32
      in ucast (push_bit count v OR drop_bit (8 - count) v))"

function pic_internal_get_interrupt :: "nat \<Rightarrow> intr_board \<Rightarrow> u8 \<times> intr_board" where
  "pic_internal_get_interrupt k b =
     (let c = b_pic b k; irq = p_highest c; irq_mask = push_bit (unat irq) (1 :: u32) in
      if ucast (p_irr c) AND irq_mask = 0 then (p_vector_offset c OR 7, b)
      else
        let b = upd_pic k (\<lambda>c. c\<lparr>p_irr := p_irr c XOR ucast irq_mask\<rparr>) b;
            b = (if p_autoeoi c \<noteq> 0
                 then (if p_rotate_on_autoeoi c \<noteq> 0
                       then upd_pic k (\<lambda>c. c\<lparr>p_priority_base := irq\<rparr>) b else b)
                 else upd_pic k (\<lambda>c. c\<lparr>p_isr := p_isr c OR ucast irq_mask\<rparr>) b)
        in if k = 0 \<and> irq = 2 then pic_internal_get_interrupt 1 b
           else (p_vector_offset c + irq, b))"
  by pat_completeness auto
termination
  by (relation "measure (\<lambda>(k, b). 1 - k)") auto

declare pic_internal_get_interrupt.simps [simp del]

definition pic_get_interrupt :: "intr_board \<Rightarrow> (u8 \<times> intr_board) option" where
  "pic_get_interrupt b =
     (if apic_has_interrupt b then map_option (\<lambda>(v, b). (of_nat v, b)) (apic_get_interrupt b)
      else Some (pic_internal_get_interrupt 0 (upd_cpu cpu_lower_intr_line b)))"

section \<open>The I/O APIC\<close>

definition ioapic_entry :: "nat \<Rightarrow> intr_board \<Rightarrow> intr_board option" where
  "ioapic_entry i b =
     (let lo = io_redtbl (b_ioapic b) (2 * i); level = bit lo 15 in
      if \<not> bit lo 16 \<and> bit (io_irr (b_ioapic b)) i then do {
        let b = (if \<not> level
                 then upd_ioapic (\<lambda>io. io\<lparr>io_irr := io_irr io AND NOT (push_bit i 1)\<rparr>) b else b);
        let type = unat (drop_bit 8 lo AND 7);
        if type = 1 then apic_receive_bus_message (unat (lo AND 0xFF)) 3 level b
        else if type = 7 then do {
          (v, b) \<leftarrow> pic_get_interrupt b;
          apic_receive_bus_message (unat v) type level b
        }
        else apic_receive_bus_message (unat (lo AND 0xFF)) type level b
      }
      else Some b)"

fun ioapic_entries :: "nat list \<Rightarrow> intr_board \<Rightarrow> intr_board option" where
  "ioapic_entries [] b = Some b"
| "ioapic_entries (i # is) b = do { b \<leftarrow> ioapic_entry i b; ioapic_entries is b }"

definition ioapic_update :: "intr_board \<Rightarrow> intr_board option" where
  "ioapic_update b = ioapic_entries [0..<24] b"

definition ioapic_read :: "u32 \<Rightarrow> intr_board \<Rightarrow> u32" where
  "ioapic_read addr b =
     (let io = b_ioapic b; r = drop_bit 4 (addr - io_base io); sel = io_register_selected io AND 0xFF in
      if r = 0 then io_register_selected io
      else if r = 1 then
        (if sel = 0 then push_bit 24 (io_id io)
         else if sel = 1 then 0x11 OR push_bit 16 0x17
         else if sel = 2 then io_arbitration_id io
         else if 0x10 \<le> sel \<and> sel \<le> 0x3F then io_redtbl io (unat sel - 0x10)
         else 0)
      else 0)"

definition ioapic_write :: "u32 \<Rightarrow> u32 \<Rightarrow> intr_board \<Rightarrow> intr_board option" where
  "ioapic_write addr data b =
     (let io = b_ioapic b; r = drop_bit 4 (addr - io_base io); sel = io_register_selected io AND 0xFF in
      if r = 0 then Some (upd_ioapic (\<lambda>io. io\<lparr>io_register_selected := data\<rparr>) b)
      else if r = 1 then
        (if sel = 0 then Some (upd_ioapic (\<lambda>io. io\<lparr>io_id := data AND 0x0F000000\<rparr>) b)
         else if 0x10 \<le> sel \<and> sel \<le> 0x3F then
           let idx = unat sel - 0x10 in
           if data \<noteq> io_redtbl io idx
           then ioapic_update (upd_ioapic (\<lambda>io. io\<lparr>io_redtbl := (io_redtbl io)(idx := data)\<rparr>) b)
           else Some b
         else Some b)
      else None)"

definition ioapic_readb :: "u32 \<Rightarrow> intr_board \<Rightarrow> u32" where
  "ioapic_readb addr b =
     drop_bit (8 * unat (addr AND 3)) (ioapic_read (addr AND NOT 3) b) AND 0xFF"

definition ioapic_writeb :: "u32 \<Rightarrow> u32 \<Rightarrow> intr_board \<Rightarrow> intr_board option" where
  "ioapic_writeb addr data b =
     (let offset = unat (addr AND 3);
          b = upd_ioapic (\<lambda>io. io\<lparr>io_temp_data :=
                (io_temp_data io AND NOT (push_bit (8 * offset) 0xFF)) OR push_bit (8 * offset) data\<rparr>) b
      in if offset = 3 then ioapic_write (addr AND NOT 3) (io_temp_data (b_ioapic b)) b else Some b)"

definition ioapic_reset :: "intr_board \<Rightarrow> intr_board" where
  "ioapic_reset b =
     upd_ioapic (\<lambda>io. io\<lparr>io_base := 0xFEC00000, io_id := 0, io_arbitration_id := 0,
       io_redtbl := (\<lambda>j. if even j \<and> j < 48 then push_bit 16 1 else io_redtbl io j)\<rparr>) b"

definition ioapic_init :: "u32 \<Rightarrow> intr_board \<Rightarrow> intr_board" where
  "ioapic_init apic_enabled b =
     (if apic_enabled = 0 then b else upd_ioapic (\<lambda>io. io\<lparr>io_enabled := 1, io_base := 0xFEC00000\<rparr>) b)"

definition ioapic_raise_irq :: "nat \<Rightarrow> intr_board \<Rightarrow> intr_board option" where
  "ioapic_raise_irq line b =
     (if io_enabled (b_ioapic b) = 0 then Some b
      else
        let line = (if line = 0 then 2 else line); j = 2 * line; pin = push_bit line 1;
            b = upd_ioapic (\<lambda>io. io\<lparr>io_redtbl := (io_redtbl io)(j := io_redtbl io j OR push_bit 13 1)\<rparr>) b;
            lower = io_redtbl (b_ioapic b) j
        in if bit lower 15 then
             if bit lower 14 then Some b
             else ioapic_update (upd_ioapic (\<lambda>io. io\<lparr>
                    io_redtbl := (io_redtbl io)(j := io_redtbl io j OR push_bit 14 1),
                    io_pin_state := io_pin_state io OR pin, io_irr := io_irr io OR pin\<rparr>) b)
           else if io_pin_state (b_ioapic b) AND pin = 0 then
             ioapic_update (upd_ioapic (\<lambda>io. io\<lparr>
                    io_irr := io_irr io OR pin, io_pin_state := io_pin_state io OR pin\<rparr>) b)
           else Some b)"

definition ioapic_lower_irq :: "nat \<Rightarrow> intr_board \<Rightarrow> intr_board" where
  "ioapic_lower_irq line b =
     (if io_enabled (b_ioapic b) = 0 then b
      else
        let line = (if line = 0 then 2 else line); j = 2 * line; pin = push_bit line 1 :: u32;
            b = upd_ioapic (\<lambda>io. io\<lparr>io_pin_state := io_pin_state io AND NOT pin,
                  io_redtbl := (io_redtbl io)(j := io_redtbl io j AND NOT (push_bit 13 1))\<rparr>) b
        in if bit (io_redtbl (b_ioapic b) j) 15
           then upd_ioapic (\<lambda>io. io\<lparr>io_irr := io_irr io AND NOT pin\<rparr>) b else b)"

section \<open>Priority resolution and the request lines\<close>

text \<open>
  The scan over the rotated request bits, position 0 being the highest priority. In the
  ordinary mode an interrupt in service at a position stops the scan; in the special mask
  mode the caller has removed the requests that are in service.
\<close>

fun pic_scan :: "bool \<Rightarrow> u8 \<Rightarrow> u8 \<Rightarrow> nat list \<Rightarrow> nat option" where
  "pic_scan special unmasked isr [] = None"
| "pic_scan special unmasked isr (i # is) =
     (if \<not> special \<and> bit isr i then None
      else if bit unmasked i then Some i
      else pic_scan special unmasked isr is)"

definition pic_select :: "pic_controller \<Rightarrow> u8 option" where
  "pic_select c =
     (let unmasked = p_irr c AND NOT (p_imr c) in
      if unmasked = 0 then None
      else
        let unmasked = rol unmasked (p_priority_base c);
            isr = rol (p_isr c) (p_priority_base c);
            special = (p_ocw c 3 AND 0x60 = 0x60);
            unmasked = (if special then unmasked AND NOT isr else unmasked)
        in map_option (\<lambda>i. (p_priority_base c + 1 + of_nat i) AND 7)
             (pic_scan special unmasked isr [0..<8]))"

definition pic_internal_update ::
  "(intr_board \<Rightarrow> intr_board option) \<Rightarrow> nat \<Rightarrow> intr_board \<Rightarrow> intr_board option" where
  "pic_internal_update notify k b =
     (case pic_select (b_pic b k) of
        None \<Rightarrow> Some b
      | Some irq \<Rightarrow> notify (upd_pic k (\<lambda>c. c\<lparr>p_highest := irq\<rparr>) b))"

definition pic_internal_raise_irq ::
  "(intr_board \<Rightarrow> intr_board option) \<Rightarrow> nat \<Rightarrow> nat \<Rightarrow> intr_board \<Rightarrow> intr_board option" where
  "pic_internal_raise_irq update k irq b =
     (let mask = push_bit irq 1 :: u8 in
      if p_pin_state (b_pic b k) AND mask = 0 then
        update (upd_pic k (\<lambda>c. c\<lparr>p_pin_state := p_pin_state c OR mask, p_irr := p_irr c OR mask\<rparr>) b)
      else Some b)"

definition pic_drop_irq :: "nat \<Rightarrow> nat \<Rightarrow> intr_board \<Rightarrow> intr_board" where
  "pic_drop_irq k irq b =
     (let mask = push_bit irq 1 :: u8 in
      upd_pic k (\<lambda>c. c\<lparr>p_irr := p_irr c AND NOT mask, p_pin_state := p_pin_state c AND NOT mask\<rparr>) b)"

text \<open>The master level.\<close>

definition pic_update_master :: "intr_board \<Rightarrow> intr_board option" where
  "pic_update_master = pic_internal_update (\<lambda>b. Some (signal_irq b)) 0"

definition pic_raise_master :: "nat \<Rightarrow> intr_board \<Rightarrow> intr_board option" where
  "pic_raise_master irq b = do {
     b \<leftarrow> ioapic_raise_irq irq b;
     pic_internal_raise_irq pic_update_master 0 irq b
   }"

definition pic_lower_master :: "nat \<Rightarrow> intr_board \<Rightarrow> intr_board" where
  "pic_lower_master irq b = pic_drop_irq 0 irq (ioapic_lower_irq irq b)"

text \<open>The slave level: it signals by a pulse on line 2 of the master.\<close>

definition pic_update_slave :: "intr_board \<Rightarrow> intr_board option" where
  "pic_update_slave = pic_internal_update (\<lambda>b. pic_raise_master 2 (pic_lower_master 2 b)) 1"

definition pic_update :: "nat \<Rightarrow> intr_board \<Rightarrow> intr_board option" where
  "pic_update k = (if k = 0 then pic_update_master else pic_update_slave)"

definition pic_raise_irq :: "nat \<Rightarrow> intr_board \<Rightarrow> intr_board option" where
  "pic_raise_irq a b = do {
     b \<leftarrow> ioapic_raise_irq a b;
     let k = (if a > 7 then 1 else 0);
     pic_internal_raise_irq (pic_update k) k (a mod 8) b
   }"

definition pic_internal_lower_irq :: "nat \<Rightarrow> nat \<Rightarrow> intr_board \<Rightarrow> intr_board" where
  "pic_internal_lower_irq k irq b =
     (let b = pic_drop_irq k irq b in
      if k \<noteq> 0 \<and> p_irr (b_pic b k) = 0 then pic_lower_master 2 b else b)"

definition pic_lower_irq :: "nat \<Rightarrow> intr_board \<Rightarrow> intr_board" where
  "pic_lower_irq a b = pic_internal_lower_irq (if a > 7 then 1 else 0) (a mod 8) (ioapic_lower_irq a b)"

section \<open>The command and data ports of the 8259\<close>

definition pic_clear_specific :: "nat \<Rightarrow> pic_controller \<Rightarrow> pic_controller" where
  "pic_clear_specific irq c = c\<lparr>p_isr := p_isr c AND NOT (push_bit irq 1)\<rparr>"

definition pic_set_priority :: "nat \<Rightarrow> pic_controller \<Rightarrow> pic_controller" where
  "pic_set_priority irq c = c\<lparr>p_priority_base := of_nat irq\<rparr>"

fun pic_clear_first :: "nat list \<Rightarrow> u8 \<Rightarrow> pic_controller \<Rightarrow> pic_controller" where
  "pic_clear_first [] highest c = c"
| "pic_clear_first (i # is) highest c =
     (let mask = push_bit (unat ((highest + of_nat i) AND 7)) 1 :: u8 in
      if p_isr c AND mask \<noteq> 0 then c\<lparr>p_isr := p_isr c XOR mask\<rparr>
      else pic_clear_first is highest c)"

definition pic_clear_highest_priority :: "pic_controller \<Rightarrow> pic_controller" where
  "pic_clear_highest_priority c = pic_clear_first [0..<8] ((p_priority_base c + 1) AND 7) c"

definition pic_write_icw :: "nat \<Rightarrow> u8 \<Rightarrow> pic_controller \<Rightarrow> pic_controller" where
  "pic_write_icw icw value c =
     (let c =
        (if icw = 1 then
           c\<lparr>p_icw_index := 2, p_icw := (p_icw c)(1 := value), p_imr := 0, p_isr := 0, p_irr := 0,
             p_priority_base := 7\<rparr>
         else if icw = 2 then
           c\<lparr>p_vector_offset := value AND NOT 7, p_icw := (p_icw c)(2 := value),
             p_icw_index := (if p_icw c 1 AND 2 \<noteq> 0 then (if p_icw c 1 AND 1 \<noteq> 0 then 4 else 5) else 3)\<rparr>
         else if icw = 3 then
           c\<lparr>p_icw := (p_icw c)(3 := value), p_icw_index := 5 XOR (p_icw c 1 AND 1)\<rparr>
         else if icw = 4 then
           c\<lparr>p_icw := (p_icw c)(4 := value), p_autoeoi := value AND 2, p_icw_index := 5\<rparr>
         else c)
      in c\<lparr>p_in_initialization := of_bool (p_icw_index c \<noteq> 5)\<rparr>)"

definition pic_write_ocw :: "nat \<Rightarrow> nat \<Rightarrow> u32 \<Rightarrow> intr_board \<Rightarrow> intr_board option" where
  "pic_write_ocw k index data b =
     (let b = upd_pic k (\<lambda>c. c\<lparr>p_ocw := (p_ocw c)(index := ucast data)\<rparr>) b in
      if index = 1 then pic_update k (upd_pic k (\<lambda>c. c\<lparr>p_imr := ucast data\<rparr>) b)
      else if index = 2 then
        let rotate = bit data 7; specific = bit data 6; eoi = bit data 5; l = unat (data AND 7);
            rotated = (\<lambda>c. if rotate then pic_set_priority l c else c)
        in if eoi then
             pic_update k (upd_pic k (\<lambda>c. rotated
               (if specific then pic_clear_specific l c else pic_clear_highest_priority c)) b)
           else if specific then Some (upd_pic k rotated b)
           else Some (upd_pic k (\<lambda>c. c\<lparr>p_rotate_on_autoeoi := of_bool rotate\<rparr>) b)
      else if index = 3 then
        Some (if bit data 1 then upd_pic k (\<lambda>c. c\<lparr>p_read_isr := ucast (data AND 1)\<rparr>) b else b)
      else Some b)"

definition pic_writeb :: "u32 \<Rightarrow> u32 \<Rightarrow> intr_board \<Rightarrow> intr_board option" where
  "pic_writeb addr data b =
     (let k = (if bit addr 7 then 1 else 0); sel = drop_bit 3 data AND 3 in
      if addr AND 1 = 0 then
        if sel = 0 then pic_write_ocw k 2 data b
        else if sel = 1 then pic_write_ocw k 3 data b
        else
          let b = upd_pic k (\<lambda>c. c\<lparr>p_in_initialization := 1, p_imr := 0, p_isr := 0, p_irr := 0,
                    p_priority_base := 7, p_autoeoi := 0, p_rotate_on_autoeoi := 0\<rparr>) b;
              b = upd_cpu cpu_lower_intr_line b
          in Some (upd_pic k (pic_write_icw 1 (ucast data)) b)
      else if p_in_initialization (b_pic b k) \<noteq> 0
      then Some (upd_pic k (\<lambda>c. pic_write_icw (unat (p_icw_index c)) (ucast data) c) b)
      else pic_write_ocw k 1 data b)"

definition pic_readb :: "u32 \<Rightarrow> intr_board \<Rightarrow> u32" where
  "pic_readb port b =
     (let c = b_pic b (if bit port 7 then 1 else 0) in
      if port AND 1 \<noteq> 0 then ucast (p_imr c)
      else if p_read_isr c \<noteq> 0 then ucast (p_isr c) else ucast (p_irr c))"

definition pic_elcr_write :: "u32 \<Rightarrow> u32 \<Rightarrow> intr_board \<Rightarrow> intr_board" where
  "pic_elcr_write addr data b = upd_pic (unat (addr AND 1)) (\<lambda>c. c\<lparr>p_elcr := ucast data\<rparr>) b"

definition pic_elcr_read :: "u32 \<Rightarrow> intr_board \<Rightarrow> u32" where
  "pic_elcr_read addr b = ucast (p_elcr (b_pic b (unat (addr AND 1))))"

definition pic_reset :: "intr_board \<Rightarrow> intr_board" where
  "pic_reset b =
     b\<lparr>b_pic := (\<lambda>k. if k < 2 then (b_pic b k)\<lparr>p_vector_offset := 0, p_imr := 0xFF, p_irr := 0, p_isr := 0,
         p_in_initialization := 0, p_read_isr := 0, p_elcr := 0\<rparr> else b_pic b k)\<rparr>"

end
