(* ===== verification/Apic_Laws.thy ===== *)
theory Apic_Laws
  imports Pic_Fabric
begin

text \<open>
  Laws of the local APIC model: the vector bitmaps implement sets of vectors with a
  maximum (locale \<open>vector_map\<close>), a fixed message requests exactly its vector and
  raises the line exactly when the priority test passes, and an acknowledge followed by an
  end of interrupt restores the set of vectors in service.
\<close>

section \<open>The vector bitmaps\<close>

text \<open>
  A bitmap of vectors: reading back, and the highest member. The clients are the two moves
  of a vector, from requested to in service and out of service.
\<close>

locale vector_map =
  fixes get :: "'m \<Rightarrow> nat \<Rightarrow> bool" and set :: "'m \<Rightarrow> nat \<Rightarrow> bool \<Rightarrow> 'm"
    and highest :: "'m \<Rightarrow> nat option" and bound :: nat
  assumes get_set: "i < bound \<Longrightarrow> j < bound \<Longrightarrow> get (set m j on) i = (if i = j then on else get m i)"
    and highest_Some: "highest m = Some v \<longleftrightarrow> v < bound \<and> get m v \<and> (\<forall>u. v < u \<and> u < bound \<longrightarrow> \<not> get m u)"
begin

lemma highest_None: "highest m = None \<longleftrightarrow> (\<forall>v < bound. \<not> get m v)"
proof
  assume n: "highest m = None"
  show "\<forall>v < bound. \<not> get m v"
  proof (rule ccontr)
    assume "\<not> (\<forall>v < bound. \<not> get m v)"
    then have ne: "{v. v < bound \<and> get m v} \<noteq> {}" by auto
    have fin: "finite {v. v < bound \<and> get m v}" by auto
    define w where "w = Max {v. v < bound \<and> get m v}"
    have "w \<in> {v. v < bound \<and> get m v}" unfolding w_def by (rule Max_in [OF fin ne])
    moreover have "u \<le> w" if "u < bound" "get m u" for u
      unfolding w_def using that by (intro Max_ge [OF fin]) auto
    ultimately have "highest m = Some w" by (force simp: highest_Some)
    then show False using n by simp
  qed
next
  assume "\<forall>v < bound. \<not> get m v"
  then show "highest m = None"
    using highest_Some [of m] by (cases "highest m") auto
qed

lemma highest_insert:
  assumes "v < bound" "case highest m of None \<Rightarrow> True | Some u \<Rightarrow> u < v"
  shows "highest (set m v True) = Some v"
proof -
  have above: "\<not> get m u" if "v < u" "u < bound" for u
  proof (cases "highest m")
    case None then show ?thesis using highest_None [of m] that by blast
  next
    case (Some w)
    then have "w < v" using assms(2) by simp
    then show ?thesis using Some that by (auto simp: highest_Some)
  qed
  then show ?thesis using assms(1) by (auto simp: highest_Some get_set)
qed

lemma insert_remove_get:
  assumes "v < bound" "\<not> get m v" "i < bound"
  shows "get (set (set m v True) v False) i = get m i"
  using assms by (auto simp: get_set)

lemma highest_cong:
  assumes "\<And>i. i < bound \<Longrightarrow> get m i = get n i"
  shows "highest m = highest n"
proof (cases "highest n")
  case None
  then have "\<forall>v < bound. \<not> get m v" using assms by (simp add: highest_None)
  then have "highest m = None" by (simp only: highest_None)
  then show ?thesis using None by simp
next
  case (Some v)
  then have "highest m = Some v" using assms by (auto simp: highest_Some)
  then show ?thesis using Some by simp
qed

end

lemma and_pow_nz: "x AND push_bit k 1 \<noteq> 0 \<longleftrightarrow> k < 32 \<and> bit x k" for x :: u32
proof -
  have "x AND push_bit k 1 = 0 \<longleftrightarrow> (\<forall>i<32. \<not> bit (x AND push_bit k 1) i)"
    by (auto simp: bit_eq_iff)
  also have "\<dots> \<longleftrightarrow> \<not> (k < 32 \<and> bit x k)"
    by (auto simp: bit_and_iff bit_exp_iff dest: bit_imp_le_length)
  finally show ?thesis by blast
qed

lemma get_bit256_bit: "get_bit256 ptr k \<longleftrightarrow> bit (ptr (k div 32 mod 8)) (k mod 32)"
  using and_pow_nz [of "ptr (k div 32 mod 8)" "k mod 32"] by (simp add: get_bit256_def)

lemma get_set_bit256:
  assumes "i < 256" "j < 256"
  shows "get_bit256 (set_bit256 m j v) i = (if i = j then v else get_bit256 m i)"
proof -
  have w: "i div 32 mod 8 = i div 32" "j div 32 mod 8 = j div 32" using assms by auto
  have e: "i div 32 = j div 32 \<Longrightarrow> i \<noteq> j \<Longrightarrow> i mod 32 \<noteq> j mod 32" by (metis div_mult_mod_eq)
  have b: "bit (x OR 2 ^ (j mod 32)) n \<longleftrightarrow> bit x n \<or> n = j mod 32"
      "bit (x AND NOT (2 ^ (j mod 32))) n \<longleftrightarrow> bit x n \<and> n \<noteq> j mod 32"
    if "n < 32" for x :: u32 and n
    using that by (auto simp: bit_or_iff bit_and_iff bit_not_iff bit_exp_iff)
  show ?thesis
    using e by (auto simp: get_bit256_bit set_bit256_def Let_def w b)
qed

lemma highest_from_Some:
  "n \<le> 8 \<Longrightarrow> highest_set_bit_from n ptr = Some v \<longleftrightarrow>
     v < 32 * n \<and> get_bit256 ptr v \<and> (\<forall>u. v < u \<and> u < 32 * n \<longrightarrow> \<not> get_bit256 ptr u)"
proof (induction n arbitrary: v)
  case (Suc n)
  have top: "get_bit256 ptr u \<longleftrightarrow> bit (ptr n) (u - 32 * n)" if "32 * n \<le> u" "u < 32 * Suc n" for u
  proof -
    have "u div 32 = n" using that by (intro div_nat_eqI) auto
    moreover have "u mod 32 = u - 32 * n" using that by (metis calculation minus_mult_div_eq_mod)
    ultimately show ?thesis using Suc.prems by (simp add: get_bit256_bit)
  qed
  show ?case
  proof (cases "ptr n = 0")
    case True
    then have z: "\<not> get_bit256 ptr u" if "32 * n \<le> u" "u < 32 * Suc n" for u
      using top [OF that] by simp
    have "v < 32 * Suc n \<and> get_bit256 ptr v \<Longrightarrow> v < 32 * n"
      using z [of v] by (meson not_less)
    moreover have "u < 32 * Suc n \<Longrightarrow> get_bit256 ptr u \<Longrightarrow> u < 32 * n" for u
      using z [of u] by (meson not_less)
    ultimately show ?thesis using Suc True by auto
  next
    case False
    define w where "w = 31 - clz32 (ptr n)"
    have w: "w < 32" "bit (ptr n) w" "w < i \<Longrightarrow> \<not> bit (ptr n) i" for i
      using clz32_highest [OF False] by (auto simp: w_def)
    have hw: "get_bit256 ptr (32 * n + w)" using top [of "32 * n + w"] w by simp
    have up: "\<not> get_bit256 ptr u" if "32 * n + w < u" "u < 32 * Suc n" for u
      using top [of u] w(3) [of "u - 32 * n"] that by auto
    have "v = w + 32 * n \<longleftrightarrow> v < 32 * Suc n \<and> get_bit256 ptr v \<and>
        (\<forall>u. v < u \<and> u < 32 * Suc n \<longrightarrow> \<not> get_bit256 ptr u)" (is "?a \<longleftrightarrow> ?b")
    proof
      assume ?a then show ?b using hw up w(1) by (auto simp: add.commute)
    next
      assume b: ?b
      have "\<not> v < 32 * n + w" using b hw w(1) by auto
      moreover have "\<not> 32 * n + w < v" using b up [of v] by auto
      ultimately show ?a by simp
    qed
    then show ?thesis using False by (auto simp: w_def)
  qed
qed simp

lemma highest_set_bit_Some:
  "highest_set_bit m = Some v \<longleftrightarrow> v < 256 \<and> get_bit256 m v \<and> (\<forall>u. v < u \<and> u < 256 \<longrightarrow> \<not> get_bit256 m u)"
  using highest_from_Some [of 8 m v] by (simp add: highest_set_bit_def)

interpretation vectors: vector_map get_bit256 set_bit256 highest_set_bit 256
  by unfold_locales (simp_all only: get_set_bit256 highest_set_bit_Some)


text \<open>The set operations with their numeral bound, in the form the components use.\<close>

lemmas vector_laws = vectors.highest_None vectors.highest_insert vectors.insert_remove_get

definition in_service :: "intr_board \<Rightarrow> nat \<Rightarrow> bool" where
  "in_service b v \<longleftrightarrow> get_bit256 (a_isr (b_apic b)) v"

definition requested :: "intr_board \<Rightarrow> nat \<Rightarrow> bool" where
  "requested b v \<longleftrightarrow> get_bit256 (a_irr (b_apic b)) v"

section \<open>Sending touches only the line and the processor priority\<close>

lemma send_frame [simp]:
  "a_irr (b_apic (apic_send_highest_priority_interrupt b)) = a_irr (b_apic b)"
  "a_isr (b_apic (apic_send_highest_priority_interrupt b)) = a_isr (b_apic b)"
  "a_tmr (b_apic (apic_send_highest_priority_interrupt b)) = a_tmr (b_apic b)"
  "a_base (b_apic (apic_send_highest_priority_interrupt b)) = a_base (b_apic b)"
  "a_task_priority (b_apic (apic_send_highest_priority_interrupt b)) = a_task_priority (b_apic b)"
  "b_ioapic (apic_send_highest_priority_interrupt b) = b_ioapic b"
  "b_pic (apic_send_highest_priority_interrupt b) = b_pic b"
  by (simp_all add: apic_send_highest_priority_interrupt_def split: option.split)

lemma in_service_send [simp]:
  "in_service (apic_send_highest_priority_interrupt b) v = in_service b v"
  "requested (apic_send_highest_priority_interrupt b) v = requested b v"
  by (simp_all add: in_service_def requested_def)

text \<open>
  The priority test: the best request must be above everything in service and its class
  (the high four bits) above the task priority class.
\<close>

definition passes :: "intr_board \<Rightarrow> nat \<Rightarrow> bool" where
  "passes b v \<longleftrightarrow> (\<forall>u < 256. in_service b u \<longrightarrow> u < v) \<and>
     a_task_priority (b_apic b) AND 0xF0 < of_nat v AND 0xF0"

lemma send_line:
  assumes "highest_set_bit (a_irr (b_apic b)) = Some v" "a_intr_line_state (b_apic b) \<noteq> 1"
  shows "a_intr_line_state (b_apic (apic_send_highest_priority_interrupt b)) =
      (if passes b v then 1 else a_intr_line_state (b_apic b))"
    "passes b v \<Longrightarrow> m_intr_line_state (b_cpu (apic_send_highest_priority_interrupt b)) = 1"
    "\<not> passes b v \<Longrightarrow> apic_send_highest_priority_interrupt b = b"
proof -
  have t: "(case highest_set_bit (a_isr (b_apic b)) of None \<Rightarrow> True | Some u \<Rightarrow> u < v) \<longleftrightarrow>
      (\<forall>u < 256. in_service b u \<longrightarrow> u < v)"
  proof (cases "highest_set_bit (a_isr (b_apic b))")
    case None
    then have "\<forall>u < 256. \<not> in_service b u" by (simp only: in_service_def vectors.highest_None not_False_eq_True)
    then show ?thesis using None by simp
  next
    case (Some w)
    then have w: "w < 256" "in_service b w" "\<And>u. w < u \<Longrightarrow> u < 256 \<Longrightarrow> \<not> in_service b u"
      by (auto simp: in_service_def vectors.highest_Some)
    have "w < v \<Longrightarrow> u < 256 \<Longrightarrow> in_service b u \<Longrightarrow> u < v" for u
      using w(3) [of u] by (meson less_le_trans not_less le_less_trans)
    then show ?thesis using Some w(1,2) by auto
  qed
  have e: "apic_send_highest_priority_interrupt b =
      (if passes b v then signal_irq (upd_apic (\<lambda>a. a\<lparr>a_processor_priority := of_nat v AND 0xF0,
          a_intr_line_state := 1\<rparr>) b) else b)"
    unfolding apic_send_highest_priority_interrupt_def
    using assms by (auto simp only: t passes_def option.case if_False if_True refl split: if_splits)
  show "a_intr_line_state (b_apic (apic_send_highest_priority_interrupt b)) =
      (if passes b v then 1 else a_intr_line_state (b_apic b))"
    "passes b v \<Longrightarrow> m_intr_line_state (b_cpu (apic_send_highest_priority_interrupt b)) = 1"
    "\<not> passes b v \<Longrightarrow> apic_send_highest_priority_interrupt b = b"
    by (simp_all add: e)
qed

section \<open>Acknowledge and end of interrupt\<close>

lemma acknowledge:
  assumes "apic_get_interrupt b = Some (v, b')"
  shows "v < 256" "requested b v" "\<And>u. v < u \<Longrightarrow> u < 256 \<Longrightarrow> \<not> requested b u"
    "\<And>u. u < 256 \<Longrightarrow> requested b' u \<longleftrightarrow> requested b u \<and> u \<noteq> v"
    "\<And>u. u < 256 \<Longrightarrow> in_service b' u \<longleftrightarrow> in_service b u \<or> u = v"
    "m_intr_line_state (b_cpu b') = 0" "\<not> apic_has_interrupt b'"
    "a_base (b_apic b') = a_base (b_apic b)"
    "a_isr (b_apic b') = set_bit256 (a_isr (b_apic b)) v True"
    "a_task_priority (b_apic b') = a_task_priority (b_apic b)"
proof -
  have h: "highest_set_bit (a_irr (b_apic b)) = Some v"
    and b': "b' = upd_cpu cpu_lower_intr_line (upd_apic (\<lambda>a. a\<lparr>a_irr := set_bit256 (a_irr a) v False,
          a_isr := set_bit256 (a_isr a) v True, a_intr_line_state := 0\<rparr>) b)"
    using assms by (auto simp: apic_get_interrupt_def Let_def split: option.splits)
  show v: "v < 256" and "requested b v" and "\<And>u. v < u \<Longrightarrow> u < 256 \<Longrightarrow> \<not> requested b u"
    using h by (auto simp: requested_def vectors.highest_Some)
  show "\<And>u. u < 256 \<Longrightarrow> requested b' u \<longleftrightarrow> requested b u \<and> u \<noteq> v"
    "\<And>u. u < 256 \<Longrightarrow> in_service b' u \<longleftrightarrow> in_service b u \<or> u = v"
    using v by (auto simp: b' requested_def in_service_def vectors.get_set)
  show "m_intr_line_state (b_cpu b') = 0" "\<not> apic_has_interrupt b'"
    "a_base (b_apic b') = a_base (b_apic b)"
    "a_isr (b_apic b') = set_bit256 (a_isr (b_apic b)) v True"
    "a_task_priority (b_apic b') = a_task_priority (b_apic b)"
    by (simp_all add: b' cpu_lower_intr_line_def apic_has_interrupt_def)
qed

text \<open>The end-of-interrupt register is register 11 of the file.\<close>

lemma eoi_write:
  "apic_write (a_base (b_apic b) + 0xB0) d b =
     (case highest_set_bit (a_isr (b_apic b)) of
        None \<Rightarrow> Some b
      | Some v \<Rightarrow>
          let b = upd_apic (\<lambda>a. a\<lparr>a_isr := set_bit256 (a_isr a) v False\<rparr>) b;
              b = (if get_bit256 (a_tmr (b_apic b)) v then ioapic_remote_eoi v b else b)
          in Some (apic_send_highest_priority_interrupt b))"
  by (simp add: apic_write_def)

lemma remote_eoi_apic [simp]: "b_apic (ioapic_remote_eoi v b) = b_apic b"
  by (simp add: ioapic_remote_eoi_def)

text \<open>
  C12. The life of a vector in the local APIC. Acknowledging an interrupt returns the
  highest requested vector, withdraws exactly that request, adds exactly that vector to
  those in service and drops both the APIC's and the CPU's interrupt line. If the vector is
  above everything that was in service (which the priority test of the delivery ensures), a
  write to the end-of-interrupt register then takes exactly this vector out of service
  again: nested handlers are completed in the right order.
\<close>

theorem apic_ack_eoi:
  assumes ack: "apic_get_interrupt b = Some (v, b1)"
    and above: "\<forall>u < 256. in_service b u \<longrightarrow> u < v"
  shows "(requested b v \<and> (\<forall>u < 256. requested b u \<longrightarrow> u \<le> v))
     \<and> (\<forall>u < 256. requested b1 u \<longleftrightarrow> requested b u \<and> u \<noteq> v)
     \<and> (\<forall>u < 256. in_service b1 u \<longleftrightarrow> in_service b u \<or> u = v)
     \<and> m_intr_line_state (b_cpu b1) = 0 \<and> \<not> apic_has_interrupt b1
     \<and> (\<exists>b2. apic_write (a_base (b_apic b1) + 0xB0) d b1 = Some b2
            \<and> (\<forall>u < 256. in_service b2 u \<longleftrightarrow> in_service b u)
            \<and> (\<forall>u < 256. requested b2 u \<longleftrightarrow> requested b1 u))"
proof -
  note a = acknowledge [OF ack]
  have "highest_set_bit (a_isr (b_apic b1)) = Some v"
    unfolding a(9) using above a(1)
    by (intro vectors.highest_insert) (auto simp: in_service_def vectors.highest_Some split: option.split)
  then obtain b2 where b2: "apic_write (a_base (b_apic b1) + 0xB0) d b1 = Some b2"
      and isr: "a_isr (b_apic b2) = set_bit256 (a_isr (b_apic b1)) v False"
      and irr: "a_irr (b_apic b2) = a_irr (b_apic b1)"
    by (simp add: eoi_write Let_def)
  have "in_service b2 u \<longleftrightarrow> in_service b u" if "u < 256" for u
    using that a(1) above vectors.insert_remove_get [of v "a_isr (b_apic b)" u]
    by (auto simp: in_service_def isr a(9))
  moreover have "requested b2 u \<longleftrightarrow> requested b1 u" for u
    by (simp add: requested_def irr)
  ultimately show ?thesis
    using a(2,3,4,5,6,7) b2 by (auto simp: not_less [symmetric])
qed

text \<open>A board with vector 0x41 requested and vector 0x31 in service.\<close>

definition requested_board :: intr_board where
  "requested_board = upd_apic (\<lambda>a. a\<lparr>a_irr := (a_irr a)(2 := 2), a_isr := (a_isr a)(1 := 0x20000)\<rparr>) zero_board"

lemma requested_board_isr:
  "in_service requested_board 0x31" "\<not> in_service requested_board 0x41"
  "\<forall>u < 256. in_service requested_board u \<longrightarrow> u < 0x41"
proof -
  show "in_service requested_board 0x31" "\<not> in_service requested_board 0x41" by code_simp+
  have "highest_set_bit (a_isr (b_apic requested_board)) = Some 0x31" by code_simp
  then have "\<And>u. u < 256 \<Longrightarrow> in_service requested_board u \<Longrightarrow> u \<le> 0x31"
    by (auto simp: in_service_def vectors.highest_Some not_less [symmetric])
  then show "\<forall>u < 256. in_service requested_board u \<longrightarrow> u < 0x41"
    by fastforce
qed

lemma apic_ack_eoi_witness:
  "\<exists>b1 b2. apic_get_interrupt requested_board = Some (0x41, b1) \<and> in_service b1 0x41 \<and> in_service b1 0x31
     \<and> apic_write (a_base (b_apic b1) + 0xB0) 0 b1 = Some b2 \<and> \<not> in_service b2 0x41 \<and> in_service b2 0x31"
proof -
  have "highest_set_bit (a_irr (b_apic requested_board)) = Some 0x41" by code_simp
  then obtain b1 where b1: "apic_get_interrupt requested_board = Some (0x41, b1)"
    by (simp add: apic_get_interrupt_def Let_def)
  show ?thesis
    using b1 apic_ack_eoi [OF b1 requested_board_isr(3), of 0] requested_board_isr(1,2) by auto
qed

section \<open>Requesting a vector\<close>

lemma vector_valid:
  assumes "16 \<le> v" "v < 255"
  shows "\<not> vector_invalid v"
proof -
  have "drop_bit 4 v \<noteq> 0" using assms(1) by (simp add: drop_bit_eq_div)
  then obtain i where i: "bit (drop_bit 4 v) i" by (auto simp: bit_eq_iff)
  have "take_bit 8 v = v" using assms(2) by (simp add: take_bit_nat_eq_self)
  then have "bit (take_bit 8 v) (4 + i)" using i by (simp add: bit_drop_bit_eq)
  then have b: "i < 4" "bit v (4 + i)" by (auto simp: bit_take_bit_iff)
  then have "i = 0 \<or> i = 1 \<or> i = 2 \<or> i = 3" by auto
  then have "bit (of_nat v AND (0xF0 :: u32)) (4 + i)"
    using b(2) by (auto simp: bit_and_iff bit_of_nat_iff)
  then have "of_nat v AND (0xF0 :: u32) \<noteq> 0" by (metis bit_0_eq bot_apply bot_bool_def)
  then show ?thesis using assms(2) by (simp add: vector_invalid_def)
qed

text \<open>
  C13. Delivery of a fixed message with a legal vector that is not yet
  requested, while the APIC's line is down: the call returns, requests exactly this vector,
  records the trigger mode of exactly this vector and leaves the in-service set alone. The
  line goes up exactly when the best request passes the priority test; then the CPU's line
  is up and the acknowledge returns that best request.
\<close>

theorem apic_message_delivery:
  assumes v: "16 \<le> v" "v < 255" and new: "\<not> requested b v" and idle: "\<not> apic_has_interrupt b"
  shows "\<exists>b1 w. apic_receive_bus_message v 0 level b = Some b1
     \<and> (\<forall>u < 256. requested b1 u \<longleftrightarrow> requested b u \<or> u = v)
     \<and> (\<forall>u < 256. get_bit256 (a_tmr (b_apic b1)) u \<longleftrightarrow>
            (if u = v then level else get_bit256 (a_tmr (b_apic b)) u))
     \<and> a_isr (b_apic b1) = a_isr (b_apic b)
     \<and> requested b1 w \<and> (\<forall>u < 256. requested b1 u \<longrightarrow> u \<le> w)
     \<and> (apic_has_interrupt b1 \<longleftrightarrow> passes b w)
     \<and> (apic_has_interrupt b1 \<longrightarrow> m_intr_line_state (b_cpu b1) = 1
            \<and> (\<exists>b2. apic_get_interrupt b1 = Some (w, b2)))"
proof -
  have valid: "\<not> vector_invalid v"
    using v by (rule vector_valid)
  define c where "c = upd_apic (\<lambda>a. a\<lparr>a_irr := set_bit256 (a_irr a) v True,
                           a_tmr := set_bit256 (a_tmr a) v level\<rparr>) b"
  define b1 where "b1 = apic_send_highest_priority_interrupt c"
  have v': "v < 256" using v by simp
  have r: "apic_receive_bus_message v 0 level b = Some b1"
    using new valid by (simp add: apic_receive_bus_message_def requested_def b1_def c_def)
  have req: "requested b1 u \<longleftrightarrow> requested b u \<or> u = v" if "u < 256" for u
    using that v' by (auto simp: b1_def c_def requested_def vectors.get_set)
  have tmr: "get_bit256 (a_tmr (b_apic b1)) u \<longleftrightarrow>
      (if u = v then level else get_bit256 (a_tmr (b_apic b)) u)" if "u < 256" for u
    using that v' by (auto simp: b1_def c_def vectors.get_set)
  have "requested b1 v" using req v' by blast
  then obtain w where w: "highest_set_bit (a_irr (b_apic b1)) = Some w"
    using v' by (cases "highest_set_bit (a_irr (b_apic b1))")
      (auto simp: requested_def vectors.highest_None)
  then have hc: "highest_set_bit (a_irr (b_apic c)) = Some w" by (simp add: b1_def)
  have max: "requested b1 w" "\<forall>u < 256. requested b1 u \<longrightarrow> u \<le> w"
    using w by (auto simp: requested_def vectors.highest_Some not_less [symmetric])
  have line: "a_intr_line_state (b_apic c) \<noteq> 1" and down: "a_intr_line_state (b_apic c) = 0"
    using idle by (auto simp: c_def apic_has_interrupt_def)
  have p: "passes c w = passes b w" by (simp add: passes_def in_service_def c_def)
  have "apic_has_interrupt b1 \<longleftrightarrow> passes b w"
    using send_line(1) [OF hc line] down p by (simp add: apic_has_interrupt_def b1_def)
  moreover have "passes b w \<Longrightarrow> m_intr_line_state (b_cpu b1) = 1"
    using send_line(2) [OF hc line] p by (simp add: b1_def)
  moreover have "\<exists>b2. apic_get_interrupt b1 = Some (w, b2)"
    using w by (simp add: apic_get_interrupt_def Let_def)
  moreover have "a_isr (b_apic b1) = a_isr (b_apic b)" by (simp add: b1_def c_def)
  ultimately show ?thesis using r req tmr max by blast
qed


lemma apic_message_delivery_witness:
  "\<exists>b1 w. apic_receive_bus_message 0x61 0 True requested_board = Some b1 \<and> requested b1 0x61
     \<and> requested b1 0x41 \<and> a_isr (b_apic b1) = a_isr (b_apic requested_board) \<and> requested b1 w"
proof -
  have n: "\<not> requested requested_board 0x61" "requested requested_board 0x41"
      "\<not> apic_has_interrupt requested_board"
    by code_simp+
  show ?thesis using apic_message_delivery [of "0x61" requested_board True] n by fastforce
qed

end
