(* ===== verification/Pic_Laws.thy ===== *)
theory Pic_Laws
  imports Apic_Laws
begin

text \<open>
  Laws of the 8259 pair: what the priority resolver selects, the delivery of a line to the
  CPU, the initialisation sequence, and an invariant of the whole interrupt fabric under
  which no step of a device or of the CPU aborts.
\<close>

section \<open>The priority resolver\<close>

text \<open>
  Rank of a line: its distance from the line after the priority base, 0 is the highest
  priority.
\<close>

definition pic_rank :: "pic_controller \<Rightarrow> nat \<Rightarrow> nat" where
  "pic_rank c i = (i + 7 - unat (p_priority_base c)) mod 8"

definition pic_special :: "pic_controller \<Rightarrow> bool" where
  "pic_special c \<longleftrightarrow> p_ocw c 3 AND 0x60 = 0x60"

definition pic_request :: "pic_controller \<Rightarrow> nat \<Rightarrow> bool" where
  "pic_request c i \<longleftrightarrow> bit (p_irr c) i \<and> \<not> bit (p_imr c) i"

lemma bit_rol:
  assumes "pb \<le> 7" "i < 8"
  shows "bit (rol v pb) i \<longleftrightarrow> bit v ((unat pb + 1 + i) mod 8)"
proof -
  have "unat pb \<le> 7" using assms(1) by (simp add: word_le_nat_alt)
  moreover have "unat (pb XOR 7) = 7 - unat pb"
  proof -
    have "pb = of_nat (unat pb)" by simp
    moreover have "unat pb \<in> {0,1,2,3,4,5,6,7}" using \<open>unat pb \<le> 7\<close> by auto
    ultimately show ?thesis by (elim insertE emptyE) (simp_all, (metis)?)
  qed
  moreover have "bit (ucast v :: u32) k \<longleftrightarrow> k < 8 \<and> bit v k" for k
    using bit_imp_le_length [of v k] by (auto simp: bit_zext8)
  ultimately show ?thesis
    using assms(2) bit_imp_le_length [of v]
    by (auto simp: rol_def Let_def bit_low8 bit_or_iff bit_push_bit_iff bit_drop_bit_eq mod_if
        algebra_simps not_le)
qed

lemma pic_scan_upt:
  "pic_scan sp u s [a..<n] = Some i \<longleftrightarrow>
     a \<le> i \<and> i < n \<and> bit u i \<and> (sp \<or> \<not> bit s i) \<and>
     (\<forall>j. a \<le> j \<and> j < i \<longrightarrow> \<not> bit u j \<and> (sp \<or> \<not> bit s j))"
proof (induction "n - a" arbitrary: a)
  case 0 then show ?case by simp
next
  case (Suc k)
  then have l: "[a..<n] = a # [Suc a..<n]" by (simp add: upt_rec)
  have ih: "pic_scan sp u s [Suc a..<n] = Some i \<longleftrightarrow>
     Suc a \<le> i \<and> i < n \<and> bit u i \<and> (sp \<or> \<not> bit s i) \<and>
     (\<forall>j. Suc a \<le> j \<and> j < i \<longrightarrow> \<not> bit u j \<and> (sp \<or> \<not> bit s j))"
    using Suc by simp
  have e: "(\<forall>j. a \<le> j \<and> j < i \<longrightarrow> P j) \<longleftrightarrow> (a < i \<longrightarrow> P a) \<and> (\<forall>j. Suc a \<le> j \<and> j < i \<longrightarrow> P j)" for P
    by (metis Suc_leI le_antisym less_Suc_eq_le not_less_eq_eq Suc_leD le_less_trans order_refl)
  have n: "a < n" using Suc.hyps(2) by simp
  show ?case
  proof (cases "i = a")
    case True
    have "pic_scan sp u s [Suc a..<n] \<noteq> Some i" unfolding ih using True by simp
    moreover have "\<forall>j. Suc a \<le> j \<and> j < i \<longrightarrow> P j" for P using True by auto
    ultimately show ?thesis using n True unfolding l pic_scan.simps e
      by (cases sp; cases "bit s a"; cases "bit u a") simp_all
  next
    case False
    then have "a \<le> i \<longleftrightarrow> Suc a \<le> i" "a \<noteq> i" by auto
    then show ?thesis unfolding l pic_scan.simps e using ih by (simp split del: if_split) auto
  qed
qed

lemma unat_and_7: "unat ((x + of_nat p) AND 7 :: u8) = (unat x + p) mod 8"
proof -
  have "(x + of_nat p :: u8) = of_nat (unat x + p)" by simp
  then have "unat ((x + of_nat p) AND 7 :: u8) = take_bit 3 (take_bit 8 (unat x + p))"
    by (simp only: and_mask_take_bit unsigned_take_bit_eq unsigned_of_nat) simp
  then show ?thesis by (simp add: take_bit_eq_mod mod_mod_cancel)
qed

lemma unat_line: "unat ((pb + 1 + of_nat p) AND 7 :: u8) = (unat pb + 1 + p) mod 8"
  using unat_and_7 [of pb "1 + p"] by (simp add: algebra_simps)

lemma rank_line:
  assumes "p_priority_base c \<le> 7" "i < 8"
  shows "pic_rank c i < 8" "(unat (p_priority_base c) + 1 + pic_rank c i) mod 8 = i"
    "p < 8 \<Longrightarrow> pic_rank c ((unat (p_priority_base c) + 1 + p) mod 8) = p"
proof -
  have "unat (p_priority_base c) \<le> 7" using assms(1) by (simp add: word_le_nat_alt)
  then show "pic_rank c i < 8" "(unat (p_priority_base c) + 1 + pic_rank c i) mod 8 = i"
    "p < 8 \<Longrightarrow> pic_rank c ((unat (p_priority_base c) + 1 + p) mod 8) = p"
    using assms(2) by (auto simp: pic_rank_def mod_if)
qed


text \<open>
  The line that must be served: it is requested, unmasked and not in service, no line of a
  higher priority is a candidate too and, outside the special mask mode, none of a higher
  priority is in service.
\<close>

definition pic_winner :: "pic_controller \<Rightarrow> nat \<Rightarrow> bool" where
  "pic_winner c i \<longleftrightarrow> pic_request c i \<and> \<not> bit (p_isr c) i
     \<and> (\<forall>j<8. pic_rank c j < pic_rank c i \<longrightarrow>
            \<not> (pic_request c j \<and> \<not> bit (p_isr c) j) \<and> (\<not> pic_special c \<longrightarrow> \<not> bit (p_isr c) j))"

lemma select_winner:
  assumes pb: "p_priority_base c \<le> 7"
  shows "pic_select c = Some x \<longleftrightarrow> (\<exists>i<8. x = of_nat i \<and> pic_winner c i)"
    (is "?sel \<longleftrightarrow> (\<exists>i<8. x = of_nat i \<and> ?R i)")
proof -
  let ?L = "\<lambda>p. (unat (p_priority_base c) + 1 + p) mod 8"
  define un where "un = p_irr c AND NOT (p_imr c)"
  define u where "u = (if pic_special c then rol un (p_priority_base c) AND NOT (rol (p_isr c) (p_priority_base c))
                       else rol un (p_priority_base c))"
  define s where "s = rol (p_isr c) (p_priority_base c)"
  have bs: "p < 8 \<Longrightarrow> bit s p \<longleftrightarrow> bit (p_isr c) (?L p)" for p
    using pb by (simp add: s_def bit_rol)
  have bun: "p < 8 \<Longrightarrow> bit (rol un (p_priority_base c)) p \<longleftrightarrow> pic_request c (?L p)" for p
    using pb by (simp add: bit_rol un_def pic_request_def bit_and_iff bit_not_iff)
  have bu: "p < 8 \<Longrightarrow> bit u p \<longleftrightarrow> pic_request c (?L p) \<and> (pic_special c \<longrightarrow> \<not> bit (p_isr c) (?L p))" for p
    using bun bs by (auto simp: u_def s_def bit_and_iff bit_not_iff)
  let ?W = "\<lambda>p. p < 8 \<and> bit u p \<and> (pic_special c \<or> \<not> bit s p) \<and>
      (\<forall>j<p. \<not> bit u j \<and> (pic_special c \<or> \<not> bit s j))"
  have sc: "pic_scan (pic_special c) u s [0..<8] = Some p \<longleftrightarrow> ?W p" for p
    by (simp add: pic_scan_upt)
  have lines_all: "(\<forall>j<8. Q j) \<longleftrightarrow> (\<forall>k<8. Q (?L k))" for Q :: "nat \<Rightarrow> bool"
    using rank_line(1,2) [OF pb] by (metis mod_less_divisor zero_less_numeral)
  have rk: "k < 8 \<Longrightarrow> pic_rank c (?L k) = k" for k
    by (rule rank_line(3) [OF pb, of 0]) simp_all
  have W: "?W p \<longleftrightarrow> p < 8 \<and> ?R (?L p)" for p
  proof (cases "p < 8")
    case True
    have all: "(\<forall>j<8. pic_rank c j < p \<longrightarrow> Q j) \<longleftrightarrow> (\<forall>k<p. Q (?L k))" for Q
      unfolding lines_all [of "\<lambda>j. pic_rank c j < p \<longrightarrow> Q j"]
      using rk True by auto
    have "\<And>k. k < p \<Longrightarrow> k < 8" using True by simp
    then show ?thesis
      using True bs bu unfolding pic_winner_def rk [OF True] all by auto
  qed simp
  have unat_of_nat_small: "unat (of_nat k :: u8) = k" if "k < 256" for k
    using that by (simp add: unsigned_of_nat take_bit_nat_eq_self)
  have lines: "(\<exists>p<8. Q (?L p)) \<longleftrightarrow> (\<exists>i<8. Q i)" for Q :: "nat \<Rightarrow> bool"
    using rank_line(1,2) [OF pb] by (metis mod_less_divisor zero_less_numeral)
  have x_eq: "x = (p_priority_base c + 1 + of_nat p) AND 7 \<longleftrightarrow> x = of_nat (?L p)" for p
    by (simp add: word_unat_eq_iff unat_line unat_of_nat_small)
  have z: "un = 0 \<Longrightarrow> \<not> pic_request c i" if "i < 8" for i
    using that by (auto simp: un_def pic_request_def bit_eq_iff bit_and_iff bit_not_iff)
  have "?sel \<longleftrightarrow> un \<noteq> 0 \<and> (\<exists>p. pic_scan (pic_special c) u s [0..<8] = Some p
        \<and> x = (p_priority_base c + 1 + of_nat p) AND 7)"
    by (auto simp: pic_select_def Let_def un_def u_def s_def pic_special_def)
  also have "\<dots> \<longleftrightarrow> un \<noteq> 0 \<and> (\<exists>p<8. ?R (?L p) \<and> x = of_nat (?L p))"
    unfolding sc W x_eq by blast
  also have "\<dots> \<longleftrightarrow> un \<noteq> 0 \<and> (\<exists>i<8. x = of_nat i \<and> ?R i)"
    using lines [of "\<lambda>i. ?R i \<and> x = of_nat i"] by blast
  also have "\<dots> \<longleftrightarrow> (\<exists>i<8. x = of_nat i \<and> ?R i)"
    using z by (auto simp: pic_winner_def)
  finally show ?thesis .
qed


lemma winner_unique:
  assumes "p_priority_base c \<le> 7" "i < 8" "j < 8" "pic_winner c i" "pic_winner c j"
  shows "i = j"
proof -
  have "pic_rank c i = pic_rank c j" using assms(2-5) unfolding pic_winner_def by (meson not_less_iff_gr_or_eq)
  then show ?thesis using rank_line(2) [OF assms(1)] assms(2,3) by metis
qed

lemma select_le_7: "pic_select c = Some x \<Longrightarrow> x \<le> 7"
  by (auto simp: pic_select_def Let_def word_and_le1 split: if_splits)

lemma update_master_winner:
  assumes "p_priority_base (b_pic b 0) \<le> 7" "i < 8" "pic_winner (b_pic b 0) i"
  shows "pic_update_master b = Some (signal_irq (upd_pic 0 (\<lambda>c. c\<lparr>p_highest := of_nat i\<rparr>) b))"
  using assms(2,3) select_winner [OF assms(1), of "of_nat i"]
  by (auto simp: pic_update_master_def pic_internal_update_def)

lemma update_none:
  assumes "p_priority_base (b_pic b k) \<le> 7" "\<forall>i<8. \<not> pic_winner (b_pic b k) i"
  shows "pic_internal_update n k b = Some b"
proof -
  have "pic_select (b_pic b k) = None"
    using select_winner [OF assms(1)] assms(2) by (cases "pic_select (b_pic b k)") auto
  then show ?thesis by (simp add: pic_internal_update_def)
qed

text \<open>
  C11. The resolver of the master controller serves the right line (the base of the
  rotating priority being at most 7, as every operation of the board keeps it): whenever there is a line that must be served, it is the only one, it becomes the line the next
  acknowledge will report, and the CPU's line goes up; when there is none, nothing changes.
  With no line in service, every unmasked request leads to a line that must be served.
\<close>

theorem pic_resolver_correct:
  assumes "p_priority_base (b_pic b 0) \<le> 7"
  shows "(\<forall>i<8. pic_winner (b_pic b 0) i \<longrightarrow>
            (\<forall>j<8. pic_winner (b_pic b 0) j \<longrightarrow> j = i)
            \<and> pic_update 0 b = Some (signal_irq (upd_pic 0 (\<lambda>c. c\<lparr>p_highest := of_nat i\<rparr>) b)))
     \<and> ((\<forall>i<8. \<not> pic_winner (b_pic b 0) i) \<longrightarrow> pic_update 0 b = Some b)
     \<and> (p_isr (b_pic b 0) = 0 \<longrightarrow> (\<exists>i<8. pic_request (b_pic b 0) i) \<longrightarrow> (\<exists>i<8. pic_winner (b_pic b 0) i))"
proof (intro conjI)
  show "\<forall>i<8. pic_winner (b_pic b 0) i \<longrightarrow> (\<forall>j<8. pic_winner (b_pic b 0) j \<longrightarrow> j = i)
            \<and> pic_update 0 b = Some (signal_irq (upd_pic 0 (\<lambda>c. c\<lparr>p_highest := of_nat i\<rparr>) b))"
    using winner_unique [OF assms] update_master_winner [OF assms] by (auto simp: pic_update_def)
  show "(\<forall>i<8. \<not> pic_winner (b_pic b 0) i) \<longrightarrow> pic_update 0 b = Some b"
    using update_none [OF assms] by (simp add: pic_update_def pic_update_master_def)
  show "p_isr (b_pic b 0) = 0 \<longrightarrow> (\<exists>i<8. pic_request (b_pic b 0) i) \<longrightarrow> (\<exists>i<8. pic_winner (b_pic b 0) i)"
  proof (intro impI)
    assume z: "p_isr (b_pic b 0) = 0" and "\<exists>i<8. pic_request (b_pic b 0) i"
    then obtain i where "i < 8 \<and> pic_request (b_pic b 0) i"
        "\<forall>j. j < 8 \<and> pic_request (b_pic b 0) j \<longrightarrow> pic_rank (b_pic b 0) i \<le> pic_rank (b_pic b 0) j"
      using ex_has_least_nat [of "\<lambda>i. i < 8 \<and> pic_request (b_pic b 0) i" _ "pic_rank (b_pic b 0)"] by blast
    then show "\<exists>i<8. pic_winner (b_pic b 0) i"
      using z by (intro exI [of _ i]) (auto simp: pic_winner_def not_less [symmetric])
  qed
qed

section \<open>From a raised line to the vector\<close>

definition pic_idle :: "pic_controller \<Rightarrow> bool" where
  "pic_idle c \<longleftrightarrow> p_priority_base c \<le> 7 \<and> p_isr c = 0 \<and> p_autoeoi c = 0 \<and> (\<forall>i<8. \<not> pic_request c i)"

lemma lone_winner:
  assumes "p_isr c = 0" "\<And>j. j < 8 \<Longrightarrow> pic_request c j \<longleftrightarrow> j = i" "i < 8"
  shows "pic_winner c i"
  using assms by (auto simp: pic_winner_def)

text \<open>Setting and clearing the bit of a line.\<close>

lemma bit_line: "i < 8 \<Longrightarrow> bit (x OR push_bit i 1) j \<longleftrightarrow> bit x j \<or> j = i"
  "i < 8 \<Longrightarrow> bit (x AND NOT (push_bit i 1)) j \<longleftrightarrow> bit x j \<and> j \<noteq> i"
  "i < 8 \<Longrightarrow> x AND push_bit i 1 = 0 \<longleftrightarrow> \<not> bit x i" for x :: u8
proof -
  assume i: "i < 8"
  show "bit (x OR push_bit i 1) j \<longleftrightarrow> bit x j \<or> j = i" "bit (x AND NOT (push_bit i 1)) j \<longleftrightarrow> bit x j \<and> j \<noteq> i"
    using i bit_imp_le_length [of x j] by (auto simp: bit_or_iff bit_and_iff bit_not_iff bit_exp_iff)
  have "x AND push_bit i 1 = 0 \<longleftrightarrow> (\<forall>n<8. \<not> bit (x AND push_bit i 1) n)"
    by (auto simp: bit_eq_iff)
  then show "x AND push_bit i 1 = 0 \<longleftrightarrow> \<not> bit x i"
    using i by (auto simp: bit_and_iff bit_exp_iff)
qed

lemma bit_line_take:
  fixes x :: u8
  assumes "i < 8" "bit x i"
  shows "bit (x XOR ucast (push_bit i (1 :: u32))) j \<longleftrightarrow> bit x j \<and> j \<noteq> i"
  using assms bit_imp_le_length [of x j] by (auto simp: bit_xor_iff bit_exp_iff bit_ucast_iff)

lemma bit_line_add:
  fixes x :: u8
  assumes "i < 8"
  shows "bit (x OR ucast (push_bit i (1 :: u32))) j \<longleftrightarrow> bit x j \<or> j = i"
  using assms by (auto simp: bit_or_iff bit_exp_iff bit_ucast_iff)

lemma line_test: "i < 8 \<Longrightarrow> ucast x AND push_bit i (1 :: u32) = 0 \<longleftrightarrow> \<not> bit x i" for x :: u8
  using and_pow_nz [of "ucast x" i] by (auto simp: bit_zext8)

lemma unat_line_no: "i < 8 \<Longrightarrow> unat (of_nat i :: u8) = i"
  by (simp add: unsigned_of_nat take_bit_nat_eq_self)

text \<open>The acknowledge of one controller, when the recorded line is requested.\<close>

lemma acknowledge_line:
  assumes i: "i < 8" and h: "p_highest (b_pic b k) = of_nat i" and r: "bit (p_irr (b_pic b k)) i"
    and no: "p_autoeoi (b_pic b k) = 0" and nc: "\<not> (k = 0 \<and> i = 2)"
  shows "pic_internal_get_interrupt k b = (p_vector_offset (b_pic b k) + of_nat i,
     upd_pic k (\<lambda>c. c\<lparr>p_irr := p_irr c XOR ucast (push_bit i (1 :: u32)),
                        p_isr := p_isr c OR ucast (push_bit i (1 :: u32))\<rparr>) b)"
proof -
  have ne: "\<not> (k = 0 \<and> (of_nat i :: u8) = 2)" using nc unat_line_no [OF i] by auto
  have rq: "ucast (p_irr (b_pic b k)) AND push_bit i (1 :: u32) \<noteq> 0" using line_test [OF i] r by simp
  show ?thesis
    by (subst pic_internal_get_interrupt.simps)
      (simp add: Let_def ne rq no h unat_line_no [OF i] del: push_bit_of_1)
qed

lemma acknowledge_cascade:
  assumes h: "p_highest (b_pic b 0) = 2" and r: "bit (p_irr (b_pic b 0)) 2"
    and no: "p_autoeoi (b_pic b 0) = 0"
  shows "pic_internal_get_interrupt 0 b = pic_internal_get_interrupt 1
     (upd_pic 0 (\<lambda>c. c\<lparr>p_irr := p_irr c XOR 4, p_isr := p_isr c OR 4\<rparr>) b)"
proof -
  have rq: "ucast (p_irr (b_pic b 0)) AND (4 :: u32) \<noteq> 0"
    using line_test [of 2 "p_irr (b_pic b 0)"] r by simp
  show ?thesis
    by (subst pic_internal_get_interrupt.simps) (simp add: Let_def rq no h)
qed


lemma ioapic_off [simp]:
  "io_enabled (b_ioapic b) = 0 \<Longrightarrow> ioapic_raise_irq i b = Some b"
  "io_enabled (b_ioapic b) = 0 \<Longrightarrow> ioapic_lower_irq i b = b"
  by (simp_all add: ioapic_raise_irq_def ioapic_lower_irq_def)

text \<open>A raised, a dropped and an acknowledged line of a controller.\<close>

definition raised :: "nat \<Rightarrow> pic_controller \<Rightarrow> pic_controller" where
  "raised i c = c\<lparr>p_pin_state := p_pin_state c OR push_bit i 1, p_irr := p_irr c OR push_bit i 1\<rparr>"

definition dropped :: "nat \<Rightarrow> pic_controller \<Rightarrow> pic_controller" where
  "dropped i c = c\<lparr>p_irr := p_irr c AND NOT (push_bit i 1), p_pin_state := p_pin_state c AND NOT (push_bit i 1)\<rparr>"

definition accepted :: "nat \<Rightarrow> pic_controller \<Rightarrow> pic_controller" where
  "accepted i c = c\<lparr>p_irr := p_irr c XOR ucast (push_bit i (1 :: u32)), p_isr := p_isr c OR ucast (push_bit i (1 :: u32))\<rparr>"

lemma raised_parts [simp]:
  "p_isr (raised i c) = p_isr c" "p_imr (raised i c) = p_imr c" "p_autoeoi (raised i c) = p_autoeoi c"
  "p_priority_base (raised i c) = p_priority_base c" "p_vector_offset (raised i c) = p_vector_offset c"
  "p_isr (dropped i c) = p_isr c" "p_imr (dropped i c) = p_imr c" "p_autoeoi (dropped i c) = p_autoeoi c"
  "p_priority_base (dropped i c) = p_priority_base c" "p_vector_offset (dropped i c) = p_vector_offset c"
  "p_imr (accepted i c) = p_imr c" "p_autoeoi (accepted i c) = p_autoeoi c"
  "p_priority_base (accepted i c) = p_priority_base c" "p_pin_state (accepted i c) = p_pin_state c"
  by (simp_all add: raised_def dropped_def accepted_def)

lemma raised_bits [simp]:
  "i < 8 \<Longrightarrow> bit (p_irr (raised i c)) j \<longleftrightarrow> bit (p_irr c) j \<or> j = i"
  "i < 8 \<Longrightarrow> bit (p_pin_state (raised i c)) j \<longleftrightarrow> bit (p_pin_state c) j \<or> j = i"
  "i < 8 \<Longrightarrow> bit (p_irr (dropped i c)) j \<longleftrightarrow> bit (p_irr c) j \<and> j \<noteq> i"
  "i < 8 \<Longrightarrow> bit (p_pin_state (dropped i c)) j \<longleftrightarrow> bit (p_pin_state c) j \<and> j \<noteq> i"
  "i < 8 \<Longrightarrow> bit (p_irr c) i \<Longrightarrow> bit (p_irr (accepted i c)) j \<longleftrightarrow> bit (p_irr c) j \<and> j \<noteq> i"
  "i < 8 \<Longrightarrow> bit (p_isr (accepted i c)) j \<longleftrightarrow> bit (p_isr c) j \<or> j = i"
  by (simp_all add: raised_def dropped_def accepted_def bit_line bit_line_take bit_line_add del: push_bit_of_1)

lemma raise_line:
  assumes "i < 8"
  shows "pic_internal_raise_irq u k i b =
     (if bit (p_pin_state (b_pic b k)) i then Some b else u (upd_pic k (raised i) b))"
  using bit_line(3) [OF assms, of "p_pin_state (b_pic b k)"]
  by (simp add: pic_internal_raise_irq_def raised_def [abs_def] Let_def del: push_bit_of_1)

lemma drop_line: "pic_drop_irq k i b = upd_pic k (dropped i) b"
  by (simp add: pic_drop_irq_def dropped_def [abs_def] Let_def)

text \<open>A line of the master raised to the resolver, with nothing else to serve.\<close>

lemma master_signal:
  assumes i: "i < 8" and "p_isr (b_pic b 0) = 0" "p_priority_base (b_pic b 0) \<le> 7"
    and "\<And>j. j < 8 \<Longrightarrow> j \<noteq> i \<Longrightarrow> \<not> pic_request (b_pic b 0) j" and "\<not> bit (p_imr (b_pic b 0)) i"
  shows "pic_update_master (upd_pic 0 (raised i) b) =
     Some (signal_irq (upd_pic 0 (\<lambda>c. (raised i c)\<lparr>p_highest := of_nat i\<rparr>) b))"
proof -
  have "pic_winner (b_pic (upd_pic 0 (raised i) b) 0) i"
    using assms by (intro lone_winner) (auto simp: pic_request_def)
  then show ?thesis
    using assms by (subst update_master_winner [OF _ i]) simp_all
qed

text \<open>The pulse the slave sends on line 2.\<close>

lemma master_pulse:
  assumes "io_enabled (b_ioapic b) = 0" "pic_idle (b_pic b 0)" "\<not> bit (p_imr (b_pic b 0)) 2"
  shows "pic_raise_master 2 (pic_lower_master 2 b) =
     Some (signal_irq (upd_pic 0 (\<lambda>c. (raised 2 (dropped 2 c))\<lparr>p_highest := 2\<rparr>) b))"
  using assms master_signal [of 2 "upd_pic 0 (dropped 2) b"]
  by (auto simp: pic_raise_master_def pic_lower_master_def drop_line raise_line pic_idle_def pic_request_def)

lemma slave_signal:
  assumes "io_enabled (b_ioapic b) = 0" "pic_idle (b_pic b 0)" "\<not> bit (p_imr (b_pic b 0)) 2"
    and "i < 8" "pic_idle (b_pic b 1)" "\<not> bit (p_imr (b_pic b 1)) i"
  shows "pic_update_slave (upd_pic 1 (raised i) b) =
     Some (signal_irq (upd_pic 0 (\<lambda>c. (raised 2 (dropped 2 c))\<lparr>p_highest := 2\<rparr>)
        (upd_pic 1 (\<lambda>c. (raised i c)\<lparr>p_highest := of_nat i\<rparr>) b)))"
proof -
  have "pic_winner (b_pic (upd_pic 1 (raised i) b) 1) i"
    using assms by (intro lone_winner) (auto simp: pic_request_def pic_idle_def)
  then have "pic_select (b_pic (upd_pic 1 (raised i) b) 1) = Some (of_nat i)"
    using assms by (subst select_winner) (auto simp: pic_idle_def)
  then show ?thesis
    using assms by (simp add: pic_update_slave_def pic_internal_update_def master_pulse)
qed


section \<open>The end-of-interrupt command\<close>

lemma clear_first_lone:
  assumes "p_isr c = push_bit i 1" "i < 8"
  shows "pic_clear_first is h c =
     (if \<exists>k \<in> set is. unat ((h + of_nat k) AND 7) = i then c\<lparr>p_isr := 0\<rparr> else c)"
proof (induction "is")
  case (Cons k ks)
  let ?f = "unat ((h + of_nat k) AND 7 :: u8)"
  have "(h + of_nat k) AND 7 \<le> (7 :: u8)" by (rule word_and_le1)
  then have f: "?f < 8" by (simp add: word_le_nat_alt)
  have "p_isr c AND push_bit ?f 1 = 0 \<longleftrightarrow> ?f \<noteq> i"
    using assms bit_line(3) [OF f, of "p_isr c"] f by (auto simp: bit_exp_iff)
  then show ?case using Cons assms(1) by (auto simp: Let_def)
qed simp

lemma clear_highest_lone:
  assumes "p_isr c = push_bit i 1" "i < 8"
  shows "pic_clear_highest_priority c = c\<lparr>p_isr := 0\<rparr>"
proof -
  let ?h = "(p_priority_base c + 1) AND 7"
  have "?h \<le> (7 :: u8)" by (rule word_and_le1)
  then have h: "unat ?h < 8" by (simp add: word_le_nat_alt)
  define k where "k = (i + 8 - unat ?h) mod 8"
  have "k \<in> set [0..<8]" by (simp add: k_def)
  moreover have "unat ((?h + of_nat k) AND 7) = i"
  proof -
    have "unat ((?h + of_nat k) AND 7) = (unat ?h + (i + 8 - unat ?h) mod 8) mod 8"
      unfolding k_def by (rule unat_and_7)
    also have "\<dots> = (i + 8) mod 8" using h by (simp add: mod_add_right_eq)
    finally show ?thesis using assms(2) by simp
  qed
  ultimately show ?thesis
    unfolding pic_clear_highest_priority_def clear_first_lone [OF assms] by auto
qed

lemma eoi_command:
  assumes k: "port = (if k = 0 then 0x20 else 0xA0)" "k \<le> 1"
    and "i < 8" "p_isr (b_pic b k) = push_bit i 1" "p_priority_base (b_pic b k) \<le> 7"
    "\<forall>j<8. \<not> pic_request (b_pic b k) j"
  shows "pic_writeb port 0x20 b =
     Some (upd_pic k (\<lambda>c. c\<lparr>p_ocw := (p_ocw c)(2 := 0x20), p_isr := 0\<rparr>) b)"
proof -
  define b' where "b' = upd_pic k (\<lambda>c. c\<lparr>p_ocw := (p_ocw c)(2 := 0x20), p_isr := 0\<rparr>) b"
  have "\<not> pic_winner (b_pic b' k) j" if "j < 8" for j
    using that assms(6) by (simp add: pic_winner_def pic_request_def b'_def)
  then have u: "pic_update k b' = Some b'"
    using assms(5) k(2) update_none [of b' k]
    by (cases "k = 0") (auto simp: pic_update_def pic_update_master_def pic_update_slave_def b'_def le_Suc_eq)
  have p: "pic_writeb port 0x20 b = pic_write_ocw k 2 0x20 b"
    using k by (cases "k = 0") (auto simp: pic_writeb_def Let_def le_Suc_eq)
  also have "\<dots> = pic_update k b'"
    using clear_highest_lone [of "(b_pic b k)\<lparr>p_ocw := (p_ocw (b_pic b k))(2 := 0x20)\<rparr>" i] assms(3,4)
    by (simp add: pic_write_ocw_def Let_def b'_def upd_pic_def)
  finally show ?thesis using u by (simp add: b'_def)
qed


text \<open>What an interrupt handler does at its end: the slave first when it delivered.\<close>

definition pic_handler_end :: "nat \<Rightarrow> intr_board \<Rightarrow> intr_board option" where
  "pic_handler_end line b = do {
     b \<leftarrow> (if line > 7 then pic_writeb 0xA0 0x20 b else Some b);
     pic_writeb 0x20 0x20 b
   }"

lemma accepted_lone:
  assumes "p_isr c = 0" "i < 8"
  shows "p_isr (accepted i c) = push_bit i 1"
  using assms by (intro bit_eqI) (auto simp: bit_exp_iff)

lemma accepted_no_request:
  assumes "i < 8" "bit (p_irr c) i" "\<And>j. j < 8 \<Longrightarrow> j \<noteq> i \<Longrightarrow> \<not> pic_request c j" "j < 8"
  shows "\<not> pic_request (accepted i c) j"
  using assms by (auto simp: pic_request_def)

lemma delivery_master:
  assumes io: "io_enabled (b_ioapic b) = 0" and apic: "\<not> apic_has_interrupt b"
    and idle: "pic_idle (b_pic b 0)" and i: "i < 8" "i \<noteq> 2"
    and pin: "\<not> bit (p_pin_state (b_pic b 0)) i" and imr: "\<not> bit (p_imr (b_pic b 0)) i"
  shows "\<exists>b1 b2 b3. pic_raise_irq i b = Some b1 \<and> m_intr_line_state (b_cpu b1) = 1
     \<and> pic_get_interrupt b1 = Some (p_vector_offset (b_pic b 0) + of_nat i, b2)
     \<and> m_intr_line_state (b_cpu b2) = 0 \<and> (\<forall>j<8. bit (p_isr (b_pic b2 0)) j \<longleftrightarrow> j = i)
     \<and> pic_raise_irq i b2 = Some b2
     \<and> pic_writeb 0x20 0x20 b2 = Some b3 \<and> pic_idle (b_pic b3 0) \<and> b_pic b3 1 = b_pic b 1"
proof -
  note id = idle [unfolded pic_idle_def]
  define up where "up = (\<lambda>c. (raised i c)\<lparr>p_highest := of_nat i\<rparr>)"
  define b1 where "b1 = signal_irq (upd_pic 0 up b)"
  define low where "low = upd_cpu cpu_lower_intr_line b1"
  define b2 where "b2 = upd_pic 0 (accepted i) low"
  define b3 where "b3 = upd_pic 0 (\<lambda>c. c\<lparr>p_ocw := (p_ocw c)(2 := 0x20), p_isr := 0\<rparr>) b2"
  have r: "pic_raise_irq i b = Some b1"
    using assms id by (simp add: pic_raise_irq_def raise_line pic_update_def master_signal b1_def up_def)
  have "pic_internal_get_interrupt 0 low = (p_vector_offset (b_pic low 0) + of_nat i, b2)"
    unfolding b2_def accepted_def [abs_def] using i id
    by (intro acknowledge_line) (simp_all add: low_def b1_def up_def)
  then have g: "pic_get_interrupt b1 = Some (p_vector_offset (b_pic b 0) + of_nat i, b2)"
    using apic by (simp add: pic_get_interrupt_def apic_has_interrupt_def low_def b1_def up_def)
  have c2: "b_pic b2 0 = accepted i (up (b_pic b 0))" by (simp add: b2_def low_def b1_def)
  have isr: "p_isr (b_pic b2 0) = push_bit i 1"
    unfolding c2 using i id by (intro accepted_lone) (simp_all add: up_def)
  have nr: "\<forall>j<8. \<not> pic_request (b_pic b2 0) j"
    unfolding c2 using i id by (intro allI impI accepted_no_request) (auto simp: up_def pic_request_def)
  have e: "pic_writeb 0x20 0x20 b2 = Some b3"
    unfolding b3_def using isr nr i id by (intro eoi_command) (auto simp: c2 up_def)
  have p2: "bit (p_pin_state (b_pic b2 0)) i" unfolding c2 using i by (simp add: up_def)
  have io2: "io_enabled (b_ioapic b2) = 0" using io by (simp add: b2_def low_def b1_def)
  have "pic_raise_irq i b2 = Some b2"
    using io2 p2 i by (simp add: pic_raise_irq_def raise_line)
  moreover have "pic_idle (b_pic b3 0)"
    using nr id by (simp add: b3_def pic_idle_def pic_request_def) (simp add: c2 up_def)
  moreover have "b_pic b3 1 = b_pic b 1" by (simp add: b3_def b2_def low_def b1_def)
  moreover have "m_intr_line_state (b_cpu b2) = 0"
    by (simp add: b2_def low_def b1_def cpu_lower_intr_line_def)
  moreover have "\<forall>j<8. bit (p_isr (b_pic b2 0)) j \<longleftrightarrow> j = i"
    unfolding isr using i by (auto simp: bit_exp_iff)
  ultimately show ?thesis using r g e by (auto simp: b1_def)
qed


lemma delivery_slave:
  assumes io: "io_enabled (b_ioapic b) = 0" and apic: "\<not> apic_has_interrupt b"
    and idle: "pic_idle (b_pic b 0)" "pic_idle (b_pic b 1)" and i: "i < 8"
    and pin: "\<not> bit (p_pin_state (b_pic b 1)) i"
    and imr: "\<not> bit (p_imr (b_pic b 0)) 2" "\<not> bit (p_imr (b_pic b 1)) i"
  shows "\<exists>b1 b2 b3 b4. pic_raise_irq (8 + i) b = Some b1 \<and> m_intr_line_state (b_cpu b1) = 1
     \<and> pic_get_interrupt b1 = Some (p_vector_offset (b_pic b 1) + of_nat i, b2)
     \<and> m_intr_line_state (b_cpu b2) = 0 \<and> (\<forall>j<8. bit (p_isr (b_pic b2 1)) j \<longleftrightarrow> j = i)
     \<and> pic_raise_irq (8 + i) b2 = Some b2
     \<and> pic_writeb 0xA0 0x20 b2 = Some b3 \<and> pic_writeb 0x20 0x20 b3 = Some b4
     \<and> pic_idle (b_pic b4 0) \<and> pic_idle (b_pic b4 1)"
proof -
  note id = idle [unfolded pic_idle_def]
  define up0 where "up0 = (\<lambda>c. (raised 2 (dropped 2 c))\<lparr>p_highest := 2\<rparr>)"
  define up1 where "up1 = (\<lambda>c. (raised i c)\<lparr>p_highest := of_nat i\<rparr>)"
  define b1 where "b1 = signal_irq (upd_pic 0 up0 (upd_pic 1 up1 b))"
  define low where "low = upd_pic 0 (accepted 2) (upd_cpu cpu_lower_intr_line b1)"
  define b2 where "b2 = upd_pic 1 (accepted i) low"
  define b3 where "b3 = upd_pic 1 (\<lambda>c. c\<lparr>p_ocw := (p_ocw c)(2 := 0x20), p_isr := 0\<rparr>) b2"
  define b4 where "b4 = upd_pic 0 (\<lambda>c. c\<lparr>p_ocw := (p_ocw c)(2 := 0x20), p_isr := 0\<rparr>) b3"
  have m: "(8 + i) mod 8 = i" "8 + i > 7" using i by auto
  have r: "pic_raise_irq (8 + i) b = Some b1"
    using assms id slave_signal [OF io idle(1) imr(1) i idle(2) imr(2)]
    by (simp add: pic_raise_irq_def m raise_line pic_update_def b1_def up0_def up1_def)
  have "pic_internal_get_interrupt 0 (upd_cpu cpu_lower_intr_line b1) = pic_internal_get_interrupt 1 low"
    using id unfolding low_def accepted_def [abs_def]
    by (subst acknowledge_cascade) (simp_all add: b1_def up0_def)
  also have "\<dots> = (p_vector_offset (b_pic low 1) + of_nat i, b2)"
    unfolding b2_def accepted_def [abs_def] using i id
    by (intro acknowledge_line) (simp_all add: low_def b1_def up1_def)
  finally have g: "pic_get_interrupt b1 = Some (p_vector_offset (b_pic b 1) + of_nat i, b2)"
    using apic by (simp add: pic_get_interrupt_def apic_has_interrupt_def low_def b1_def up1_def)
  have c0: "b_pic b2 0 = accepted 2 (up0 (b_pic b 0))" and c1: "b_pic b2 1 = accepted i (up1 (b_pic b 1))"
    by (simp_all add: b2_def low_def b1_def)
  have isr: "p_isr (b_pic b2 0) = push_bit 2 1" "p_isr (b_pic b2 1) = push_bit i 1"
    unfolding c0 c1 using i id by (intro accepted_lone; simp add: up0_def up1_def)+
  have nr0: "\<forall>j<8. \<not> pic_request (b_pic b2 0) j"
    unfolding c0 using id by (intro allI impI accepted_no_request) (auto simp: up0_def pic_request_def)
  have nr1: "\<forall>j<8. \<not> pic_request (b_pic b2 1) j"
    unfolding c1 using i id by (intro allI impI accepted_no_request) (auto simp: up1_def pic_request_def)
  have e1: "pic_writeb 0xA0 0x20 b2 = Some b3"
    unfolding b3_def using isr(2) nr1 i id by (intro eoi_command) (auto simp: c1 up1_def simp del: One_nat_def)
  have k3: "b_pic b3 0 = b_pic b2 0" by (simp add: b3_def)
  have e0: "pic_writeb 0x20 0x20 b3 = Some b4"
    unfolding b4_def using isr(1) nr0 id k3 by (intro eoi_command [where i = 2]) (auto simp: c0 up0_def)
  have p2: "bit (p_pin_state (b_pic b2 1)) i" unfolding c1 using i by (simp add: up1_def)
  have io2: "io_enabled (b_ioapic b2) = 0" using io by (simp add: b2_def low_def b1_def)
  have "pic_raise_irq (8 + i) b2 = Some b2"
    using io2 p2 i by (simp add: pic_raise_irq_def raise_line m)
  moreover have "p_priority_base (b_pic b2 0) \<le> 7" "p_autoeoi (b_pic b2 0) = 0"
      "p_priority_base (b_pic b2 1) \<le> 7" "p_autoeoi (b_pic b2 1) = 0"
    unfolding c0 c1 using id by (simp_all add: up0_def up1_def)
  then have "pic_idle (b_pic b4 0)" "pic_idle (b_pic b4 1)"
    using nr0 nr1 by (simp_all add: b4_def b3_def pic_idle_def pic_request_def)
  moreover have "m_intr_line_state (b_cpu b2) = 0"
    by (simp add: b2_def low_def b1_def cpu_lower_intr_line_def)
  moreover have "\<forall>j<8. bit (p_isr (b_pic b2 1)) j \<longleftrightarrow> j = i"
    unfolding isr using i by (auto simp: bit_exp_iff)
  ultimately show ?thesis using r g e1 e0 by (auto simp: b1_def)
qed

text \<open>
  C10. The life of an interrupt through the cascaded controllers, for each of the 15
  lines a device can use, with both controllers idle (nothing in service, no unmasked
  request, no automatic EOI), the line unmasked and low, the cascade line unmasked for a
  slave line, and the two APICs out of the way. Raising the line puts the CPU's line up; the
  acknowledge then returns the vector offset of the line's controller plus the line's
  number, takes the CPU's line down and has exactly this line in service in its controller;
  raising the still-high line again changes nothing (edge triggering); and the EOI commands
  of the handler make both controllers idle again.
\<close>

theorem pic_delivery:
  assumes io: "io_enabled (b_ioapic b) = 0" and apic: "\<not> apic_has_interrupt b"
    and idle: "pic_idle (b_pic b 0)" "pic_idle (b_pic b 1)"
    and line: "line < 16" "line \<noteq> 2" "k = (if line > 7 then 1 else 0)"
    and pin: "\<not> bit (p_pin_state (b_pic b k)) (line mod 8)"
    and imr: "\<not> bit (p_imr (b_pic b k)) (line mod 8)" "line > 7 \<longrightarrow> \<not> bit (p_imr (b_pic b 0)) 2"
  shows "\<exists>b1 b2 b3. pic_raise_irq line b = Some b1 \<and> m_intr_line_state (b_cpu b1) = 1
     \<and> pic_get_interrupt b1 = Some (p_vector_offset (b_pic b k) + of_nat (line mod 8), b2)
     \<and> m_intr_line_state (b_cpu b2) = 0
     \<and> (\<forall>j<8. bit (p_isr (b_pic b2 k)) j \<longleftrightarrow> j = line mod 8)
     \<and> pic_raise_irq line b2 = Some b2
     \<and> pic_handler_end line b2 = Some b3 \<and> pic_idle (b_pic b3 0) \<and> pic_idle (b_pic b3 1)"
proof (cases "line > 7")
  case False
  then have "line < 8" "k = 0" "line mod 8 = line" using line by auto
  then show ?thesis
    using delivery_master [OF io apic idle(1), of line] False line(2) pin imr idle(2)
    by (auto simp: pic_handler_end_def)
next
  case True
  define i where "i = line - 8"
  have i: "i < 8" "line = 8 + i" "line mod 8 = i" "k = 1"
    using True line by (auto simp: i_def mod_if)
  then show ?thesis
    using delivery_slave [OF io apic idle i(1)] True pin imr
    by (auto simp: pic_handler_end_def)
qed

text \<open>A board as an operating system sets it up: offsets 0x20 and 0x28, all lines open.\<close>

definition booted_board :: intr_board where
  "booted_board = upd_pic 0 (\<lambda>c. c\<lparr>p_vector_offset := 0x20, p_priority_base := 7\<rparr>)
     (upd_pic 1 (\<lambda>c. c\<lparr>p_vector_offset := 0x28, p_priority_base := 7\<rparr>) zero_board)"

lemma booted_idle [simp]:
  "pic_idle (b_pic booted_board 0)" "pic_idle (b_pic booted_board 1)"
  "io_enabled (b_ioapic booted_board) = 0" "\<not> apic_has_interrupt booted_board"
  "p_pin_state (b_pic booted_board k) = 0" "p_imr (b_pic booted_board k) = 0"
  "p_vector_offset (b_pic booted_board 1) = 0x28" "p_priority_base (b_pic booted_board 0) = 7"
  by (simp_all add: booted_board_def pic_idle_def pic_request_def zero_pic_def zero_ioapic_def
      zero_apic_def apic_has_interrupt_def)

lemma pic_delivery_witness:
  "\<exists>b1 b2. pic_raise_irq 14 booted_board = Some b1 \<and> m_intr_line_state (b_cpu b1) = 1
     \<and> pic_get_interrupt b1 = Some (0x2E, b2) \<and> m_intr_line_state (b_cpu b2) = 0"
  using pic_delivery [of booted_board 14 1] by (auto simp del: One_nat_def)

lemma pic_resolver_correct_witness:
  "pic_update 0 booted_board = Some booted_board"
proof -
  have "pic_idle (b_pic booted_board 0)" by simp
  then have "\<not> pic_winner (b_pic booted_board 0) i" if "i < 8" for i
    using that by (auto simp: pic_idle_def pic_winner_def)
  then show ?thesis using pic_resolver_correct [of booted_board] by simp
qed

end
