(* ===== verification/Fabric_Inv.thy ===== *)
theory Fabric_Inv
  imports Pic_Laws
begin

text \<open>
  An invariant of the interrupt fabric over all its steps: the local APIC claims the line
  only while it has a request, and the priority base and the recorded line of each 8259 are
  line numbers. It is what the acknowledge and the rotation of the resolver need. The steps
  are what devices, the guest and the CPU can do, one rule per entry point.
\<close>

definition apic_ok :: "apic_info \<Rightarrow> bool" where
  "apic_ok a \<longleftrightarrow> (a_intr_line_state a \<noteq> 0 \<longrightarrow> highest_set_bit (a_irr a) \<noteq> None)"

definition pic_ok :: "pic_controller \<Rightarrow> bool" where
  "pic_ok c \<longleftrightarrow> p_priority_base c \<le> 7 \<and> p_highest c \<le> 7"

definition fabric_ok :: "intr_board \<Rightarrow> bool" where
  "fabric_ok b \<longleftrightarrow> apic_ok (b_apic b) \<and> (\<forall>k. pic_ok (b_pic b k))"

lemma fabric_okI: "apic_ok (b_apic b) \<Longrightarrow> (\<And>k. pic_ok (b_pic b k)) \<Longrightarrow> fabric_ok b"
  by (simp add: fabric_ok_def)

lemma fabric_ok_parts [simp]:
  "fabric_ok (upd_cpu f b) = fabric_ok b" "fabric_ok (upd_ioapic h b) = fabric_ok b"
  "fabric_ok (signal_irq b) = fabric_ok b"
  by (simp_all add: fabric_ok_def)

lemma fabric_ok_apic: "fabric_ok b \<Longrightarrow> apic_ok (f (b_apic b)) \<Longrightarrow> fabric_ok (upd_apic f b)"
  by (simp add: fabric_ok_def)

lemma fabric_ok_pic: "fabric_ok b \<Longrightarrow> (\<And>c. pic_ok c \<Longrightarrow> pic_ok (f c)) \<Longrightarrow> fabric_ok (upd_pic k f b)"
  by (simp add: fabric_ok_def)

section \<open>The local APIC\<close>

lemma set_request: "highest_set_bit (set_bit256 m v True) \<noteq> None"
proof -
  have "v mod 256 = 32 * (v div 32 mod 8) + v mod 32" using mod_mult2_eq [of v 32 8] by simp
  then have "v mod 256 div 32 = v div 32 mod 8" "v mod 256 mod 32 = v mod 32" by auto
  then have s: "set_bit256 m v True = set_bit256 m (v mod 256) True" by (simp add: set_bit256_def Let_def)
  have "get_bit256 (set_bit256 m (v mod 256) True) (v mod 256)" by (simp add: vectors.get_set)
  moreover have "v mod 256 < 256" by simp
  ultimately show ?thesis unfolding s vectors.highest_None by blast
qed

lemma send_ok: "fabric_ok b \<Longrightarrow> fabric_ok (apic_send_highest_priority_interrupt b)"
  by (auto simp: apic_send_highest_priority_interrupt_def split: option.splits
      intro!: fabric_ok_apic) (auto simp: apic_ok_def)

lemma get_interrupt_ok: "fabric_ok b \<Longrightarrow> apic_get_interrupt b = Some (v, b') \<Longrightarrow> fabric_ok b'"
  by (auto simp: apic_get_interrupt_def Let_def split: option.splits
      intro!: fabric_ok_apic) (auto simp: apic_ok_def)

lemma request_ok:
  "fabric_ok b \<Longrightarrow> a_irr (f (b_apic b)) = set_bit256 m v True \<Longrightarrow> fabric_ok (upd_apic f b)"
  using set_request [of m v] by (auto intro!: fabric_ok_apic simp: apic_ok_def)

lemma apic_keep_ok:
  "fabric_ok b \<Longrightarrow> a_irr (f (b_apic b)) = a_irr (b_apic b) \<Longrightarrow>
     a_intr_line_state (f (b_apic b)) = a_intr_line_state (b_apic b) \<Longrightarrow> fabric_ok (upd_apic f b)"
  by (rule fabric_ok_apic) (auto simp: apic_ok_def fabric_ok_def)

lemma apic_upd_ok:
  "fabric_ok b \<Longrightarrow> (a_irr (f (b_apic b)) = a_irr (b_apic b) \<and>
       a_intr_line_state (f (b_apic b)) = a_intr_line_state (b_apic b))
     \<or> highest_set_bit (a_irr (f (b_apic b))) \<noteq> None \<Longrightarrow> fabric_ok (upd_apic f b)"
  by (rule fabric_ok_apic) (auto simp: apic_ok_def fabric_ok_def)

lemma receive_ok: "fabric_ok b \<Longrightarrow> apic_receive_bus_message v type tr b = Some b' \<Longrightarrow> fabric_ok b'"
  unfolding apic_receive_bus_message_def Let_def
  by (auto split: if_splits intro!: send_ok apic_upd_ok simp: set_request simp del: not_None_eq)

lemma ipi_ok:
  "fabric_ok b \<Longrightarrow> apic_send_ipi v mode tr b = Some b' \<Longrightarrow> fabric_ok b'"
  "fabric_ok b \<Longrightarrow> apic_send_ipi2 v mode tr dest b = Some b' \<Longrightarrow> fabric_ok b'"
  unfolding apic_send_ipi_def apic_send_ipi2_def Let_def
  by (auto split: if_splits elim!: receive_ok [rotated] intro: apic_keep_ok)

lemma remote_eoi_ok [simp]: "fabric_ok (ioapic_remote_eoi v b) = fabric_ok b"
  by (simp add: ioapic_remote_eoi_def)

text \<open>Registers 0x20 to 0x27 are the request bitmap itself; a guest that writes them is excluded.\<close>

definition irr_register :: "u32 \<Rightarrow> intr_board \<Rightarrow> bool" where
  "irr_register addr b \<longleftrightarrow>
     (let r = drop_bit 4 (addr - a_base (b_apic b)) in 0x20 \<le> r \<and> r \<le> 0x27)"

lemma apic_write_ok:
  assumes "fabric_ok b" "apic_write addr data b = Some b'" "\<not> irr_register addr b"
  shows "fabric_ok b'"
  using assms unfolding apic_write_def Let_def irr_register_def
  by (simp split: if_splits option.splits;
      auto intro!: send_ok apic_keep_ok elim!: ipi_ok [rotated] split: if_splits)

text \<open>A byte write collects, and the fourth byte makes the write.\<close>

lemma apic_writeb_ok:
  assumes "fabric_ok b" "apic_writeb addr data b = Some b'" "\<not> irr_register (addr AND NOT 3) b"
  shows "fabric_ok b'"
proof -
  let ?c = "upd_apic (\<lambda>a. a\<lparr>a_temp_data := (a_temp_data a AND NOT (push_bit (8 * unat (addr AND 3)) 0xFF))
      OR push_bit (8 * unat (addr AND 3)) data\<rparr>) b"
  have c: "fabric_ok ?c" using assms(1) by (rule apic_keep_ok) simp_all
  have r: "\<not> irr_register (addr AND NOT 3) ?c" using assms(3) by (simp add: irr_register_def)
  show ?thesis using assms(2) c apic_write_ok [OF c _ r] by (auto simp: apic_writeb_def Let_def split: if_splits)
qed

lemma apic_next_ok: "fabric_ok b \<Longrightarrow> apic_next now b = Some (d, b') \<Longrightarrow> fabric_ok b'"
  unfolding apic_next_def Let_def
  by (auto split: if_splits bind_splits elim!: receive_ok [rotated] intro!: apic_keep_ok)

section \<open>The I/O APIC and the 8259 pair\<close>

text \<open>The state change of an acknowledge at one controller.\<close>

definition pic_accept :: "nat \<Rightarrow> intr_board \<Rightarrow> intr_board" where
  "pic_accept k b =
     (let c = b_pic b k; irq = p_highest c; irq_mask = push_bit (unat irq) (1 :: u32);
          b = upd_pic k (\<lambda>c. c\<lparr>p_irr := p_irr c XOR ucast irq_mask\<rparr>) b
      in if p_autoeoi c \<noteq> 0
         then (if p_rotate_on_autoeoi c \<noteq> 0 then upd_pic k (\<lambda>c. c\<lparr>p_priority_base := irq\<rparr>) b else b)
         else upd_pic k (\<lambda>c. c\<lparr>p_isr := p_isr c OR ucast irq_mask\<rparr>) b)"

lemma get_step:
  "pic_internal_get_interrupt k b =
     (if ucast (p_irr (b_pic b k)) AND push_bit (unat (p_highest (b_pic b k))) (1 :: u32) = 0
      then (p_vector_offset (b_pic b k) OR 7, b)
      else if k = 0 \<and> p_highest (b_pic b k) = 2 then pic_internal_get_interrupt 1 (pic_accept k b)
      else (p_vector_offset (b_pic b k) + p_highest (b_pic b k), pic_accept k b))"
  by (subst pic_internal_get_interrupt.simps) (simp only: Let_def pic_accept_def)

lemma accept_ok: "fabric_ok b \<Longrightarrow> fabric_ok (pic_accept k b)"
  unfolding pic_accept_def Let_def
  by (auto simp: pic_ok_def fabric_ok_def simp del: upd_twice)

lemma internal_get_ok: "fabric_ok b \<Longrightarrow> fabric_ok (snd (pic_internal_get_interrupt k b))"
proof -
  have one: "fabric_ok b \<Longrightarrow> fabric_ok (snd (pic_internal_get_interrupt (Suc 0) b))" for b
    by (subst get_step) (auto intro: accept_ok)
  assume "fabric_ok b"
  then show ?thesis by (subst get_step) (auto intro: accept_ok one)
qed

lemma pic_get_ok: "fabric_ok b \<Longrightarrow> pic_get_interrupt b = Some (v, b') \<Longrightarrow> fabric_ok b'"
  using internal_get_ok [of "upd_cpu cpu_lower_intr_line b" 0]
  by (auto simp: pic_get_interrupt_def intro: get_interrupt_ok split: if_splits)

lemma entry_ok: "fabric_ok b \<Longrightarrow> ioapic_entry i b = Some b' \<Longrightarrow> fabric_ok b'"
  unfolding ioapic_entry_def Let_def
  by (auto split: if_splits bind_splits elim!: receive_ok [rotated] dest: pic_get_ok [rotated])

lemma entries_ok: "fabric_ok b \<Longrightarrow> ioapic_entries is b = Some b' \<Longrightarrow> fabric_ok b'"
  by (induction "is" arbitrary: b) (auto split: bind_splits dest: entry_ok)

lemma ioapic_update_ok: "fabric_ok b \<Longrightarrow> ioapic_update b = Some b' \<Longrightarrow> fabric_ok b'"
  unfolding ioapic_update_def by (rule entries_ok)

lemma ioapic_ok:
  "fabric_ok b \<Longrightarrow> ioapic_raise_irq i b = Some b' \<Longrightarrow> fabric_ok b'"
  "fabric_ok b \<Longrightarrow> fabric_ok (ioapic_lower_irq i b)"
  "fabric_ok b \<Longrightarrow> ioapic_write addr data b = Some b' \<Longrightarrow> fabric_ok b'"
  unfolding ioapic_raise_irq_def ioapic_lower_irq_def ioapic_write_def Let_def
  by (auto split: if_splits elim!: ioapic_update_ok [rotated])

lemma ioapic_writeb_ok: "fabric_ok b \<Longrightarrow> ioapic_writeb addr data b = Some b' \<Longrightarrow> fabric_ok b'"
  unfolding ioapic_writeb_def Let_def by (auto split: if_splits elim!: ioapic_ok(3) [rotated])

text \<open>The resolver keeps the invariant if what it notifies does.\<close>

lemma internal_update_ok:
  assumes n: "\<And>b b'. fabric_ok b \<Longrightarrow> n b = Some b' \<Longrightarrow> fabric_ok b'"
    and b: "fabric_ok b" "pic_internal_update n k b = Some b'"
  shows "fabric_ok b'"
proof (cases "pic_select (b_pic b k)")
  case None then show ?thesis using b by (simp add: pic_internal_update_def)
next
  case (Some irq)
  then have "fabric_ok (upd_pic k (\<lambda>c. c\<lparr>p_highest := irq\<rparr>) b)"
    using b(1) select_le_7 [OF Some] by (intro fabric_ok_pic) (auto simp: pic_ok_def)
  then show ?thesis by (rule n) (use b(2) Some in \<open>simp add: pic_internal_update_def\<close>)
qed

lemma internal_raise_ok:
  assumes u: "\<And>b b'. fabric_ok b \<Longrightarrow> u b = Some b' \<Longrightarrow> fabric_ok b'"
    and b: "fabric_ok b" "pic_internal_raise_irq u k i b = Some b'"
  shows "fabric_ok b'"
proof -
  let ?m = "push_bit i 1 :: u8"
  have "fabric_ok (upd_pic k (\<lambda>c. c\<lparr>p_pin_state := p_pin_state c OR ?m, p_irr := p_irr c OR ?m\<rparr>) b)"
    using b(1) by (intro fabric_ok_pic) (auto simp: pic_ok_def)
  note ok = u [OF this]
  show ?thesis
  proof (cases "p_pin_state (b_pic b k) AND ?m = 0")
    case True then show ?thesis using b(2) ok by (simp add: pic_internal_raise_irq_def Let_def)
  next
    case False then show ?thesis using b by (simp add: pic_internal_raise_irq_def Let_def)
  qed
qed

lemma drop_ok: "fabric_ok b \<Longrightarrow> fabric_ok (pic_drop_irq k i b)"
  by (auto simp: drop_line pic_ok_def dropped_def intro!: fabric_ok_pic)

lemma master_ok:
  "fabric_ok b \<Longrightarrow> pic_update_master b = Some b' \<Longrightarrow> fabric_ok b'"
  "fabric_ok b \<Longrightarrow> pic_raise_master i b = Some b' \<Longrightarrow> fabric_ok b'"
  "fabric_ok b \<Longrightarrow> fabric_ok (pic_lower_master i b)"
proof -
  show u: "fabric_ok b \<Longrightarrow> pic_update_master b = Some b' \<Longrightarrow> fabric_ok b'" for b b'
    unfolding pic_update_master_def by (erule internal_update_ok [rotated]) auto
  show "fabric_ok b'" if b: "fabric_ok b" and r: "pic_raise_master i b = Some b'"
  proof -
    obtain c where "ioapic_raise_irq i b = Some c" "pic_internal_raise_irq pic_update_master 0 i c = Some b'"
      using r by (auto simp: pic_raise_master_def split: bind_splits)
    note c = ioapic_ok(1) [OF b this(1)] this(2)
    show ?thesis by (rule internal_raise_ok [OF _ c]) (rule u)
  qed
  show "fabric_ok b \<Longrightarrow> fabric_ok (pic_lower_master i b)"
    unfolding pic_lower_master_def by (intro drop_ok ioapic_ok(2))
qed

lemma update_ok: "fabric_ok b \<Longrightarrow> pic_update k b = Some b' \<Longrightarrow> fabric_ok b'"
proof -
  have "fabric_ok b \<Longrightarrow> pic_update_slave b = Some b' \<Longrightarrow> fabric_ok b'" for b b'
    unfolding pic_update_slave_def by (erule internal_update_ok [rotated]) (auto intro: master_ok)
  then show "fabric_ok b \<Longrightarrow> pic_update k b = Some b' \<Longrightarrow> fabric_ok b'"
    by (auto simp: pic_update_def intro: master_ok split: if_splits)
qed

lemma lines_ok:
  "fabric_ok b \<Longrightarrow> pic_raise_irq i b = Some b' \<Longrightarrow> fabric_ok b'"
  "fabric_ok b \<Longrightarrow> fabric_ok (pic_lower_irq i b)"
proof -
  show "fabric_ok b'" if b: "fabric_ok b" and r: "pic_raise_irq i b = Some b'"
  proof -
    obtain c k where "ioapic_raise_irq i b = Some c"
        "pic_internal_raise_irq (pic_update k) k (i mod 8) c = Some b'"
      using r by (auto simp: pic_raise_irq_def Let_def split: bind_splits)
    note c = ioapic_ok(1) [OF b this(1)] this(2)
    show ?thesis by (rule internal_raise_ok [OF _ c]) (rule update_ok)
  qed
  show "fabric_ok b \<Longrightarrow> fabric_ok (pic_lower_irq i b)"
    unfolding pic_lower_irq_def pic_internal_lower_irq_def Let_def
    by (auto intro: drop_ok master_ok ioapic_ok)
qed


section \<open>The guest's writes to the 8259\<close>

lemma icw_ok: "pic_ok c \<Longrightarrow> pic_ok (pic_write_icw icw v c)"
  by (auto simp: pic_write_icw_def Let_def pic_ok_def)

lemma clear_ok: "pic_ok c \<Longrightarrow> pic_ok (pic_clear_specific l c)" "pic_ok c \<Longrightarrow> pic_ok (pic_clear_highest_priority c)"
proof -
  have "pic_ok c \<Longrightarrow> pic_ok (pic_clear_first is h c)" for "is" h
    by (induction "is") (auto simp: Let_def pic_ok_def)
  then show "pic_ok c \<Longrightarrow> pic_ok (pic_clear_specific l c)" "pic_ok c \<Longrightarrow> pic_ok (pic_clear_highest_priority c)"
    by (auto simp: pic_clear_specific_def pic_clear_highest_priority_def pic_ok_def)
qed

lemma priority_ok: "pic_ok c \<Longrightarrow> pic_ok (pic_set_priority (unat (d AND 7)) c)" for d :: u32
proof -
  have "d AND 7 \<le> 7" by (rule word_and_le1)
  then have "unat (d AND 7) \<le> 7" by (simp add: word_le_nat_alt)
  moreover have "unat (of_nat (unat (d AND 7)) :: u8) = take_bit 8 (unat (d AND 7))"
    by (simp only: unsigned_of_nat) simp
  ultimately have "(of_nat (unat (d AND 7)) :: u8) \<le> 7"
    by (simp only: word_le_nat_alt) (simp add: take_bit_nat_eq_self)
  then show "pic_ok c \<Longrightarrow> pic_ok (pic_set_priority (unat (d AND 7)) c)"
    by (simp add: pic_set_priority_def pic_ok_def)
qed

lemma ocw_ok: "fabric_ok b \<Longrightarrow> pic_write_ocw k i d b = Some b' \<Longrightarrow> fabric_ok b'"
proof -
  have w: "fabric_ok b \<Longrightarrow> (\<And>c. pic_ok c \<Longrightarrow> pic_ok (f c)) \<Longrightarrow> pic_update k (upd_pic k f b) = Some b' \<Longrightarrow> fabric_ok b'"
    for f b by (erule update_ok [rotated]) (rule fabric_ok_pic)
  show "fabric_ok b \<Longrightarrow> pic_write_ocw k i d b = Some b' \<Longrightarrow> fabric_ok b'"
    unfolding pic_write_ocw_def Let_def
    by (auto split: if_splits elim!: w [rotated 2] intro!: fabric_ok_pic priority_ok clear_ok)
      (auto simp: pic_ok_def)
qed

lemma writeb_ok: "fabric_ok b \<Longrightarrow> pic_writeb addr d b = Some b' \<Longrightarrow> fabric_ok b'"
  unfolding pic_writeb_def Let_def
  by (auto split: if_splits elim!: ocw_ok [rotated] intro!: fabric_ok_pic icw_ok simp: pic_ok_def)


section \<open>Reachable states of the fabric\<close>

text \<open>
  The machine is started with or without the APICs (the configuration), in the order of pc.cpp. One step
  of the machine around the fabric: a device raises or lowers one of its lines, the CPU acknowledges, the
  guest writes a register (whole or, at the APICs, byte by byte), the timer is polled, a device is reset. A
  call that aborts has no successor; a guest that writes the request bitmap of the local APIC is excluded.
\<close>

definition started :: "u32 \<Rightarrow> intr_board" where
  "started apic_enabled = ioapic_init apic_enabled (apic_init apic_enabled zero_board)"

inductive fabric_step :: "intr_board \<Rightarrow> intr_board \<Rightarrow> bool" where
  raise_line: "line < 16 \<Longrightarrow> pic_raise_irq line b = Some b' \<Longrightarrow> fabric_step b b'"
| lower_line: "line < 16 \<Longrightarrow> fabric_step b (pic_lower_irq line b)"
| acknowledge: "pic_get_interrupt b = Some (v, b') \<Longrightarrow> fabric_step b b'"
| write_pic: "pic_writeb addr data b = Some b' \<Longrightarrow> fabric_step b b'"
| write_elcr: "fabric_step b (pic_elcr_write addr data b)"
| write_ioapic: "ioapic_write addr data b = Some b' \<Longrightarrow> fabric_step b b'"
| write_apic: "apic_write addr data b = Some b' \<Longrightarrow> \<not> irr_register addr b \<Longrightarrow> fabric_step b b'"
| write_ioapic_byte: "ioapic_writeb addr data b = Some b' \<Longrightarrow> fabric_step b b'"
| write_apic_byte: "apic_writeb addr data b = Some b' \<Longrightarrow> \<not> irr_register (addr AND NOT 3) b \<Longrightarrow> fabric_step b b'"
| timer: "apic_next now b = Some (d, b') \<Longrightarrow> fabric_step b b'"
| clock: "fabric_step b (upd_cpu f b)"
| reset_pic: "fabric_step b (pic_reset b)"
| reset_ioapic: "fabric_step b (ioapic_reset b)"
| reset_apic: "fabric_step b (apic_reset b)"

inductive fabric_reachable :: "intr_board \<Rightarrow> bool" where
  power_on: "fabric_reachable (started apic_enabled)"
| step: "fabric_reachable b \<Longrightarrow> fabric_step b b' \<Longrightarrow> fabric_reachable b'"

lemma started_ok: "fabric_ok (started e)"
  by (simp add: started_def apic_init_def ioapic_init_def fabric_ok_def apic_ok_def pic_ok_def zero_apic_def zero_pic_def)

lemma fabric_step_ok: "fabric_step b b' \<Longrightarrow> fabric_ok b \<Longrightarrow> fabric_ok b'"
proof (induction rule: fabric_step.induct)
  case raise_line then show ?case by (blast dest: lines_ok(1))
next
  case lower_line then show ?case by (blast dest: lines_ok(2))
next
  case acknowledge then show ?case by (blast dest: pic_get_ok)
next
  case write_pic then show ?case by (blast dest: writeb_ok)
next
  case (write_elcr b addr data)
  then show ?case by (auto simp: pic_elcr_write_def pic_ok_def intro!: fabric_ok_pic)
next
  case write_ioapic then show ?case by (blast dest: ioapic_ok(3))
next
  case write_apic then show ?case by (blast dest: apic_write_ok)
next
  case write_ioapic_byte then show ?case by (blast dest: ioapic_writeb_ok)
next
  case write_apic_byte then show ?case by (blast dest: apic_writeb_ok)
next
  case timer then show ?case by (blast dest: apic_next_ok)
next
  case (reset_pic b)
  then show ?case by (simp add: pic_reset_def fabric_ok_def pic_ok_def)
next
  case (reset_apic b)
  then show ?case by (auto simp: apic_reset_def intro!: apic_keep_ok)
qed (simp_all add: ioapic_reset_def)

lemma reachable_ok: "fabric_reachable b \<Longrightarrow> fabric_ok b"
  by (induction rule: fabric_reachable.induct) (auto intro: started_ok fabric_step_ok)

text \<open>
  C9. In every state the interrupt fabric can reach from its start, with the APICs enabled or
  not, by any sequence of line changes (which go to the I/O APIC as well), acknowledges, register writes,
  whole or byte by byte (those to the request bitmap of the local APIC apart), polls of the APIC timer and resets: the priority base of each 8259 and the line it reports are
  line numbers, so the rotation of the resolver and the mask of the acknowledge shift by a
  defined count; and while the local APIC holds the line it has a request, so that the
  acknowledge of the CPU never aborts and yields a vector.
\<close>

theorem fabric_invariant:
  assumes "fabric_reachable b"
  shows "p_priority_base (b_pic b k) \<le> 7 \<and> p_highest (b_pic b k) \<le> 7
     \<and> (apic_has_interrupt b \<longrightarrow> (\<exists>v < 256. requested b v))
     \<and> (\<exists>v b'. pic_get_interrupt b = Some (v, b') \<and> fabric_reachable b')"
proof -
  have ok: "fabric_ok b" using assms by (rule reachable_ok)
  have r: "\<exists>v. highest_set_bit (a_irr (b_apic b)) = Some v" if "apic_has_interrupt b"
    using ok that by (auto simp: fabric_ok_def apic_ok_def apic_has_interrupt_def)
  then have g: "\<exists>v b'. pic_get_interrupt b = Some (v, b')"
    by (cases "apic_has_interrupt b") (auto simp: pic_get_interrupt_def apic_get_interrupt_def Let_def)
  then have "\<exists>v b'. pic_get_interrupt b = Some (v, b') \<and> fabric_reachable b'"
    using assms by (blast intro: fabric_reachable.step fabric_step.acknowledge)
  moreover have "apic_has_interrupt b \<longrightarrow> (\<exists>v < 256. requested b v)"
    using r by (auto simp: requested_def vectors.highest_Some)
  ultimately show ?thesis using ok by (auto simp: fabric_ok_def pic_ok_def)
qed

text \<open>
  The example: with the APICs enabled, the guest routes line 5 as vector 0x41 to the local APIC, and the line
  goes up.
\<close>

definition routed_board :: "intr_board option" where
  "routed_board = do {
     b \<leftarrow> ioapic_write 0xFEC00000 0x1A (started 1);
     b \<leftarrow> ioapic_write 0xFEC00010 0x41 b;
     pic_raise_irq 5 b
   }"

lemma entries_skip: "\<forall>i \<in> set is. \<not> bit (io_irr (b_ioapic b)) i \<Longrightarrow> ioapic_entries is b = Some b"
  by (induction "is") (simp_all add: ioapic_entry_def)

lemma entries_append: "ioapic_entries (is @ js) b = Option.bind (ioapic_entries is b) (ioapic_entries js)"
  by (induction "is" arbitrary: b) (auto split: bind_splits)

text \<open>A single pending line.\<close>

lemma update_single:
  assumes "\<forall>i. bit (io_irr (b_ioapic b)) i \<longleftrightarrow> i = k" "k < 24" "ioapic_entry k b = Some c" "io_irr (b_ioapic c) = 0"
  shows "ioapic_update b = Some c"
proof -
  have "[0..<24] = [0..<k] @ k # [Suc k..<24]" using assms(2) upt_add_eq_append [of 0 k "24 - k"] upt_conv_Cons [of k 24] by simp
  then have "ioapic_update b = Option.bind (ioapic_entries [0..<k] b) (ioapic_entries (k # [Suc k..<24]))"
    unfolding ioapic_update_def by (simp only: entries_append)
  moreover have "ioapic_entries [0..<k] b = Some b" using assms(1) by (intro entries_skip) simp
  moreover have "ioapic_entries [Suc k..<24] c = Some c" using assms(4) by (intro entries_skip) simp
  ultimately show ?thesis using assms(3) by simp
qed

lemma self_message:
  assumes "a_irr (b_apic b) = (\<lambda>_. 0)" "a_isr (b_apic b) = (\<lambda>_. 0)" "a_intr_line_state (b_apic b) = 0" "a_task_priority (b_apic b) = 0"
  shows "\<exists>c. apic_receive_bus_message 0x41 0 False b = Some c \<and> apic_has_interrupt c \<and> b_ioapic c = b_ioapic b"
proof -
  define c where "c = upd_apic (\<lambda>a. a\<lparr>a_irr := set_bit256 (a_irr a) 0x41 True, a_tmr := set_bit256 (a_tmr a) 0x41 False\<rparr>) b"
  have m: "apic_receive_bus_message 0x41 0 False b = Some (apic_send_highest_priority_interrupt c)"
    using vector_valid [of "0x41"] assms(1)
    by (simp add: apic_receive_bus_message_def c_def get_bit256_def)
  have "highest_set_bit (set_bit256 (\<lambda>_. 0) 0x41 True) = Some 0x41" by code_simp
  then have h: "highest_set_bit (a_irr (b_apic c)) = Some 0x41" by (simp add: c_def assms(1))
  have p: "passes c 0x41" by (simp add: passes_def in_service_def c_def assms get_bit256_def)
  have "a_intr_line_state (b_apic c) \<noteq> 1" by (simp add: c_def assms(3))
  note s = send_line [OF h this]
  have "b_ioapic (apic_send_highest_priority_interrupt c) = b_ioapic b"
    by (simp add: apic_send_highest_priority_interrupt_def c_def split: option.split)
  then show ?thesis using m s p by (auto simp: apic_has_interrupt_def)
qed

lemma raise_keeps_apic: "pic_internal_raise_irq pic_update_master 0 i b = Some c \<Longrightarrow> apic_has_interrupt c = apic_has_interrupt b"
  by (auto simp: pic_internal_raise_irq_def pic_update_master_def pic_internal_update_def apic_has_interrupt_def Let_def signal_irq_def
      split: if_splits option.splits)

lemma raise_returns: "\<exists>c. pic_internal_raise_irq pic_update_master 0 i b = Some c"
  by (auto simp: pic_internal_raise_irq_def pic_update_master_def pic_internal_update_def Let_def split: option.split)

definition selected :: intr_board where
  "selected = upd_ioapic (\<lambda>io. io\<lparr>io_redtbl := (io_redtbl io)(10 := 0x41)\<rparr>)
     (upd_ioapic (\<lambda>io. io\<lparr>io_register_selected := 0x1A\<rparr>) (started 1))"

definition pending :: intr_board where
  "pending = upd_ioapic (\<lambda>io. io\<lparr>io_irr := io_irr io OR 32, io_pin_state := io_pin_state io OR 32\<rparr>)
     (upd_ioapic (\<lambda>io. io\<lparr>io_redtbl := (io_redtbl io)(10 := io_redtbl io 10 OR 0x2000)\<rparr>) selected)"

lemma bit_32: "bit (32 :: u32) i \<longleftrightarrow> i = 5"
proof -
  have "(32::u32) = push_bit 5 1" by simp
  then show ?thesis by (simp only: bit_push_bit_iff) (auto simp: bit_1_iff)
qed

lemma routed_line: "\<exists>b. routed_board = Some b \<and> apic_has_interrupt b"
proof -
  note started = started_def apic_init_def ioapic_init_def zero_ioapic_def
  have "ioapic_update selected = Some selected"
    unfolding ioapic_update_def by (rule entries_skip) (simp add: selected_def started)
  then have w: "Option.bind (ioapic_write 0xFEC00000 0x1A (started 1)) (ioapic_write 0xFEC00010 0x41) = Some selected"
    by (simp add: ioapic_write_def selected_def started fun_upd_def)
  have r: "ioapic_raise_irq 5 selected = ioapic_update pending"
    by (simp add: ioapic_raise_irq_def pending_def selected_def started)
  let ?q = "upd_ioapic (\<lambda>io. io\<lparr>io_irr := io_irr io AND NOT (push_bit 5 1)\<rparr>) pending"
  obtain c where c: "apic_receive_bus_message 0x41 0 False ?q = Some c" "apic_has_interrupt c" "b_ioapic c = b_ioapic ?q"
    using self_message [of ?q] by (auto simp: pending_def selected_def started zero_apic_def)
  have p: "io_redtbl (b_ioapic pending) 10 = 0x2041" "io_irr (b_ioapic pending) = 32" "io_irr (b_ioapic ?q) = 0"
    by (simp_all add: pending_def selected_def started)
  have "ioapic_entry 5 pending = Some c"
    using c(1) by (simp add: ioapic_entry_def p(1,2) bit_32)
  then have u: "ioapic_update pending = Some c"
    using c(3) p(3) by (intro update_single [of _ 5]) (simp only: p(2) bit_32 simp_thms, simp_all)
  obtain b where b: "pic_internal_raise_irq pic_update_master 0 5 c = Some b" using raise_returns by blast
  have "routed_board = Option.bind (Some selected) (pic_raise_irq 5)"
    unfolding routed_board_def w [symmetric] by (simp split: bind_splits)
  then have "routed_board = Some b" using b u r by (simp add: pic_raise_irq_def pic_update_def)
  then show ?thesis using c(2) raise_keeps_apic [OF b] by blast
qed
lemma routed_reachable: "routed_board = Some b \<Longrightarrow> fabric_reachable b"
proof -
  assume "routed_board = Some b"
  then obtain b1 b2 where b: "ioapic_write 0xFEC00000 0x1A (started 1) = Some b1"
    "ioapic_write 0xFEC00010 0x41 b1 = Some b2" "pic_raise_irq 5 b2 = Some b"
    by (auto simp: routed_board_def split: bind_splits)
  note step = fabric_reachable.step
  have "fabric_reachable b2"
    by (rule step [OF step [OF fabric_reachable.power_on fabric_step.write_ioapic [OF b(1)]] fabric_step.write_ioapic [OF b(2)]])
  then show ?thesis by (rule step [OF _ fabric_step.raise_line [OF _ b(3)]]) simp
qed

theorem fabric_invariant_witness:
  "\<exists>b. routed_board = Some b \<and> apic_has_interrupt b \<and> (\<exists>v < 256. requested b v)
     \<and> (\<exists>v b'. pic_get_interrupt b = Some (v, b') \<and> fabric_reachable b')"
proof -
  obtain b where b: "routed_board = Some b" "apic_has_interrupt b" using routed_line by blast
  from fabric_invariant [OF routed_reachable [OF b(1)], of 0] show ?thesis using b by blast
qed

end
