(* ===== verification/Pic_Init.thy ===== *)
theory Pic_Init
  imports Fabric_Inv
begin

text \<open>
  The initialisation sequence of the 8259: how many bytes the controller expects after the
  first command word, and what they set.
\<close>

fun pic_data_writes :: "u32 \<Rightarrow> u32 list \<Rightarrow> intr_board \<Rightarrow> intr_board option" where
  "pic_data_writes port [] b = Some b"
| "pic_data_writes port (d # ds) b = do { b \<leftarrow> pic_writeb port d b; pic_data_writes port ds b }"

definition pic_base :: "nat \<Rightarrow> u32" where
  "pic_base k = (if k = 0 then 0x20 else 0xA0)"

lemma data_port:
  "k < 2 \<Longrightarrow> p_in_initialization (b_pic b k) \<noteq> 0 \<Longrightarrow>
     pic_writeb (pic_base k + 1) d b = Some (upd_pic k
       (\<lambda>c. pic_write_icw (unat (p_icw_index c)) (ucast d) c) b)"
  by (cases "k = 0") (auto simp: pic_writeb_def Let_def pic_base_def less_2_cases_iff)

lemma command_port:
  assumes "bit d 4"
  shows "pic_writeb (pic_base k) d b = Some (upd_pic (of_bool (k \<noteq> 0)) (pic_write_icw 1 (ucast d))
     (upd_cpu cpu_lower_intr_line (upd_pic (of_bool (k \<noteq> 0)) (\<lambda>c. c\<lparr>p_in_initialization := 1, p_imr := 0, p_isr := 0, p_irr := 0,
                    p_priority_base := 7, p_autoeoi := 0, p_rotate_on_autoeoi := 0\<rparr>) b)))"
proof -
  have "bit (drop_bit 3 d AND 3) 1" using assms by (simp add: bit_and_iff bit_drop_bit_eq)
  then have "drop_bit 3 d AND 3 \<noteq> 0" "drop_bit 3 d AND 3 \<noteq> 1" by auto
  then show ?thesis by (simp add: pic_writeb_def Let_def pic_base_def)
qed

lemma low_bits: "(ucast d :: u8) AND 2 \<noteq> 0 \<longleftrightarrow> bit d 1" "(ucast d :: u8) AND 1 = of_bool (bit d 0)" for d :: u32
  using bit_line(3) [of 1 "ucast d"] by (auto simp: bit_low8)

text \<open>
  C36. Initialising a controller, whatever its state was. The first command word
  (bit 4 set, on the command port) starts the sequence; the controller then takes ICW2, ICW3
  exactly when bit 1 (single) is clear, and ICW4 exactly when bit 0 is set, from the data
  port. After these bytes, and not before the last of them, it leaves the initialisation:
  its vector offset is ICW2 with the low three bits cleared, automatic EOI is as ICW4 says
  (off without ICW4), nothing is masked, requested or in service and line 0 has the highest
  priority.
\<close>

theorem pic_initialisation:
  assumes "bit icw1 4" "k < 2"
    and ds: "ds = [icw2] @ (if bit icw1 1 then [] else [icw3]) @ (if bit icw1 0 then [icw4] else [])"
  shows "\<exists>b1 b2 b3. pic_writeb (pic_base k) icw1 b = Some b1
     \<and> pic_data_writes (pic_base k + 1) (butlast ds) b1 = Some b2 \<and> p_in_initialization (b_pic b2 k) = 1
     \<and> pic_data_writes (pic_base k + 1) ds b1 = Some b3 \<and> p_in_initialization (b_pic b3 k) = 0
     \<and> p_vector_offset (b_pic b3 k) = ucast icw2 AND NOT 7
     \<and> (p_autoeoi (b_pic b3 k) \<noteq> 0 \<longleftrightarrow> bit icw1 0 \<and> bit icw4 1)
     \<and> p_imr (b_pic b3 k) = 0 \<and> p_irr (b_pic b3 k) = 0 \<and> p_isr (b_pic b3 k) = 0
     \<and> p_priority_base (b_pic b3 k) = 7"
proof -
  have k: "of_bool (k \<noteq> 0) = k" using assms(2) by auto
  show ?thesis
    using low_bits [of icw1] low_bits(1) [of icw4] command_port [OF assms(1), of k b]
    unfolding ds k
    by (cases "bit icw1 0"; cases "bit icw1 1")
      (simp_all add: data_port [OF assms(2)] pic_write_icw_def Let_def del: and_one_of_bool)
qed

lemma pic_initialisation_witness:
  "\<exists>b1 b3. pic_writeb 0x20 0x11 zero_board = Some b1
     \<and> pic_data_writes 0x21 [0x20, 4, 1] b1 = Some b3 \<and> p_vector_offset (b_pic b3 0) = 0x20
     \<and> p_in_initialization (b_pic b3 0) = 0"
  using pic_initialisation [of "0x11" 0 "[0x20, 4, 1]" "0x20" 4 1 zero_board]
  by (auto simp: pic_base_def)

end
