(* ===== verification/Eflags.thy ===== *)
theory Eflags
  imports Cpu_State
begin

text \<open>
  Model of src/src/cpu/eflags.cpp. The emulator does not compute the status flags when
  an instruction runs: it stores the operands (\<open>m_lop1\<close>, \<open>m_lop2\<close>), the
  sign-extended result (\<open>m_lr\<close>) and the kind of operation (low six bits of
  \<open>m_laux\<close>), and the getters below recover each flag on demand. Bits 7 and 31 of
  \<open>m_laux\<close> correct the parity and the sign read from \<open>m_lr\<close>. A getter whose tag
  is no operation calls \<open>abort()\<close>: \<open>None\<close>.
\<close>

section \<open>Reading one flag\<close>

definition cpu_get_sf :: "'z cpu_flags_scheme \<Rightarrow> u32" where
  "cpu_get_sf s = drop_bit 31 (m_lr s XOR m_laux s)"

definition cpu_set_sf :: "u32 \<Rightarrow> 'z cpu_flags_scheme \<Rightarrow> 'z cpu_flags_scheme" where
  "cpu_set_sf b s =
     s\<lparr>m_laux := (m_laux s AND NOT 0x80000000) OR ((m_lr s XOR push_bit 31 b) AND 0x80000000)\<rparr>"

definition cpu_get_pf :: "'z cpu_flags_scheme \<Rightarrow> u32" where
  "cpu_get_pf s =
     (let v = (m_lr s XOR (m_laux s AND 0x80)) AND 0xFF;
          v = v XOR drop_bit 4 v;
          v = v AND 0x0F
      in drop_bit (unat v) 0x9669 AND 1)"

definition cpu_set_pf :: "u32 \<Rightarrow> 'z cpu_flags_scheme \<Rightarrow> 'z cpu_flags_scheme" where
  "cpu_set_pf b s =
     s\<lparr>m_laux := (m_laux s AND NOT 0x80) OR push_bit 7 (cpu_get_pf s XOR b)\<rparr>"

definition cpu_get_cf :: "'z cpu_flags_scheme \<Rightarrow> u32 option" where
  "cpu_get_cf s =
     (let lr = m_lr s; l1 = m_lop1 s; l2 = m_lop2 s;
          adc = l1 XOR ((l1 XOR l2) AND (l2 XOR lr));
          sbb = lr XOR ((lr XOR l2) AND (l1 XOR l2))
      in case laux_op s of
        None \<Rightarrow> None
      | Some MUL \<Rightarrow> Some (of_bool (l1 \<noteq> l2))
      | Some ADD8 \<Rightarrow> Some (of_bool (lr AND 0xFF < l2 AND 0xFF))
      | Some ADD16 \<Rightarrow> Some (of_bool (lr AND 0xFFFF < l2 AND 0xFFFF))
      | Some ADD32 \<Rightarrow> Some (of_bool (lr < l2))
      | Some SUB8 \<Rightarrow> Some (of_bool (l2 > (l2 + lr) AND 0xFF))
      | Some SUB16 \<Rightarrow> Some (of_bool (l2 > (l2 + lr) AND 0xFFFF))
      | Some SUB32 \<Rightarrow> Some (of_bool (l2 > l2 + lr))
      | Some ADC8 \<Rightarrow> Some (drop_bit 7 adc AND 1)
      | Some ADC16 \<Rightarrow> Some (drop_bit 15 adc AND 1)
      | Some ADC32 \<Rightarrow> Some (drop_bit 31 adc AND 1)
      | Some SBB8 \<Rightarrow> Some (drop_bit 7 sbb AND 1)
      | Some SBB16 \<Rightarrow> Some (drop_bit 15 sbb AND 1)
      | Some SBB32 \<Rightarrow> Some (drop_bit 31 sbb AND 1)
      | Some SHR8 \<Rightarrow> map_option (\<lambda>v. v AND 1) (shr32 l1 (l2 - 1))
      | Some SAR8 \<Rightarrow> map_option (\<lambda>v. v AND 1) (shr32 l1 (l2 - 1))
      | Some SHR16 \<Rightarrow> map_option (\<lambda>v. v AND 1) (shr32 l1 (l2 - 1))
      | Some SAR16 \<Rightarrow> map_option (\<lambda>v. v AND 1) (shr32 l1 (l2 - 1))
      | Some SHR32 \<Rightarrow> map_option (\<lambda>v. v AND 1) (shr32 l1 (l2 - 1))
      | Some SAR32 \<Rightarrow> map_option (\<lambda>v. v AND 1) (shr32 l1 (l2 - 1))
      | Some SHL8 \<Rightarrow> map_option (\<lambda>v. v AND 1) (shr32 l1 (8 - l2))
      | Some SHL16 \<Rightarrow> map_option (\<lambda>v. v AND 1) (shr32 l1 (16 - l2))
      | Some SHL32 \<Rightarrow> map_option (\<lambda>v. v AND 1) (shr32 l1 (32 - l2))
      | Some SHLD16 \<Rightarrow>
          (if l2 \<le> 16 then map_option (\<lambda>v. v AND 1) (shr32 l1 (16 - l2))
           else map_option (\<lambda>v. v AND 1) (shr32 l1 (32 - l2)))
      | Some SHLD32 \<Rightarrow> map_option (\<lambda>v. v AND 1) (shr32 l1 (32 - l2))
      | Some SHRD16 \<Rightarrow> map_option (\<lambda>v. v AND 1) (shr32 l1 (l2 - 1))
      | Some SHRD32 \<Rightarrow> map_option (\<lambda>v. v AND 1) (shr32 l1 (l2 - 1))
      | Some INC8 \<Rightarrow> Some (m_eflags s AND 1)
      | Some INC16 \<Rightarrow> Some (m_eflags s AND 1)
      | Some INC32 \<Rightarrow> Some (m_eflags s AND 1)
      | Some DEC8 \<Rightarrow> Some (m_eflags s AND 1)
      | Some DEC16 \<Rightarrow> Some (m_eflags s AND 1)
      | Some DEC32 \<Rightarrow> Some (m_eflags s AND 1)
      | Some EFLAGS_FULL_UPDATE \<Rightarrow> Some (m_eflags s AND 1)
      | Some BIT \<Rightarrow> Some 0)"

definition cpu_get_of :: "'z cpu_flags_scheme \<Rightarrow> u32 option" where
  "cpu_get_of s =
     (let lr = m_lr s; l1 = m_lop1 s; l2 = m_lop2 s;
          add = (\<lambda>m. ((lr - l2) XOR l2 XOR m) AND (l2 XOR lr));
          sub = ((l2 + lr) XOR l2) AND ((l2 + lr) XOR lr);
          adc = (l1 XOR lr) AND (l2 XOR lr);
          sbb = (lr XOR l1) AND (l2 XOR l1);
          shr = push_bit 1 lr XOR lr
      in case laux_op s of
        None \<Rightarrow> None
      | Some MUL \<Rightarrow> Some (of_bool (l1 \<noteq> l2))
      | Some BIT \<Rightarrow> Some 0
      | Some SAR8 \<Rightarrow> Some 0
      | Some SAR16 \<Rightarrow> Some 0
      | Some SAR32 \<Rightarrow> Some 0
      | Some ADD8 \<Rightarrow> Some (drop_bit 7 (add 0xFF) AND 1)
      | Some ADD16 \<Rightarrow> Some (drop_bit 15 (add 0xFFFF) AND 1)
      | Some ADD32 \<Rightarrow> Some (drop_bit 31 (add 0xFFFFFFFF) AND 1)
      | Some SUB8 \<Rightarrow> Some (drop_bit 7 sub AND 1)
      | Some SUB16 \<Rightarrow> Some (drop_bit 15 sub AND 1)
      | Some SUB32 \<Rightarrow> Some (drop_bit 31 sub AND 1)
      | Some ADC8 \<Rightarrow> Some (drop_bit 7 adc AND 1)
      | Some ADC16 \<Rightarrow> Some (drop_bit 15 adc AND 1)
      | Some ADC32 \<Rightarrow> Some (drop_bit 31 adc AND 1)
      | Some SBB8 \<Rightarrow> Some (drop_bit 7 sbb AND 1)
      | Some SBB16 \<Rightarrow> Some (drop_bit 15 sbb AND 1)
      | Some SBB32 \<Rightarrow> Some (drop_bit 31 sbb AND 1)
      | Some SHL8 \<Rightarrow> map_option (\<lambda>v. (drop_bit 7 lr XOR v) AND 1) (shr32 l1 (8 - l2))
      | Some SHL16 \<Rightarrow> map_option (\<lambda>v. (drop_bit 15 lr XOR v) AND 1) (shr32 l1 (16 - l2))
      | Some SHL32 \<Rightarrow> map_option (\<lambda>v. (drop_bit 31 lr XOR v) AND 1) (shr32 l1 (32 - l2))
      | Some SHR8 \<Rightarrow> Some (drop_bit 7 shr AND 1)
      | Some SHR16 \<Rightarrow> Some (drop_bit 15 shr AND 1)
      | Some SHR32 \<Rightarrow> Some (drop_bit 31 shr AND 1)
      | Some SHLD16 \<Rightarrow> map_option (\<lambda>cf. cf XOR (drop_bit 15 lr AND 1)) (cpu_get_cf s)
      | Some SHLD32 \<Rightarrow> map_option (\<lambda>cf. cf XOR (drop_bit 31 lr AND 1)) (cpu_get_cf s)
      | Some SHRD16 \<Rightarrow> Some (drop_bit 15 shr AND 1)
      | Some SHRD32 \<Rightarrow> Some (drop_bit 31 shr AND 1)
      | Some INC8 \<Rightarrow> Some (of_bool (lr AND 0xFF = 0x80))
      | Some INC16 \<Rightarrow> Some (of_bool (lr AND 0xFFFF = 0x8000))
      | Some INC32 \<Rightarrow> Some (of_bool (lr = 0x80000000))
      | Some DEC8 \<Rightarrow> Some (of_bool (lr AND 0xFF = 0x7F))
      | Some DEC16 \<Rightarrow> Some (of_bool (lr AND 0xFFFF = 0x7FFF))
      | Some DEC32 \<Rightarrow> Some (of_bool (lr = 0x7FFFFFFF))
      | Some EFLAGS_FULL_UPDATE \<Rightarrow> Some (drop_bit 11 (m_eflags s) AND 1))"

definition cpu_get_af :: "'z cpu_flags_scheme \<Rightarrow> u32 option" where
  "cpu_get_af s =
     (let lr = m_lr s; l1 = m_lop1 s; l2 = m_lop2 s;
          add = (lr - l2) XOR l2 XOR lr;
          sub = (lr + l2) XOR l2 XOR lr;
          adc = l1 XOR l2 XOR lr
      in case laux_op s of
        None \<Rightarrow> None
      | Some BIT \<Rightarrow> Some 0
      | Some MUL \<Rightarrow> Some 0
      | Some SHL8 \<Rightarrow> Some 0 | Some SHL16 \<Rightarrow> Some 0 | Some SHL32 \<Rightarrow> Some 0
      | Some SHR8 \<Rightarrow> Some 0 | Some SHR16 \<Rightarrow> Some 0 | Some SHR32 \<Rightarrow> Some 0
      | Some SHLD16 \<Rightarrow> Some 0 | Some SHLD32 \<Rightarrow> Some 0
      | Some SHRD16 \<Rightarrow> Some 0 | Some SHRD32 \<Rightarrow> Some 0
      | Some SAR8 \<Rightarrow> Some 0 | Some SAR16 \<Rightarrow> Some 0 | Some SAR32 \<Rightarrow> Some 0
      | Some ADD8 \<Rightarrow> Some (drop_bit 4 add AND 1)
      | Some ADD16 \<Rightarrow> Some (drop_bit 4 add AND 1)
      | Some ADD32 \<Rightarrow> Some (drop_bit 4 add AND 1)
      | Some SUB8 \<Rightarrow> Some (drop_bit 4 sub AND 1)
      | Some SUB16 \<Rightarrow> Some (drop_bit 4 sub AND 1)
      | Some SUB32 \<Rightarrow> Some (drop_bit 4 sub AND 1)
      | Some ADC8 \<Rightarrow> Some (drop_bit 4 adc AND 1)
      | Some ADC16 \<Rightarrow> Some (drop_bit 4 adc AND 1)
      | Some ADC32 \<Rightarrow> Some (drop_bit 4 adc AND 1)
      | Some SBB8 \<Rightarrow> Some (drop_bit 4 adc AND 1)
      | Some SBB16 \<Rightarrow> Some (drop_bit 4 adc AND 1)
      | Some SBB32 \<Rightarrow> Some (drop_bit 4 adc AND 1)
      | Some INC8 \<Rightarrow> Some (of_bool (lr AND 15 = 0))
      | Some INC16 \<Rightarrow> Some (of_bool (lr AND 15 = 0))
      | Some INC32 \<Rightarrow> Some (of_bool (lr AND 15 = 0))
      | Some DEC8 \<Rightarrow> Some (of_bool (lr AND 15 = 15))
      | Some DEC16 \<Rightarrow> Some (of_bool (lr AND 15 = 15))
      | Some DEC32 \<Rightarrow> Some (of_bool (lr AND 15 = 15))
      | Some EFLAGS_FULL_UPDATE \<Rightarrow> Some (drop_bit 4 (m_eflags s) AND 1))"

section \<open>Writing one flag\<close>

text \<open>
  \<open>cpu_get_oac\<close> folds the lazy overflow, adjust and carry flags into
  \<open>m_eflags\<close> and returns them; the setters change one of them there and switch the
  tag to \<open>EFLAGS_FULL_UPDATE\<close>.
\<close>

definition cpu_get_oac :: "'z cpu_flags_scheme \<Rightarrow> (u32 \<times> 'z cpu_flags_scheme) option" where
  "cpu_get_oac s = do {
     f_of \<leftarrow> cpu_get_of s;
     f_af \<leftarrow> cpu_get_af s;
     f_cf \<leftarrow> cpu_get_cf s;
     let eflags = (f_of * 0x800) OR (f_af * 0x10) OR (f_cf * 0x01);
     Some (eflags,
       s\<lparr>m_eflags := (m_eflags s AND NOT (0x800 OR 0x10 OR 0x01))
                     OR (eflags AND (0x800 OR 0x10 OR 0x01))\<rparr>)
   }"

definition retag_full :: "'z cpu_flags_scheme \<Rightarrow> 'z cpu_flags_scheme" where
  "retag_full s = s\<lparr>m_laux := (m_laux s AND NOT 63) OR op_code EFLAGS_FULL_UPDATE\<rparr>"

definition cpu_set_of :: "u32 \<Rightarrow> 'z cpu_flags_scheme \<Rightarrow> 'z cpu_flags_scheme option" where
  "cpu_set_of b s = do {
     (_, s) \<leftarrow> cpu_get_oac s;
     let s = s\<lparr>m_eflags := m_eflags s AND NOT 0x800\<rparr>;
     let s = s\<lparr>m_eflags := m_eflags s OR (b * 0x800)\<rparr>;
     Some (retag_full s)
   }"

definition cpu_set_af :: "u32 \<Rightarrow> 'z cpu_flags_scheme \<Rightarrow> 'z cpu_flags_scheme option" where
  "cpu_set_af b s = do {
     (_, s) \<leftarrow> cpu_get_oac s;
     let s = s\<lparr>m_eflags := m_eflags s AND NOT 0x10\<rparr>;
     let s = s\<lparr>m_eflags := m_eflags s OR (b * 0x10)\<rparr>;
     Some (retag_full s)
   }"

definition cpu_set_cf :: "u32 \<Rightarrow> 'z cpu_flags_scheme \<Rightarrow> 'z cpu_flags_scheme option" where
  "cpu_set_cf b s = do {
     (_, s) \<leftarrow> cpu_get_oac s;
     let s = s\<lparr>m_eflags := m_eflags s AND NOT 0x01\<rparr>;
     let s = s\<lparr>m_eflags := m_eflags s OR (b * 0x01)\<rparr>;
     Some (retag_full s)
   }"

section \<open>The whole register\<close>

definition cpu_get_eflags :: "'z cpu_flags_scheme \<Rightarrow> u32 option" where
  "cpu_get_eflags s = do {
     let eflags = m_eflags s AND NOT (0x800 OR 0x80 OR 0x40 OR 0x10 OR 0x04 OR 0x01);
     f_of \<leftarrow> cpu_get_of s;
     let eflags = eflags OR (f_of * 0x800);
     let eflags = eflags OR (cpu_get_sf s * 0x80);
     let eflags = eflags OR (of_bool (m_lr s = 0) * 0x40);
     f_af \<leftarrow> cpu_get_af s;
     let eflags = eflags OR (f_af * 0x10);
     let eflags = eflags OR (cpu_get_pf s * 0x04);
     f_cf \<leftarrow> cpu_get_cf s;
     Some (eflags OR (f_cf * 0x01))
   }"

text \<open>The union of the flag masks that \<open>cpu_set_eflags\<close> writes.\<close>

definition eflags_mask :: u32 where
  "eflags_mask =
     0x200000 OR 0x100000 OR 0x80000 OR 0x40000 OR 0x20000 OR 0x10000 OR 0x4000 OR 0x3000 OR
     0x800 OR 0x400 OR 0x200 OR 0x100 OR 0x80 OR 0x40 OR 0x10 OR 0x04 OR 0x01"

definition cpu_set_eflags :: "u32 \<Rightarrow> 'z cpu_flags_scheme \<Rightarrow> 'z cpu_flags_scheme" where
  "cpu_set_eflags eflags s =
     (let old = m_eflags s;
          s = s\<lparr>m_eflags := (m_eflags s AND NOT eflags_mask) OR (eflags AND eflags_mask)\<rparr>;
          s = s\<lparr>m_lr := of_bool (eflags AND 0x40 = 0)\<rparr>;
          pf = drop_bit 2 (m_eflags s) AND 1;
          sf = eflags AND 0x80;
          s = s\<lparr>m_laux := op_code EFLAGS_FULL_UPDATE OR push_bit 24 sf
                          OR push_bit 7 (pf XOR m_lr s XOR 1)\<rparr>
      in if (old XOR m_eflags s) AND 0x200 \<noteq> 0
         then s\<lparr>m_cycles := m_cycles s + (cpu_get_cycles s - m_cycles s),
                m_refill_counter := m_cycles_to_run s - 1,
                m_cycles_to_run := 1,
                m_cycle_offset := 1\<rparr>
         else s)"

definition cpu_set_zf :: "u32 \<Rightarrow> 'z cpu_flags_scheme \<Rightarrow> 'z cpu_flags_scheme option" where
  "cpu_set_zf b s = do {
     eflags \<leftarrow> cpu_get_eflags s;
     Some (cpu_set_eflags ((eflags AND NOT 0x40) OR (b * 0x40)) s)
   }"

text \<open>
  The sixteen conditions of the conditional instructions. The disjunctions of the
  source are evaluated left to right: with the zero flag set the other flag is not read.
\<close>

definition cpu_cond :: "u32 \<Rightarrow> 'z cpu_flags_scheme \<Rightarrow> u32 option" where
  "cpu_cond val s = do {
     cond \<leftarrow>
       (let k = drop_bit 1 val AND 7 in
        if k = 0 then cpu_get_of s
        else if k = 1 then cpu_get_cf s
        else if k = 2 then Some (of_bool (m_lr s = 0))
        else if k = 3 then
          (if m_lr s = 0 then Some 1 else map_option (\<lambda>cf. of_bool (cf \<noteq> 0)) (cpu_get_cf s))
        else if k = 4 then Some (cpu_get_sf s)
        else if k = 5 then Some (cpu_get_pf s)
        else if k = 6 then map_option (\<lambda>f_of. of_bool (cpu_get_sf s \<noteq> f_of)) (cpu_get_of s)
        else
          (if m_lr s = 0 then Some 1
           else map_option (\<lambda>f_of. of_bool (cpu_get_sf s \<noteq> f_of)) (cpu_get_of s)));
     Some (cond XOR (val AND 1))
   }"

section \<open>What the getters read\<close>

lemma bit_xor_fold: "bit (drop_bit n (x::u32)) m \<longleftrightarrow> bit x (m + n)"
  by (simp add: bit_drop_bit_eq add.commute)

lemma drop_31_of_bool: "drop_bit 31 x = of_bool (bit x 31)" for x :: u32
proof (rule bit_eqI)
  fix n
  have "bit x (31 + n) \<Longrightarrow> n = 0"
    using bit_imp_le_length [of x "31 + n"] by simp
  then show "bit (drop_bit 31 x) n = bit (of_bool (bit x 31) :: u32) n"
    by (cases "n = 0") (auto simp: bit_drop_bit_eq bit_simps)
qed

text \<open>Even parity of the low byte, the meaning of PF.\<close>

definition parity8 :: "'a::len word \<Rightarrow> bool" where
  "parity8 w \<longleftrightarrow> even (\<Sum>i<8. of_bool (bit w i) :: nat)"

lemma parity8_unfold:
  "parity8 w \<longleftrightarrow> \<not> ((((bit w 0 \<noteq> bit w 4) \<noteq> (bit w 1 \<noteq> bit w 5)) \<noteq> (bit w 2 \<noteq> bit w 6))
     \<noteq> (bit w 3 \<noteq> bit w 7))"
proof -
  have "{..<8} = {0, 1, 2, 3, 4, 5, 6, 7::nat}"
    by auto
  then show ?thesis
    by (simp add: parity8_def even_add del: sum_of_bool_eq)
qed

lemma parity_table:
  "drop_bit (unat (x AND 15)) (0x9669::u32) AND 1 =
     of_bool (\<not> (((bit x 0 \<noteq> bit x 1) \<noteq> bit x 2) \<noteq> bit x 3))" for x :: u32
  unfolding unat_low4 drop_bit_and_one
  by (cases "bit x 0"; cases "bit x 1"; cases "bit x 2"; cases "bit x 3") simp_all

lemma get_pf_parity: "cpu_get_pf s = of_bool (parity8 (m_lr s XOR (m_laux s AND 0x80)))"
proof -
  define v where "v = (m_lr s XOR (m_laux s AND 0x80)) AND 0xFF"
  have v: "bit v i \<longleftrightarrow> bit (m_lr s XOR (m_laux s AND 0x80)) i" if "i < 8" for i
    using that by (simp add: v_def low8_as_cast cast_bits)
  have "cpu_get_pf s = of_bool (\<not> (((bit (v XOR drop_bit 4 v) 0 \<noteq> bit (v XOR drop_bit 4 v) 1)
      \<noteq> bit (v XOR drop_bit 4 v) 2) \<noteq> bit (v XOR drop_bit 4 v) 3))"
    unfolding cpu_get_pf_def Let_def v_def [symmetric] by (rule parity_table)
  also have "\<dots> = of_bool (parity8 v)"
    by (auto simp: parity8_unfold bit_xor_iff bit_drop_bit_eq)
  also have "parity8 v = parity8 (m_lr s XOR (m_laux s AND 0x80))"
    unfolding parity8_unfold by (simp add: v)
  finally show ?thesis .
qed

lemma get_sf_bit: "cpu_get_sf s = of_bool (bit (m_lr s) 31 \<noteq> bit (m_laux s) 31)"
  by (simp add: cpu_get_sf_def drop_31_of_bool bit_xor_iff)

text \<open>Every getter returns 0 or 1.\<close>

definition is_flag :: "u32 \<Rightarrow> bool" where
  "is_flag v \<longleftrightarrow> (v = 0 \<or> v = 1)"

lemma is_flag_of_bool [simp]: "is_flag (of_bool b)"
  by (simp add: is_flag_def)

lemma is_flag_and_1 [simp]: "is_flag (x AND 1)"
  by simp

lemma is_flag_consts [simp]: "is_flag 0" "is_flag 1"
  by (simp_all add: is_flag_def)

lemma is_flag_xor: "is_flag a \<Longrightarrow> is_flag b \<Longrightarrow> is_flag (a XOR b)"
  by (auto simp: is_flag_def)

lemma is_flagE: "is_flag v \<Longrightarrow> v = of_bool (v \<noteq> 0)"
  by (auto simp: is_flag_def)

lemma get_cf_is_flag: "cpu_get_cf s = Some v \<Longrightarrow> is_flag v"
  unfolding cpu_get_cf_def Let_def
  by (auto split: option.splits flag_op.splits if_splits)

lemma get_of_is_flag: "cpu_get_of s = Some v \<Longrightarrow> is_flag v"
  unfolding cpu_get_of_def Let_def
  by (auto split: option.splits flag_op.splits if_splits
      intro!: is_flag_xor dest: get_cf_is_flag)

lemma get_af_is_flag: "cpu_get_af s = Some v \<Longrightarrow> is_flag v"
  unfolding cpu_get_af_def Let_def
  by (auto split: option.splits flag_op.splits if_splits)

end
