(* ===== verification/Eflags_Laws.thy ===== *)
theory Eflags_Laws
  imports Eflags
begin

text \<open>
  What the flag cells of Eflags promise: the six status flags as one view of the state
  (\<open>flags_of\<close>), the laws of the three setters as an interface with two clients
  (setting twice, setting two flags), the round trip of \<open>cpu_set_eflags\<close> and
  \<open>cpu_get_eflags\<close>, the meaning of the sixteen conditions.
\<close>

section \<open>The architectural view\<close>

text \<open>
  The six status flags as a guest sees them, and their value in a machine state. The
  view is undefined exactly when a getter is.
\<close>

record arith_flags =
  fl_cf :: bool
  fl_pf :: bool
  fl_af :: bool
  fl_zf :: bool
  fl_sf :: bool
  fl_of :: bool

definition flags_of :: "'z cpu_flags_scheme \<Rightarrow> arith_flags option" where
  "flags_of s = do {
     f_of \<leftarrow> cpu_get_of s;
     f_af \<leftarrow> cpu_get_af s;
     f_cf \<leftarrow> cpu_get_cf s;
     Some \<lparr>fl_cf = f_cf \<noteq> 0, fl_pf = cpu_get_pf s \<noteq> 0, fl_af = f_af \<noteq> 0,
           fl_zf = m_lr s = 0, fl_sf = cpu_get_sf s \<noteq> 0, fl_of = f_of \<noteq> 0\<rparr>
   }"

lemma flags_of_SomeD:
  assumes "flags_of s = Some f"
  shows "cpu_get_cf s = Some (of_bool (fl_cf f))" "cpu_get_af s = Some (of_bool (fl_af f))"
    "cpu_get_of s = Some (of_bool (fl_of f))" "fl_zf f \<longleftrightarrow> m_lr s = 0"
    "cpu_get_pf s = of_bool (fl_pf f)" "cpu_get_sf s = of_bool (fl_sf f)"
proof -
  from assms obtain o' a c where
    g: "cpu_get_of s = Some o'" "cpu_get_af s = Some a" "cpu_get_cf s = Some c"
    and f: "f = \<lparr>fl_cf = c \<noteq> 0, fl_pf = cpu_get_pf s \<noteq> 0, fl_af = a \<noteq> 0,
      fl_zf = m_lr s = 0, fl_sf = cpu_get_sf s \<noteq> 0, fl_of = o' \<noteq> 0\<rparr>"
    by (auto simp: flags_of_def bind_eq_Some_conv)
  have fl: "is_flag o'" "is_flag a" "is_flag c" "is_flag (cpu_get_pf s)" "is_flag (cpu_get_sf s)"
    using g by (simp_all only: get_of_is_flag get_af_is_flag get_cf_is_flag get_pf_parity
        get_sf_bit is_flag_of_bool)
  show "cpu_get_cf s = Some (of_bool (fl_cf f))" "cpu_get_af s = Some (of_bool (fl_af f))"
    "cpu_get_of s = Some (of_bool (fl_of f))" "fl_zf f \<longleftrightarrow> m_lr s = 0"
    "cpu_get_pf s = of_bool (fl_pf f)" "cpu_get_sf s = of_bool (fl_sf f)"
    using fl by (auto simp: g f is_flag_def)
qed

lemma flags_of_I:
  assumes "cpu_get_cf s = Some (of_bool c)" "cpu_get_af s = Some (of_bool a)"
    "cpu_get_of s = Some (of_bool ov)"
  shows "flags_of s = Some \<lparr>fl_cf = c, fl_pf = cpu_get_pf s \<noteq> 0, fl_af = a,
    fl_zf = m_lr s = 0, fl_sf = cpu_get_sf s \<noteq> 0, fl_of = ov\<rparr>"
  using assms by (simp add: flags_of_def)

text \<open>The six flags packed at their architectural positions.\<close>

definition status_bits :: "arith_flags \<Rightarrow> u32" where
  "status_bits f =
     of_bool (fl_of f) * 0x800 OR of_bool (fl_sf f) * 0x80 OR of_bool (fl_zf f) * 0x40
     OR of_bool (fl_af f) * 0x10 OR of_bool (fl_pf f) * 0x04 OR of_bool (fl_cf f) * 0x01"

lemma get_eflags_flags_of:
  "cpu_get_eflags s =
     map_option (\<lambda>f. (m_eflags s AND NOT 0x8D5) OR status_bits f) (flags_of s)"
proof (cases "flags_of s")
  case None
  then show ?thesis
    by (auto simp: cpu_get_eflags_def flags_of_def bind_eq_None_conv)
next
  case (Some f)
  show ?thesis
    by (simp add: cpu_get_eflags_def Some flags_of_SomeD(1,2,3,5,6) [OF Some] flags_of_SomeD(4) [OF Some, symmetric]
        status_bits_def or.assoc)
qed

section \<open>Frame and update laws of the setters\<close>

lemma full_update_getters:
  assumes "m_laux s AND 63 = op_code EFLAGS_FULL_UPDATE"
  shows "cpu_get_cf s = Some (of_bool (bit (m_eflags s) 0))"
    "cpu_get_af s = Some (of_bool (bit (m_eflags s) 4))"
    "cpu_get_of s = Some (of_bool (bit (m_eflags s) 11))"
  using assms op_of_code [of EFLAGS_FULL_UPDATE]
  by (simp_all add: cpu_get_cf_def cpu_get_af_def cpu_get_of_def laux_op_def drop_bit_and_one bit_drop_bit_eq)

lemma laux_retag_full: "m_laux (retag_full s) AND 63 = op_code EFLAGS_FULL_UPDATE"
proof -
  have "((x AND - 64) OR 33) AND 63 = 33" for x :: u32
    by (simp only: bit.conj_disj_distrib2 and.assoc) simp
  then show ?thesis by (simp add: retag_full_def)
qed

lemma retag_full_frame [simp]:
  "m_lr (retag_full s) = m_lr s" "m_eflags (retag_full s) = m_eflags s"
  by (simp_all add: retag_full_def)

lemma retag_full_getters [simp]:
  "cpu_get_cf (retag_full s) = Some (of_bool (bit (m_eflags s) 0))"
  "cpu_get_af (retag_full s) = Some (of_bool (bit (m_eflags s) 4))"
  "cpu_get_of (retag_full s) = Some (of_bool (bit (m_eflags s) 11))"
  using full_update_getters [OF laux_retag_full, of s] by simp_all

lemma retag_full_pf_sf [simp]:
  "cpu_get_pf (retag_full s) = cpu_get_pf s" "cpu_get_sf (retag_full s) = cpu_get_sf s"
proof -
  have "((m_laux s AND NOT 63) OR 33) AND 0x80 = m_laux s AND 0x80"
    by (simp only: bit.conj_disj_distrib2 and.assoc) simp
  then show "cpu_get_pf (retag_full s) = cpu_get_pf s"
    by (simp add: cpu_get_pf_def retag_full_def)
  show "cpu_get_sf (retag_full s) = cpu_get_sf s"
    by (simp add: get_sf_bit retag_full_def bit_simps)
qed

definition oac_bits :: "arith_flags \<Rightarrow> u32" where
  "oac_bits f = of_bool (fl_of f) * 0x800 OR of_bool (fl_af f) * 0x10 OR of_bool (fl_cf f)"

definition clear_oac :: "u32 \<Rightarrow> u32" where
  "clear_oac e = e AND NOT 0x811"

lemma bit_clear_oac: "bit (clear_oac e) n \<longleftrightarrow> bit e n \<and> n \<noteq> 0 \<and> n \<noteq> 4 \<and> n \<noteq> 11"
proof -
  have m: "(0x811::u32) = push_bit 11 1 OR push_bit 4 1 OR 1" by simp
  have "bit (0x811::u32) n \<longleftrightarrow> n = 0 \<or> n = 4 \<or> n = 11"
    unfolding m bit_or_iff bit_push_bit_iff bit_1_iff by auto
  then show ?thesis
    unfolding clear_oac_def bit_and_iff bit_not_iff using bit_imp_le_length [of e n] by auto
qed

lemma oac_bits_and: "oac_bits f AND (0x800 OR 0x10 OR 1) = oac_bits f"
  by (cases "fl_of f"; cases "fl_af f"; cases "fl_cf f") (simp_all add: oac_bits_def)

lemma get_oac_flags_of:
  assumes "flags_of s = Some f"
  shows "cpu_get_oac s = Some (oac_bits f,
    s\<lparr>m_eflags := (m_eflags s AND NOT (0x800 OR 0x10 OR 1)) OR oac_bits f\<rparr>)"
  using oac_bits_and [of f] flags_of_SomeD(1,2,3) [OF assms]
  by (simp add: cpu_get_oac_def oac_bits_def)

text \<open>After a setter, \<open>m_eflags\<close> holds the folded flags, one of them replaced.\<close>

lemma set_cf_flags_of:
  assumes "flags_of s = Some f"
  shows "cpu_set_cf (of_bool b) s = Some (retag_full
     (s\<lparr>m_eflags := clear_oac (m_eflags s) OR oac_bits (f\<lparr>fl_cf := b\<rparr>)\<rparr>))"
proof -
  have "(((e AND NOT 0x811) OR oac_bits f) AND NOT 1) OR (of_bool b * 1)
      = (e AND NOT 0x811) OR oac_bits (f\<lparr>fl_cf := b\<rparr>)" for e :: u32
    by (cases b; cases "fl_of f"; cases "fl_af f"; cases "fl_cf f")
      (simp_all add: oac_bits_def bit.conj_disj_distrib2 and.assoc or.assoc)
  then show ?thesis
    by (simp add: cpu_set_cf_def clear_oac_def get_oac_flags_of [OF assms])
qed

lemma set_af_flags_of:
  assumes "flags_of s = Some f"
  shows "cpu_set_af (of_bool b) s = Some (retag_full
     (s\<lparr>m_eflags := clear_oac (m_eflags s) OR oac_bits (f\<lparr>fl_af := b\<rparr>)\<rparr>))"
proof -
  have "(((e AND NOT 0x811) OR oac_bits f) AND NOT 0x10) OR (of_bool b * 0x10)
      = (e AND NOT 0x811) OR oac_bits (f\<lparr>fl_af := b\<rparr>)" for e :: u32
    by (cases b; cases "fl_of f"; cases "fl_af f"; cases "fl_cf f")
      (simp_all add: oac_bits_def bit.conj_disj_distrib2 and.assoc or.assoc)
  then show ?thesis
    by (simp add: cpu_set_af_def clear_oac_def get_oac_flags_of [OF assms])
qed

lemma set_of_flags_of:
  assumes "flags_of s = Some f"
  shows "cpu_set_of (of_bool b) s = Some (retag_full
     (s\<lparr>m_eflags := clear_oac (m_eflags s) OR oac_bits (f\<lparr>fl_of := b\<rparr>)\<rparr>))"
proof -
  have "(((e AND NOT 0x811) OR oac_bits f) AND NOT 0x800) OR (of_bool b * 0x800)
      = (e AND NOT 0x811) OR oac_bits (f\<lparr>fl_of := b\<rparr>)" for e :: u32
    by (cases b; cases "fl_of f"; cases "fl_af f"; cases "fl_cf f")
      (simp_all add: oac_bits_def bit.conj_disj_distrib2 and.assoc or.assoc)
  then show ?thesis
    by (simp add: cpu_set_of_def clear_oac_def get_oac_flags_of [OF assms])
qed

lemma bit_oac_bits:
  "bit (oac_bits f) 0 = fl_cf f" "bit (oac_bits f) 4 = fl_af f" "bit (oac_bits f) 11 = fl_of f"
  by (cases "fl_of f"; cases "fl_af f"; cases "fl_cf f"; simp add: oac_bits_def)+

lemma cpu_get_pf_eflags [simp]: "cpu_get_pf (s\<lparr>m_eflags := e\<rparr>) = cpu_get_pf s"
  by (simp add: cpu_get_pf_def)
lemma cpu_get_sf_eflags [simp]: "cpu_get_sf (s\<lparr>m_eflags := e\<rparr>) = cpu_get_sf s"
  by (simp add: cpu_get_sf_def)

lemma flags_of_retag:
  "flags_of (retag_full (s\<lparr>m_eflags := clear_oac e OR oac_bits f\<rparr>)) =
     Some \<lparr>fl_cf = fl_cf f, fl_pf = cpu_get_pf s \<noteq> 0, fl_af = fl_af f, fl_zf = m_lr s = 0,
       fl_sf = cpu_get_sf s \<noteq> 0, fl_of = fl_of f\<rparr>"
  by (simp add: flags_of_def bit_or_iff bit_clear_oac bit_oac_bits)

text \<open>
  The interface of a setter: on a state whose flags are defined it succeeds, changes
  its own flag in the view and nothing else. Setting a flag twice keeps the last value.
\<close>

locale flag_setter =
  fixes set_flag :: "bool \<Rightarrow> 's \<Rightarrow> 's option"
    and view :: "'s \<Rightarrow> 'f option"
    and upd :: "bool \<Rightarrow> 'f \<Rightarrow> 'f"
  assumes set_view: "view s = Some f \<Longrightarrow> \<exists>t. set_flag b s = Some t \<and> view t = Some (upd b f)"
    and upd_upd: "upd b (upd c f) = upd b f"
begin

lemma set_total: "view s \<noteq> None \<Longrightarrow> set_flag b s \<noteq> None"
  using set_view [of s _ b] by (cases "view s") auto

lemma set_twice:
  assumes v: "view s = Some f" and s: "set_flag b s = Some t"
  shows "\<exists>u. set_flag c t = Some u \<and> view u = Some (upd c f)"
proof -
  have "view t = Some (upd b f)"
    using set_view [OF v, of b] s by simp
  from set_view [OF this, of c] show ?thesis
    by (simp add: upd_upd)
qed

end

text \<open>Two setters of different flags: the order of the two writes does not matter.\<close>

locale flag_setter_pair =
  a: flag_setter set_a view upd_a + b: flag_setter set_b view upd_b
  for set_a :: "bool \<Rightarrow> 's \<Rightarrow> 's option" and set_b :: "bool \<Rightarrow> 's \<Rightarrow> 's option"
    and view :: "'s \<Rightarrow> 'f option"
    and upd_a :: "bool \<Rightarrow> 'f \<Rightarrow> 'f" and upd_b :: "bool \<Rightarrow> 'f \<Rightarrow> 'f" +
  assumes upd_commute: "upd_a x (upd_b y f) = upd_b y (upd_a x f)"
begin

lemma set_both:
  assumes "view s = Some f"
  shows "\<exists>t. Option.bind (set_a x s) (set_b y) = Some t \<and> view t = Some (upd_b y (upd_a x f))"
proof -
  from a.set_view [OF assms, of x] obtain t where
    t: "set_a x s = Some t" "view t = Some (upd_a x f)" by blast
  from b.set_view [OF t(2), of y] t(1) show ?thesis by auto
qed

lemma set_both_commute:
  assumes "view s = Some f"
  shows "\<exists>t u. Option.bind (set_a x s) (set_b y) = Some t \<and>
    Option.bind (set_b y s) (set_a x) = Some u \<and> view t = view u"
proof -
  from b.set_view [OF assms, of y] obtain v where
    v: "set_b y s = Some v" "view v = Some (upd_b y f)" by blast
  from a.set_view [OF v(2), of x] obtain u where
    u: "set_a x v = Some u" "view u = Some (upd_a x (upd_b y f))" by blast
  from set_both [OF assms, of x y] v(1) u show ?thesis
    by (auto simp: upd_commute)
qed

end

interpretation set_cf: flag_setter "\<lambda>b. cpu_set_cf (of_bool b)" flags_of "\<lambda>b f. f\<lparr>fl_cf := b\<rparr>"
proof
  fix s :: "'a cpu_flags_scheme" and f b
  assume f: "flags_of s = Some f"
  show "\<exists>t. cpu_set_cf (of_bool b) s = Some t \<and> flags_of t = Some (f\<lparr>fl_cf := b\<rparr>)"
    using flags_of_SomeD(4,5,6) [OF f]
    by (simp add: set_cf_flags_of [OF f] flags_of_retag)
qed simp

interpretation set_af: flag_setter "\<lambda>b. cpu_set_af (of_bool b)" flags_of "\<lambda>b f. f\<lparr>fl_af := b\<rparr>"
proof
  fix s :: "'a cpu_flags_scheme" and f b
  assume f: "flags_of s = Some f"
  show "\<exists>t. cpu_set_af (of_bool b) s = Some t \<and> flags_of t = Some (f\<lparr>fl_af := b\<rparr>)"
    using flags_of_SomeD(4,5,6) [OF f]
    by (simp add: set_af_flags_of [OF f] flags_of_retag)
qed simp

interpretation set_of: flag_setter "\<lambda>b. cpu_set_of (of_bool b)" flags_of "\<lambda>b f. f\<lparr>fl_of := b\<rparr>"
proof
  fix s :: "'a cpu_flags_scheme" and f b
  assume f: "flags_of s = Some f"
  show "\<exists>t. cpu_set_of (of_bool b) s = Some t \<and> flags_of t = Some (f\<lparr>fl_of := b\<rparr>)"
    using flags_of_SomeD(4,5,6) [OF f]
    by (simp add: set_of_flags_of [OF f] flags_of_retag)
qed simp

interpretation set_cf_of: flag_setter_pair
  "\<lambda>b. cpu_set_cf (of_bool b)" "\<lambda>b. cpu_set_of (of_bool b)" flags_of
  "\<lambda>b f. f\<lparr>fl_cf := b\<rparr>" "\<lambda>b f. f\<lparr>fl_of := b\<rparr>"
  by unfold_locales simp

section \<open>Writing and reading the whole register\<close>

lemma and_single_bit: "x AND push_bit k 1 = of_bool (bit x k) * push_bit k 1" for x :: "'a::len word"
  by (rule bit_eqI) (auto simp: bit_simps)

lemma and_flag_masks:
  "e AND 0x800 = of_bool (bit e 11) * 0x800" "e AND 0x80 = of_bool (bit e 7) * 0x80"
  "e AND 0x40 = of_bool (bit e 6) * 0x40" "e AND 0x10 = of_bool (bit e 4) * 0x10"
  "e AND 0x04 = of_bool (bit e 2) * 0x04" "e AND 0x200 = of_bool (bit e 9) * 0x200" for e :: u32
  using and_single_bit [of e 11] and_single_bit [of e 7] and_single_bit [of e 6]
    and_single_bit [of e 4] and_single_bit [of e 2] and_single_bit [of e 9] by simp_all

lemma set_eflags_fields:
  "m_eflags (cpu_set_eflags e s) = (m_eflags s AND NOT eflags_mask) OR (e AND eflags_mask)"
  "m_lr (cpu_set_eflags e s) = of_bool (\<not> bit e 6)"
  "m_laux (cpu_set_eflags e s) =
     33 OR of_bool (bit e 7) * 0x80000000 OR of_bool (bit e 2 \<noteq> bit e 6) * 0x80"
proof -
  show "m_eflags (cpu_set_eflags e s) = (m_eflags s AND NOT eflags_mask) OR (e AND eflags_mask)"
    by (simp add: cpu_set_eflags_def Let_def)
  show "m_lr (cpu_set_eflags e s) = of_bool (\<not> bit e 6)"
    by (simp add: cpu_set_eflags_def Let_def and_flag_masks)
  show "m_laux (cpu_set_eflags e s) =
     33 OR of_bool (bit e 7) * 0x80000000 OR of_bool (bit e 2 \<noteq> bit e 6) * 0x80"
    by (cases "bit e 7"; cases "bit e 2"; cases "bit e 6")
      (simp_all add: cpu_set_eflags_def Let_def and_flag_masks bit_drop_bit_eq
        bit_or_iff bit_and_iff bit_not_iff eflags_mask_def)
qed

lemma flags_of_set_eflags:
  "flags_of (cpu_set_eflags e s) = Some \<lparr>fl_cf = bit e 0, fl_pf = bit e 2, fl_af = bit e 4,
     fl_zf = bit e 6, fl_sf = bit e 7, fl_of = bit e 11\<rparr>"
proof -
  let ?s = "cpu_set_eflags e s"
  have tag: "m_laux ?s AND 63 = op_code EFLAGS_FULL_UPDATE"
    by (cases "bit e 7"; cases "bit e 2 \<noteq> bit e 6") (simp_all add: set_eflags_fields)
  have eb: "bit (m_eflags ?s) 0 = bit e 0" "bit (m_eflags ?s) 4 = bit e 4"
    "bit (m_eflags ?s) 11 = bit e 11"
    by (simp_all add: set_eflags_fields bit_or_iff bit_and_iff bit_not_iff eflags_mask_def)
  have sf: "cpu_get_sf ?s = of_bool (bit e 7)"
    by (cases "bit e 7"; cases "bit e 6"; cases "bit e 2")
      (simp_all add: get_sf_bit set_eflags_fields)
  have pf: "cpu_get_pf ?s = of_bool (bit e 2)"
    by (cases "bit e 7"; cases "bit e 6"; cases "bit e 2")
      (simp_all add: get_pf_parity set_eflags_fields parity8_unfold)
  show ?thesis
    using full_update_getters [OF tag]
    by (simp add: flags_of_def eb sf pf) (simp add: set_eflags_fields)
qed

lemma status_bits_and:
  "status_bits \<lparr>fl_cf = bit e 0, fl_pf = bit e 2, fl_af = bit e 4,
     fl_zf = bit e 6, fl_sf = bit e 7, fl_of = bit e 11\<rparr> = e AND 0x8D5"
proof -
  have "(0x8D5::u32) = 0x800 OR 0x80 OR 0x40 OR 0x10 OR 0x04 OR 1"
    by simp
  then have "e AND 0x8D5 = (e AND 0x800) OR (e AND 0x80) OR (e AND 0x40) OR (e AND 0x10)
     OR (e AND 0x04) OR (e AND 1)"
    by (simp only: bit.conj_disj_distrib)
  then show ?thesis
    by (simp only: status_bits_def and_flag_masks and_one_of_bool arith_flags.select_convs mult_1_right)
qed

lemma get_set_eflags:
  "cpu_get_eflags (cpu_set_eflags e s) =
     Some ((m_eflags s AND NOT eflags_mask) OR (e AND eflags_mask))"
proof -
  define x where "x = (m_eflags s AND NOT eflags_mask) OR (e AND eflags_mask)"
  have m: "eflags_mask AND 0x8D5 = 0x8D5" "(NOT eflags_mask) AND 0x8D5 = 0"
    by (simp_all add: eflags_mask_def)
  have "x AND 0x8D5 = e AND 0x8D5"
    by (simp only: x_def bit.conj_disj_distrib2 and.assoc m) simp
  moreover have "(x AND NOT 0x8D5) OR (x AND 0x8D5) = x"
    by (simp only: bit.conj_disj_distrib [symmetric]) simp
  ultimately show ?thesis
    unfolding get_eflags_flags_of flags_of_set_eflags
    by (simp add: set_eflags_fields status_bits_and x_def)
qed

lemma set_zf_flags_of:
  assumes "flags_of s = Some f"
  shows "\<exists>t. cpu_set_zf (of_bool b) s = Some t \<and> flags_of t = Some (f\<lparr>fl_zf := b\<rparr>)"
proof -
  define e where "e = (m_eflags s AND NOT 0x8D5) OR status_bits f"
  define e' where "e' = (e AND NOT 0x40) OR (of_bool b * 0x40)"
  have st: "bit (status_bits f) 0 = fl_cf f" "bit (status_bits f) 2 = fl_pf f"
    "bit (status_bits f) 4 = fl_af f" "bit (status_bits f) 7 = fl_sf f"
    "bit (status_bits f) 11 = fl_of f"
    by (cases "fl_cf f"; cases "fl_pf f"; cases "fl_af f"; cases "fl_zf f"; cases "fl_sf f";
        cases "fl_of f"; simp add: status_bits_def)+
  have "bit e' 0 = fl_cf f" "bit e' 2 = fl_pf f" "bit e' 4 = fl_af f" "bit e' 6 = b"
    "bit e' 7 = fl_sf f" "bit e' 11 = fl_of f"
    by (cases b; simp add: e'_def e_def bit_or_iff bit_and_iff bit_not_iff st)+
  then have "flags_of (cpu_set_eflags e' s) = Some (f\<lparr>fl_zf := b\<rparr>)"
    by (simp add: flags_of_set_eflags)
  moreover have "cpu_set_zf (of_bool b) s = Some (cpu_set_eflags e' s)"
    by (simp add: cpu_set_zf_def get_eflags_flags_of assms e_def e'_def)
  ultimately show ?thesis by blast
qed

interpretation set_zf: flag_setter "\<lambda>b. cpu_set_zf (of_bool b)" flags_of "\<lambda>b f. f\<lparr>fl_zf := b\<rparr>"
  by unfold_locales (simp_all add: set_zf_flags_of)

lemma set_pf_parity: "cpu_get_pf (cpu_set_pf (of_bool p) s) = of_bool (p \<noteq> bit (m_laux s) 7)"
proof -
  define q where "q = parity8 (m_lr s XOR (m_laux s AND 0x80))"
  have b: "bit (m_laux (cpu_set_pf (of_bool p) s)) 7 \<longleftrightarrow> q \<noteq> p"
    by (cases q; cases p)
      (simp_all add: cpu_set_pf_def get_pf_parity bit_or_iff bit_and_iff bit_not_iff q_def [symmetric])
  have lr: "m_lr (cpu_set_pf (of_bool p) s) = m_lr s"
    by (simp add: cpu_set_pf_def)
  have par: "parity8 (x XOR (y AND 0x80)) \<longleftrightarrow> parity8 x \<noteq> bit y 7" for x y :: u32
    by (simp add: parity8_unfold bit_xor_iff bit_and_iff) argo
  show ?thesis
    using b by (auto simp: get_pf_parity par lr q_def)
qed

section \<open>The conditions\<close>

text \<open>The eight condition groups of the instruction set; odd codes negate.\<close>

definition cond_spec :: "u32 \<Rightarrow> arith_flags \<Rightarrow> bool" where
  "cond_spec k f =
     (if k = 0 then fl_of f
      else if k = 1 then fl_cf f
      else if k = 2 then fl_zf f
      else if k = 3 then fl_zf f \<or> fl_cf f
      else if k = 4 then fl_sf f
      else if k = 5 then fl_pf f
      else if k = 6 then fl_sf f \<noteq> fl_of f
      else fl_zf f \<or> fl_sf f \<noteq> fl_of f)"

lemma cond_flags_of:
  assumes "flags_of s = Some f"
  shows "cpu_cond val s = Some (of_bool (cond_spec (drop_bit 1 val AND 7) f \<noteq> bit val 0))"
proof -
  define k where "k = drop_bit 1 val AND 7"
  note d = flags_of_SomeD [OF assms]
  have "(if k = 0 then cpu_get_of s
        else if k = 1 then cpu_get_cf s
        else if k = 2 then Some (of_bool (m_lr s = 0))
        else if k = 3 then
          (if m_lr s = 0 then Some 1 else map_option (\<lambda>cf. of_bool (cf \<noteq> 0)) (cpu_get_cf s))
        else if k = 4 then Some (cpu_get_sf s)
        else if k = 5 then Some (cpu_get_pf s)
        else if k = 6 then map_option (\<lambda>f_of. of_bool (cpu_get_sf s \<noteq> f_of)) (cpu_get_of s)
        else
          (if m_lr s = 0 then Some 1
           else map_option (\<lambda>f_of. of_bool (cpu_get_sf s \<noteq> f_of)) (cpu_get_of s)))
      = Some (of_bool (cond_spec k f))"
    by (simp add: d(1,2,3,5,6) cond_spec_def d(4))
  then show ?thesis
    unfolding cpu_cond_def k_def Let_def by (simp add: xor_of_bool)
qed

section \<open>Properties\<close>

text \<open>A machine with every field zero, for concrete runs.\<close>

definition zero_cpu :: cpu_flags where
  "zero_cpu =
     \<lparr>m_cycles = 0, m_cycles_to_run = 0, m_refill_counter = 0, m_cycle_offset = 0,
      m_intr_line_state = 0, m_interrupts_blocked = 0, m_exit_reason = 0,
      m_eflags = 0, m_laux = 0, m_lop1 = 0, m_lop2 = 0, m_lr = 0\<rparr>"

text \<open>C30: Reading the flags register after writing \<open>e\<close> gives \<open>e\<close> on every
  architectural flag (the union of the masks the code writes) and the old value on the
  other bits, although the six status flags are stored indirectly, in the result and the tag
  words; the clock that the devices read does not move.\<close>
theorem eflags_round_trip:
  "cpu_get_eflags (cpu_set_eflags e s) = Some ((m_eflags s AND NOT eflags_mask) OR (e AND eflags_mask))
   \<and> cpu_get_cycles (cpu_set_eflags e s) = cpu_get_cycles s"
  by (simp add: get_set_eflags) (simp add: cpu_set_eflags_def cpu_get_cycles_def Let_def)

text \<open>On a state whose flags are defined, setting the carry and then the
  overflow, as the rotate instructions do, succeeds, leaves the other four flags as they
  were, and gives the same flags as the opposite order.\<close>
theorem set_flags_commute:
  assumes "flags_of s = Some f"
  shows "\<exists>t u. Option.bind (cpu_set_cf (of_bool x) s) (cpu_set_of (of_bool y)) = Some t
     \<and> Option.bind (cpu_set_of (of_bool y) s) (cpu_set_cf (of_bool x)) = Some u
     \<and> flags_of t = Some (f\<lparr>fl_cf := x, fl_of := y\<rparr>) \<and> flags_of u = flags_of t"
  using set_cf_of.set_both_commute [OF assms, of x y] set_cf_of.set_both [OF assms, of x y]
  by auto

theorem set_flags_commute_witness:
  "\<exists>t. Option.bind (cpu_set_cf 1 (cpu_set_eflags 0x40 zero_cpu)) (cpu_set_of 0) = Some t
     \<and> flags_of t = Some \<lparr>fl_cf = True, fl_pf = False, fl_af = False, fl_zf = True,
       fl_sf = False, fl_of = False\<rparr>"
  using set_flags_commute [OF flags_of_set_eflags [of "0x40" zero_cpu], of True False] by auto

text \<open>\<open>cpu_set_pf\<close> computes the new correction bit from
  \<open>cpu_get_pf\<close>, which still applies the old one, and then clears the old one: the parity
  flag ends as asked exactly when the old correction bit was clear, and inverted otherwise.\<close>
theorem set_pf_reads_stale_correction:
  "cpu_get_pf (cpu_set_pf (of_bool p) s) = of_bool (p \<noteq> bit (m_laux s) 7)"
  by (rule set_pf_parity)

end
