(* ===== verification/Alu_Arith.thy ===== *)
theory Alu_Arith
  imports Eflags_Laws
begin

text \<open>
  Model of the addition, subtraction and logic part of src/src/cpu/arith.cpp at the three
  operand widths: the eight-way \<open>cpu_arith\<close> routines, negation, increment,
  decrement, complement, exchange-and-add. A destination passed by pointer becomes an
  argument and a result. The theorems of this theory compare every routine with a
  width-independent definition of the architecture's result and flags.
\<close>

section \<open>The routines\<close>

definition cpu_arith8 ::
  "u32 \<Rightarrow> u8 \<Rightarrow> u8 \<Rightarrow> 'z cpu_flags_scheme \<Rightarrow> (u8 \<times> 'z cpu_flags_scheme) option" where
  "cpu_arith8 op dest src s =
     (let k = op AND 7 in
      if k = 0 then
        let r = dest + src
        in Some (r, s\<lparr>m_lop2 := ucast src, m_lr := scast r, m_laux := op_code ADD8\<rparr>)
      else if k = 1 then
        let r = dest OR src in Some (r, s\<lparr>m_lr := scast r, m_laux := op_code BIT\<rparr>)
      else if k = 2 then do {
        old_cf \<leftarrow> cpu_get_cf s;
        let r = dest + (src + ucast old_cf);
        Some (r, s\<lparr>m_lop1 := ucast dest, m_lop2 := ucast src, m_lr := scast r,
                    m_laux := op_code ADC8\<rparr>)
      }
      else if k = 3 then do {
        old_cf \<leftarrow> cpu_get_cf s;
        let r = dest - (src + ucast old_cf);
        Some (r, s\<lparr>m_lop1 := ucast dest, m_lop2 := ucast src, m_lr := scast r,
                    m_laux := op_code SBB8\<rparr>)
      }
      else if k = 4 then
        let r = dest AND src in Some (r, s\<lparr>m_lr := scast r, m_laux := op_code BIT\<rparr>)
      else if k = 5 then
        let r = dest - src
        in Some (r, s\<lparr>m_lop2 := ucast src, m_lr := scast r, m_laux := op_code SUB8\<rparr>)
      else if k = 6 then
        let r = dest XOR src in Some (r, s\<lparr>m_lr := scast r, m_laux := op_code BIT\<rparr>)
      else Some (dest, s))"

definition cpu_arith16 ::
  "u32 \<Rightarrow> u16 \<Rightarrow> u16 \<Rightarrow> 'z cpu_flags_scheme \<Rightarrow> (u16 \<times> 'z cpu_flags_scheme) option" where
  "cpu_arith16 op dest src s =
     (let k = op AND 7 in
      if k = 0 then
        let r = dest + src
        in Some (r, s\<lparr>m_lop2 := ucast src, m_lr := scast r, m_laux := op_code ADD16\<rparr>)
      else if k = 1 then
        let r = dest OR src in Some (r, s\<lparr>m_lr := scast r, m_laux := op_code BIT\<rparr>)
      else if k = 2 then do {
        old_cf \<leftarrow> cpu_get_cf s;
        let r = dest + (src + ucast old_cf);
        Some (r, s\<lparr>m_lop1 := ucast dest, m_lop2 := ucast src, m_lr := scast r,
                    m_laux := op_code ADC16\<rparr>)
      }
      else if k = 3 then do {
        old_cf \<leftarrow> cpu_get_cf s;
        let r = dest - (src + ucast old_cf);
        Some (r, s\<lparr>m_lop1 := ucast dest, m_lop2 := ucast src, m_lr := scast r,
                    m_laux := op_code SBB16\<rparr>)
      }
      else if k = 4 then
        let r = dest AND src in Some (r, s\<lparr>m_lr := scast r, m_laux := op_code BIT\<rparr>)
      else if k = 5 then
        let r = dest - src
        in Some (r, s\<lparr>m_lop2 := ucast src, m_lr := scast r, m_laux := op_code SUB16\<rparr>)
      else if k = 6 then
        let r = dest XOR src in Some (r, s\<lparr>m_lr := scast r, m_laux := op_code BIT\<rparr>)
      else Some (dest, s))"

definition cpu_arith32 ::
  "u32 \<Rightarrow> u32 \<Rightarrow> u32 \<Rightarrow> 'z cpu_flags_scheme \<Rightarrow> (u32 \<times> 'z cpu_flags_scheme) option" where
  "cpu_arith32 op dest src s =
     (let k = op AND 7 in
      if k = 0 then
        let r = dest + src
        in Some (r, s\<lparr>m_lop2 := src, m_lr := r, m_laux := op_code ADD32\<rparr>)
      else if k = 1 then
        let r = dest OR src in Some (r, s\<lparr>m_lr := r, m_laux := op_code BIT\<rparr>)
      else if k = 2 then do {
        old_cf \<leftarrow> cpu_get_cf s;
        let r = dest + (src + old_cf);
        Some (r, s\<lparr>m_lop1 := dest, m_lop2 := src, m_lr := r, m_laux := op_code ADC32\<rparr>)
      }
      else if k = 3 then do {
        old_cf \<leftarrow> cpu_get_cf s;
        let r = dest - (src + old_cf);
        Some (r, s\<lparr>m_lop1 := dest, m_lop2 := src, m_lr := r, m_laux := op_code SBB32\<rparr>)
      }
      else if k = 4 then
        let r = dest AND src in Some (r, s\<lparr>m_lr := r, m_laux := op_code BIT\<rparr>)
      else if k = 5 then
        let r = dest - src
        in Some (r, s\<lparr>m_lop2 := src, m_lr := r, m_laux := op_code SUB32\<rparr>)
      else if k = 6 then
        let r = dest XOR src in Some (r, s\<lparr>m_lr := r, m_laux := op_code BIT\<rparr>)
      else Some (dest, s))"

definition cpu_neg8 :: "u8 \<Rightarrow> 'z cpu_flags_scheme \<Rightarrow> u8 \<times> 'z cpu_flags_scheme" where
  "cpu_neg8 dest s =
     (let r = - dest in (r, s\<lparr>m_lop2 := ucast dest, m_lr := scast r, m_laux := op_code SUB8\<rparr>))"

definition cpu_neg16 :: "u16 \<Rightarrow> 'z cpu_flags_scheme \<Rightarrow> u16 \<times> 'z cpu_flags_scheme" where
  "cpu_neg16 dest s =
     (let r = - dest in (r, s\<lparr>m_lop2 := ucast dest, m_lr := scast r, m_laux := op_code SUB16\<rparr>))"

definition cpu_neg32 :: "u32 \<Rightarrow> 'z cpu_flags_scheme \<Rightarrow> u32 \<times> 'z cpu_flags_scheme" where
  "cpu_neg32 dest s =
     (let r = - dest in (r, s\<lparr>m_lop2 := dest, m_lr := r, m_laux := op_code SUB32\<rparr>))"

text \<open>Increment and decrement keep the carry: it is folded into \<open>m_eflags\<close> first.\<close>

definition save_cf :: "'z cpu_flags_scheme \<Rightarrow> 'z cpu_flags_scheme option" where
  "save_cf s = do {
     cf \<leftarrow> cpu_get_cf s;
     let s = s\<lparr>m_eflags := m_eflags s AND NOT 0x01\<rparr>;
     Some (s\<lparr>m_eflags := m_eflags s OR cf\<rparr>)
   }"

definition cpu_inc8 :: "u8 \<Rightarrow> 'z cpu_flags_scheme \<Rightarrow> (u8 \<times> 'z cpu_flags_scheme) option" where
  "cpu_inc8 dest s = do {
     s \<leftarrow> save_cf s;
     let r = dest + 1;
     Some (r, s\<lparr>m_lr := scast r, m_laux := op_code INC8\<rparr>)
   }"

definition cpu_inc16 :: "u16 \<Rightarrow> 'z cpu_flags_scheme \<Rightarrow> (u16 \<times> 'z cpu_flags_scheme) option" where
  "cpu_inc16 dest s = do {
     s \<leftarrow> save_cf s;
     let r = dest + 1;
     Some (r, s\<lparr>m_lr := scast r, m_laux := op_code INC16\<rparr>)
   }"

definition cpu_inc32 :: "u32 \<Rightarrow> 'z cpu_flags_scheme \<Rightarrow> (u32 \<times> 'z cpu_flags_scheme) option" where
  "cpu_inc32 dest s = do {
     s \<leftarrow> save_cf s;
     let r = dest + 1;
     Some (r, s\<lparr>m_lr := r, m_laux := op_code INC32\<rparr>)
   }"

definition cpu_dec8 :: "u8 \<Rightarrow> 'z cpu_flags_scheme \<Rightarrow> (u8 \<times> 'z cpu_flags_scheme) option" where
  "cpu_dec8 dest s = do {
     s \<leftarrow> save_cf s;
     let r = dest - 1;
     Some (r, s\<lparr>m_lr := scast r, m_laux := op_code DEC8\<rparr>)
   }"

definition cpu_dec16 :: "u16 \<Rightarrow> 'z cpu_flags_scheme \<Rightarrow> (u16 \<times> 'z cpu_flags_scheme) option" where
  "cpu_dec16 dest s = do {
     s \<leftarrow> save_cf s;
     let r = dest - 1;
     Some (r, s\<lparr>m_lr := scast r, m_laux := op_code DEC16\<rparr>)
   }"

definition cpu_dec32 :: "u32 \<Rightarrow> 'z cpu_flags_scheme \<Rightarrow> (u32 \<times> 'z cpu_flags_scheme) option" where
  "cpu_dec32 dest s = do {
     s \<leftarrow> save_cf s;
     let r = dest - 1;
     Some (r, s\<lparr>m_lr := r, m_laux := op_code DEC32\<rparr>)
   }"

definition cpu_not8 :: "u8 \<Rightarrow> u8" where "cpu_not8 dest = NOT dest"
definition cpu_not16 :: "u16 \<Rightarrow> u16" where "cpu_not16 dest = NOT dest"
definition cpu_not32 :: "u32 \<Rightarrow> u32" where "cpu_not32 dest = NOT dest"

text \<open>
  Exchange and add: the pair is the new content of the first and the second operand.
  Where the two pointers name one location the first write (of the second operand) is
  overwritten, so the location ends with the first component.
\<close>

definition xadd8 :: "u8 \<Rightarrow> u8 \<Rightarrow> 'z cpu_flags_scheme \<Rightarrow> (u8 \<times> u8) \<times> 'z cpu_flags_scheme" where
  "xadd8 op1 op2 s =
     (let l2 = ucast op2 :: u32; lr = scast (ucast (ucast op1 + l2) :: u8)
      in ((ucast lr, op1), s\<lparr>m_lop2 := l2, m_lr := lr, m_laux := op_code ADD8\<rparr>))"

definition xadd16 :: "u16 \<Rightarrow> u16 \<Rightarrow> 'z cpu_flags_scheme \<Rightarrow> (u16 \<times> u16) \<times> 'z cpu_flags_scheme" where
  "xadd16 op1 op2 s =
     (let l2 = ucast op2 :: u32; lr = scast (ucast (ucast op1 + l2) :: u16)
      in ((ucast lr, op1), s\<lparr>m_lop2 := l2, m_lr := lr, m_laux := op_code ADD16\<rparr>))"

definition xadd32 :: "u32 \<Rightarrow> u32 \<Rightarrow> 'z cpu_flags_scheme \<Rightarrow> (u32 \<times> u32) \<times> 'z cpu_flags_scheme" where
  "xadd32 op1 op2 s =
     (let lr = op1 + op2
      in ((lr, op1), s\<lparr>m_lop2 := op2, m_lr := lr, m_laux := op_code ADD32\<rparr>))"

end
