(* ===== verification/Alu_Spec.thy ===== *)
theory Alu_Spec
  imports Alu_Arith
begin

text \<open>
  The architecture's definition of the two's complement operations, over words of any
  width, and the proof that each stored triple of the emulator yields exactly these
  flags.
\<close>

section \<open>Reference flags\<close>

definition add_flags :: "'w::len word \<Rightarrow> 'w word \<Rightarrow> bool \<Rightarrow> arith_flags" where
  "add_flags a b c =
     (let r = a + b + of_bool c in
      \<lparr>fl_cf = 2 ^ LENGTH('w) \<le> uint a + uint b + of_bool c,
       fl_pf = parity8 r,
       fl_af = 16 \<le> uint a mod 16 + uint b mod 16 + of_bool c,
       fl_zf = r = 0,
       fl_sf = sint r < 0,
       fl_of = sint a + sint b + of_bool c \<noteq> sint r\<rparr>)"

definition sub_flags :: "'w::len word \<Rightarrow> 'w word \<Rightarrow> bool \<Rightarrow> arith_flags" where
  "sub_flags a b c =
     (let r = a - b - of_bool c in
      \<lparr>fl_cf = uint a < uint b + of_bool c,
       fl_pf = parity8 r,
       fl_af = uint a mod 16 < uint b mod 16 + of_bool c,
       fl_zf = r = 0,
       fl_sf = sint r < 0,
       fl_of = sint a - sint b - of_bool c \<noteq> sint r\<rparr>)"

definition logic_flags :: "'w::len word \<Rightarrow> arith_flags" where
  "logic_flags r =
     \<lparr>fl_cf = False, fl_pf = parity8 r, fl_af = False, fl_zf = r = 0, fl_sf = sint r < 0,
      fl_of = False\<rparr>"

section \<open>Reading result flags\<close>

lemma op_code_high_bits [simp]: "op_code op AND 0x80 = 0" "\<not> bit (op_code op) 31"
  by (cases op; simp)+

lemma parity8_scast8: "parity8 (scast (r::u8) :: u32) = parity8 r"
  by (simp add: parity8_unfold bit_sext8)

lemma parity8_scast16: "parity8 (scast (r::u16) :: u32) = parity8 r"
  by (simp add: parity8_unfold bit_sext16)

lemma sint_neg_bit:
  "sint (r::u8) < 0 \<longleftrightarrow> bit r 7" "sint (q::u16) < 0 \<longleftrightarrow> bit q 15" "sint (p::u32) < 0 \<longleftrightarrow> bit p 31"
  using bit_last_iff [of r] bit_last_iff [of q] bit_last_iff [of p] by simp_all

lemma result_flags:
  assumes "m_laux s = op_code op"
  shows "cpu_get_pf s = of_bool (parity8 (m_lr s))" "cpu_get_sf s = of_bool (bit (m_lr s) 31)"
    "laux_op s = Some op"
  using assms by (simp_all add: get_pf_parity get_sf_bit laux_op_def)

section \<open>Stored triples\<close>

lemma flags_BIT8:
  assumes "m_laux s = op_code BIT" "m_lr s = scast (r::u8)"
  shows "flags_of s = Some (logic_flags r)"
  using result_flags [OF assms(1)]
  by (simp add: flags_of_def cpu_get_cf_def cpu_get_of_def cpu_get_af_def logic_flags_def assms(2)
      parity8_scast8 sint_neg_bit bit_sext8)

lemma flags_BIT16:
  assumes "m_laux s = op_code BIT" "m_lr s = scast (r::u16)"
  shows "flags_of s = Some (logic_flags r)"
  using result_flags [OF assms(1)]
  by (simp add: flags_of_def cpu_get_cf_def cpu_get_of_def cpu_get_af_def logic_flags_def assms(2)
      parity8_scast16 sint_neg_bit bit_sext16)

lemma flags_BIT32:
  assumes "m_laux s = op_code BIT" "m_lr s = r"
  shows "flags_of s = Some (logic_flags r)"
  using result_flags [OF assms(1)]
  by (simp add: flags_of_def cpu_get_cf_def cpu_get_of_def cpu_get_af_def logic_flags_def assms(2)
      sint_neg_bit)

lemma low_bits_diff8: "n < 8 \<Longrightarrow> bit (scast (r::u8) - ucast b :: u32) n = bit (r - b) n"
  using bit_low8 [of n "scast r - ucast b"] by (simp add: ucast_down_diff sext8_low zext8_low)

lemma low_bits_sum8: "n < 8 \<Longrightarrow> bit (ucast b + scast (r::u8) :: u32) n = bit (b + r) n"
  using bit_low8 [of n "ucast b + scast r"] by (simp add: ucast_down_add sext8_low zext8_low)

lemma low_bits_diff16: "n < 16 \<Longrightarrow> bit (scast (r::u16) - ucast b :: u32) n = bit (r - b) n"
  using bit_low16 [of n "scast r - ucast b"] by (simp add: ucast_down_diff sext16_low zext16_low)

lemma low_bits_sum16: "n < 16 \<Longrightarrow> bit (ucast b + scast (r::u16) :: u32) n = bit (b + r) n"
  using bit_low16 [of n "ucast b + scast r"] by (simp add: ucast_down_add sext16_low zext16_low)

lemma carry_iff_less: "a + b < b \<longleftrightarrow> 2 ^ LENGTH('a) \<le> uint a + uint b" for a b :: "'a::len word"
  using uint_add_carry [of a b False] uint_lt2p [of a] by (auto simp: word_less_def split: if_splits)

lemma flags_ADD8:
  assumes "m_laux s = op_code ADD8" "m_lop2 s = ucast b" "m_lr s = scast (a + b :: u8)"
  shows "flags_of s = Some (add_flags a b False)"
proof -
  have cf: "cpu_get_cf s = Some (of_bool (2 ^ 8 \<le> uint a + uint b))"
    using carry_iff_less [of a b] result_flags(3) [OF assms(1)]
    by (simp add: cpu_get_cf_def assms low8_as_cast sext8_low zext8_low word_less_def)
  have of: "cpu_get_of s = Some (of_bool (sint a + sint b \<noteq> sint (a + b)))"
    using carry_out(2) [of a b False] result_flags(3) [OF assms(1)]
    by (simp add: cpu_get_of_def assms Let_def bit_drop_bit_eq bit_and_iff bit_xor_iff low_bits_diff8 cast_bits) blast
  have af: "cpu_get_af s = Some (of_bool (16 \<le> uint a mod 16 + uint b mod 16))"
    using half_carry [of a b False] result_flags(3) [OF assms(1)]
    by (simp add: cpu_get_af_def assms Let_def bit_drop_bit_eq bit_xor_iff low_bits_diff8 cast_bits) blast
  show ?thesis
    using result_flags [OF assms(1)]
    by (simp add: flags_of_def cf of af Let_def add_flags_def assms parity8_scast8 sint_neg_bit bit_sext8)
qed

lemma flags_SUB8:
  assumes "m_laux s = op_code SUB8" "m_lop2 s = ucast b" "m_lr s = scast (a - b :: u8)"
  shows "flags_of s = Some (sub_flags a b False)"
proof -
  have cf: "cpu_get_cf s = Some (of_bool (uint a < uint b))"
    using result_flags(3) [OF assms(1)]
    by (simp add: cpu_get_cf_def assms low8_as_cast sext8_low zext8_low ucast_down_add word_less_def)
  have of: "cpu_get_of s = Some (of_bool (sint a - sint b \<noteq> sint (a - b)))"
    using borrow_out(2) [of a b False] result_flags(3) [OF assms(1)]
    by (simp add: cpu_get_of_def assms Let_def bit_drop_bit_eq bit_and_iff bit_xor_iff low_bits_sum8 cast_bits) blast
  have af: "cpu_get_af s = Some (of_bool (uint a mod 16 < uint b mod 16))"
    using half_borrow [of a b False] result_flags(3) [OF assms(1)]
    by (simp add: cpu_get_af_def assms Let_def bit_drop_bit_eq bit_xor_iff add.commute low_bits_sum8 cast_bits) blast
  show ?thesis
    using result_flags [OF assms(1)]
    by (simp add: flags_of_def cf of af Let_def sub_flags_def assms parity8_scast8 sint_neg_bit bit_sext8)
qed

lemma flags_ADC8:
  assumes "m_laux s = op_code ADC8" "m_lop1 s = ucast a" "m_lop2 s = ucast b"
    "m_lr s = scast (a + b + of_bool c :: u8)"
  shows "flags_of s = Some (add_flags a b c)"
proof -
  have cf: "cpu_get_cf s = Some (of_bool (2 ^ 8 \<le> uint a + uint b + of_bool c))"
    using carry_out(1) [of a b c] result_flags(3) [OF assms(1)]
    by (simp add: cpu_get_cf_def assms Let_def bit_drop_bit_eq bit_and_iff bit_xor_iff cast_bits) blast
  have of: "cpu_get_of s = Some (of_bool (sint a + sint b + of_bool c \<noteq> sint (a + b + of_bool c)))"
    using carry_out(2) [of a b c] result_flags(3) [OF assms(1)]
    by (simp add: cpu_get_of_def assms Let_def bit_drop_bit_eq bit_and_iff bit_xor_iff cast_bits) blast
  have af: "cpu_get_af s = Some (of_bool (16 \<le> uint a mod 16 + uint b mod 16 + of_bool c))"
    using half_carry [of a b c] result_flags(3) [OF assms(1)]
    by (cases c; simp add: cpu_get_af_def assms Let_def bit_drop_bit_eq bit_xor_iff cast_bits; blast)
  show ?thesis
    using result_flags [OF assms(1)]
    by (simp add: flags_of_def cf of af Let_def add_flags_def assms parity8_scast8 sint_neg_bit bit_sext8)
qed

lemma flags_SBB8:
  assumes "m_laux s = op_code SBB8" "m_lop1 s = ucast a" "m_lop2 s = ucast b"
    "m_lr s = scast (a - b - of_bool c :: u8)"
  shows "flags_of s = Some (sub_flags a b c)"
proof -
  have cf: "cpu_get_cf s = Some (of_bool (uint a < uint b + of_bool c))"
    using borrow_out(1) [of a b c] result_flags(3) [OF assms(1)]
    by (simp add: cpu_get_cf_def assms Let_def bit_drop_bit_eq bit_and_iff bit_xor_iff cast_bits) blast
  have of: "cpu_get_of s = Some (of_bool (sint a - sint b - of_bool c \<noteq> sint (a - b - of_bool c)))"
    using borrow_out(2) [of a b c] result_flags(3) [OF assms(1)]
    by (simp add: cpu_get_of_def assms Let_def bit_drop_bit_eq bit_and_iff bit_xor_iff cast_bits) blast
  have af: "cpu_get_af s = Some (of_bool (uint a mod 16 < uint b mod 16 + of_bool c))"
    using half_borrow [of a b c] result_flags(3) [OF assms(1)]
    by (cases c; simp add: cpu_get_af_def assms Let_def bit_drop_bit_eq bit_xor_iff cast_bits; blast)
  show ?thesis
    using result_flags [OF assms(1)]
    by (simp add: flags_of_def cf of af Let_def sub_flags_def assms parity8_scast8 sint_neg_bit bit_sext8)
qed

lemma flags_ADD16:
  assumes "m_laux s = op_code ADD16" "m_lop2 s = ucast b" "m_lr s = scast (a + b :: u16)"
  shows "flags_of s = Some (add_flags a b False)"
proof -
  have cf: "cpu_get_cf s = Some (of_bool (2 ^ 16 \<le> uint a + uint b))"
    using carry_iff_less [of a b] result_flags(3) [OF assms(1)]
    by (simp add: cpu_get_cf_def assms low16_as_cast sext16_low zext16_low word_less_def)
  have of: "cpu_get_of s = Some (of_bool (sint a + sint b \<noteq> sint (a + b)))"
    using carry_out(2) [of a b False] result_flags(3) [OF assms(1)]
    by (simp add: cpu_get_of_def assms Let_def bit_drop_bit_eq bit_and_iff bit_xor_iff low_bits_diff16 cast_bits) blast
  have af: "cpu_get_af s = Some (of_bool (16 \<le> uint a mod 16 + uint b mod 16))"
    using half_carry [of a b False] result_flags(3) [OF assms(1)]
    by (simp add: cpu_get_af_def assms Let_def bit_drop_bit_eq bit_xor_iff low_bits_diff16 cast_bits) blast
  show ?thesis
    using result_flags [OF assms(1)]
    by (simp add: flags_of_def cf of af Let_def add_flags_def assms parity8_scast16 sint_neg_bit bit_sext16)
qed

lemma flags_SUB16:
  assumes "m_laux s = op_code SUB16" "m_lop2 s = ucast b" "m_lr s = scast (a - b :: u16)"
  shows "flags_of s = Some (sub_flags a b False)"
proof -
  have cf: "cpu_get_cf s = Some (of_bool (uint a < uint b))"
    using result_flags(3) [OF assms(1)]
    by (simp add: cpu_get_cf_def assms low16_as_cast sext16_low zext16_low ucast_down_add word_less_def)
  have of: "cpu_get_of s = Some (of_bool (sint a - sint b \<noteq> sint (a - b)))"
    using borrow_out(2) [of a b False] result_flags(3) [OF assms(1)]
    by (simp add: cpu_get_of_def assms Let_def bit_drop_bit_eq bit_and_iff bit_xor_iff low_bits_sum16 cast_bits) blast
  have af: "cpu_get_af s = Some (of_bool (uint a mod 16 < uint b mod 16))"
    using half_borrow [of a b False] result_flags(3) [OF assms(1)]
    by (simp add: cpu_get_af_def assms Let_def bit_drop_bit_eq bit_xor_iff add.commute low_bits_sum16 cast_bits) blast
  show ?thesis
    using result_flags [OF assms(1)]
    by (simp add: flags_of_def cf of af Let_def sub_flags_def assms parity8_scast16 sint_neg_bit bit_sext16)
qed

lemma flags_ADC16:
  assumes "m_laux s = op_code ADC16" "m_lop1 s = ucast a" "m_lop2 s = ucast b"
    "m_lr s = scast (a + b + of_bool c :: u16)"
  shows "flags_of s = Some (add_flags a b c)"
proof -
  have cf: "cpu_get_cf s = Some (of_bool (2 ^ 16 \<le> uint a + uint b + of_bool c))"
    using carry_out(1) [of a b c] result_flags(3) [OF assms(1)]
    by (simp add: cpu_get_cf_def assms Let_def bit_drop_bit_eq bit_and_iff bit_xor_iff cast_bits) blast
  have of: "cpu_get_of s = Some (of_bool (sint a + sint b + of_bool c \<noteq> sint (a + b + of_bool c)))"
    using carry_out(2) [of a b c] result_flags(3) [OF assms(1)]
    by (simp add: cpu_get_of_def assms Let_def bit_drop_bit_eq bit_and_iff bit_xor_iff cast_bits) blast
  have af: "cpu_get_af s = Some (of_bool (16 \<le> uint a mod 16 + uint b mod 16 + of_bool c))"
    using half_carry [of a b c] result_flags(3) [OF assms(1)]
    by (cases c; simp add: cpu_get_af_def assms Let_def bit_drop_bit_eq bit_xor_iff cast_bits; blast)
  show ?thesis
    using result_flags [OF assms(1)]
    by (simp add: flags_of_def cf of af Let_def add_flags_def assms parity8_scast16 sint_neg_bit bit_sext16)
qed

lemma flags_SBB16:
  assumes "m_laux s = op_code SBB16" "m_lop1 s = ucast a" "m_lop2 s = ucast b"
    "m_lr s = scast (a - b - of_bool c :: u16)"
  shows "flags_of s = Some (sub_flags a b c)"
proof -
  have cf: "cpu_get_cf s = Some (of_bool (uint a < uint b + of_bool c))"
    using borrow_out(1) [of a b c] result_flags(3) [OF assms(1)]
    by (simp add: cpu_get_cf_def assms Let_def bit_drop_bit_eq bit_and_iff bit_xor_iff cast_bits) blast
  have of: "cpu_get_of s = Some (of_bool (sint a - sint b - of_bool c \<noteq> sint (a - b - of_bool c)))"
    using borrow_out(2) [of a b c] result_flags(3) [OF assms(1)]
    by (simp add: cpu_get_of_def assms Let_def bit_drop_bit_eq bit_and_iff bit_xor_iff cast_bits) blast
  have af: "cpu_get_af s = Some (of_bool (uint a mod 16 < uint b mod 16 + of_bool c))"
    using half_borrow [of a b c] result_flags(3) [OF assms(1)]
    by (cases c; simp add: cpu_get_af_def assms Let_def bit_drop_bit_eq bit_xor_iff cast_bits; blast)
  show ?thesis
    using result_flags [OF assms(1)]
    by (simp add: flags_of_def cf of af Let_def sub_flags_def assms parity8_scast16 sint_neg_bit bit_sext16)
qed

lemma flags_ADD32:
  fixes a b :: u32
  assumes "m_laux s = op_code ADD32" "m_lop2 s = b" "m_lr s = a + b"
  shows "flags_of s = Some (add_flags a b False)"
proof -
  have cf: "cpu_get_cf s = Some (of_bool (2 ^ 32 \<le> uint a + uint b))"
    using carry_iff_less [of a b] result_flags(3) [OF assms(1)]
    by (simp add: cpu_get_cf_def assms  word_less_def)
  have of: "cpu_get_of s = Some (of_bool (sint a + sint b \<noteq> sint (a + b)))"
    using carry_out(2) [of a b False] result_flags(3) [OF assms(1)]
    by (simp add: cpu_get_of_def assms Let_def bit_drop_bit_eq bit_and_iff bit_xor_iff  ) blast
  have af: "cpu_get_af s = Some (of_bool (16 \<le> uint a mod 16 + uint b mod 16))"
    using half_carry [of a b False] result_flags(3) [OF assms(1)]
    by (simp add: cpu_get_af_def assms Let_def bit_drop_bit_eq bit_xor_iff  ) blast
  show ?thesis
    using result_flags [OF assms(1)]
    by (simp add: flags_of_def cf of af Let_def add_flags_def assms  sint_neg_bit )
qed

lemma flags_SUB32:
  fixes a b :: u32
  assumes "m_laux s = op_code SUB32" "m_lop2 s = b" "m_lr s = a - b"
  shows "flags_of s = Some (sub_flags a b False)"
proof -
  have cf: "cpu_get_cf s = Some (of_bool (uint a < uint b))"
    using result_flags(3) [OF assms(1)]
    by (simp add: cpu_get_cf_def assms   word_less_def)
  have of: "cpu_get_of s = Some (of_bool (sint a - sint b \<noteq> sint (a - b)))"
    using borrow_out(2) [of a b False] result_flags(3) [OF assms(1)]
    by (simp add: cpu_get_of_def assms Let_def bit_drop_bit_eq bit_and_iff bit_xor_iff  ) blast
  have af: "cpu_get_af s = Some (of_bool (uint a mod 16 < uint b mod 16))"
    using half_borrow [of a b False] result_flags(3) [OF assms(1)]
    by (simp add: cpu_get_af_def assms Let_def bit_drop_bit_eq bit_xor_iff add.commute  ) blast
  show ?thesis
    using result_flags [OF assms(1)]
    by (simp add: flags_of_def cf of af Let_def sub_flags_def assms  sint_neg_bit )
qed

lemma flags_ADC32:
  fixes a b :: u32
  assumes "m_laux s = op_code ADC32" "m_lop1 s = a" "m_lop2 s = b"
    "m_lr s = a + b + of_bool c"
  shows "flags_of s = Some (add_flags a b c)"
proof -
  have cf: "cpu_get_cf s = Some (of_bool (2 ^ 32 \<le> uint a + uint b + of_bool c))"
    using carry_out(1) [of a b c] result_flags(3) [OF assms(1)]
    by (simp add: cpu_get_cf_def assms Let_def bit_drop_bit_eq bit_and_iff bit_xor_iff ) blast
  have of: "cpu_get_of s = Some (of_bool (sint a + sint b + of_bool c \<noteq> sint (a + b + of_bool c)))"
    using carry_out(2) [of a b c] result_flags(3) [OF assms(1)]
    by (simp add: cpu_get_of_def assms Let_def bit_drop_bit_eq bit_and_iff bit_xor_iff ) blast
  have af: "cpu_get_af s = Some (of_bool (16 \<le> uint a mod 16 + uint b mod 16 + of_bool c))"
    using half_carry [of a b c] result_flags(3) [OF assms(1)]
    by (cases c; simp add: cpu_get_af_def assms Let_def bit_drop_bit_eq bit_xor_iff ; blast)
  show ?thesis
    using result_flags [OF assms(1)]
    by (simp add: flags_of_def cf of af Let_def add_flags_def assms  sint_neg_bit )
qed

lemma flags_SBB32:
  fixes a b :: u32
  assumes "m_laux s = op_code SBB32" "m_lop1 s = a" "m_lop2 s = b"
    "m_lr s = a - b - of_bool c"
  shows "flags_of s = Some (sub_flags a b c)"
proof -
  have cf: "cpu_get_cf s = Some (of_bool (uint a < uint b + of_bool c))"
    using borrow_out(1) [of a b c] result_flags(3) [OF assms(1)]
    by (simp add: cpu_get_cf_def assms Let_def bit_drop_bit_eq bit_and_iff bit_xor_iff ) blast
  have of: "cpu_get_of s = Some (of_bool (sint a - sint b - of_bool c \<noteq> sint (a - b - of_bool c)))"
    using borrow_out(2) [of a b c] result_flags(3) [OF assms(1)]
    by (simp add: cpu_get_of_def assms Let_def bit_drop_bit_eq bit_and_iff bit_xor_iff ) blast
  have af: "cpu_get_af s = Some (of_bool (uint a mod 16 < uint b mod 16 + of_bool c))"
    using half_borrow [of a b c] result_flags(3) [OF assms(1)]
    by (cases c; simp add: cpu_get_af_def assms Let_def bit_drop_bit_eq bit_xor_iff ; blast)
  show ?thesis
    using result_flags [OF assms(1)]
    by (simp add: flags_of_def cf of af Let_def sub_flags_def assms  sint_neg_bit )
qed

text \<open>Increment and decrement: the flags of adding or subtracting one, but for the carry.\<close>

lemma zext8_eq_80: "(ucast (x::u8) :: u32) = 0x80 \<longleftrightarrow> x = 0x80"
  using zext8_inj [of x "0x80"] by (simp del: zext8_inj)

lemma zext8_eq_7F: "(ucast (x::u8) :: u32) = 0x7F \<longleftrightarrow> x = 0x7F"
  using zext8_inj [of x "0x7F"] by (simp del: zext8_inj)

lemma zext16_eq_8000: "(ucast (x::u16) :: u32) = 0x8000 \<longleftrightarrow> x = 0x8000"
  using zext16_inj [of x "0x8000"] by (simp del: zext16_inj)

lemma zext16_eq_7FFF: "(ucast (x::u16) :: u32) = 0x7FFF \<longleftrightarrow> x = 0x7FFF"
  using zext16_inj [of x "0x7FFF"] by (simp del: zext16_inj)

lemma and_15_bits: "x AND 15 = of_bool (bit x 0) + 2 * of_bool (bit x 1) + 4 * of_bool (bit x 2)
    + 8 * of_bool (bit x 3)" for x :: "'a::len word"
proof -
  have "x AND 15 = take_bit 4 x"
    by (simp only: and_mask_take_bit)
  also have "\<dots> = horner_sum of_bool 2 (map (bit x) [0..<4])"
    by (rule horner_sum_bit_eq_take_bit [symmetric])
  also have "[0..<4] = [0, 1, 2, 3::nat]"
    by (simp add: upt_rec)
  finally show ?thesis by (simp add: algebra_simps)
qed

lemma sext8_and_15_0: "(scast (x::u8) :: u32) AND 15 = 0 \<longleftrightarrow> x AND 15 = 0"
  unfolding and_15_bits
  by (cases "bit x 0"; cases "bit x 1"; cases "bit x 2"; cases "bit x 3") (simp_all add: bit_sext8)

lemma sext8_and_15_15: "(scast (x::u8) :: u32) AND 15 = 15 \<longleftrightarrow> x AND 15 = 15"
  unfolding and_15_bits
  by (cases "bit x 0"; cases "bit x 1"; cases "bit x 2"; cases "bit x 3") (simp_all add: bit_sext8)

lemma sext16_and_15_0: "(scast (x::u16) :: u32) AND 15 = 0 \<longleftrightarrow> x AND 15 = 0"
  unfolding and_15_bits
  by (cases "bit x 0"; cases "bit x 1"; cases "bit x 2"; cases "bit x 3") (simp_all add: bit_sext16)

lemma sext16_and_15_15: "(scast (x::u16) :: u32) AND 15 = 15 \<longleftrightarrow> x AND 15 = 15"
  unfolding and_15_bits
  by (cases "bit x 0"; cases "bit x 1"; cases "bit x 2"; cases "bit x 3") (simp_all add: bit_sext16)

lemma flags_INC8:
  fixes a :: u8
  assumes "m_laux s = op_code INC8" "m_lr s = scast (a + 1 :: u8)"
  shows "flags_of s = Some ((add_flags a 1 False)\<lparr>fl_cf := bit (m_eflags s) 0\<rparr>)"
proof -
  have cf: "cpu_get_cf s = Some (of_bool (bit (m_eflags s) 0))"
    using result_flags(3) [OF assms(1)] by (simp add: cpu_get_cf_def)
  have of: "cpu_get_of s = Some (of_bool (sint a + 1 \<noteq> sint (a + 1)))"
    using inc_overflow [of a] result_flags(3) [OF assms(1)]
    by (simp add: cpu_get_of_def assms Let_def low8_as_cast sext8_low zext8_eq_80)
  have af: "cpu_get_af s = Some (of_bool (16 \<le> uint a mod 16 + 1))"
    using inc_half [of a] result_flags(3) [OF assms(1)]
    by (simp add: cpu_get_af_def assms Let_def sext8_and_15_0)
  show ?thesis
    using result_flags [OF assms(1)]
    by (simp add: flags_of_def cf of af Let_def add_flags_def assms parity8_scast8 sint_neg_bit bit_sext8)
qed

lemma flags_DEC8:
  fixes a :: u8
  assumes "m_laux s = op_code DEC8" "m_lr s = scast (a - 1 :: u8)"
  shows "flags_of s = Some ((sub_flags a 1 False)\<lparr>fl_cf := bit (m_eflags s) 0\<rparr>)"
proof -
  have cf: "cpu_get_cf s = Some (of_bool (bit (m_eflags s) 0))"
    using result_flags(3) [OF assms(1)] by (simp add: cpu_get_cf_def)
  have of: "cpu_get_of s = Some (of_bool (sint a - 1 \<noteq> sint (a - 1)))"
    using dec_overflow [of a] result_flags(3) [OF assms(1)]
    by (simp add: cpu_get_of_def assms Let_def low8_as_cast sext8_low zext8_eq_7F)
  have af: "cpu_get_af s = Some (of_bool (uint a mod 16 < 1))"
    using dec_half [of a] result_flags(3) [OF assms(1)]
    by (simp add: cpu_get_af_def assms Let_def sext8_and_15_15)
  show ?thesis
    using result_flags [OF assms(1)]
    by (simp add: flags_of_def cf of af Let_def sub_flags_def assms parity8_scast8 sint_neg_bit bit_sext8)
qed

lemma flags_INC16:
  fixes a :: u16
  assumes "m_laux s = op_code INC16" "m_lr s = scast (a + 1 :: u16)"
  shows "flags_of s = Some ((add_flags a 1 False)\<lparr>fl_cf := bit (m_eflags s) 0\<rparr>)"
proof -
  have cf: "cpu_get_cf s = Some (of_bool (bit (m_eflags s) 0))"
    using result_flags(3) [OF assms(1)] by (simp add: cpu_get_cf_def)
  have of: "cpu_get_of s = Some (of_bool (sint a + 1 \<noteq> sint (a + 1)))"
    using inc_overflow [of a] result_flags(3) [OF assms(1)]
    by (simp add: cpu_get_of_def assms Let_def low16_as_cast sext16_low zext16_eq_8000)
  have af: "cpu_get_af s = Some (of_bool (16 \<le> uint a mod 16 + 1))"
    using inc_half [of a] result_flags(3) [OF assms(1)]
    by (simp add: cpu_get_af_def assms Let_def sext16_and_15_0)
  show ?thesis
    using result_flags [OF assms(1)]
    by (simp add: flags_of_def cf of af Let_def add_flags_def assms parity8_scast16 sint_neg_bit bit_sext16)
qed

lemma flags_DEC16:
  fixes a :: u16
  assumes "m_laux s = op_code DEC16" "m_lr s = scast (a - 1 :: u16)"
  shows "flags_of s = Some ((sub_flags a 1 False)\<lparr>fl_cf := bit (m_eflags s) 0\<rparr>)"
proof -
  have cf: "cpu_get_cf s = Some (of_bool (bit (m_eflags s) 0))"
    using result_flags(3) [OF assms(1)] by (simp add: cpu_get_cf_def)
  have of: "cpu_get_of s = Some (of_bool (sint a - 1 \<noteq> sint (a - 1)))"
    using dec_overflow [of a] result_flags(3) [OF assms(1)]
    by (simp add: cpu_get_of_def assms Let_def low16_as_cast sext16_low zext16_eq_7FFF)
  have af: "cpu_get_af s = Some (of_bool (uint a mod 16 < 1))"
    using dec_half [of a] result_flags(3) [OF assms(1)]
    by (simp add: cpu_get_af_def assms Let_def sext16_and_15_15)
  show ?thesis
    using result_flags [OF assms(1)]
    by (simp add: flags_of_def cf of af Let_def sub_flags_def assms parity8_scast16 sint_neg_bit bit_sext16)
qed

lemma flags_INC32:
  fixes a :: u32
  assumes "m_laux s = op_code INC32" "m_lr s = a + 1"
  shows "flags_of s = Some ((add_flags a 1 False)\<lparr>fl_cf := bit (m_eflags s) 0\<rparr>)"
proof -
  have cf: "cpu_get_cf s = Some (of_bool (bit (m_eflags s) 0))"
    using result_flags(3) [OF assms(1)] by (simp add: cpu_get_cf_def)
  have of: "cpu_get_of s = Some (of_bool (sint a + 1 \<noteq> sint (a + 1)))"
    using inc_overflow [of a] result_flags(3) [OF assms(1)]
    by (simp add: cpu_get_of_def assms Let_def   )
  have af: "cpu_get_af s = Some (of_bool (16 \<le> uint a mod 16 + 1))"
    using inc_half [of a] result_flags(3) [OF assms(1)]
    by (simp add: cpu_get_af_def assms Let_def )
  show ?thesis
    using result_flags [OF assms(1)]
    by (simp add: flags_of_def cf of af Let_def add_flags_def assms  sint_neg_bit )
qed

lemma flags_DEC32:
  fixes a :: u32
  assumes "m_laux s = op_code DEC32" "m_lr s = a - 1"
  shows "flags_of s = Some ((sub_flags a 1 False)\<lparr>fl_cf := bit (m_eflags s) 0\<rparr>)"
proof -
  have cf: "cpu_get_cf s = Some (of_bool (bit (m_eflags s) 0))"
    using result_flags(3) [OF assms(1)] by (simp add: cpu_get_cf_def)
  have of: "cpu_get_of s = Some (of_bool (sint a - 1 \<noteq> sint (a - 1)))"
    using dec_overflow [of a] result_flags(3) [OF assms(1)]
    by (simp add: cpu_get_of_def assms Let_def   )
  have af: "cpu_get_af s = Some (of_bool (uint a mod 16 < 1))"
    using dec_half [of a] result_flags(3) [OF assms(1)]
    by (simp add: cpu_get_af_def assms Let_def )
  show ?thesis
    using result_flags [OF assms(1)]
    by (simp add: flags_of_def cf of af Let_def sub_flags_def assms  sint_neg_bit )
qed

end
