(* ===== verification/Alu_Laws.thy ===== *)
theory Alu_Laws
  imports Alu_Spec
begin

text \<open>
  The routines of Alu_Arith against the reference of Alu_Spec: result, flags and frame
  of the eight-way routine, of negation, increment, decrement and exchange-and-add, and
  what a conditional instruction sees after a comparison.
\<close>

section \<open>The reference operation\<close>

text \<open>
  Operation numbers as in the encoding: 0 ADD, 1 OR, 2 ADC, 3 SBB, 4 AND, 5 SUB, 6 XOR.
  (7, CMP, never reaches the routine; it leaves everything as it is.)
\<close>

definition alu_result :: "u32 \<Rightarrow> 'w::len word \<Rightarrow> 'w word \<Rightarrow> bool \<Rightarrow> 'w word" where
  "alu_result k a b c =
     (if k = 0 then a + b
      else if k = 1 then a OR b
      else if k = 2 then a + b + of_bool c
      else if k = 3 then a - b - of_bool c
      else if k = 4 then a AND b
      else if k = 5 then a - b
      else if k = 6 then a XOR b
      else a)"

definition alu_flags :: "u32 \<Rightarrow> 'w::len word \<Rightarrow> 'w word \<Rightarrow> bool \<Rightarrow> arith_flags" where
  "alu_flags k a b c =
     (if k = 0 then add_flags a b False
      else if k = 2 then add_flags a b c
      else if k = 3 then sub_flags a b c
      else if k = 5 then sub_flags a b False
      else logic_flags (alu_result k a b c))"

text \<open>The only fields an arithmetic routine may change.\<close>

definition lazy_frame :: "'z cpu_flags_scheme \<Rightarrow> 'z cpu_flags_scheme \<Rightarrow> bool" where
  "lazy_frame s t \<longleftrightarrow>
     t = s\<lparr>m_lop1 := m_lop1 t, m_lop2 := m_lop2 t, m_lr := m_lr t, m_laux := m_laux t\<rparr>"

lemma lazy_frame_refl [simp]: "lazy_frame s s"
  by (simp add: lazy_frame_def)

lemma lazy_frame_upd [simp]:
  "lazy_frame s (s\<lparr>m_lr := r, m_laux := x\<rparr>)"
  "lazy_frame s (s\<lparr>m_lop2 := b, m_lr := r, m_laux := x\<rparr>)"
  "lazy_frame s (s\<lparr>m_lop1 := a, m_lop2 := b, m_lr := r, m_laux := x\<rparr>)"
  by (simp_all add: lazy_frame_def)

lemma ucast_of_bool [simp]: "(ucast (of_bool c :: u32) :: 'w::len word) = of_bool c"
  by (cases c) simp_all

lemma carry_groups:
  "a + (b + of_bool c) = a + b + of_bool c" "a - (b + of_bool c) = a - b - of_bool c"
  for a b :: "'w::len word"
  by simp_all

section \<open>The eight-way routine\<close>

lemma arith8_spec:
  assumes f: "flags_of s = Some f" and k: "op AND 7 \<noteq> 7"
  shows "\<exists>t. cpu_arith8 op a b s = Some (alu_result (op AND 7) a b (fl_cf f), t)
    \<and> flags_of t = Some (alu_flags (op AND 7) a b (fl_cf f)) \<and> lazy_frame s t"
  using k by (cases op rule: and_7_cases) (simp_all add: cpu_arith8_def alu_result_def
      alu_flags_def Let_def flags_of_SomeD(1) [OF f] carry_groups
      flags_ADD8 flags_ADC8 flags_SUB8 flags_SBB8 flags_BIT8)

lemma arith16_spec:
  assumes f: "flags_of s = Some f" and k: "op AND 7 \<noteq> 7"
  shows "\<exists>t. cpu_arith16 op a b s = Some (alu_result (op AND 7) a b (fl_cf f), t)
    \<and> flags_of t = Some (alu_flags (op AND 7) a b (fl_cf f)) \<and> lazy_frame s t"
  using k by (cases op rule: and_7_cases) (simp_all add: cpu_arith16_def alu_result_def
      alu_flags_def Let_def flags_of_SomeD(1) [OF f] carry_groups
      flags_ADD16 flags_ADC16 flags_SUB16 flags_SBB16 flags_BIT16)

lemma arith32_spec:
  assumes f: "flags_of s = Some f" and k: "op AND 7 \<noteq> 7"
  shows "\<exists>t. cpu_arith32 op a b s = Some (alu_result (op AND 7) a b (fl_cf f), t)
    \<and> flags_of t = Some (alu_flags (op AND 7) a b (fl_cf f)) \<and> lazy_frame s t"
  using k by (cases op rule: and_7_cases) (simp_all add: cpu_arith32_def alu_result_def
      alu_flags_def Let_def flags_of_SomeD(1) [OF f] carry_groups
      flags_ADD32 flags_ADC32 flags_SUB32 flags_SBB32 flags_BIT32)

section \<open>Comparing and branching\<close>

lemma cond_spec_sub:
  "cond_spec 1 (sub_flags a b False) \<longleftrightarrow> a < b"
  "cond_spec 2 (sub_flags a b False) \<longleftrightarrow> a = b"
  "cond_spec 3 (sub_flags a b False) \<longleftrightarrow> a \<le> b"
  "cond_spec 6 (sub_flags a b False) \<longleftrightarrow> sint a < sint b"
  "cond_spec 7 (sub_flags a b False) \<longleftrightarrow> sint a \<le> sint b"
  for a b :: "'a::len word"
proof -
  have le: "a \<le> b \<longleftrightarrow> a = b \<or> a < b" "sint a \<le> sint b \<longleftrightarrow> a = b \<or> sint a < sint b"
    by (auto simp: order_less_le signed_word_eqI)
  have f: "fl_cf (sub_flags a b False) \<longleftrightarrow> a < b" "fl_zf (sub_flags a b False) \<longleftrightarrow> a = b"
    "fl_sf (sub_flags a b False) \<noteq> fl_of (sub_flags a b False) \<longleftrightarrow> sint a < sint b"
    using sless_by_flags [of a b] by (auto simp: sub_flags_def Let_def word_less_def)
  show "cond_spec 1 (sub_flags a b False) \<longleftrightarrow> a < b" "cond_spec 2 (sub_flags a b False) \<longleftrightarrow> a = b"
    "cond_spec 3 (sub_flags a b False) \<longleftrightarrow> a \<le> b"
    "cond_spec 6 (sub_flags a b False) \<longleftrightarrow> sint a < sint b"
    "cond_spec 7 (sub_flags a b False) \<longleftrightarrow> sint a \<le> sint b"
    using f le by (simp_all add: cond_spec_def)
qed

text \<open>The conditions a state gives after comparing two words.\<close>

definition branch_table :: "'w::len word \<Rightarrow> 'w word \<Rightarrow> 'z cpu_flags_scheme \<Rightarrow> bool" where
  "branch_table a b t \<longleftrightarrow>
     cpu_cond 2 t = Some (of_bool (a < b)) \<and> cpu_cond 3 t = Some (of_bool (\<not> a < b))
   \<and> cpu_cond 4 t = Some (of_bool (a = b)) \<and> cpu_cond 5 t = Some (of_bool (a \<noteq> b))
   \<and> cpu_cond 6 t = Some (of_bool (a \<le> b)) \<and> cpu_cond 7 t = Some (of_bool (\<not> a \<le> b))
   \<and> cpu_cond 12 t = Some (of_bool (a <s b)) \<and> cpu_cond 13 t = Some (of_bool (\<not> a <s b))
   \<and> cpu_cond 14 t = Some (of_bool (a \<le>s b)) \<and> cpu_cond 15 t = Some (of_bool (\<not> a \<le>s b))"

lemma branch_tableI: "flags_of t = Some (sub_flags a b False) \<Longrightarrow> branch_table a b t"
  by (simp add: branch_table_def cond_flags_of cond_spec_sub word_sless_alt word_sle_eq)

section \<open>Increment, decrement, negation, exchange-and-add\<close>

lemma save_cf_flags_of:
  assumes "flags_of s = Some f"
  shows "save_cf s = Some (s\<lparr>m_eflags := (m_eflags s AND NOT 1) OR of_bool (fl_cf f)\<rparr>)"
  by (simp add: save_cf_def flags_of_SomeD(1) [OF assms])

lemma bit_saved_cf: "bit ((e AND - 2) OR of_bool c) 0 = c" for e :: u32
  by (cases c) (simp_all add: bit_or_iff bit_and_iff)

text \<open>After increment and decrement the register holds the old carry in bit 0.\<close>

definition keeps_carry :: "arith_flags \<Rightarrow> 'z cpu_flags_scheme \<Rightarrow> 'z cpu_flags_scheme \<Rightarrow> bool" where
  "keeps_carry f s t \<longleftrightarrow>
     lazy_frame (s\<lparr>m_eflags := (m_eflags s AND NOT 1) OR of_bool (fl_cf f)\<rparr>) t"

lemma inc8_spec:
  assumes f: "flags_of s = Some f"
  shows "\<exists>t. cpu_inc8 a s = Some (a + 1, t)
    \<and> flags_of t = Some ((add_flags a 1 False)\<lparr>fl_cf := fl_cf f\<rparr>) \<and> keeps_carry f s t"
  by (simp add: cpu_inc8_def save_cf_flags_of [OF f] flags_INC8 bit_saved_cf keeps_carry_def
      Let_def)

lemma dec8_spec:
  assumes f: "flags_of s = Some f"
  shows "\<exists>t. cpu_dec8 a s = Some (a - 1, t)
    \<and> flags_of t = Some ((sub_flags a 1 False)\<lparr>fl_cf := fl_cf f\<rparr>) \<and> keeps_carry f s t"
  by (simp add: cpu_dec8_def save_cf_flags_of [OF f] flags_DEC8 bit_saved_cf keeps_carry_def
      Let_def)

lemma inc16_spec:
  assumes f: "flags_of s = Some f"
  shows "\<exists>t. cpu_inc16 a s = Some (a + 1, t)
    \<and> flags_of t = Some ((add_flags a 1 False)\<lparr>fl_cf := fl_cf f\<rparr>) \<and> keeps_carry f s t"
  by (simp add: cpu_inc16_def save_cf_flags_of [OF f] flags_INC16 bit_saved_cf keeps_carry_def
      Let_def)

lemma dec16_spec:
  assumes f: "flags_of s = Some f"
  shows "\<exists>t. cpu_dec16 a s = Some (a - 1, t)
    \<and> flags_of t = Some ((sub_flags a 1 False)\<lparr>fl_cf := fl_cf f\<rparr>) \<and> keeps_carry f s t"
  by (simp add: cpu_dec16_def save_cf_flags_of [OF f] flags_DEC16 bit_saved_cf keeps_carry_def
      Let_def)

lemma inc32_spec:
  assumes f: "flags_of s = Some f"
  shows "\<exists>t. cpu_inc32 a s = Some (a + 1, t)
    \<and> flags_of t = Some ((add_flags a 1 False)\<lparr>fl_cf := fl_cf f\<rparr>) \<and> keeps_carry f s t"
  by (simp add: cpu_inc32_def save_cf_flags_of [OF f] flags_INC32 bit_saved_cf keeps_carry_def
      Let_def)

lemma dec32_spec:
  assumes f: "flags_of s = Some f"
  shows "\<exists>t. cpu_dec32 a s = Some (a - 1, t)
    \<and> flags_of t = Some ((sub_flags a 1 False)\<lparr>fl_cf := fl_cf f\<rparr>) \<and> keeps_carry f s t"
  by (simp add: cpu_dec32_def save_cf_flags_of [OF f] flags_DEC32 bit_saved_cf keeps_carry_def
      Let_def)

lemma neg8_spec: "cpu_neg8 a s = (- a, snd (cpu_neg8 a s))
    \<and> flags_of (snd (cpu_neg8 a s)) = Some (sub_flags 0 a False)
    \<and> lazy_frame s (snd (cpu_neg8 a s))"
  by (simp add: cpu_neg8_def Let_def flags_SUB8)

lemma xadd8_spec: "xadd8 a b s = ((a + b, a), snd (xadd8 a b s))
    \<and> flags_of (snd (xadd8 a b s)) = Some (add_flags a b False)
    \<and> lazy_frame s (snd (xadd8 a b s))"
  by (simp add: xadd8_def Let_def flags_ADD8 sext8_low zext8_low ucast_down_add)

lemma neg16_spec: "cpu_neg16 a s = (- a, snd (cpu_neg16 a s))
    \<and> flags_of (snd (cpu_neg16 a s)) = Some (sub_flags 0 a False)
    \<and> lazy_frame s (snd (cpu_neg16 a s))"
  by (simp add: cpu_neg16_def Let_def flags_SUB16)

lemma xadd16_spec: "xadd16 a b s = ((a + b, a), snd (xadd16 a b s))
    \<and> flags_of (snd (xadd16 a b s)) = Some (add_flags a b False)
    \<and> lazy_frame s (snd (xadd16 a b s))"
  by (simp add: xadd16_def Let_def flags_ADD16 sext16_low zext16_low ucast_down_add)

lemma neg32_spec: "cpu_neg32 a s = (- a, snd (cpu_neg32 a s))
    \<and> flags_of (snd (cpu_neg32 a s)) = Some (sub_flags 0 a False)
    \<and> lazy_frame s (snd (cpu_neg32 a s))"
  by (simp add: cpu_neg32_def Let_def flags_SUB32)

lemma xadd32_spec: "xadd32 a b s = ((a + b, a), snd (xadd32 a b s))
    \<and> flags_of (snd (xadd32 a b s)) = Some (add_flags a b False)
    \<and> lazy_frame s (snd (xadd32 a b s))"
  by (simp add: xadd32_def Let_def flags_ADD32 )

section \<open>Properties\<close>

text \<open>A machine whose status flags are all known, for concrete runs: carry set, the rest clear.\<close>

definition carry_cpu :: cpu_flags where
  "carry_cpu = cpu_set_eflags 3 zero_cpu"

lemma carry_cpu_flags:
  "flags_of carry_cpu = Some \<lparr>fl_cf = True, fl_pf = False, fl_af = False, fl_zf = False,
     fl_sf = False, fl_of = False\<rparr>"
  by (simp add: carry_cpu_def flags_of_set_eflags)

text \<open>C8: On every state whose flags are defined, \<open>cpu_arith8\<close>, \<open>cpu_arith16\<close>
  and \<open>cpu_arith32\<close> return the architecture's result of ADD, OR, ADC, SBB, AND, SUB or
  XOR, leave all six status flags as the architecture defines them (carry and overflow as
  exact statements on the unsigned and signed integer values), and change no field besides
  the lazy operands, the result and the tag.\<close>
theorem alu_ops_correct:
  assumes "flags_of s = Some f" and "op AND 7 \<noteq> 7"
  shows "(\<exists>t. cpu_arith8 op a8 b8 s = Some (alu_result (op AND 7) a8 b8 (fl_cf f), t)
       \<and> flags_of t = Some (alu_flags (op AND 7) a8 b8 (fl_cf f)) \<and> lazy_frame s t)
   \<and> (\<exists>t. cpu_arith16 op a16 b16 s = Some (alu_result (op AND 7) a16 b16 (fl_cf f), t)
       \<and> flags_of t = Some (alu_flags (op AND 7) a16 b16 (fl_cf f)) \<and> lazy_frame s t)
   \<and> (\<exists>t. cpu_arith32 op a32 b32 s = Some (alu_result (op AND 7) a32 b32 (fl_cf f), t)
       \<and> flags_of t = Some (alu_flags (op AND 7) a32 b32 (fl_cf f)) \<and> lazy_frame s t)"
  using arith8_spec [OF assms] arith16_spec [OF assms] arith32_spec [OF assms] by blast

text \<open>Adding 127 and 0 with the carry set overflows the signed range.\<close>
theorem alu_ops_correct_witness:
  "\<exists>t. cpu_arith8 2 127 0 carry_cpu = Some (128, t) \<and> cpu_get_cf t = Some 0 \<and> cpu_get_of t = Some 1"
proof -
  obtain t where t: "cpu_arith8 2 127 0 carry_cpu = Some (alu_result 2 127 0 True, t)"
    and f: "flags_of t = Some (alu_flags 2 (127::u8) 0 True)"
    using alu_ops_correct [OF carry_cpu_flags, of 2 127 0, THEN conjunct1] by auto
  show ?thesis
    using t flags_of_SomeD(1,3) [OF f]
    by (intro exI [of _ t]) (simp add: alu_result_def alu_flags_def add_flags_def)
qed

text \<open>C20: After a subtraction of \<open>b\<close> from \<open>a\<close> at any width the condition
  codes 2, 4, 6, 12 and 14 of \<open>cpu_cond\<close> (below, equal, below-or-equal, less,
  less-or-equal) give exactly the unsigned and signed comparisons of the operands, and the
  odd code that follows each of them gives the negation.\<close>
theorem compare_conditions:
  assumes "flags_of s = Some f" and "op AND 7 = 5"
  shows "(\<exists>t. cpu_arith8 op a8 b8 s = Some (a8 - b8, t) \<and> branch_table a8 b8 t)
   \<and> (\<exists>t. cpu_arith16 op a16 b16 s = Some (a16 - b16, t) \<and> branch_table a16 b16 t)
   \<and> (\<exists>t. cpu_arith32 op a32 b32 s = Some (a32 - b32, t) \<and> branch_table a32 b32 t)"
proof -
  have k: "op AND 7 \<noteq> 7" using assms(2) by simp
  show ?thesis
    using arith8_spec [OF assms(1) k, of a8 b8] arith16_spec [OF assms(1) k, of a16 b16]
      arith32_spec [OF assms(1) k, of a32 b32]
    by (auto simp: alu_result_def alu_flags_def assms(2) intro: branch_tableI)
qed

theorem compare_conditions_witness:
  "\<exists>t. cpu_arith8 5 0x80 1 carry_cpu = Some (0x7F, t)
     \<and> cpu_cond 12 t = Some 1 \<and> cpu_cond 2 t = Some 0"
proof -
  have "\<exists>t. cpu_arith8 5 0x80 1 carry_cpu = Some (0x80 - 1, t) \<and> branch_table (0x80::u8) 1 t"
    using compare_conditions [OF carry_cpu_flags, of 5 "0x80" 1] by simp
  then show ?thesis by (auto simp: branch_table_def word_sless_alt)
qed

text \<open>Increment and decrement at every width give the flags of adding or
  subtracting one, except that the carry keeps its old value; they touch the lazy fields
  and bit 0 of \<open>m_eflags\<close> only.\<close>
theorem inc_dec_keep_carry:
  assumes "flags_of s = Some f"
  shows "(\<exists>t. cpu_inc8 a8 s = Some (a8 + 1, t)
       \<and> flags_of t = Some ((add_flags a8 1 False)\<lparr>fl_cf := fl_cf f\<rparr>) \<and> keeps_carry f s t)
   \<and> (\<exists>t. cpu_dec8 a8 s = Some (a8 - 1, t)
       \<and> flags_of t = Some ((sub_flags a8 1 False)\<lparr>fl_cf := fl_cf f\<rparr>) \<and> keeps_carry f s t)
   \<and> (\<exists>t. cpu_inc16 a16 s = Some (a16 + 1, t)
       \<and> flags_of t = Some ((add_flags a16 1 False)\<lparr>fl_cf := fl_cf f\<rparr>) \<and> keeps_carry f s t)
   \<and> (\<exists>t. cpu_dec16 a16 s = Some (a16 - 1, t)
       \<and> flags_of t = Some ((sub_flags a16 1 False)\<lparr>fl_cf := fl_cf f\<rparr>) \<and> keeps_carry f s t)
   \<and> (\<exists>t. cpu_inc32 a32 s = Some (a32 + 1, t)
       \<and> flags_of t = Some ((add_flags a32 1 False)\<lparr>fl_cf := fl_cf f\<rparr>) \<and> keeps_carry f s t)
   \<and> (\<exists>t. cpu_dec32 a32 s = Some (a32 - 1, t)
       \<and> flags_of t = Some ((sub_flags a32 1 False)\<lparr>fl_cf := fl_cf f\<rparr>) \<and> keeps_carry f s t)"
  using inc8_spec [OF assms] dec8_spec [OF assms] inc16_spec [OF assms] dec16_spec [OF assms]
    inc32_spec [OF assms] dec32_spec [OF assms] by blast

theorem inc_dec_keep_carry_witness:
  "\<exists>t. cpu_inc8 127 carry_cpu = Some (128, t) \<and> cpu_get_cf t = Some 1 \<and> cpu_get_of t = Some 1"
proof -
  obtain t where t: "cpu_inc8 127 carry_cpu = Some (127 + 1, t)"
    and f: "flags_of t = Some ((add_flags (127::u8) 1 False)\<lparr>fl_cf := True\<rparr>)"
    using inc_dec_keep_carry [OF carry_cpu_flags, of 127, THEN conjunct1] by auto
  show ?thesis
    using t flags_of_SomeD(1,3) [OF f] by (intro exI [of _ t]) (simp add: add_flags_def)
qed

end
