(* ===== verification/Alu_Shift.thy ===== *)
theory Alu_Shift
  imports Alu_Laws
begin

text \<open>
  Model of the rotate and shift part of src/src/cpu/arith.cpp: the eight-way
  \<open>cpu_shift\<close> routines at the three widths and the double shifts. Operands narrower
  than an \<open>int\<close> are promoted to 32 bits, shifted there and cut back, as in C++; every count
  the guards let through is below 32.
\<close>

section \<open>The routines\<close>

definition cpu_shift8 ::
  "u32 \<Rightarrow> u8 \<Rightarrow> u8 \<Rightarrow> 'z cpu_flags_scheme \<Rightarrow> (u8 \<times> 'z cpu_flags_scheme) option" where
  "cpu_shift8 op dest src s =
     (if src = 0 then Some (dest, s)
      else
      let k = op AND 7; d = (ucast dest :: u32) in
      if k = 0 then
        let n = unat (src AND 7);
            res = (if n \<noteq> 0 then (ucast (push_bit n d OR drop_bit (8 - n) d) :: u8) else dest);
            r = (ucast res :: u32)
        in if src AND 31 \<noteq> 0 then do {
          s \<leftarrow> cpu_set_cf (r AND 1) s;
          s \<leftarrow> cpu_set_of ((r XOR drop_bit 7 r) AND 1) s;
          Some (res, s)
        } else Some (res, s)
      else if k = 1 then
        let n = unat (src AND 7);
            res = (if n \<noteq> 0 then (ucast (drop_bit n d OR push_bit (8 - n) d) :: u8) else dest);
            r = (ucast res :: u32)
        in if src AND 31 \<noteq> 0 then do {
          s \<leftarrow> cpu_set_cf (drop_bit 7 r AND 1) s;
          s \<leftarrow> cpu_set_of (drop_bit 7 (r XOR push_bit 1 r) AND 1) s;
          Some (res, s)
        } else Some (res, s)
      else if k = 2 then
        let n = unat (src AND 31) mod 9 in
        if n \<noteq> 0 then do {
          cf \<leftarrow> cpu_get_cf s;
          let res = (ucast (push_bit n d OR push_bit (n - 1) cf OR drop_bit (9 - n) d) :: u8);
          let r = (ucast res :: u32);
          let cf = drop_bit (8 - n) d AND 1;
          s \<leftarrow> cpu_set_cf cf s;
          s \<leftarrow> cpu_set_of ((cf XOR drop_bit 7 r) AND 1) s;
          Some (res, s)
        } else Some (dest, s)
      else if k = 3 then
        let n = unat (src AND 31) mod 9 in
        if n \<noteq> 0 then do {
          cf \<leftarrow> cpu_get_cf s;
          let res = (ucast (drop_bit n d OR push_bit (8 - n) cf OR push_bit (9 - n) d) :: u8);
          let r = (ucast res :: u32);
          let cf = drop_bit (n - 1) d AND 1;
          s \<leftarrow> cpu_set_cf cf s;
          s \<leftarrow> cpu_set_of (drop_bit 7 (r XOR push_bit 1 r) AND 1) s;
          Some (res, s)
        } else Some (dest, s)
      else let n = unat (src AND 31) in
      if k = 4 \<or> k = 6 then
        if n \<noteq> 0 then
          let lr = scast (ucast (push_bit n d) :: u8) :: u32
          in Some (ucast lr, s\<lparr>m_lop1 := d, m_lop2 := of_nat n, m_lr := lr, m_laux := op_code SHL8\<rparr>)
        else Some (dest, s)
      else if k = 5 then
        if n \<noteq> 0 then
          let lr = scast (ucast (drop_bit n d) :: u8) :: u32
          in Some (ucast lr, s\<lparr>m_lop1 := d, m_lop2 := of_nat n, m_lr := lr, m_laux := op_code SHR8\<rparr>)
        else Some (dest, s)
      else
        if n \<noteq> 0 then
          let lr = scast (ucast (signed_drop_bit n (scast dest :: u32)) :: u8) :: u32
          in Some (ucast lr, s\<lparr>m_lop1 := scast dest, m_lop2 := of_nat n, m_lr := lr, m_laux := op_code SAR8\<rparr>)
        else Some (dest, s))"

definition cpu_shift16 ::
  "u32 \<Rightarrow> u16 \<Rightarrow> u16 \<Rightarrow> 'z cpu_flags_scheme \<Rightarrow> (u16 \<times> 'z cpu_flags_scheme) option" where
  "cpu_shift16 op dest src s =
     (if src = 0 then Some (dest, s)
      else
      let k = op AND 7; d = (ucast dest :: u32) in
      if k = 0 then
        let n = unat (src AND 15);
            res = (if n \<noteq> 0 then (ucast (push_bit n d OR drop_bit (16 - n) d) :: u16) else dest);
            r = (ucast res :: u32)
        in if src AND 31 \<noteq> 0 then do {
          s \<leftarrow> cpu_set_cf (r AND 1) s;
          s \<leftarrow> cpu_set_of ((r XOR drop_bit 15 r) AND 1) s;
          Some (res, s)
        } else Some (res, s)
      else if k = 1 then
        let n = unat (src AND 15);
            res = (if n \<noteq> 0 then (ucast (drop_bit n d OR push_bit (16 - n) d) :: u16) else dest);
            r = (ucast res :: u32)
        in if src AND 31 \<noteq> 0 then do {
          s \<leftarrow> cpu_set_cf (drop_bit 15 r AND 1) s;
          s \<leftarrow> cpu_set_of (drop_bit 15 (r XOR push_bit 1 r) AND 1) s;
          Some (res, s)
        } else Some (res, s)
      else if k = 2 then
        let n = unat (src AND 31) mod 17 in
        if n \<noteq> 0 then do {
          cf \<leftarrow> cpu_get_cf s;
          let res = (ucast (push_bit n d OR push_bit (n - 1) cf OR drop_bit (17 - n) d) :: u16);
          let r = (ucast res :: u32);
          let cf = drop_bit (16 - n) d AND 1;
          s \<leftarrow> cpu_set_cf cf s;
          s \<leftarrow> cpu_set_of ((cf XOR drop_bit 15 r) AND 1) s;
          Some (res, s)
        } else Some (dest, s)
      else if k = 3 then
        let n = unat (src AND 31) mod 17 in
        if n \<noteq> 0 then do {
          cf \<leftarrow> cpu_get_cf s;
          let res = (ucast (drop_bit n d OR push_bit (16 - n) cf OR push_bit (17 - n) d) :: u16);
          let r = (ucast res :: u32);
          let cf = drop_bit (n - 1) d AND 1;
          s \<leftarrow> cpu_set_cf cf s;
          s \<leftarrow> cpu_set_of (drop_bit 15 (r XOR push_bit 1 r) AND 1) s;
          Some (res, s)
        } else Some (dest, s)
      else let n = unat (src AND 31) in
      if k = 4 \<or> k = 6 then
        if n \<noteq> 0 then
          let lr = scast (ucast (push_bit n d) :: u16) :: u32
          in Some (ucast lr, s\<lparr>m_lop1 := d, m_lop2 := of_nat n, m_lr := lr, m_laux := op_code SHL16\<rparr>)
        else Some (dest, s)
      else if k = 5 then
        if n \<noteq> 0 then
          let lr = scast (ucast (drop_bit n d) :: u16) :: u32
          in Some (ucast lr, s\<lparr>m_lop1 := d, m_lop2 := of_nat n, m_lr := lr, m_laux := op_code SHR16\<rparr>)
        else Some (dest, s)
      else
        if n \<noteq> 0 then
          let lr = scast (ucast (signed_drop_bit n (scast dest :: u32)) :: u16) :: u32
          in Some (ucast lr, s\<lparr>m_lop1 := scast dest, m_lop2 := of_nat n, m_lr := lr, m_laux := op_code SAR16\<rparr>)
        else Some (dest, s))"

definition cpu_shift32 ::
  "u32 \<Rightarrow> u32 \<Rightarrow> u32 \<Rightarrow> 'z cpu_flags_scheme \<Rightarrow> (u32 \<times> 'z cpu_flags_scheme) option" where
  "cpu_shift32 op dest src s =
     (if src = 0 then Some (dest, s)
      else
      let k = op AND 7; d = (dest) in
      if k = 0 then
        let n = unat (src AND 31);
            res = (if n \<noteq> 0 then (push_bit n d OR drop_bit (32 - n) d) else dest);
            r = (res)
        in if src AND 31 \<noteq> 0 then do {
          s \<leftarrow> cpu_set_cf (r AND 1) s;
          s \<leftarrow> cpu_set_of ((r XOR drop_bit 31 r) AND 1) s;
          Some (res, s)
        } else Some (res, s)
      else if k = 1 then
        let n = unat (src AND 31);
            res = (if n \<noteq> 0 then (drop_bit n d OR push_bit (32 - n) d) else dest);
            r = (res)
        in if src AND 31 \<noteq> 0 then do {
          s \<leftarrow> cpu_set_cf (drop_bit 31 r AND 1) s;
          s \<leftarrow> cpu_set_of (drop_bit 31 (r XOR push_bit 1 r) AND 1) s;
          Some (res, s)
        } else Some (res, s)
      else if k = 2 then
        let n = unat (src AND 31) in
        if n \<noteq> 0 then do {
          cf \<leftarrow> cpu_get_cf s;
          let res = (if n = 1 then push_bit 1 d OR cf else push_bit n d OR push_bit (n - 1) cf OR drop_bit (33 - n) d);
          let r = (res);
          let cf = drop_bit (32 - n) d AND 1;
          s \<leftarrow> cpu_set_cf cf s;
          s \<leftarrow> cpu_set_of ((cf XOR drop_bit 31 r) AND 1) s;
          Some (res, s)
        } else Some (dest, s)
      else if k = 3 then
        let n = unat (src AND 31) in
        if n \<noteq> 0 then do {
          cf \<leftarrow> cpu_get_cf s;
          let res = (if n = 1 then drop_bit 1 d OR push_bit 31 cf else drop_bit n d OR push_bit (32 - n) cf OR push_bit (33 - n) d);
          let r = (res);
          let cf = drop_bit (n - 1) d AND 1;
          s \<leftarrow> cpu_set_cf cf s;
          s \<leftarrow> cpu_set_of (drop_bit 31 (r XOR push_bit 1 r) AND 1) s;
          Some (res, s)
        } else Some (dest, s)
      else let n = unat (src AND 31) in
      if k = 4 \<or> k = 6 then
        if n \<noteq> 0 then
          let lr = push_bit n d :: u32
          in Some (lr, s\<lparr>m_lop1 := d, m_lop2 := of_nat n, m_lr := lr, m_laux := op_code SHL32\<rparr>)
        else Some (dest, s)
      else if k = 5 then
        if n \<noteq> 0 then
          let lr = drop_bit n d :: u32
          in Some (lr, s\<lparr>m_lop1 := d, m_lop2 := of_nat n, m_lr := lr, m_laux := op_code SHR32\<rparr>)
        else Some (dest, s)
      else
        if n \<noteq> 0 then
          let lr = signed_drop_bit n (dest) :: u32
          in Some (lr, s\<lparr>m_lop1 := dest, m_lop2 := of_nat n, m_lr := lr, m_laux := op_code SAR32\<rparr>)
        else Some (dest, s))"

text \<open>Double shifts: the second operand supplies the bits that enter.\<close>

definition cpu_shrd16 ::
  "u16 \<Rightarrow> u16 \<Rightarrow> u32 \<Rightarrow> 'z cpu_flags_scheme \<Rightarrow> u16 \<times> 'z cpu_flags_scheme" where
  "cpu_shrd16 dest src count s =
     (let n = unat (count AND 0x1F) in
      if n \<noteq> 0 then
        let d = ucast dest :: u32; x = ucast src :: u32;
            (result, dest, n) =
              (if n < 16 then (ucast (drop_bit n d OR push_bit (16 - n) x) :: u16, dest, n)
               else (ucast (drop_bit (n - 16) x OR push_bit (32 - n) d), src, n - 16))
        in (result, s\<lparr>m_lr := scast result, m_lop1 := ucast dest, m_lop2 := of_nat n,
                       m_laux := op_code SHRD16\<rparr>)
      else (dest, s))"

definition cpu_shrd32 ::
  "u32 \<Rightarrow> u32 \<Rightarrow> u32 \<Rightarrow> 'z cpu_flags_scheme \<Rightarrow> u32 \<times> 'z cpu_flags_scheme" where
  "cpu_shrd32 dest src count s =
     (let n = unat (count AND 0x1F) in
      if n \<noteq> 0 then
        let result = drop_bit n dest OR push_bit (32 - n) src
        in (result, s\<lparr>m_lr := result, m_lop1 := dest, m_lop2 := of_nat n,
                       m_laux := op_code SHRD32\<rparr>)
      else (dest, s))"

definition cpu_shld16 ::
  "u16 \<Rightarrow> u16 \<Rightarrow> u32 \<Rightarrow> 'z cpu_flags_scheme \<Rightarrow> u16 \<times> 'z cpu_flags_scheme" where
  "cpu_shld16 dest src count s =
     (let n = unat (count AND 0x1F) in
      if n \<noteq> 0 then
        let d = ucast dest :: u32; x = ucast src :: u32;
            result = (if n < 16 then ucast (push_bit n d OR drop_bit (16 - n) x) :: u16
                      else ucast (push_bit (n - 16) x OR drop_bit (32 - n) d));
            dest = (if n > 16 then src else dest)
        in (result, s\<lparr>m_lr := scast result, m_lop1 := ucast dest, m_lop2 := of_nat n,
                       m_laux := op_code SHLD16\<rparr>)
      else (dest, s))"

definition cpu_shld32 ::
  "u32 \<Rightarrow> u32 \<Rightarrow> u32 \<Rightarrow> 'z cpu_flags_scheme \<Rightarrow> u32 \<times> 'z cpu_flags_scheme" where
  "cpu_shld32 dest src count s =
     (let n = unat (count AND 0x1F) in
      if n \<noteq> 0 then
        let result = push_bit n dest OR drop_bit (32 - n) src
        in (result, s\<lparr>m_lr := result, m_lop1 := dest, m_lop2 := of_nat n,
                       m_laux := op_code SHLD32\<rparr>)
      else (dest, s))"

end
