(* ===== verification/Rotate_Laws.thy ===== *)
theory Rotate_Laws
  imports Alu_Shift
begin

text \<open>
  The rotates of Alu_Shift against one-bit steps. A rotate through the carry by any count is
  the iteration of the architecture's single step; a plain rotate is the library's word
  rotation. Each width and direction has one lemma with the result, the flags and the frame.
\<close>

section \<open>Shift expressions as rotations\<close>

lemma bit_up: "LENGTH('w::len) \<le> 32 \<Longrightarrow> bit (ucast (d::'w word) :: u32) i \<longleftrightarrow> bit d i"
  by (auto simp: bit_simps dest: bit_imp_le_length)

lemma bit_down: "LENGTH('w::len) \<le> 32 \<Longrightarrow> bit (ucast (x::u32) :: 'w word) i \<longleftrightarrow> i < LENGTH('w) \<and> bit x i"
  by (auto simp: bit_simps)

lemma rotl_by_shifts:
  fixes d :: "'w::len word"
  assumes "LENGTH('w) \<le> 32" "n \<noteq> 0" "n < LENGTH('w)"
  shows "(ucast (push_bit n (ucast d :: u32) OR drop_bit (LENGTH('w) - n) (ucast d :: u32)) :: 'w word)
    = word_rotl n d"
proof (rule bit_eqI)
  fix i assume "possible_bit TYPE('w word) i"
  then have i: "i < LENGTH('w)" by simp
  have "bit (word_rotl n d) i \<longleftrightarrow> bit d ((i + (LENGTH('w) - n)) mod LENGTH('w))"
    using assms i by (simp add: bit_word_rotl_iff)
  also have "(i + (LENGTH('w) - n)) mod LENGTH('w) = (if n \<le> i then i - n else i + (LENGTH('w) - n))"
    using assms i by (simp add: mod_if)
  finally show "bit (ucast (push_bit n (ucast d :: u32) OR drop_bit (LENGTH('w) - n) (ucast d :: u32)) :: 'w word) i
    = bit (word_rotl n d) i"
    using assms i by (auto simp: bit_down bit_up bit_or_iff bit_push_bit_iff bit_drop_bit_eq add.commute
        dest: bit_imp_le_length)
qed

lemma rotr_by_shifts:
  fixes d :: "'w::len word"
  assumes "LENGTH('w) \<le> 32" "n \<noteq> 0" "n < LENGTH('w)"
  shows "(ucast (drop_bit n (ucast d :: u32) OR push_bit (LENGTH('w) - n) (ucast d :: u32)) :: 'w word)
    = word_rotr n d"
proof (rule bit_eqI)
  fix i assume "possible_bit TYPE('w word) i"
  then have i: "i < LENGTH('w)" by simp
  have "bit (word_rotr n d) i \<longleftrightarrow> bit d ((i + n) mod LENGTH('w))"
    using assms i by (simp add: bit_word_rotr_iff)
  also have "(i + n) mod LENGTH('w) = (if i + n < LENGTH('w) then i + n else i + n - LENGTH('w))"
    using assms i by (simp add: mod_if)
  finally show "bit (ucast (drop_bit n (ucast d :: u32) OR push_bit (LENGTH('w) - n) (ucast d :: u32)) :: 'w word) i
    = bit (word_rotr n d) i"
    using assms i by (auto simp: bit_down bit_up bit_or_iff bit_push_bit_iff bit_drop_bit_eq add.commute
        dest: bit_imp_le_length)
qed

text \<open>One step of a rotation through the carry, as the architecture defines it.\<close>

definition rcl_step :: "bool \<times> 'w::len word \<Rightarrow> bool \<times> 'w word" where
  "rcl_step = (\<lambda>(c, x). (bit x (LENGTH('w) - 1), push_bit 1 x OR of_bool c))"

definition rcr_step :: "bool \<times> 'w::len word \<Rightarrow> bool \<times> 'w word" where
  "rcr_step = (\<lambda>(c, x). (bit x 0, drop_bit 1 x OR push_bit (LENGTH('w) - 1) (of_bool c)))"

lemma bit_rcl_word: "bit (push_bit 1 x OR of_bool c) i \<longleftrightarrow>
    i < LENGTH('w) \<and> (if i = 0 then c else bit x (i - 1))" for x :: "'w::len word"
  by (cases i) (simp_all only: bit_or_iff bit_push_bit_iff bit_of_bool_iff, auto dest: bit_imp_le_length)

lemma bit_rcr_word: "bit (drop_bit 1 x OR push_bit (LENGTH('w) - 1) (of_bool c)) i \<longleftrightarrow>
    i < LENGTH('w) \<and> (if i = LENGTH('w) - 1 then c else bit x (i + 1))" for x :: "'w::len word"
  by (simp only: bit_or_iff bit_push_bit_iff bit_of_bool_iff bit_drop_bit_eq)
    (auto simp: le_less dest: bit_imp_le_length)

lemma rcl_step_parts [simp]:
  "fst (rcl_step (c, x)) = bit x (LENGTH('w) - 1)"
  "bit (snd (rcl_step (c, x))) i \<longleftrightarrow> i < LENGTH('w) \<and> (if i = 0 then c else bit x (i - 1))"
  for x :: "'w::len word"
  by (simp_all only: rcl_step_def prod.case fst_conv snd_conv bit_rcl_word)

lemma rcr_step_parts [simp]:
  "fst (rcr_step (c, x)) = bit x 0"
  "bit (snd (rcr_step (c, x))) i \<longleftrightarrow> i < LENGTH('w) \<and> (if i = LENGTH('w) - 1 then c else bit x (i + 1))"
  for x :: "'w::len word"
  by (simp_all only: rcr_step_def prod.case fst_conv snd_conv bit_rcr_word)

lemma rcr_rcl_step: "rcr_step (rcl_step p) = p" for p :: "bool \<times> 'w::len word"
proof (rule prod_eqI)
  obtain c x where p: "p = (c, x)" by (cases p)
  obtain c' y where q: "rcl_step p = (c', y)" by (cases "rcl_step p")
  have y: "c' = bit x (LENGTH('w) - 1)" "bit y i \<longleftrightarrow> i < LENGTH('w) \<and> (if i = 0 then c else bit x (i - 1))" for i
    using q rcl_step_parts [of c x] by (simp_all add: p)
  note q = q [unfolded p]
  show "fst (rcr_step (rcl_step p)) = fst p" by (simp add: q y p)
  show "snd (rcr_step (rcl_step p)) = snd p"
    by (rule bit_eqI) (auto simp: q y p)
qed

text \<open>The bits after several steps: a rotation of the word with the carry on top.\<close>

definition ring_bit :: "bool \<times> 'w::len word \<Rightarrow> nat \<Rightarrow> bool" where
  "ring_bit p i = (if i = LENGTH('w) then fst p else bit (snd p) i)"

lemma ring_eqI:
  fixes p q :: "bool \<times> 'w::len word"
  assumes "\<And>i. i \<le> LENGTH('w) \<Longrightarrow> ring_bit p i = ring_bit q i"
  shows "p = q"
proof (rule prod_eqI)
  show "fst p = fst q" using assms [of "LENGTH('w)"] by (simp add: ring_bit_def)
  show "snd p = snd q"
  proof (rule bit_eqI)
    fix i assume "possible_bit TYPE('w word) i"
    then have "i < LENGTH('w)" by simp
    then show "bit (snd p) i = bit (snd q) i" using assms [of i] by (simp add: ring_bit_def)
  qed
qed

lemma ring_rcl_step:
  fixes p :: "bool \<times> 'w::len word"
  assumes "i \<le> LENGTH('w)"
  shows "ring_bit (rcl_step p) i = ring_bit p (if i = 0 then LENGTH('w) else i - 1)"
proof -
  obtain m where "LENGTH('w) = Suc m" by (rule len_Suc)
  then show ?thesis using assms by (cases p) (auto simp: ring_bit_def)
qed

lemma ring_rcl_steps:
  fixes p :: "bool \<times> 'w::len word"
  assumes "n \<le> LENGTH('w)" "i \<le> LENGTH('w)"
  shows "ring_bit ((rcl_step ^^ n) p) i = ring_bit p (if n \<le> i then i - n else i + LENGTH('w) + 1 - n)"
  using assms
proof (induction n arbitrary: i)
  case (Suc n)
  then show ?case
    by (cases i) (auto simp: ring_rcl_step Suc_diff_le)
qed simp

lemma rcl_by_shifts:
  fixes d :: "'w::len word"
  assumes "LENGTH('w) \<le> 32" "n \<noteq> 0" "n \<le> LENGTH('w)"
  shows "(bit (ucast d :: u32) (LENGTH('w) - n),
     ucast (push_bit n (ucast d :: u32) OR push_bit (n - 1) (of_bool c) OR drop_bit (LENGTH('w) + 1 - n) (ucast d)))
    = (rcl_step ^^ n) (c, d)" (is "?l = ?r")
proof (rule ring_eqI)
  fix i assume i: "i \<le> LENGTH('w)"
  have "ring_bit ?r i = ring_bit (c, d) (if n \<le> i then i - n else i + LENGTH('w) + 1 - n)"
    using assms(3) i by (rule ring_rcl_steps)
  also have "\<dots> = ring_bit ?l i"
    using assms i
    by (auto simp: ring_bit_def bit_down bit_up bit_or_iff bit_push_bit_iff bit_drop_bit_eq bit_of_bool_iff
        add.commute dest: bit_imp_le_length)
  finally show "ring_bit ?l i = ring_bit ?r i" ..
qed

lemma ring_rcr_step:
  fixes p :: "bool \<times> 'w::len word"
  assumes "i \<le> LENGTH('w)"
  shows "ring_bit (rcr_step p) i = ring_bit p (if i = LENGTH('w) then 0 else i + 1)"
proof -
  obtain m where "LENGTH('w) = Suc m" by (rule len_Suc)
  then show ?thesis using assms by (cases p) (auto simp: ring_bit_def)
qed

lemma ring_rcr_steps:
  fixes p :: "bool \<times> 'w::len word"
  assumes "n \<le> LENGTH('w)" "i \<le> LENGTH('w)"
  shows "ring_bit ((rcr_step ^^ n) p) i =
    ring_bit p (if i + n \<le> LENGTH('w) then i + n else i + n - (LENGTH('w) + 1))"
  using assms
proof (induction n arbitrary: i)
  case (Suc n)
  then show ?case
    by (auto simp: ring_rcr_step)
qed simp

lemma rcr_by_shifts:
  fixes d :: "'w::len word"
  assumes "LENGTH('w) \<le> 32" "n \<noteq> 0" "n \<le> LENGTH('w)"
  shows "(bit (ucast d :: u32) (n - 1),
     ucast (drop_bit n (ucast d :: u32) OR push_bit (LENGTH('w) - n) (of_bool c) OR push_bit (LENGTH('w) + 1 - n) (ucast d)))
    = (rcr_step ^^ n) (c, d)" (is "?l = ?r")
proof (rule ring_eqI)
  fix i assume i: "i \<le> LENGTH('w)"
  have "ring_bit ?r i = ring_bit (c, d) (if i + n \<le> LENGTH('w) then i + n else i + n - (LENGTH('w) + 1))"
    using assms(3) i by (rule ring_rcr_steps)
  also have "\<dots> = ring_bit ?l i"
    using assms i
    by (auto simp: ring_bit_def bit_down bit_up bit_or_iff bit_push_bit_iff bit_drop_bit_eq bit_of_bool_iff
        add.commute dest: bit_imp_le_length)
  finally show "ring_bit ?l i = ring_bit ?r i" ..
qed

lemma rcl_rcr_cancel:
  fixes p :: "bool \<times> 'w::len word"
  shows "(rcr_step ^^ n) ((rcl_step ^^ n) p) = p"
proof (induction n arbitrary: p)
  case (Suc n)
  show ?case
    using Suc.IH by (simp add: rcr_rcl_step funpow_swap1)
qed simp

text \<open>What the rotates may change: the six flags, through \<open>m_eflags\<close> and the tag.\<close>

definition flag_frame :: "'z cpu_flags_scheme \<Rightarrow> 'z cpu_flags_scheme \<Rightarrow> bool" where
  "flag_frame s t \<longleftrightarrow> t = s\<lparr>m_eflags := m_eflags t, m_laux := m_laux t\<rparr>
     \<and> clear_oac (m_eflags t) = clear_oac (m_eflags s)"

lemma clear_oac_folded: "clear_oac (clear_oac e OR oac_bits f) = clear_oac e"
proof (rule bit_eqI)
  have b: "bit (oac_bits f) n \<Longrightarrow> n = 0 \<or> n = 4 \<or> n = 11" for n
  proof -
    have "oac_bits f = push_bit 11 (of_bool (fl_of f)) OR push_bit 4 (of_bool (fl_af f)) OR of_bool (fl_cf f)"
      by (simp add: oac_bits_def push_bit_eq_mult)
    then show "bit (oac_bits f) n \<Longrightarrow> n = 0 \<or> n = 4 \<or> n = 11"
      by (auto simp: bit_or_iff bit_push_bit_iff bit_of_bool_iff)
  qed
  fix n show "bit (clear_oac (clear_oac e OR oac_bits f)) n = bit (clear_oac e) n"
    using b [of n] by (auto simp: bit_clear_oac bit_or_iff)
qed

lemma set_cf_of_spec:
  assumes f: "flags_of s = Some f"
  shows "\<exists>t. Option.bind (cpu_set_cf (of_bool x) s) (cpu_set_of (of_bool y)) = Some t
    \<and> flags_of t = Some (f\<lparr>fl_cf := x, fl_of := y\<rparr>) \<and> flag_frame s t"
proof -
  define u where "u = retag_full (s\<lparr>m_eflags := clear_oac (m_eflags s) OR oac_bits (f\<lparr>fl_cf := x\<rparr>)\<rparr>)"
  have u: "cpu_set_cf (of_bool x) s = Some u"
    by (simp add: u_def set_cf_flags_of [OF f])
  have fu: "flags_of u = Some (f\<lparr>fl_cf := x\<rparr>)"
    using set_cf.set_view [OF f, of x] u by simp
  define t where "t = retag_full (u\<lparr>m_eflags := clear_oac (m_eflags u) OR oac_bits (f\<lparr>fl_cf := x, fl_of := y\<rparr>)\<rparr>)"
  have t: "cpu_set_of (of_bool y) u = Some t"
    by (simp add: t_def set_of_flags_of [OF fu])
  have ft: "flags_of t = Some (f\<lparr>fl_cf := x, fl_of := y\<rparr>)"
    using set_of.set_view [OF fu, of y] t by simp
  have "flag_frame s t"
    by (simp add: flag_frame_def t_def u_def retag_full_def clear_oac_folded)
  then show ?thesis using u t ft by auto
qed

lemma set_cf_of_bind:
  assumes f: "flags_of s = Some f" and "a = of_bool x" "b = of_bool y"
  shows "\<exists>t. Option.bind (cpu_set_cf a s) (\<lambda>s. Option.bind (cpu_set_of b s) (\<lambda>s. Some (r, s))) = Some (r, t)
    \<and> flags_of t = Some (f\<lparr>fl_cf := x, fl_of := y\<rparr>) \<and> flag_frame s t"
  using set_cf_of_spec [OF f, of x y] assms(2,3) by (auto simp: bind_eq_Some_conv)

lemma rcl_period: "(rcl_step ^^ (LENGTH('w) + 1)) p = p" for p :: "bool \<times> 'w::len word"
proof (rule ring_eqI)
  fix i assume i: "i \<le> LENGTH('w)"
  have "ring_bit ((rcl_step ^^ (LENGTH('w) + 1)) p) i =
      ring_bit ((rcl_step ^^ LENGTH('w)) p) (if i = 0 then LENGTH('w) else i - 1)"
    using i by (simp add: ring_rcl_step)
  also have "\<dots> = ring_bit p i"
    using i by (subst ring_rcl_steps) auto
  finally show "ring_bit ((rcl_step ^^ (LENGTH('w) + 1)) p) i = ring_bit p i" .
qed

lemma rcr_period: "(rcr_step ^^ (LENGTH('w) + 1)) p = p" for p :: "bool \<times> 'w::len word"
proof (rule ring_eqI)
  fix i assume i: "i \<le> LENGTH('w)"
  have "ring_bit ((rcr_step ^^ (LENGTH('w) + 1)) p) i =
      ring_bit ((rcr_step ^^ LENGTH('w)) p) (if i = LENGTH('w) then 0 else i + 1)"
    using i by (simp add: ring_rcr_step)
  also have "\<dots> = ring_bit p i"
    using i by (subst ring_rcr_steps) auto
  finally show "ring_bit ((rcr_step ^^ (LENGTH('w) + 1)) p) i = ring_bit p i" .
qed

lemma rc_mod:
  "(rcl_step ^^ (m mod (LENGTH('w) + 1))) p = (rcl_step ^^ m) p"
  "(rcr_step ^^ (m mod (LENGTH('w) + 1))) p = (rcr_step ^^ m) p" for p :: "bool \<times> 'w::len word"
  by (rule funpow_mod_eq, rule rcl_period) (rule funpow_mod_eq, rule rcr_period)

text \<open>
  The reference: operation \<open>k\<close> (0 ROL, 1 ROR, 2 RCL, 3 RCR) by \<open>m\<close> positions on the
  carry and the operand, and the overflow flag it defines for single-bit counts.
\<close>

definition rotate_ref :: "u32 \<Rightarrow> nat \<Rightarrow> bool \<times> 'w::len word \<Rightarrow> bool \<times> 'w word" where
  "rotate_ref k m p =
     (if k = 0 then let r = word_rotl m (snd p) in (bit r 0, r)
      else if k = 1 then let r = word_rotr m (snd p) in (bit r (LENGTH('w) - 1), r)
      else if k = 2 then (rcl_step ^^ m) p
      else (rcr_step ^^ m) p)"

definition rotate_of :: "u32 \<Rightarrow> bool \<times> 'w::len word \<Rightarrow> bool" where
  "rotate_of k p =
     (if k = 0 \<or> k = 2 then fst p \<noteq> bit (snd p) (LENGTH('w) - 1)
      else bit (snd p) (LENGTH('w) - 1) \<noteq> bit (snd p) (LENGTH('w) - 2))"

definition rotate_flags :: "u32 \<Rightarrow> nat \<Rightarrow> 'w::len word \<Rightarrow> arith_flags \<Rightarrow> arith_flags" where
  "rotate_flags k m d f =
     (let p = rotate_ref k m (fl_cf f, d) in
      if (if k = 0 \<or> k = 1 then m = 0 else m mod (LENGTH('w) + 1) = 0) then f
      else f\<lparr>fl_cf := fst p, fl_of := rotate_of k p\<rparr>)"

lemma flag_frame_refl [simp]: "flag_frame s s"
  by (simp add: flag_frame_def)

lemma unat_and_mask:
  "unat (x AND 7) = unat x mod 8" "unat (x AND 15) = unat x mod 16" "unat (x AND 31) = unat x mod 32"
  for x :: "'w::len word"
  by (simp_all only: and_mask_take_bit unsigned_take_bit_eq) (simp_all add: take_bit_eq_mod)

lemma rot_mod:
  "word_rotl (m mod LENGTH('w)) x = word_rotl m x" "word_rotr (m mod LENGTH('w)) x = word_rotr m x"
  for x :: "'w::len word"
  by (rule bit_eqI, simp add: bit_word_rotl_iff bit_word_rotr_iff mod_add_right_eq)+

lemma rot_0: "word_rotl 0 x = x" "word_rotr 0 x = x" for x :: "'w::len word"
  by (rule bit_eqI, simp add: bit_word_rotl_iff bit_word_rotr_iff)+

lemma full_shift: "push_bit 32 d = 0" "drop_bit 32 d = 0" for d :: u32
  by (rule bit_eqI, simp add: bit_push_bit_iff bit_drop_bit_eq)
    (rule bit_eqI, auto simp: bit_drop_bit_eq dest: bit_imp_le_length)

lemma flag_exprs:
  "(x XOR drop_bit n x) AND 1 = of_bool (bit x 0 \<noteq> bit x n)"
  "drop_bit n (x XOR push_bit 1 x) AND 1 = of_bool (bit x n \<noteq> (n \<noteq> 0 \<and> n < 32 \<and> bit x (n - 1)))"
  "(drop_bit n x XOR drop_bit n (push_bit 1 x)) AND 1
     = of_bool (bit x n \<noteq> (n \<noteq> 0 \<and> n < 32 \<and> bit x (n - 1)))"
  "(of_bool c XOR drop_bit n x) AND 1 = of_bool (c \<noteq> bit x n)" for x :: u32
proof -
  show "(x XOR drop_bit n x) AND 1 = of_bool (bit x 0 \<noteq> bit x n)"
    by (simp only: and_one_of_bool bit_xor_iff bit_drop_bit_eq comp_apply add_0_right)
  have "bit (x XOR push_bit 1 x) n \<longleftrightarrow> (bit x n \<noteq> (n \<noteq> 0 \<and> n < 32 \<and> bit x (n - 1)))"
    by (simp only: bit_xor_iff bit_push_bit_iff) (auto simp: Suc_le_eq)
  then show "drop_bit n (x XOR push_bit 1 x) AND 1 = of_bool (bit x n \<noteq> (n \<noteq> 0 \<and> n < 32 \<and> bit x (n - 1)))"
    by (simp only: drop_bit_and_one)
  then show "(drop_bit n x XOR drop_bit n (push_bit 1 x)) AND 1
     = of_bool (bit x n \<noteq> (n \<noteq> 0 \<and> n < 32 \<and> bit x (n - 1)))"
    by (simp only: drop_bit_xor)
  have "bit (of_bool c :: u32) 0 = c" by (cases c) simp_all
  then show "(of_bool c XOR drop_bit n x) AND 1 = of_bool (c \<noteq> bit x n)"
    by (simp only: and_one_of_bool bit_xor_iff bit_drop_bit_eq comp_apply add_0_right)
qed

lemma shift8_rotl:
  assumes f: "flags_of s = Some f" and k: "op AND 7 = 0"
  shows "\<exists>t. cpu_shift8 op d src s = Some (snd (rotate_ref 0 (unat (src AND 31)) (fl_cf f, d)), t)
    \<and> flags_of t = Some (rotate_flags 0 (unat (src AND 31)) d f) \<and> flag_frame s t"
proof -
  define r where "r = word_rotl (unat (src AND 31)) d"
  have n: "unat (src AND 7) = unat (src AND 31) mod 8"
    by (simp only: unat_and_mask) (simp add: mod_mod_cancel)
  have r: "(if unat (src AND 7) \<noteq> 0 then (ucast (push_bit (unat (src AND 7)) (ucast d :: u32) OR drop_bit (8 - unat (src AND 7)) (ucast d :: u32)) :: u8) else d) = r"
  proof -
    have q: "word_rotl (unat (src AND 7)) d = r"
      using rot_mod [of "unat (src AND 31)" d] by (simp add: n r_def)
    have "unat (src AND 7) < 8" by (simp add: n)
    then show ?thesis
      using rotl_by_shifts [of "unat (src AND 7)" d] q by (auto simp: rot_0)
  qed
  show ?thesis
  proof (cases "src AND 31 = 0")
    case True
    then have "unat (src AND 7) = 0" by (simp add: n)
    then show ?thesis
      using f k True by (simp add: cpu_shift8_def Let_def rotate_ref_def rotate_flags_def rot_0)
  next
    case False
    then have src: "src \<noteq> 0" "unat (src AND 31) \<noteq> 0" by (auto simp: unat_eq_0)
    have eq: "cpu_shift8 op d src s = Option.bind (cpu_set_cf (of_bool (bit r 0)) s)
        (\<lambda>s. Option.bind (cpu_set_of (of_bool (bit r 0 \<noteq> bit r 7)) s) (\<lambda>s. Some (r, s)))"
      unfolding cpu_shift8_def Let_def r
      by (simp add: k src False flag_exprs bit_zext8 drop_bit_and_one del: One_nat_def and_one_of_bool split del: split_of_bool)
        (simp add: bit_zext8)?
    show ?thesis
      unfolding eq using set_cf_of_bind [OF f refl refl, of "bit r 0" "bit r 0 \<noteq> bit r 7" r] src(2)
      by (simp add: rotate_ref_def rotate_flags_def rotate_of_def r_def Let_def split del: split_of_bool)
  qed
qed

lemma shift8_rotr:
  assumes f: "flags_of s = Some f" and k: "op AND 7 = 1"
  shows "\<exists>t. cpu_shift8 op d src s = Some (snd (rotate_ref 1 (unat (src AND 31)) (fl_cf f, d)), t)
    \<and> flags_of t = Some (rotate_flags 1 (unat (src AND 31)) d f) \<and> flag_frame s t"
proof -
  define r where "r = word_rotr (unat (src AND 31)) d"
  have n: "unat (src AND 7) = unat (src AND 31) mod 8"
    by (simp only: unat_and_mask) (simp add: mod_mod_cancel)
  have r: "(if unat (src AND 7) \<noteq> 0 then (ucast (drop_bit (unat (src AND 7)) (ucast d :: u32) OR push_bit (8 - unat (src AND 7)) (ucast d :: u32)) :: u8) else d) = r"
  proof -
    have q: "word_rotr (unat (src AND 7)) d = r"
      using rot_mod [of "unat (src AND 31)" d] by (simp add: n r_def)
    have "unat (src AND 7) < 8" by (simp add: n)
    then show ?thesis
      using rotr_by_shifts [of "unat (src AND 7)" d] q by (auto simp: rot_0)
  qed
  show ?thesis
  proof (cases "src AND 31 = 0")
    case True
    then have "unat (src AND 7) = 0" by (simp add: n)
    then show ?thesis
      using f k True by (simp add: cpu_shift8_def Let_def rotate_ref_def rotate_flags_def rot_0)
  next
    case False
    then have src: "src \<noteq> 0" "unat (src AND 31) \<noteq> 0" by (auto simp: unat_eq_0)
    have eq: "cpu_shift8 op d src s = Option.bind (cpu_set_cf (of_bool (bit r 7)) s)
        (\<lambda>s. Option.bind (cpu_set_of (of_bool (bit r 7 \<noteq> bit r 6)) s) (\<lambda>s. Some (r, s)))"
      unfolding cpu_shift8_def Let_def r
      by (simp add: k src False flag_exprs bit_zext8 drop_bit_and_one del: One_nat_def and_one_of_bool split del: split_of_bool)
        (simp add: bit_zext8)?
    show ?thesis
      unfolding eq using set_cf_of_bind [OF f refl refl, of "bit r 7" "bit r 7 \<noteq> bit r 6" r] src(2)
      by (simp add: rotate_ref_def rotate_flags_def rotate_of_def r_def Let_def split del: split_of_bool)
  qed
qed

lemma shift8_rcl:
  assumes f: "flags_of s = Some f" and k: "op AND 7 = 2"
  shows "\<exists>t. cpu_shift8 op d src s = Some (snd (rotate_ref 2 (unat (src AND 31)) (fl_cf f, d)), t)
    \<and> flags_of t = Some (rotate_flags 2 (unat (src AND 31)) d f) \<and> flag_frame s t"
proof -
  define n where "n = unat (src AND 31) mod 9"
  define r where "r = snd ((rcl_step ^^ n) (fl_cf f, d))"
  have step: "(rcl_step ^^ unat (src AND 31)) (fl_cf f, d) = (rcl_step ^^ n) (fl_cf f, d)"
    using rc_mod [of "unat (src AND 31)" "(fl_cf f, d)"] by (simp add: n_def)
  have lt: "n < 9" by (simp add: n_def)
  show ?thesis
  proof (cases "n = 0")
    case True
    then show ?thesis
      using f k step by (simp add: cpu_shift8_def Let_def rotate_ref_def rotate_flags_def n_def)
  next
    case False
    then have src: "src \<noteq> 0" by (auto simp: n_def)
    have p: "(rcl_step ^^ n) (fl_cf f, d) = (bit d (8 - n), r)"
      "(ucast (push_bit n (ucast d :: u32) OR push_bit (n - 1) (of_bool (fl_cf f)) OR drop_bit (8 + 1 - n) (ucast d :: u32)) :: u8) = r"
      using rcl_by_shifts [of n d "fl_cf f"] False lt bit_zext8 by (simp_all add: r_def prod_eq_iff)
    have eq: "cpu_shift8 op d src s = Option.bind (cpu_set_cf (of_bool (bit d (8 - n))) s)
        (\<lambda>s. Option.bind (cpu_set_of (of_bool (bit d (8 - n) \<noteq> bit r 7)) s) (\<lambda>s. Some (r, s)))"
      using p(2) flags_of_SomeD(1) [OF f]
      by (simp add: cpu_shift8_def Let_def n_def [symmetric] False k src flag_exprs bit_zext8 drop_bit_and_one del: One_nat_def and_one_of_bool split del: split_of_bool)
    show ?thesis
      unfolding eq using set_cf_of_bind [OF f refl refl, of "bit d (8 - n)" "bit d (8 - n) \<noteq> bit r 7" r] False lt
      by (simp add: rotate_ref_def rotate_flags_def rotate_of_def step p(1) n_def [symmetric] Let_def split del: split_of_bool)
  qed
qed

lemma shift8_rcr:
  assumes f: "flags_of s = Some f" and k: "op AND 7 = 3"
  shows "\<exists>t. cpu_shift8 op d src s = Some (snd (rotate_ref 3 (unat (src AND 31)) (fl_cf f, d)), t)
    \<and> flags_of t = Some (rotate_flags 3 (unat (src AND 31)) d f) \<and> flag_frame s t"
proof -
  define n where "n = unat (src AND 31) mod 9"
  define r where "r = snd ((rcr_step ^^ n) (fl_cf f, d))"
  have step: "(rcr_step ^^ unat (src AND 31)) (fl_cf f, d) = (rcr_step ^^ n) (fl_cf f, d)"
    using rc_mod [of "unat (src AND 31)" "(fl_cf f, d)"] by (simp add: n_def)
  have lt: "n < 9" by (simp add: n_def)
  show ?thesis
  proof (cases "n = 0")
    case True
    then show ?thesis
      using f k step by (simp add: cpu_shift8_def Let_def rotate_ref_def rotate_flags_def n_def)
  next
    case False
    then have src: "src \<noteq> 0" by (auto simp: n_def)
    have p: "(rcr_step ^^ n) (fl_cf f, d) = (bit d (n - 1), r)"
      "(ucast (drop_bit n (ucast d :: u32) OR push_bit (8 - n) (of_bool (fl_cf f)) OR push_bit (8 + 1 - n) (ucast d :: u32)) :: u8) = r"
      using rcr_by_shifts [of n d "fl_cf f"] False lt bit_zext8 by (simp_all add: r_def prod_eq_iff)
    have eq: "cpu_shift8 op d src s = Option.bind (cpu_set_cf (of_bool (bit d (n - 1))) s)
        (\<lambda>s. Option.bind (cpu_set_of (of_bool (bit r 7 \<noteq> bit r 6)) s) (\<lambda>s. Some (r, s)))"
      using p(2) flags_of_SomeD(1) [OF f]
      by (simp add: cpu_shift8_def Let_def n_def [symmetric] False k src flag_exprs bit_zext8 drop_bit_and_one del: One_nat_def and_one_of_bool split del: split_of_bool)
    show ?thesis
      unfolding eq using set_cf_of_bind [OF f refl refl, of "bit d (n - 1)" "bit r 7 \<noteq> bit r 6" r] False lt
      by (simp add: rotate_ref_def rotate_flags_def rotate_of_def step p(1) n_def [symmetric] Let_def split del: split_of_bool)
  qed
qed

lemma shift16_rotl:
  assumes f: "flags_of s = Some f" and k: "op AND 7 = 0"
  shows "\<exists>t. cpu_shift16 op d src s = Some (snd (rotate_ref 0 (unat (src AND 31)) (fl_cf f, d)), t)
    \<and> flags_of t = Some (rotate_flags 0 (unat (src AND 31)) d f) \<and> flag_frame s t"
proof -
  define r where "r = word_rotl (unat (src AND 31)) d"
  have n: "unat (src AND 15) = unat (src AND 31) mod 16"
    by (simp only: unat_and_mask) (simp add: mod_mod_cancel)
  have r: "(if unat (src AND 15) \<noteq> 0 then (ucast (push_bit (unat (src AND 15)) (ucast d :: u32) OR drop_bit (16 - unat (src AND 15)) (ucast d :: u32)) :: u16) else d) = r"
  proof -
    have q: "word_rotl (unat (src AND 15)) d = r"
      using rot_mod [of "unat (src AND 31)" d] by (simp add: n r_def)
    have "unat (src AND 15) < 16" by (simp add: n)
    then show ?thesis
      using rotl_by_shifts [of "unat (src AND 15)" d] q by (auto simp: rot_0)
  qed
  show ?thesis
  proof (cases "src AND 31 = 0")
    case True
    then have "unat (src AND 15) = 0" by (simp add: n)
    then show ?thesis
      using f k True by (simp add: cpu_shift16_def Let_def rotate_ref_def rotate_flags_def rot_0)
  next
    case False
    then have src: "src \<noteq> 0" "unat (src AND 31) \<noteq> 0" by (auto simp: unat_eq_0)
    have eq: "cpu_shift16 op d src s = Option.bind (cpu_set_cf (of_bool (bit r 0)) s)
        (\<lambda>s. Option.bind (cpu_set_of (of_bool (bit r 0 \<noteq> bit r 15)) s) (\<lambda>s. Some (r, s)))"
      unfolding cpu_shift16_def Let_def r
      by (simp add: k src False flag_exprs bit_zext16 drop_bit_and_one del: One_nat_def and_one_of_bool split del: split_of_bool)
        (simp add: bit_zext16)?
    show ?thesis
      unfolding eq using set_cf_of_bind [OF f refl refl, of "bit r 0" "bit r 0 \<noteq> bit r 15" r] src(2)
      by (simp add: rotate_ref_def rotate_flags_def rotate_of_def r_def Let_def split del: split_of_bool)
  qed
qed

lemma shift16_rotr:
  assumes f: "flags_of s = Some f" and k: "op AND 7 = 1"
  shows "\<exists>t. cpu_shift16 op d src s = Some (snd (rotate_ref 1 (unat (src AND 31)) (fl_cf f, d)), t)
    \<and> flags_of t = Some (rotate_flags 1 (unat (src AND 31)) d f) \<and> flag_frame s t"
proof -
  define r where "r = word_rotr (unat (src AND 31)) d"
  have n: "unat (src AND 15) = unat (src AND 31) mod 16"
    by (simp only: unat_and_mask) (simp add: mod_mod_cancel)
  have r: "(if unat (src AND 15) \<noteq> 0 then (ucast (drop_bit (unat (src AND 15)) (ucast d :: u32) OR push_bit (16 - unat (src AND 15)) (ucast d :: u32)) :: u16) else d) = r"
  proof -
    have q: "word_rotr (unat (src AND 15)) d = r"
      using rot_mod [of "unat (src AND 31)" d] by (simp add: n r_def)
    have "unat (src AND 15) < 16" by (simp add: n)
    then show ?thesis
      using rotr_by_shifts [of "unat (src AND 15)" d] q by (auto simp: rot_0)
  qed
  show ?thesis
  proof (cases "src AND 31 = 0")
    case True
    then have "unat (src AND 15) = 0" by (simp add: n)
    then show ?thesis
      using f k True by (simp add: cpu_shift16_def Let_def rotate_ref_def rotate_flags_def rot_0)
  next
    case False
    then have src: "src \<noteq> 0" "unat (src AND 31) \<noteq> 0" by (auto simp: unat_eq_0)
    have eq: "cpu_shift16 op d src s = Option.bind (cpu_set_cf (of_bool (bit r 15)) s)
        (\<lambda>s. Option.bind (cpu_set_of (of_bool (bit r 15 \<noteq> bit r 14)) s) (\<lambda>s. Some (r, s)))"
      unfolding cpu_shift16_def Let_def r
      by (simp add: k src False flag_exprs bit_zext16 drop_bit_and_one del: One_nat_def and_one_of_bool split del: split_of_bool)
        (simp add: bit_zext16)?
    show ?thesis
      unfolding eq using set_cf_of_bind [OF f refl refl, of "bit r 15" "bit r 15 \<noteq> bit r 14" r] src(2)
      by (simp add: rotate_ref_def rotate_flags_def rotate_of_def r_def Let_def split del: split_of_bool)
  qed
qed

lemma shift16_rcl:
  assumes f: "flags_of s = Some f" and k: "op AND 7 = 2"
  shows "\<exists>t. cpu_shift16 op d src s = Some (snd (rotate_ref 2 (unat (src AND 31)) (fl_cf f, d)), t)
    \<and> flags_of t = Some (rotate_flags 2 (unat (src AND 31)) d f) \<and> flag_frame s t"
proof -
  define n where "n = unat (src AND 31) mod 17"
  define r where "r = snd ((rcl_step ^^ n) (fl_cf f, d))"
  have step: "(rcl_step ^^ unat (src AND 31)) (fl_cf f, d) = (rcl_step ^^ n) (fl_cf f, d)"
    using rc_mod [of "unat (src AND 31)" "(fl_cf f, d)"] by (simp add: n_def)
  have lt: "n < 17" by (simp add: n_def)
  show ?thesis
  proof (cases "n = 0")
    case True
    then show ?thesis
      using f k step by (simp add: cpu_shift16_def Let_def rotate_ref_def rotate_flags_def n_def)
  next
    case False
    then have src: "src \<noteq> 0" by (auto simp: n_def)
    have p: "(rcl_step ^^ n) (fl_cf f, d) = (bit d (16 - n), r)"
      "(ucast (push_bit n (ucast d :: u32) OR push_bit (n - 1) (of_bool (fl_cf f)) OR drop_bit (16 + 1 - n) (ucast d :: u32)) :: u16) = r"
      using rcl_by_shifts [of n d "fl_cf f"] False lt bit_zext16 by (simp_all add: r_def prod_eq_iff)
    have eq: "cpu_shift16 op d src s = Option.bind (cpu_set_cf (of_bool (bit d (16 - n))) s)
        (\<lambda>s. Option.bind (cpu_set_of (of_bool (bit d (16 - n) \<noteq> bit r 15)) s) (\<lambda>s. Some (r, s)))"
      using p(2) flags_of_SomeD(1) [OF f]
      by (simp add: cpu_shift16_def Let_def n_def [symmetric] False k src flag_exprs bit_zext16 drop_bit_and_one del: One_nat_def and_one_of_bool split del: split_of_bool)
    show ?thesis
      unfolding eq using set_cf_of_bind [OF f refl refl, of "bit d (16 - n)" "bit d (16 - n) \<noteq> bit r 15" r] False lt
      by (simp add: rotate_ref_def rotate_flags_def rotate_of_def step p(1) n_def [symmetric] Let_def split del: split_of_bool)
  qed
qed

lemma shift16_rcr:
  assumes f: "flags_of s = Some f" and k: "op AND 7 = 3"
  shows "\<exists>t. cpu_shift16 op d src s = Some (snd (rotate_ref 3 (unat (src AND 31)) (fl_cf f, d)), t)
    \<and> flags_of t = Some (rotate_flags 3 (unat (src AND 31)) d f) \<and> flag_frame s t"
proof -
  define n where "n = unat (src AND 31) mod 17"
  define r where "r = snd ((rcr_step ^^ n) (fl_cf f, d))"
  have step: "(rcr_step ^^ unat (src AND 31)) (fl_cf f, d) = (rcr_step ^^ n) (fl_cf f, d)"
    using rc_mod [of "unat (src AND 31)" "(fl_cf f, d)"] by (simp add: n_def)
  have lt: "n < 17" by (simp add: n_def)
  show ?thesis
  proof (cases "n = 0")
    case True
    then show ?thesis
      using f k step by (simp add: cpu_shift16_def Let_def rotate_ref_def rotate_flags_def n_def)
  next
    case False
    then have src: "src \<noteq> 0" by (auto simp: n_def)
    have p: "(rcr_step ^^ n) (fl_cf f, d) = (bit d (n - 1), r)"
      "(ucast (drop_bit n (ucast d :: u32) OR push_bit (16 - n) (of_bool (fl_cf f)) OR push_bit (16 + 1 - n) (ucast d :: u32)) :: u16) = r"
      using rcr_by_shifts [of n d "fl_cf f"] False lt bit_zext16 by (simp_all add: r_def prod_eq_iff)
    have eq: "cpu_shift16 op d src s = Option.bind (cpu_set_cf (of_bool (bit d (n - 1))) s)
        (\<lambda>s. Option.bind (cpu_set_of (of_bool (bit r 15 \<noteq> bit r 14)) s) (\<lambda>s. Some (r, s)))"
      using p(2) flags_of_SomeD(1) [OF f]
      by (simp add: cpu_shift16_def Let_def n_def [symmetric] False k src flag_exprs bit_zext16 drop_bit_and_one del: One_nat_def and_one_of_bool split del: split_of_bool)
    show ?thesis
      unfolding eq using set_cf_of_bind [OF f refl refl, of "bit d (n - 1)" "bit r 15 \<noteq> bit r 14" r] False lt
      by (simp add: rotate_ref_def rotate_flags_def rotate_of_def step p(1) n_def [symmetric] Let_def split del: split_of_bool)
  qed
qed

lemma shift32_rotl:
  assumes f: "flags_of s = Some f" and k: "op AND 7 = 0"
  shows "\<exists>t. cpu_shift32 op d src s = Some (snd (rotate_ref 0 (unat (src AND 31)) (fl_cf f, d)), t)
    \<and> flags_of t = Some (rotate_flags 0 (unat (src AND 31)) d f) \<and> flag_frame s t"
proof -
  define r where "r = word_rotl (unat (src AND 31)) d"
  have r: "(if unat (src AND 31) \<noteq> 0 then push_bit (unat (src AND 31)) d OR drop_bit (32 - unat (src AND 31)) d else d) = r"
  proof -
    have q: "word_rotl (unat (src AND 31)) d = r"
      by (simp add: r_def)
    have "unat (src AND 31) < 32" using mod_less_divisor [of 32 "unat src"] by (simp add: unat_and_mask)
    then show ?thesis
      using rotl_by_shifts [of "unat (src AND 31)" d] q by (auto simp: rot_0)
  qed
  show ?thesis
  proof (cases "src AND 31 = 0")
    case True
    then have "unat (src AND 31) = 0" by simp
    then show ?thesis
      using f k True by (simp add: cpu_shift32_def Let_def rotate_ref_def rotate_flags_def rot_0)
  next
    case False
    then have src: "src \<noteq> 0" "unat (src AND 31) \<noteq> 0" by (auto simp: unat_eq_0)
    have eq: "cpu_shift32 op d src s = Option.bind (cpu_set_cf (of_bool (bit r 0)) s)
        (\<lambda>s. Option.bind (cpu_set_of (of_bool (bit r 0 \<noteq> bit r 31)) s) (\<lambda>s. Some (r, s)))"
      unfolding cpu_shift32_def Let_def r
      by (simp add: k src False flag_exprs  drop_bit_and_one del: One_nat_def and_one_of_bool split del: split_of_bool)
        (simp add: )?
    show ?thesis
      unfolding eq using set_cf_of_bind [OF f refl refl, of "bit r 0" "bit r 0 \<noteq> bit r 31" r] src(2)
      by (simp add: rotate_ref_def rotate_flags_def rotate_of_def r_def Let_def split del: split_of_bool)
  qed
qed

lemma shift32_rotr:
  assumes f: "flags_of s = Some f" and k: "op AND 7 = 1"
  shows "\<exists>t. cpu_shift32 op d src s = Some (snd (rotate_ref 1 (unat (src AND 31)) (fl_cf f, d)), t)
    \<and> flags_of t = Some (rotate_flags 1 (unat (src AND 31)) d f) \<and> flag_frame s t"
proof -
  define r where "r = word_rotr (unat (src AND 31)) d"
  have r: "(if unat (src AND 31) \<noteq> 0 then drop_bit (unat (src AND 31)) d OR push_bit (32 - unat (src AND 31)) d else d) = r"
  proof -
    have q: "word_rotr (unat (src AND 31)) d = r"
      by (simp add: r_def)
    have "unat (src AND 31) < 32" using mod_less_divisor [of 32 "unat src"] by (simp add: unat_and_mask)
    then show ?thesis
      using rotr_by_shifts [of "unat (src AND 31)" d] q by (auto simp: rot_0)
  qed
  show ?thesis
  proof (cases "src AND 31 = 0")
    case True
    then have "unat (src AND 31) = 0" by simp
    then show ?thesis
      using f k True by (simp add: cpu_shift32_def Let_def rotate_ref_def rotate_flags_def rot_0)
  next
    case False
    then have src: "src \<noteq> 0" "unat (src AND 31) \<noteq> 0" by (auto simp: unat_eq_0)
    have eq: "cpu_shift32 op d src s = Option.bind (cpu_set_cf (of_bool (bit r 31)) s)
        (\<lambda>s. Option.bind (cpu_set_of (of_bool (bit r 31 \<noteq> bit r 30)) s) (\<lambda>s. Some (r, s)))"
      unfolding cpu_shift32_def Let_def r
      by (simp add: k src False flag_exprs  drop_bit_and_one del: One_nat_def and_one_of_bool split del: split_of_bool)
        (simp add: )?
    show ?thesis
      unfolding eq using set_cf_of_bind [OF f refl refl, of "bit r 31" "bit r 31 \<noteq> bit r 30" r] src(2)
      by (simp add: rotate_ref_def rotate_flags_def rotate_of_def r_def Let_def split del: split_of_bool)
  qed
qed

lemma shift32_rcl:
  assumes f: "flags_of s = Some f" and k: "op AND 7 = 2"
  shows "\<exists>t. cpu_shift32 op d src s = Some (snd (rotate_ref 2 (unat (src AND 31)) (fl_cf f, d)), t)
    \<and> flags_of t = Some (rotate_flags 2 (unat (src AND 31)) d f) \<and> flag_frame s t"
proof -
  define n where "n = unat (src AND 31)"
  define r where "r = snd ((rcl_step ^^ n) (fl_cf f, d))"
  have step: "(rcl_step ^^ unat (src AND 31)) (fl_cf f, d) = (rcl_step ^^ n) (fl_cf f, d)"
    using rc_mod [of "unat (src AND 31)" "(fl_cf f, d)"] by (simp add: n_def)
  have lt: "n < 33" using mod_less_divisor [of 32 "unat src"] by (simp add: n_def unat_and_mask)
  show ?thesis
  proof (cases "n = 0")
    case True
    then show ?thesis
      using f k step by (simp add: cpu_shift32_def Let_def rotate_ref_def rotate_flags_def n_def)
  next
    case False
    then have src: "src \<noteq> 0" by (auto simp: n_def)
    have p: "(rcl_step ^^ n) (fl_cf f, d) = (bit d (32 - n), r)"
      "push_bit n d OR push_bit (n - 1) (of_bool (fl_cf f)) OR drop_bit (32 + 1 - n) d = r"
      using rcl_by_shifts [of n d "fl_cf f"] False lt  by (simp_all add: r_def prod_eq_iff)
    have p2: "(if n = 1 then push_bit 1 d OR of_bool (fl_cf f) else push_bit n d OR push_bit (n - 1) (of_bool (fl_cf f)) OR drop_bit (33 - n) d) = r"
      using p(2) by (cases "n = 1") (simp_all add: full_shift del: One_nat_def)
    have eq: "cpu_shift32 op d src s = Option.bind (cpu_set_cf (of_bool (bit d (32 - n))) s)
        (\<lambda>s. Option.bind (cpu_set_of (of_bool (bit d (32 - n) \<noteq> bit r 31)) s) (\<lambda>s. Some (r, s)))"
      using p2 flags_of_SomeD(1) [OF f]
      by (simp add: cpu_shift32_def Let_def n_def [symmetric] False k src flag_exprs  drop_bit_and_one del: One_nat_def and_one_of_bool split del: split_of_bool)
    show ?thesis
      unfolding eq using set_cf_of_bind [OF f refl refl, of "bit d (32 - n)" "bit d (32 - n) \<noteq> bit r 31" r] False lt
      by (simp add: rotate_ref_def rotate_flags_def rotate_of_def step p(1) n_def [symmetric] Let_def split del: split_of_bool)
  qed
qed

lemma shift32_rcr:
  assumes f: "flags_of s = Some f" and k: "op AND 7 = 3"
  shows "\<exists>t. cpu_shift32 op d src s = Some (snd (rotate_ref 3 (unat (src AND 31)) (fl_cf f, d)), t)
    \<and> flags_of t = Some (rotate_flags 3 (unat (src AND 31)) d f) \<and> flag_frame s t"
proof -
  define n where "n = unat (src AND 31)"
  define r where "r = snd ((rcr_step ^^ n) (fl_cf f, d))"
  have step: "(rcr_step ^^ unat (src AND 31)) (fl_cf f, d) = (rcr_step ^^ n) (fl_cf f, d)"
    using rc_mod [of "unat (src AND 31)" "(fl_cf f, d)"] by (simp add: n_def)
  have lt: "n < 33" using mod_less_divisor [of 32 "unat src"] by (simp add: n_def unat_and_mask)
  show ?thesis
  proof (cases "n = 0")
    case True
    then show ?thesis
      using f k step by (simp add: cpu_shift32_def Let_def rotate_ref_def rotate_flags_def n_def)
  next
    case False
    then have src: "src \<noteq> 0" by (auto simp: n_def)
    have p: "(rcr_step ^^ n) (fl_cf f, d) = (bit d (n - 1), r)"
      "drop_bit n d OR push_bit (32 - n) (of_bool (fl_cf f)) OR push_bit (32 + 1 - n) d = r"
      using rcr_by_shifts [of n d "fl_cf f"] False lt  by (simp_all add: r_def prod_eq_iff)
    have p2: "(if n = 1 then drop_bit 1 d OR push_bit 31 (of_bool (fl_cf f)) else drop_bit n d OR push_bit (32 - n) (of_bool (fl_cf f)) OR push_bit (33 - n) d) = r"
      using p(2) by (cases "n = 1") (simp_all add: full_shift del: One_nat_def)
    have eq: "cpu_shift32 op d src s = Option.bind (cpu_set_cf (of_bool (bit d (n - 1))) s)
        (\<lambda>s. Option.bind (cpu_set_of (of_bool (bit r 31 \<noteq> bit r 30)) s) (\<lambda>s. Some (r, s)))"
      using p2 flags_of_SomeD(1) [OF f]
      by (simp add: cpu_shift32_def Let_def n_def [symmetric] False k src flag_exprs  drop_bit_and_one del: One_nat_def and_one_of_bool split del: split_of_bool)
    show ?thesis
      unfolding eq using set_cf_of_bind [OF f refl refl, of "bit d (n - 1)" "bit r 31 \<noteq> bit r 30" r] False lt
      by (simp add: rotate_ref_def rotate_flags_def rotate_of_def step p(1) n_def [symmetric] Let_def split del: split_of_bool)
  qed
qed

lemma rotate_back:
  fixes d :: "'w::len word"
  shows "rotate_ref 3 m (fl_cf (rotate_flags 2 m d f), snd (rotate_ref 2 m (fl_cf f, d))) = (fl_cf f, d)"
    "fl_cf (rotate_flags 3 m (snd (rotate_ref 2 m (fl_cf f, d))) (rotate_flags 2 m d f)) = fl_cf f"
proof -
  have z: "m mod (LENGTH('w) + 1) = 0 \<Longrightarrow> (rcl_step ^^ m) p = p" for p :: "bool \<times> 'w word"
    using rc_mod(1) [of m p] by simp
  have c: "(fl_cf (rotate_flags 2 m d f), snd (rotate_ref 2 m (fl_cf f, d))) = (rcl_step ^^ m) (fl_cf f, d)"
    using z by (auto simp: rotate_flags_def rotate_ref_def Let_def prod_eq_iff)
  show r: "rotate_ref 3 m (fl_cf (rotate_flags 2 m d f), snd (rotate_ref 2 m (fl_cf f, d))) = (fl_cf f, d)"
    unfolding c by (simp add: rotate_ref_def rcl_rcr_cancel)
  show "fl_cf (rotate_flags 3 m (snd (rotate_ref 2 m (fl_cf f, d))) (rotate_flags 2 m d f)) = fl_cf f"
    unfolding rotate_flags_def [of 3] Let_def r by (simp add: rotate_flags_def)
qed

section \<open>Properties\<close>

lemma rotate_cases:
  assumes "op AND 7 < (4::u32)"
  shows "op AND 7 = 0 \<or> op AND 7 = 1 \<or> op AND 7 = 2 \<or> op AND 7 = 3"
  using assms by (cases op rule: and_7_cases) simp_all

text \<open>C22: At every width, ROL, ROR, RCL and RCR by any count give the rotated
  word (rotates through the carry: as many single-bit steps of the ring formed by the
  operand and the carry as the count says), put the bit that crossed the end in the carry,
  compute the overflow from the new top bits, keep the other four flags, and leave
  everything as it was when the effective count is zero.\<close>
theorem rotate_correct:
  assumes "flags_of s = Some f" and "op AND 7 < 4"
  shows "(\<exists>t. cpu_shift8 op d8 s8 s = Some (snd (rotate_ref (op AND 7) (unat (s8 AND 31)) (fl_cf f, d8)), t)
       \<and> flags_of t = Some (rotate_flags (op AND 7) (unat (s8 AND 31)) d8 f) \<and> flag_frame s t)
   \<and> (\<exists>t. cpu_shift16 op d16 s16 s = Some (snd (rotate_ref (op AND 7) (unat (s16 AND 31)) (fl_cf f, d16)), t)
       \<and> flags_of t = Some (rotate_flags (op AND 7) (unat (s16 AND 31)) d16 f) \<and> flag_frame s t)
   \<and> (\<exists>t. cpu_shift32 op d32 s32 s = Some (snd (rotate_ref (op AND 7) (unat (s32 AND 31)) (fl_cf f, d32)), t)
       \<and> flags_of t = Some (rotate_flags (op AND 7) (unat (s32 AND 31)) d32 f) \<and> flag_frame s t)"
  using rotate_cases [OF assms(2)]
    shift8_rotl [OF assms(1), of op] shift8_rotr [OF assms(1), of op] shift8_rcl [OF assms(1), of op] shift8_rcr [OF assms(1), of op]
    shift16_rotl [OF assms(1), of op] shift16_rotr [OF assms(1), of op] shift16_rcl [OF assms(1), of op] shift16_rcr [OF assms(1), of op]
    shift32_rotl [OF assms(1), of op] shift32_rotr [OF assms(1), of op] shift32_rcl [OF assms(1), of op] shift32_rcr [OF assms(1), of op]
  by (elim disjE) simp_all

text \<open>Rotating 0x80 left through the set carry by one gives 1 and sets the carry again.\<close>
theorem rotate_correct_witness:
  "\<exists>t. cpu_shift8 2 0x80 1 carry_cpu = Some (1, t) \<and> cpu_get_cf t = Some 1 \<and> cpu_get_of t = Some 1"
proof -
  obtain t where t: "cpu_shift8 2 0x80 1 carry_cpu = Some (snd (rotate_ref 2 1 (True, 0x80::u8)), t)"
    and f: "flags_of t = Some (rotate_flags 2 1 (0x80::u8) \<lparr>fl_cf = True, fl_pf = False, fl_af = False,
      fl_zf = False, fl_sf = False, fl_of = False\<rparr>)"
    using rotate_correct [OF carry_cpu_flags, of 2 "0x80" 1, THEN conjunct1] by auto
  show ?thesis
    using t flags_of_SomeD(1,3) [OF f]
    by (intro exI [of _ t]) (simp add: rotate_flags_def rotate_ref_def rotate_of_def rcl_step_def)
qed

text \<open>C31: RCR by a count undoes RCL by the same count: the operand and the carry
  come back, at every width and for every count.\<close>
theorem rcl_rcr_restore:
  assumes "flags_of s = Some f" and "opl AND 7 = 2" and "opr AND 7 = 3"
  shows "(\<exists>r t u. cpu_shift8 opl d8 s8 s = Some (r, t) \<and> cpu_shift8 opr r s8 t = Some (d8, u)
       \<and> cpu_get_cf u = Some (of_bool (fl_cf f)))
   \<and> (\<exists>r t u. cpu_shift16 opl d16 s16 s = Some (r, t) \<and> cpu_shift16 opr r s16 t = Some (d16, u)
       \<and> cpu_get_cf u = Some (of_bool (fl_cf f)))
   \<and> (\<exists>r t u. cpu_shift32 opl d32 s32 s = Some (r, t) \<and> cpu_shift32 opr r s32 t = Some (d32, u)
       \<and> cpu_get_cf u = Some (of_bool (fl_cf f)))"
proof (intro conjI)
  from shift8_rcl [OF assms(1,2), of d8 s8] obtain t where
    t: "cpu_shift8 opl d8 s8 s = Some (snd (rotate_ref 2 (unat (s8 AND 31)) (fl_cf f, d8)), t)"
      "flags_of t = Some (rotate_flags 2 (unat (s8 AND 31)) d8 f)" by blast
  from shift8_rcr [OF t(2) assms(3), of "snd (rotate_ref 2 (unat (s8 AND 31)) (fl_cf f, d8))" s8]
  obtain u where u: "cpu_shift8 opr (snd (rotate_ref 2 (unat (s8 AND 31)) (fl_cf f, d8))) s8 t = Some (d8, u)"
      "flags_of u = Some (rotate_flags 3 (unat (s8 AND 31)) (snd (rotate_ref 2 (unat (s8 AND 31)) (fl_cf f, d8)))
         (rotate_flags 2 (unat (s8 AND 31)) d8 f))"
    unfolding rotate_back(1) by auto
  have "cpu_get_cf u = Some (of_bool (fl_cf f))"
    using flags_of_SomeD(1) [OF u(2)] unfolding rotate_back(2) .
  with t(1) u(1) show "\<exists>r t u. cpu_shift8 opl d8 s8 s = Some (r, t)
      \<and> cpu_shift8 opr r s8 t = Some (d8, u) \<and> cpu_get_cf u = Some (of_bool (fl_cf f))" by blast
  from shift16_rcl [OF assms(1,2), of d16 s16] obtain t where
    t: "cpu_shift16 opl d16 s16 s = Some (snd (rotate_ref 2 (unat (s16 AND 31)) (fl_cf f, d16)), t)"
      "flags_of t = Some (rotate_flags 2 (unat (s16 AND 31)) d16 f)" by blast
  from shift16_rcr [OF t(2) assms(3), of "snd (rotate_ref 2 (unat (s16 AND 31)) (fl_cf f, d16))" s16]
  obtain u where u: "cpu_shift16 opr (snd (rotate_ref 2 (unat (s16 AND 31)) (fl_cf f, d16))) s16 t = Some (d16, u)"
      "flags_of u = Some (rotate_flags 3 (unat (s16 AND 31)) (snd (rotate_ref 2 (unat (s16 AND 31)) (fl_cf f, d16)))
         (rotate_flags 2 (unat (s16 AND 31)) d16 f))"
    unfolding rotate_back(1) by auto
  have "cpu_get_cf u = Some (of_bool (fl_cf f))"
    using flags_of_SomeD(1) [OF u(2)] unfolding rotate_back(2) .
  with t(1) u(1) show "\<exists>r t u. cpu_shift16 opl d16 s16 s = Some (r, t)
      \<and> cpu_shift16 opr r s16 t = Some (d16, u) \<and> cpu_get_cf u = Some (of_bool (fl_cf f))" by blast
  from shift32_rcl [OF assms(1,2), of d32 s32] obtain t where
    t: "cpu_shift32 opl d32 s32 s = Some (snd (rotate_ref 2 (unat (s32 AND 31)) (fl_cf f, d32)), t)"
      "flags_of t = Some (rotate_flags 2 (unat (s32 AND 31)) d32 f)" by blast
  from shift32_rcr [OF t(2) assms(3), of "snd (rotate_ref 2 (unat (s32 AND 31)) (fl_cf f, d32))" s32]
  obtain u where u: "cpu_shift32 opr (snd (rotate_ref 2 (unat (s32 AND 31)) (fl_cf f, d32))) s32 t = Some (d32, u)"
      "flags_of u = Some (rotate_flags 3 (unat (s32 AND 31)) (snd (rotate_ref 2 (unat (s32 AND 31)) (fl_cf f, d32)))
         (rotate_flags 2 (unat (s32 AND 31)) d32 f))"
    unfolding rotate_back(1) by auto
  have "cpu_get_cf u = Some (of_bool (fl_cf f))"
    using flags_of_SomeD(1) [OF u(2)] unfolding rotate_back(2) .
  with t(1) u(1) show "\<exists>r t u. cpu_shift32 opl d32 s32 s = Some (r, t)
      \<and> cpu_shift32 opr r s32 t = Some (d32, u) \<and> cpu_get_cf u = Some (of_bool (fl_cf f))" by blast
qed

theorem rcl_rcr_restore_witness:
  "\<exists>r t u. cpu_shift8 2 0x5A 3 carry_cpu = Some (r, t) \<and> cpu_shift8 3 r 3 t = Some (0x5A, u)
     \<and> cpu_get_cf u = Some 1"
  using rcl_rcr_restore [OF carry_cpu_flags, of 2 3 "0x5A" 3, THEN conjunct1] by simp

end
