(* ===== verification/Shift_Laws.thy ===== *)
theory Shift_Laws
  imports Rotate_Laws
begin

text \<open>
  The shifts and double shifts of Alu_Shift: result and flags at the three widths, with the
  counts for which the stored operands make the flag getters shift by 32 or more.
\<close>

section \<open>Shifts\<close>

lemma unat_of_nat32: "k < 2 ^ 32 \<Longrightarrow> unat (of_nat k :: u32) = k"
  by (simp add: unat_of_nat take_bit_nat_eq_self)

lemma shr32_of_nat: "k < 32 \<Longrightarrow> shr32 x (of_nat k) = Some (drop_bit k x)"
  by (simp add: shr32_def word_less_nat_alt unat_of_nat32)

lemma shr32_diff: "k \<le> c \<Longrightarrow> c - k < 32 \<Longrightarrow> shr32 x (of_nat c - of_nat k) = Some (drop_bit (c - k) x)"
  using shr32_of_nat [of "c - k" x] by simp

lemma shr32_pred: "0 < n \<Longrightarrow> n \<le> 32 \<Longrightarrow> shr32 x (of_nat n - 1) = Some (drop_bit (n - 1) x)"
  using shr32_diff [of 1 n x] by simp

lemma shr32_under: "0 < k \<Longrightarrow> k < 2 ^ 16 \<Longrightarrow> shr32 x (- of_nat k) = None"
proof -
  assume k: "0 < k" "k < 2 ^ 16"
  have "uint (word_of_int (- int k) :: u32) = (- int k) mod 2 ^ 32"
    by (simp only: uint_word_of_int) simp
  also have "\<dots> = 2 ^ 32 - int k"
    using k by (simp add: zmod_zminus1_eq_if)
  finally have "uint (- of_nat k :: u32) = 2 ^ 32 - int k"
    by (simp only: of_int_minus of_int_of_nat_eq)
  then have "\<not> (- of_nat k :: u32) < 32"
    using k by (simp add: word_less_def)
  then show ?thesis by (simp add: shr32_def)
qed

definition shift_result :: "u32 \<Rightarrow> nat \<Rightarrow> 'w::len word \<Rightarrow> 'w word" where
  "shift_result k n d =
     (if k = 5 then drop_bit n d else if k = 7 then signed_drop_bit n d else push_bit n d)"

definition shift_flags :: "u32 \<Rightarrow> nat \<Rightarrow> 'w::len word \<Rightarrow> arith_flags" where
  "shift_flags k n d =
     (let r = shift_result k n d in
      if k = 5 then (logic_flags r)\<lparr>fl_cf := bit d (n - 1), fl_of := n = 1 \<and> bit d (LENGTH('w) - 1)\<rparr>
      else if k = 7 then (logic_flags r)\<lparr>fl_cf := bit d (min (n - 1) (LENGTH('w) - 1))\<rparr>
      else (logic_flags r)\<lparr>fl_cf := bit d (LENGTH('w) - n),
        fl_of := bit d (LENGTH('w) - n) \<noteq> bit r (LENGTH('w) - 1)\<rparr>)"

lemma xor_and_one: "(x XOR y) AND 1 = of_bool (bit x 0 \<noteq> bit y 0)" for x y :: u32
  by (simp only: and_one_of_bool bit_xor_iff)

lemma narrow_shl: "LENGTH('w::len) \<le> 32 \<Longrightarrow> (ucast (push_bit n (ucast (d::'w word) :: u32)) :: 'w word) = push_bit n d"
  by (rule bit_eqI) (auto simp: bit_down bit_up bit_push_bit_iff)

lemma narrow_shr: "LENGTH('w::len) \<le> 32 \<Longrightarrow> (ucast (drop_bit n (ucast (d::'w word) :: u32)) :: 'w word) = drop_bit n d"
  by (rule bit_eqI) (auto simp: bit_down bit_up bit_drop_bit_eq)

lemma narrow_sar8: "(ucast (signed_drop_bit n (scast (d::u8) :: u32)) :: u8) = signed_drop_bit n d"
  by (rule bit_eqI) (auto simp: bit_low8 bit_signed_drop_bit_iff bit_sext8 min_def)

lemma narrow_sar16: "(ucast (signed_drop_bit n (scast (d::u16) :: u32)) :: u16) = signed_drop_bit n d"
  by (rule bit_eqI) (auto simp: bit_low16 bit_signed_drop_bit_iff bit_sext16 min_def)

lemma flags_SHL8:
  fixes d :: u8
  assumes "m_laux s = op_code SHL8" "m_lop1 s = ucast d" "m_lop2 s = of_nat n"
    "m_lr s = scast (push_bit n d)" "0 < n" "n \<le> 31"
  shows "flags_of s = (if n \<le> 8 then Some (shift_flags 4 n d) else None)"
proof (cases "n \<le> 8")
  case True
  have c: "shr32 x (8 - of_nat n) = Some (drop_bit (8 - n) x)" for x
    using shr32_diff [of n 8 x] True assms(5) by simp
  have cf: "cpu_get_cf s = Some (of_bool (bit d (8 - n)))"
    using result_flags(3) [OF assms(1)]
    by (simp add: cpu_get_cf_def assms(2,3) c bit_drop_bit_eq bit_zext8)
  have of: "cpu_get_of s = Some (of_bool (bit (push_bit n d) 7 \<noteq> bit d (8 - n)))"
    using result_flags(3) [OF assms(1)]
    by (simp add: cpu_get_of_def assms(2,3,4) c xor_and_one bit_drop_bit_eq bit_zext8 parity8_scast8 bit_sext8 del: and_one_of_bool)
  have af: "cpu_get_af s = Some 0"
    using result_flags(3) [OF assms(1)] by (simp add: cpu_get_af_def)
  show ?thesis
    using True result_flags [OF assms(1)]
    by (simp add: flags_of_def cf of af shift_flags_def shift_result_def
        logic_flags_def assms(4) Let_def parity8_scast8 bit_sext8 sint_neg_bit) auto
next
  case False
  have "(8::u32) - of_nat n = - of_nat (n - 8)" using False by simp
  then have "shr32 (ucast d) (8 - of_nat n) = None"
    using False assms(6) shr32_under [of "n - 8" "ucast d"] by simp
  then show ?thesis
    using False result_flags(3) [OF assms(1)]
    by (simp add: flags_of_def cpu_get_of_def assms(2,3) Let_def)
qed

lemma flags_SHR8:
  fixes d :: u8
  assumes "m_laux s = op_code SHR8" "m_lop1 s = ucast d" "m_lop2 s = of_nat n"
    "m_lr s = scast (drop_bit n d)" "0 < n" "n \<le> 31"
  shows "flags_of s = Some (shift_flags 5 n d)"
proof -
  have cf: "cpu_get_cf s = Some (of_bool (bit d (n - 1)))"
    using result_flags(3) [OF assms(1)] shr32_pred [of n] assms(5,6)
    by (simp add: cpu_get_cf_def assms(2,3) bit_drop_bit_eq bit_zext8 del: One_nat_def)
  have ov: "bit (drop_bit n d) 6 \<noteq> bit (drop_bit n d) 7 \<longleftrightarrow> n = 1 \<and> bit d 7"
    using assms(5) by (cases "n = 1") (auto simp: bit_drop_bit_eq dest: bit_imp_le_length)
  have "drop_bit 7 (push_bit 1 (m_lr s) XOR m_lr s) AND 1
      = of_bool (bit (m_lr s) 6 \<noteq> bit (m_lr s) 7)"
    by (simp only: drop_bit_and_one bit_xor_iff bit_push_bit_iff) simp
  then have of: "cpu_get_of s = Some (of_bool (n = 1 \<and> bit d 7))"
    using result_flags(3) [OF assms(1)] ov
    by (simp add: cpu_get_of_def Let_def assms(4) parity8_scast8 bit_sext8 del: and_one_of_bool drop_bit_xor One_nat_def)
  have af: "cpu_get_af s = Some 0"
    using result_flags(3) [OF assms(1)] by (simp add: cpu_get_af_def)
  show ?thesis
    using result_flags [OF assms(1)]
    by (simp add: flags_of_def cf of af shift_flags_def shift_result_def
        logic_flags_def assms(4) Let_def parity8_scast8 bit_sext8 sint_neg_bit)
qed

lemma flags_SAR8:
  fixes d :: u8
  assumes "m_laux s = op_code SAR8" "m_lop1 s = scast d" "m_lop2 s = of_nat n"
    "m_lr s = scast (signed_drop_bit n d)" "0 < n" "n \<le> 31"
  shows "flags_of s = Some (shift_flags 7 n d)"
proof -
  have cf: "cpu_get_cf s = Some (of_bool (bit d (min (n - 1) 7)))"
    using result_flags(3) [OF assms(1)] shr32_pred [of n] assms(5,6)
    by (simp add: cpu_get_cf_def assms(2,3) bit_drop_bit_eq bit_sext8 del: One_nat_def)
  show ?thesis
    using result_flags [OF assms(1)]
    by (simp add: flags_of_def cf cpu_get_of_def cpu_get_af_def shift_flags_def shift_result_def
        logic_flags_def assms(4) Let_def parity8_scast8 bit_sext8 sint_neg_bit)
qed

lemma flags_SHL16:
  fixes d :: u16
  assumes "m_laux s = op_code SHL16" "m_lop1 s = ucast d" "m_lop2 s = of_nat n"
    "m_lr s = scast (push_bit n d)" "0 < n" "n \<le> 31"
  shows "flags_of s = (if n \<le> 16 then Some (shift_flags 4 n d) else None)"
proof (cases "n \<le> 16")
  case True
  have c: "shr32 x (16 - of_nat n) = Some (drop_bit (16 - n) x)" for x
    using shr32_diff [of n 16 x] True assms(5) by simp
  have cf: "cpu_get_cf s = Some (of_bool (bit d (16 - n)))"
    using result_flags(3) [OF assms(1)]
    by (simp add: cpu_get_cf_def assms(2,3) c bit_drop_bit_eq bit_zext16)
  have of: "cpu_get_of s = Some (of_bool (bit (push_bit n d) 15 \<noteq> bit d (16 - n)))"
    using result_flags(3) [OF assms(1)]
    by (simp add: cpu_get_of_def assms(2,3,4) c xor_and_one bit_drop_bit_eq bit_zext16 parity8_scast16 bit_sext16 del: and_one_of_bool)
  have af: "cpu_get_af s = Some 0"
    using result_flags(3) [OF assms(1)] by (simp add: cpu_get_af_def)
  show ?thesis
    using True result_flags [OF assms(1)]
    by (simp add: flags_of_def cf of af shift_flags_def shift_result_def
        logic_flags_def assms(4) Let_def parity8_scast16 bit_sext16 sint_neg_bit) auto
next
  case False
  have "(16::u32) - of_nat n = - of_nat (n - 16)" using False by simp
  then have "shr32 (ucast d) (16 - of_nat n) = None"
    using False assms(6) shr32_under [of "n - 16" "ucast d"] by simp
  then show ?thesis
    using False result_flags(3) [OF assms(1)]
    by (simp add: flags_of_def cpu_get_of_def assms(2,3) Let_def)
qed

lemma flags_SHR16:
  fixes d :: u16
  assumes "m_laux s = op_code SHR16" "m_lop1 s = ucast d" "m_lop2 s = of_nat n"
    "m_lr s = scast (drop_bit n d)" "0 < n" "n \<le> 31"
  shows "flags_of s = Some (shift_flags 5 n d)"
proof -
  have cf: "cpu_get_cf s = Some (of_bool (bit d (n - 1)))"
    using result_flags(3) [OF assms(1)] shr32_pred [of n] assms(5,6)
    by (simp add: cpu_get_cf_def assms(2,3) bit_drop_bit_eq bit_zext16 del: One_nat_def)
  have ov: "bit (drop_bit n d) 14 \<noteq> bit (drop_bit n d) 15 \<longleftrightarrow> n = 1 \<and> bit d 15"
    using assms(5) by (cases "n = 1") (auto simp: bit_drop_bit_eq dest: bit_imp_le_length)
  have "drop_bit 15 (push_bit 1 (m_lr s) XOR m_lr s) AND 1
      = of_bool (bit (m_lr s) 14 \<noteq> bit (m_lr s) 15)"
    by (simp only: drop_bit_and_one bit_xor_iff bit_push_bit_iff) simp
  then have of: "cpu_get_of s = Some (of_bool (n = 1 \<and> bit d 15))"
    using result_flags(3) [OF assms(1)] ov
    by (simp add: cpu_get_of_def Let_def assms(4) parity8_scast16 bit_sext16 del: and_one_of_bool drop_bit_xor One_nat_def)
  have af: "cpu_get_af s = Some 0"
    using result_flags(3) [OF assms(1)] by (simp add: cpu_get_af_def)
  show ?thesis
    using result_flags [OF assms(1)]
    by (simp add: flags_of_def cf of af shift_flags_def shift_result_def
        logic_flags_def assms(4) Let_def parity8_scast16 bit_sext16 sint_neg_bit)
qed

lemma flags_SAR16:
  fixes d :: u16
  assumes "m_laux s = op_code SAR16" "m_lop1 s = scast d" "m_lop2 s = of_nat n"
    "m_lr s = scast (signed_drop_bit n d)" "0 < n" "n \<le> 31"
  shows "flags_of s = Some (shift_flags 7 n d)"
proof -
  have cf: "cpu_get_cf s = Some (of_bool (bit d (min (n - 1) 15)))"
    using result_flags(3) [OF assms(1)] shr32_pred [of n] assms(5,6)
    by (simp add: cpu_get_cf_def assms(2,3) bit_drop_bit_eq bit_sext16 del: One_nat_def)
  show ?thesis
    using result_flags [OF assms(1)]
    by (simp add: flags_of_def cf cpu_get_of_def cpu_get_af_def shift_flags_def shift_result_def
        logic_flags_def assms(4) Let_def parity8_scast16 bit_sext16 sint_neg_bit)
qed

lemma flags_SHL32:
  fixes d :: u32
  assumes "m_laux s = op_code SHL32" "m_lop1 s = d" "m_lop2 s = of_nat n"
    "m_lr s = (push_bit n d)" "0 < n" "n \<le> 31"
  shows "flags_of s = Some (shift_flags 4 n d)"
proof -
  have True: "n \<le> 32" using assms(6) by simp
  have c: "shr32 x (32 - of_nat n) = Some (drop_bit (32 - n) x)" for x
    using shr32_diff [of n 32 x] True assms(5) by simp
  have cf: "cpu_get_cf s = Some (of_bool (bit d (32 - n)))"
    using result_flags(3) [OF assms(1)]
    by (simp add: cpu_get_cf_def assms(2,3) c bit_drop_bit_eq )
  have of: "cpu_get_of s = Some (of_bool (bit (push_bit n d) 31 \<noteq> bit d (32 - n)))"
    using result_flags(3) [OF assms(1)]
    by (simp add: cpu_get_of_def assms(2,3,4) c xor_and_one bit_drop_bit_eq   del: and_one_of_bool)
  have af: "cpu_get_af s = Some 0"
    using result_flags(3) [OF assms(1)] by (simp add: cpu_get_af_def)
  show ?thesis
    using True result_flags [OF assms(1)]
    by (simp add: flags_of_def cf of af shift_flags_def shift_result_def
        logic_flags_def assms(4) Let_def  sint_neg_bit) auto
qed

lemma flags_SHR32:
  fixes d :: u32
  assumes "m_laux s = op_code SHR32" "m_lop1 s = d" "m_lop2 s = of_nat n"
    "m_lr s = (drop_bit n d)" "0 < n" "n \<le> 31"
  shows "flags_of s = Some (shift_flags 5 n d)"
proof -
  have cf: "cpu_get_cf s = Some (of_bool (bit d (n - 1)))"
    using result_flags(3) [OF assms(1)] shr32_pred [of n] assms(5,6)
    by (simp add: cpu_get_cf_def assms(2,3) bit_drop_bit_eq  del: One_nat_def)
  have ov: "bit (drop_bit n d) 30 \<noteq> bit (drop_bit n d) 31 \<longleftrightarrow> n = 1 \<and> bit d 31"
    using assms(5) by (cases "n = 1") (auto simp: bit_drop_bit_eq dest: bit_imp_le_length)
  have "drop_bit 31 (push_bit 1 (m_lr s) XOR m_lr s) AND 1
      = of_bool (bit (m_lr s) 30 \<noteq> bit (m_lr s) 31)"
    by (simp only: drop_bit_and_one bit_xor_iff bit_push_bit_iff) simp
  then have of: "cpu_get_of s = Some (of_bool (n = 1 \<and> bit d 31))"
    using result_flags(3) [OF assms(1)] ov
    by (simp add: cpu_get_of_def Let_def assms(4)  del: and_one_of_bool drop_bit_xor One_nat_def)
  have af: "cpu_get_af s = Some 0"
    using result_flags(3) [OF assms(1)] by (simp add: cpu_get_af_def)
  show ?thesis
    using result_flags [OF assms(1)]
    by (simp add: flags_of_def cf of af shift_flags_def shift_result_def
        logic_flags_def assms(4) Let_def  sint_neg_bit)
qed

lemma flags_SAR32:
  fixes d :: u32
  assumes "m_laux s = op_code SAR32" "m_lop1 s = d" "m_lop2 s = of_nat n"
    "m_lr s = (signed_drop_bit n d)" "0 < n" "n \<le> 31"
  shows "flags_of s = Some (shift_flags 7 n d)"
proof -
  have cf: "cpu_get_cf s = Some (of_bool (bit d (min (n - 1) 31)))"
    using result_flags(3) [OF assms(1)] shr32_pred [of n] assms(5,6)
    by (simp add: cpu_get_cf_def assms(2,3) bit_drop_bit_eq min_absorb1 del: One_nat_def)
  show ?thesis
    using result_flags [OF assms(1)]
    by (simp add: flags_of_def cf cpu_get_of_def cpu_get_af_def shift_flags_def shift_result_def
        logic_flags_def assms(4) Let_def  sint_neg_bit)
qed

lemma shift8_shifts:
  assumes k: "op AND 7 = 4 \<or> op AND 7 = 5 \<or> op AND 7 = 6 \<or> op AND 7 = 7"
    and n: "n = unat (src AND 31)" "0 < n"
  shows "\<exists>t. cpu_shift8 op d src s = Some (shift_result (op AND 7) n d, t)
    \<and> flags_of t = (if (op AND 7 = 4 \<or> op AND 7 = 6) \<and> 8 < n then None else Some (shift_flags (op AND 7) n d)) \<and> lazy_frame s t"
proof -
  have lt: "n \<le> 31" using mod_less_divisor [of 32 "unat src"] n(1) by (simp add: unat_and_mask)
  have src: "src \<noteq> 0" using n by auto
  have s6: "shift_flags 6 n d = shift_flags 4 n d" by (simp add: shift_flags_def shift_result_def)
  show ?thesis
    using k n(2) lt src
    by (elim disjE) (simp_all add: cpu_shift8_def Let_def n(1) [symmetric] shift_result_def narrow_shl narrow_shr narrow_sar8 sext8_low s6
        flags_SHL8 flags_SHR8 flags_SAR8)
qed

lemma shift8_zero:
  assumes "op AND 7 = 4 \<or> op AND 7 = 5 \<or> op AND 7 = 6 \<or> op AND 7 = 7" "unat (src AND 31) = 0"
  shows "cpu_shift8 op d src s = Some (d, s)"
  using assms by (elim disjE) (simp_all add: cpu_shift8_def Let_def)

lemma shift16_shifts:
  assumes k: "op AND 7 = 4 \<or> op AND 7 = 5 \<or> op AND 7 = 6 \<or> op AND 7 = 7"
    and n: "n = unat (src AND 31)" "0 < n"
  shows "\<exists>t. cpu_shift16 op d src s = Some (shift_result (op AND 7) n d, t)
    \<and> flags_of t = (if (op AND 7 = 4 \<or> op AND 7 = 6) \<and> 16 < n then None else Some (shift_flags (op AND 7) n d)) \<and> lazy_frame s t"
proof -
  have lt: "n \<le> 31" using mod_less_divisor [of 32 "unat src"] n(1) by (simp add: unat_and_mask)
  have src: "src \<noteq> 0" using n by auto
  have s6: "shift_flags 6 n d = shift_flags 4 n d" by (simp add: shift_flags_def shift_result_def)
  show ?thesis
    using k n(2) lt src
    by (elim disjE) (simp_all add: cpu_shift16_def Let_def n(1) [symmetric] shift_result_def narrow_shl narrow_shr narrow_sar16 sext16_low s6
        flags_SHL16 flags_SHR16 flags_SAR16)
qed

lemma shift16_zero:
  assumes "op AND 7 = 4 \<or> op AND 7 = 5 \<or> op AND 7 = 6 \<or> op AND 7 = 7" "unat (src AND 31) = 0"
  shows "cpu_shift16 op d src s = Some (d, s)"
  using assms by (elim disjE) (simp_all add: cpu_shift16_def Let_def)

lemma shift32_shifts:
  assumes k: "op AND 7 = 4 \<or> op AND 7 = 5 \<or> op AND 7 = 6 \<or> op AND 7 = 7"
    and n: "n = unat (src AND 31)" "0 < n"
  shows "\<exists>t. cpu_shift32 op d src s = Some (shift_result (op AND 7) n d, t)
    \<and> flags_of t = Some (shift_flags (op AND 7) n d) \<and> lazy_frame s t"
proof -
  have lt: "n \<le> 31" using mod_less_divisor [of 32 "unat src"] n(1) by (simp add: unat_and_mask)
  have src: "src \<noteq> 0" using n by auto
  have s6: "shift_flags 6 n d = shift_flags 4 n d" by (simp add: shift_flags_def shift_result_def)
  show ?thesis
    using k n(2) lt src
    by (elim disjE) (simp_all add: cpu_shift32_def Let_def n(1) [symmetric] shift_result_def   s6
        flags_SHL32 flags_SHR32 flags_SAR32)
qed

lemma shift32_zero:
  assumes "op AND 7 = 4 \<or> op AND 7 = 5 \<or> op AND 7 = 6 \<or> op AND 7 = 7" "unat (src AND 31) = 0"
  shows "cpu_shift32 op d src s = Some (d, s)"
  using assms by (elim disjE) (simp_all add: cpu_shift32_def Let_def)

section \<open>Double shifts\<close>

text \<open>
  Reference: the two operands side by side form a ring of twice the width, which turns
  left (SHLD) or right (SHRD); the destination's half is the result and the bit that
  crossed the end is the carry.
\<close>

definition shld_flags :: "'w::len word \<Rightarrow> bool \<Rightarrow> arith_flags" where
  "shld_flags r c = (logic_flags r)\<lparr>fl_cf := c, fl_of := c \<noteq> bit r (LENGTH('w) - 1)\<rparr>"

definition shrd_flags :: "'w::len word \<Rightarrow> bool \<Rightarrow> arith_flags" where
  "shrd_flags r c = (logic_flags r)\<lparr>fl_cf := c, fl_of := bit r (LENGTH('w) - 2) \<noteq> bit r (LENGTH('w) - 1)\<rparr>"

lemma flags_SHLD16:
  fixes d r :: u16
  assumes "m_laux s = op_code SHLD16" "m_lop1 s = ucast d" "m_lop2 s = of_nat n"
    "m_lr s = scast r" "0 < n" "n \<le> 31"
  shows "flags_of s = Some (shld_flags r (bit d ((if n \<le> 16 then 16 - n else 32 - n))))"
proof -
  have c32: "shr32 x (32 - of_nat n) = Some (drop_bit (32 - n) x)" for x
    using shr32_diff [of n 32 x] assms(5,6) by simp
  have c16: "n \<le> 16 \<Longrightarrow> shr32 x (16 - of_nat n) = Some (drop_bit (16 - n) x)" for x
    using shr32_diff [of n 16 x] assms(5,6) by simp
  have le: "(of_nat n :: u32) \<le> 16 \<longleftrightarrow> n \<le> 16"
    using assms(6) by (simp add: word_le_nat_alt unat_of_nat32)
  have cf: "cpu_get_cf s = Some (of_bool (bit d ((if n \<le> 16 then 16 - n else 32 - n))))"
    using result_flags(3) [OF assms(1)]
    by (simp add: cpu_get_cf_def assms(2,3) c16 c32 le bit_drop_bit_eq bit_zext16)
  have ofe: "of_bool c XOR (drop_bit 15 (m_lr s) AND 1) = (of_bool (c \<noteq> bit r 15) :: u32)" for c
    by (simp only: drop_bit_and_one assms(4) xor_of_bool, (simp add: parity8_scast16 bit_sext16)?)
  have of: "cpu_get_of s = Some (of_bool (bit d ((if n \<le> 16 then 16 - n else 32 - n)) \<noteq> bit r 15))"
    using result_flags(3) [OF assms(1)]
    by (simp add: cpu_get_of_def cf ofe del: and_one_of_bool split del: split_of_bool)
  have af: "cpu_get_af s = Some 0"
    using result_flags(3) [OF assms(1)] by (simp add: cpu_get_af_def)
  show ?thesis
    using result_flags [OF assms(1)]
    by (simp add: flags_of_def cf of af shld_flags_def logic_flags_def assms(4) parity8_scast16 bit_sext16 sint_neg_bit split del: split_of_bool)
qed

lemma flags_SHRD16:
  fixes d r :: u16
  assumes "m_laux s = op_code SHRD16" "m_lop1 s = ucast d" "m_lop2 s = of_nat n"
    "m_lr s = scast r" "n \<le> 31"
  shows "flags_of s = (if n = 0 then None else Some (shrd_flags r (bit d (n - 1))))"
proof (cases "n = 0")
  case True
  have "shr32 x (- 1) = None" for x
    using shr32_under [of 1 x] by simp
  then show ?thesis
    using True result_flags(3) [OF assms(1)]
    by (simp add: flags_of_def cpu_get_of_def cpu_get_af_def cpu_get_cf_def assms(3) Let_def)
next
  case False
  have cf: "cpu_get_cf s = Some (of_bool (bit d (n - 1)))"
    using result_flags(3) [OF assms(1)] shr32_pred [of n] assms(5) False
    by (simp add: cpu_get_cf_def assms(2,3) bit_drop_bit_eq bit_zext16 del: One_nat_def)
  have "drop_bit 15 (push_bit 1 (m_lr s) XOR m_lr s) AND 1
      = of_bool (bit (m_lr s) 14 \<noteq> bit (m_lr s) 15)"
    by (simp only: drop_bit_and_one bit_xor_iff bit_push_bit_iff) simp
  then have of: "cpu_get_of s = Some (of_bool (bit r 14 \<noteq> bit r 15))"
    using result_flags(3) [OF assms(1)]
    by (simp add: cpu_get_of_def Let_def assms(4) parity8_scast16 bit_sext16 del: and_one_of_bool drop_bit_xor One_nat_def)
  have af: "cpu_get_af s = Some 0"
    using result_flags(3) [OF assms(1)] by (simp add: cpu_get_af_def)
  show ?thesis
    using False result_flags [OF assms(1)]
    by (simp add: flags_of_def cf of af shrd_flags_def logic_flags_def assms(4) parity8_scast16 bit_sext16 sint_neg_bit)
qed

lemma flags_SHLD32:
  fixes d r :: u32
  assumes "m_laux s = op_code SHLD32" "m_lop1 s = d" "m_lop2 s = of_nat n"
    "m_lr s = r" "0 < n" "n \<le> 31"
  shows "flags_of s = Some (shld_flags r (bit d (32 - n)))"
proof -
  have c32: "shr32 x (32 - of_nat n) = Some (drop_bit (32 - n) x)" for x
    using shr32_diff [of n 32 x] assms(5,6) by simp
  note c16 = c32 and le = c32
  have cf: "cpu_get_cf s = Some (of_bool (bit d (32 - n)))"
    using result_flags(3) [OF assms(1)]
    by (simp add: cpu_get_cf_def assms(2,3) c16 c32 le bit_drop_bit_eq )
  have ofe: "of_bool c XOR (drop_bit 31 (m_lr s) AND 1) = (of_bool (c \<noteq> bit r 31) :: u32)" for c
    by (simp only: drop_bit_and_one assms(4) xor_of_bool, (simp add: )?)
  have of: "cpu_get_of s = Some (of_bool (bit d (32 - n) \<noteq> bit r 31))"
    using result_flags(3) [OF assms(1)]
    by (simp add: cpu_get_of_def cf ofe del: and_one_of_bool split del: split_of_bool)
  have af: "cpu_get_af s = Some 0"
    using result_flags(3) [OF assms(1)] by (simp add: cpu_get_af_def)
  show ?thesis
    using result_flags [OF assms(1)]
    by (simp add: flags_of_def cf of af shld_flags_def logic_flags_def assms(4)  sint_neg_bit split del: split_of_bool)
qed

lemma flags_SHRD32:
  fixes d r :: u32
  assumes "m_laux s = op_code SHRD32" "m_lop1 s = d" "m_lop2 s = of_nat n"
    "m_lr s = r" "n \<le> 31"
  shows "flags_of s = (if n = 0 then None else Some (shrd_flags r (bit d (n - 1))))"
proof (cases "n = 0")
  case True
  have "shr32 x (- 1) = None" for x
    using shr32_under [of 1 x] by simp
  then show ?thesis
    using True result_flags(3) [OF assms(1)]
    by (simp add: flags_of_def cpu_get_of_def cpu_get_af_def cpu_get_cf_def assms(3) Let_def)
next
  case False
  have cf: "cpu_get_cf s = Some (of_bool (bit d (n - 1)))"
    using result_flags(3) [OF assms(1)] shr32_pred [of n] assms(5) False
    by (simp add: cpu_get_cf_def assms(2,3) bit_drop_bit_eq  del: One_nat_def)
  have "drop_bit 31 (push_bit 1 (m_lr s) XOR m_lr s) AND 1
      = of_bool (bit (m_lr s) 30 \<noteq> bit (m_lr s) 31)"
    by (simp only: drop_bit_and_one bit_xor_iff bit_push_bit_iff) simp
  then have of: "cpu_get_of s = Some (of_bool (bit r 30 \<noteq> bit r 31))"
    using result_flags(3) [OF assms(1)]
    by (simp add: cpu_get_of_def Let_def assms(4)  del: and_one_of_bool drop_bit_xor One_nat_def)
  have af: "cpu_get_af s = Some 0"
    using result_flags(3) [OF assms(1)] by (simp add: cpu_get_af_def)
  show ?thesis
    using False result_flags [OF assms(1)]
    by (simp add: flags_of_def cf of af shrd_flags_def logic_flags_def assms(4)  sint_neg_bit)
qed

lemma shld16_ring:
  fixes d x :: u16
  assumes "n \<le> 31" "0 < n"
  shows "(if n < 16 then ucast (push_bit n (ucast d :: u32) OR drop_bit (16 - n) (ucast x)) :: u16
      else ucast (push_bit (n - 16) (ucast x :: u32) OR drop_bit (32 - n) (ucast d)))
    = ucast (drop_bit 16 (word_rotl n (word_cat d x :: u32)))"
    (is "?l = ?r")
proof (rule bit_eqI)
  fix i assume "possible_bit TYPE(16 word) i"
  then have i: "i < 16" by simp
  have m: "(16 + i + (32 - n)) mod 32 = (if n \<le> 16 + i then 16 + i - n else 48 + i - n)"
    using i assms by (simp add: mod_if)
  have "bit ?r i \<longleftrightarrow> bit (word_cat d x :: u32) ((16 + i + (32 - n)) mod 32)"
    using i assms by (simp add: bit_low16 bit_drop_bit_eq bit_word_rotl_iff add.commute)
  also have "\<dots> \<longleftrightarrow> bit ?l i"
    unfolding m using i assms
    by (auto simp: bit_cat16 bit_low16 bit_zext16 bit_or_iff bit_push_bit_iff bit_drop_bit_eq
        add.commute dest: bit_imp_le_length)
  finally show "bit ?l i = bit ?r i" ..
qed

lemma shld16_carry: "n \<le> 31 \<Longrightarrow> 0 < n \<Longrightarrow>
    bit (word_rotl n (word_cat d x :: u32)) 0 = (if n \<le> 16 then bit d (16 - n) else bit x (32 - n))"
  for d x :: u16
  by (auto simp: bit_word_rotl_iff bit_cat16)

lemma shrd16_ring:
  fixes d x :: u16
  assumes "n \<le> 31" "0 < n"
  shows "(if n < 16 then ucast (drop_bit n (ucast d :: u32) OR push_bit (16 - n) (ucast x)) :: u16
      else ucast (drop_bit (n - 16) (ucast x :: u32) OR push_bit (32 - n) (ucast d)))
    = ucast (word_rotr n (word_cat x d :: u32))"
    (is "?l = ?r")
proof (rule bit_eqI)
  fix i assume "possible_bit TYPE(16 word) i"
  then have i: "i < 16" by simp
  have m: "(i + n) mod 32 = (if i + n < 32 then i + n else i + n - 32)"
    using i assms by (simp add: mod_if)
  have "bit ?r i \<longleftrightarrow> bit (word_cat x d :: u32) ((i + n) mod 32)"
    using i assms by (simp add: bit_low16 bit_word_rotr_iff)
  also have "\<dots> \<longleftrightarrow> bit ?l i"
    unfolding m using i assms
    by (auto simp: bit_cat16 bit_low16 bit_zext16 bit_or_iff bit_push_bit_iff bit_drop_bit_eq
        add.commute dest: bit_imp_le_length)
  finally show "bit ?l i = bit ?r i" ..
qed

lemma shrd16_carry: "n \<le> 31 \<Longrightarrow> 0 < n \<Longrightarrow>
    bit (word_rotr n (word_cat x d :: u32)) 31 = (if n \<le> 16 then bit d (n - 1) else bit x (n - 17))"
  for d x :: u16
proof -
  assume n: "n \<le> 31" "0 < n"
  have "(31 + n) mod 32 = n - 1" using n by (simp add: mod_if)
  then show ?thesis using n by (auto simp: bit_word_rotr_iff bit_cat16)
qed

lemma shld32_ring:
  fixes d x :: u32
  assumes "n \<le> 31" "0 < n"
  shows "push_bit n d OR drop_bit (32 - n) x = ucast (drop_bit 32 (word_rotl n (word_cat d x :: u64)))"
    (is "?l = ?r")
proof (rule bit_eqI)
  fix i assume "possible_bit TYPE(32 word) i"
  then have i: "i < 32" by simp
  have m: "(32 + i + (64 - n)) mod 64 = 32 + i - n"
    using i assms by (simp add: mod_if)
  have "bit ?r i \<longleftrightarrow> bit (word_cat d x :: u64) ((32 + i + (64 - n)) mod 64)"
    using i assms by (simp add: bit_simps bit_drop_bit_eq bit_word_rotl_iff add.commute)
  also have "\<dots> \<longleftrightarrow> bit ?l i"
    unfolding m using i assms
    by (auto simp: bit_cat32 bit_or_iff bit_push_bit_iff bit_drop_bit_eq
        add.commute dest: bit_imp_le_length)
  finally show "bit ?l i = bit ?r i" ..
qed

lemma shld32_carry: "n \<le> 31 \<Longrightarrow> 0 < n \<Longrightarrow>
    bit (word_rotl n (word_cat d x :: u64)) 0 = bit d (32 - n)" for d x :: u32
  by (auto simp: bit_word_rotl_iff bit_cat32)

lemma shrd32_ring:
  fixes d x :: u32
  assumes "n \<le> 31" "0 < n"
  shows "drop_bit n d OR push_bit (32 - n) x = ucast (word_rotr n (word_cat x d :: u64))"
    (is "?l = ?r")
proof (rule bit_eqI)
  fix i assume "possible_bit TYPE(32 word) i"
  then have i: "i < 32" by simp
  have m: "(i + n) mod 64 = i + n"
    using i assms by simp
  have "bit ?r i \<longleftrightarrow> bit (word_cat x d :: u64) ((i + n) mod 64)"
    using i assms by (simp add: bit_simps bit_word_rotr_iff)
  also have "\<dots> \<longleftrightarrow> bit ?l i"
    unfolding m using i assms
    by (auto simp: bit_cat32 bit_or_iff bit_push_bit_iff bit_drop_bit_eq
        add.commute dest: bit_imp_le_length)
  finally show "bit ?l i = bit ?r i" ..
qed

lemma shrd32_carry: "n \<le> 31 \<Longrightarrow> 0 < n \<Longrightarrow>
    bit (word_rotr n (word_cat x d :: u64)) 63 = bit d (n - 1)" for d x :: u32
proof -
  assume n: "n \<le> 31" "0 < n"
  have "(63 + n) mod 64 = n - 1" using n by (simp add: mod_if)
  then show ?thesis using n by (auto simp: bit_word_rotr_iff bit_cat32)
qed

lemma count_le_31: "n = unat (c AND 31) \<Longrightarrow> n \<le> 31" for c :: u32
  using mod_less_divisor [of 32 "unat c"] by (simp add: unat_and_mask)

lemma shld16_spec:
  assumes n: "n = unat (c AND 31)" "0 < n"
  shows "\<exists>t. cpu_shld16 d x c s = (ucast (drop_bit 16 (word_rotl n (word_cat d x :: u32))), t)
       \<and> flags_of t = Some (shld_flags (fst (cpu_shld16 d x c s)) (bit (word_rotl n (word_cat d x :: u32)) 0))
       \<and> lazy_frame s t"
proof -
  define r where "r = (ucast (drop_bit 16 (word_rotl n (word_cat d x :: u32))) :: u16)"
  define e where "e = (if n > 16 then x else d)"
  have le: "n \<le> 31" by (rule count_le_31 [OF n(1)])
  have eq: "cpu_shld16 d x c s = (r, s\<lparr>m_lr := scast r, m_lop1 := ucast e, m_lop2 := of_nat n,
      m_laux := op_code SHLD16\<rparr>)"
    using n(2) shld16_ring [OF le n(2), of d x] by (simp only: cpu_shld16_def n(1) [symmetric] Let_def r_def e_def) simp
  have c: "bit (word_rotl n (word_cat d x :: u32)) 0 = bit e (if n \<le> 16 then 16 - n else 32 - n)"
    using shld16_carry [OF le n(2), of d x] by (simp add: e_def)
  have "flags_of (s\<lparr>m_lr := scast r, m_lop1 := ucast e, m_lop2 := of_nat n, m_laux := op_code SHLD16\<rparr>)
      = Some (shld_flags r (bit e (if n \<le> 16 then 16 - n else 32 - n)))"
    using le n(2) by (intro flags_SHLD16) simp_all
  then show ?thesis
    unfolding eq fst_conv c by (intro exI conjI) (auto simp: r_def [symmetric] lazy_frame_def)
qed

lemma shrd16_spec:
  assumes n: "n = unat (c AND 31)" "0 < n"
  shows "\<exists>t. cpu_shrd16 d x c s = (ucast (word_rotr n (word_cat x d :: u32)), t)
       \<and> flags_of t = (if n = 16 then None
            else Some (shrd_flags (fst (cpu_shrd16 d x c s)) (bit (word_rotr n (word_cat x d :: u32)) 31)))
       \<and> lazy_frame s t"
proof -
  define r where "r = (ucast (word_rotr n (word_cat x d :: u32)) :: u16)"
  define e where "e = (if n < 16 then d else x)"
  define m where "m = (if n < 16 then n else n - 16)"
  have le: "n \<le> 31" by (rule count_le_31 [OF n(1)])
  then have m: "m \<le> 31" "m = 0 \<longleftrightarrow> n = 16" using n(2) by (auto simp: m_def)
  have eq: "cpu_shrd16 d x c s = (r, s\<lparr>m_lr := scast r, m_lop1 := ucast e, m_lop2 := of_nat m,
      m_laux := op_code SHRD16\<rparr>)"
    using n(2) shrd16_ring [OF le n(2), of d x]
    by (simp only: cpu_shrd16_def n(1) [symmetric] Let_def r_def [symmetric] e_def m_def) (cases "n < 16"; simp)
  have c: "n \<noteq> 16 \<Longrightarrow> bit (word_rotr n (word_cat x d :: u32)) 31 = bit e (m - 1)"
    using shrd16_carry [OF le n(2), of x d] by (auto simp: e_def m_def)
  have "flags_of (s\<lparr>m_lr := scast r, m_lop1 := ucast e, m_lop2 := of_nat m, m_laux := op_code SHRD16\<rparr>)
      = (if m = 0 then None else Some (shrd_flags r (bit e (m - 1))))"
    using m(1) by (intro flags_SHRD16) simp_all
  then show ?thesis
    unfolding eq fst_conv m(2) by (intro exI conjI) (auto simp: r_def [symmetric] lazy_frame_def c)
qed

lemma shld32_spec:
  assumes n: "n = unat (c AND 31)" "0 < n"
  shows "\<exists>t. cpu_shld32 d x c s = (ucast (drop_bit 32 (word_rotl n (word_cat d x :: u64))), t)
       \<and> flags_of t = Some (shld_flags (fst (cpu_shld32 d x c s)) (bit (word_rotl n (word_cat d x :: u64)) 0))
       \<and> lazy_frame s t"
proof -
  define r where "r = (ucast (drop_bit 32 (word_rotl n (word_cat d x :: u64))) :: u32)"
  have le: "n \<le> 31" by (rule count_le_31 [OF n(1)])
  have eq: "cpu_shld32 d x c s = (r, s\<lparr>m_lr := r, m_lop1 := d, m_lop2 := of_nat n, m_laux := op_code SHLD32\<rparr>)"
    using n(2) shld32_ring [OF le n(2), of d x] by (simp only: cpu_shld32_def n(1) [symmetric] Let_def r_def) simp
  have "flags_of (s\<lparr>m_lr := r, m_lop1 := d, m_lop2 := of_nat n, m_laux := op_code SHLD32\<rparr>)
      = Some (shld_flags r (bit d (32 - n)))"
    using le n(2) by (intro flags_SHLD32) simp_all
  then show ?thesis
    unfolding eq fst_conv shld32_carry [OF le n(2)]
    by (intro exI conjI) (auto simp: r_def [symmetric] lazy_frame_def)
qed

lemma shrd32_spec:
  assumes n: "n = unat (c AND 31)" "0 < n"
  shows "\<exists>t. cpu_shrd32 d x c s = (ucast (word_rotr n (word_cat x d :: u64)), t)
       \<and> flags_of t = Some (shrd_flags (fst (cpu_shrd32 d x c s)) (bit (word_rotr n (word_cat x d :: u64)) 63))
       \<and> lazy_frame s t"
proof -
  define r where "r = (ucast (word_rotr n (word_cat x d :: u64)) :: u32)"
  have le: "n \<le> 31" by (rule count_le_31 [OF n(1)])
  have eq: "cpu_shrd32 d x c s = (r, s\<lparr>m_lr := r, m_lop1 := d, m_lop2 := of_nat n, m_laux := op_code SHRD32\<rparr>)"
    using n(2) shrd32_ring [OF le n(2), of d x] by (simp only: cpu_shrd32_def n(1) [symmetric] Let_def r_def) simp
  have "flags_of (s\<lparr>m_lr := r, m_lop1 := d, m_lop2 := of_nat n, m_laux := op_code SHRD32\<rparr>)
      = (if n = 0 then None else Some (shrd_flags r (bit d (n - 1))))"
    using le by (intro flags_SHRD32) simp_all
  then show ?thesis
    unfolding eq fst_conv shrd32_carry [OF le n(2)] using n(2)
    by (intro exI conjI) (auto simp: r_def [symmetric] lazy_frame_def)
qed

section \<open>Properties\<close>

lemma shift_cases:
  assumes "4 \<le> (op::u32) AND 7"
  shows "op AND 7 = 4 \<or> op AND 7 = 5 \<or> op AND 7 = 6 \<or> op AND 7 = 7"
  using assms by (cases op rule: and_7_cases) (simp_all add: word_le_nat_alt)

lemma shift_result_0: "shift_result k 0 d = d"
  by (simp add: shift_result_def)

lemma unat_and_31_0: "unat (x AND 31) = 0 \<longleftrightarrow> x AND 31 = 0" for x :: "'w::len word"
  by (simp add: unat_eq_0)

lemma shift8_all:
  assumes "4 \<le> op AND 7"
  shows "(\<exists>t. cpu_shift8 op d src s = Some (shift_result (op AND 7) (unat (src AND 31)) d, t)
       \<and> (if src AND 31 = 0 then t = s
          else flags_of t = (if op AND 7 \<noteq> 5 \<and> op AND 7 \<noteq> 7 \<and> 8 < unat (src AND 31) then None
            else Some (shift_flags (op AND 7) (unat (src AND 31)) d)) \<and> lazy_frame s t))"
proof (cases "unat (src AND 31) = 0")
  case True
  then show ?thesis
    using shift8_zero [OF shift_cases [OF assms] True, of d s] by (simp add: shift_result_0 unat_and_31_0)
next
  case False
  then show ?thesis
    using shift8_shifts [OF shift_cases [OF assms] refl, of src d s] shift_cases [OF assms]
    by (elim disjE) (simp_all add: unat_and_31_0 unat_gt_0 del: unat_eq_zero)
qed

lemma shift16_all:
  assumes "4 \<le> op AND 7"
  shows "(\<exists>t. cpu_shift16 op d src s = Some (shift_result (op AND 7) (unat (src AND 31)) d, t)
       \<and> (if src AND 31 = 0 then t = s
          else flags_of t = (if op AND 7 \<noteq> 5 \<and> op AND 7 \<noteq> 7 \<and> 16 < unat (src AND 31) then None
            else Some (shift_flags (op AND 7) (unat (src AND 31)) d)) \<and> lazy_frame s t))"
proof (cases "unat (src AND 31) = 0")
  case True
  then show ?thesis
    using shift16_zero [OF shift_cases [OF assms] True, of d s] by (simp add: shift_result_0 unat_and_31_0)
next
  case False
  then show ?thesis
    using shift16_shifts [OF shift_cases [OF assms] refl, of src d s] shift_cases [OF assms]
    by (elim disjE) (simp_all add: unat_and_31_0 unat_gt_0 del: unat_eq_zero)
qed

lemma shift32_all:
  assumes "4 \<le> op AND 7"
  shows "(\<exists>t. cpu_shift32 op d src s = Some (shift_result (op AND 7) (unat (src AND 31)) d, t)
       \<and> (if src AND 31 = 0 then t = s
          else flags_of t = Some (shift_flags (op AND 7) (unat (src AND 31)) d) \<and> lazy_frame s t))"
proof (cases "unat (src AND 31) = 0")
  case True
  then show ?thesis
    using shift32_zero [OF shift_cases [OF assms] True, of d s] by (simp add: shift_result_0 unat_and_31_0)
next
  case False
  then show ?thesis
    using shift32_shifts [OF shift_cases [OF assms] refl, of src d s] shift_cases [OF assms]
    by (elim disjE) (simp_all add: unat_and_31_0 unat_gt_0 del: unat_eq_zero)
qed

text \<open>C21: At every width, SHL, SHR and SAR by the count modulo 32 give the shifted
  word and, for a non-zero count, its flags (the carry is the last bit shifted out); a zero
  count changes nothing. The one deviation: after a left shift of an 8- or 16-bit operand
  by more than its width the flags cannot be read at all, since the getters would shift by a
  negative count.\<close>
theorem shift_correct:
  assumes "4 \<le> op AND 7"
  shows "(\<exists>t. cpu_shift8 op d8 s8 s = Some (shift_result (op AND 7) (unat (s8 AND 31)) d8, t)
       \<and> (if s8 AND 31 = 0 then t = s
          else flags_of t = (if op AND 7 \<noteq> 5 \<and> op AND 7 \<noteq> 7 \<and> 8 < unat (s8 AND 31) then None
            else Some (shift_flags (op AND 7) (unat (s8 AND 31)) d8)) \<and> lazy_frame s t))
   \<and> (\<exists>t. cpu_shift16 op d16 s16 s = Some (shift_result (op AND 7) (unat (s16 AND 31)) d16, t)
       \<and> (if s16 AND 31 = 0 then t = s
          else flags_of t = (if op AND 7 \<noteq> 5 \<and> op AND 7 \<noteq> 7 \<and> 16 < unat (s16 AND 31) then None
            else Some (shift_flags (op AND 7) (unat (s16 AND 31)) d16)) \<and> lazy_frame s t))
   \<and> (\<exists>t. cpu_shift32 op d32 s32 s = Some (shift_result (op AND 7) (unat (s32 AND 31)) d32, t)
       \<and> (if s32 AND 31 = 0 then t = s
          else flags_of t = Some (shift_flags (op AND 7) (unat (s32 AND 31)) d32) \<and> lazy_frame s t))"
  using shift8_all [OF assms, of d8 s8 s] shift16_all [OF assms, of d16 s16 s] shift32_all [OF assms, of d32 s32 s]
  by blast

text \<open>SHL of an 8-bit operand by nine gives zero, but asking for the carry then has no answer.\<close>
theorem shift_correct_witness:
  "\<exists>t. cpu_shift8 4 0xFF 9 zero_cpu = Some (0, t) \<and> flags_of t = None"
proof -
  have p: "push_bit 9 (255::u8) = 0"
    by code_simp
  show ?thesis
    using shift_correct [of 4 "0xFF" 9 zero_cpu, THEN conjunct1] by (auto simp: shift_result_def p)
qed

text \<open>
  C32. SHLD and SHRD turn the ring formed by the two operands left or right by
  the count modulo 32: the result is the destination's half of the turned ring, the carry
  the bit that crossed the end, also for 16-bit operands and counts above 16; a count that is zero modulo 32
  gives back the destination and changes no flag nor anything else. The exception is SHRD of 16 bits by exactly
  16, after which the flag getters would shift by minus one.
\<close>

theorem double_shift_correct:
  assumes "n = unat (c AND 31)"
  shows "(0 < n \<longrightarrow>
     (\<exists>t. cpu_shld16 d16 x16 c s = (ucast (drop_bit 16 (word_rotl n (word_cat d16 x16 :: u32))), t)
       \<and> flags_of t = Some (shld_flags (fst (cpu_shld16 d16 x16 c s)) (bit (word_rotl n (word_cat d16 x16 :: u32)) 0))
       \<and> lazy_frame s t)
   \<and> (\<exists>t. cpu_shrd16 d16 x16 c s = (ucast (word_rotr n (word_cat x16 d16 :: u32)), t)
       \<and> flags_of t = (if n = 16 then None
            else Some (shrd_flags (fst (cpu_shrd16 d16 x16 c s)) (bit (word_rotr n (word_cat x16 d16 :: u32)) 31)))
       \<and> lazy_frame s t)
   \<and> (\<exists>t. cpu_shld32 d32 x32 c s = (ucast (drop_bit 32 (word_rotl n (word_cat d32 x32 :: u64))), t)
       \<and> flags_of t = Some (shld_flags (fst (cpu_shld32 d32 x32 c s)) (bit (word_rotl n (word_cat d32 x32 :: u64)) 0))
       \<and> lazy_frame s t)
   \<and> (\<exists>t. cpu_shrd32 d32 x32 c s = (ucast (word_rotr n (word_cat x32 d32 :: u64)), t)
       \<and> flags_of t = Some (shrd_flags (fst (cpu_shrd32 d32 x32 c s)) (bit (word_rotr n (word_cat x32 d32 :: u64)) 63))
       \<and> lazy_frame s t))
   \<and> (n = 0 \<longrightarrow> cpu_shld16 d16 x16 c s = (d16, s) \<and> cpu_shrd16 d16 x16 c s = (d16, s)
       \<and> cpu_shld32 d32 x32 c s = (d32, s) \<and> cpu_shrd32 d32 x32 c s = (d32, s))"
proof (intro conjI impI)
  assume "0 < n"
  note n = assms this
  show "\<exists>t. cpu_shld16 d16 x16 c s = (ucast (drop_bit 16 (word_rotl n (word_cat d16 x16 :: u32))), t)
       \<and> flags_of t = Some (shld_flags (fst (cpu_shld16 d16 x16 c s)) (bit (word_rotl n (word_cat d16 x16 :: u32)) 0))
       \<and> lazy_frame s t" by (rule shld16_spec [OF n])
  show "\<exists>t. cpu_shrd16 d16 x16 c s = (ucast (word_rotr n (word_cat x16 d16 :: u32)), t)
       \<and> flags_of t = (if n = 16 then None
            else Some (shrd_flags (fst (cpu_shrd16 d16 x16 c s)) (bit (word_rotr n (word_cat x16 d16 :: u32)) 31)))
       \<and> lazy_frame s t" by (rule shrd16_spec [OF n])
  show "\<exists>t. cpu_shld32 d32 x32 c s = (ucast (drop_bit 32 (word_rotl n (word_cat d32 x32 :: u64))), t)
       \<and> flags_of t = Some (shld_flags (fst (cpu_shld32 d32 x32 c s)) (bit (word_rotl n (word_cat d32 x32 :: u64)) 0))
       \<and> lazy_frame s t" by (rule shld32_spec [OF n])
  show "\<exists>t. cpu_shrd32 d32 x32 c s = (ucast (word_rotr n (word_cat x32 d32 :: u64)), t)
       \<and> flags_of t = Some (shrd_flags (fst (cpu_shrd32 d32 x32 c s)) (bit (word_rotr n (word_cat x32 d32 :: u64)) 63))
       \<and> lazy_frame s t" by (rule shrd32_spec [OF n])
qed (use assms in \<open>simp_all add: cpu_shld16_def cpu_shrd16_def cpu_shld32_def cpu_shrd32_def Let_def\<close>)

theorem double_shift_correct_witness:
  "(\<exists>t. cpu_shrd16 0x8001 0x0003 16 zero_cpu = (3, t) \<and> flags_of t = None) \<and> cpu_shld32 5 7 32 zero_cpu = (5, zero_cpu)"
proof -
  have "(ucast (word_rotr 16 (word_cat (3::u16) (0x8001::u16) :: u32)) :: u16) = 3"
    by code_simp
  then show ?thesis
    using double_shift_correct [of 16 16 "0x8001" 3 zero_cpu 0 0] double_shift_correct [of 0 32 0 0 zero_cpu 5 7] by auto
qed

end
