(* ===== verification/Alu_Bit.thy ===== *)
theory Alu_Bit
  imports Shift_Laws Bit_Scan
begin

text \<open>
  Model of src/src/cpu/bit.cpp: bit test (and set, complement, reset) and the bit scans.
\<close>

definition bt16 :: "u16 \<Rightarrow> u32 \<Rightarrow> 'z cpu_flags_scheme \<Rightarrow> 'z cpu_flags_scheme option" where
  "bt16 a shift s = cpu_set_cf (drop_bit (unat (shift AND 15)) (ucast a) AND 1) s"

definition bt32 :: "u32 \<Rightarrow> u32 \<Rightarrow> 'z cpu_flags_scheme \<Rightarrow> 'z cpu_flags_scheme option" where
  "bt32 a shift s = cpu_set_cf (drop_bit (unat (shift AND 31)) a AND 1) s"

definition bts16 :: "u16 \<Rightarrow> u32 \<Rightarrow> 'z cpu_flags_scheme \<Rightarrow> (u16 \<times> 'z cpu_flags_scheme) option" where
  "bts16 a shift s = do {
     let shift = unat (shift AND 15);
     s \<leftarrow> cpu_set_cf (drop_bit shift (ucast a) AND 1) s;
     Some (ucast (ucast a OR push_bit shift 1 :: u32), s)
   }"

definition bts32 :: "u32 \<Rightarrow> u32 \<Rightarrow> 'z cpu_flags_scheme \<Rightarrow> (u32 \<times> 'z cpu_flags_scheme) option" where
  "bts32 a shift s = do {
     let shift = unat (shift AND 31);
     s \<leftarrow> cpu_set_cf (drop_bit shift a AND 1) s;
     Some (a OR push_bit shift 1, s)
   }"

definition btc16 :: "u16 \<Rightarrow> u32 \<Rightarrow> 'z cpu_flags_scheme \<Rightarrow> (u16 \<times> 'z cpu_flags_scheme) option" where
  "btc16 a shift s = do {
     let shift = unat (shift AND 15);
     s \<leftarrow> cpu_set_cf (drop_bit shift (ucast a) AND 1) s;
     Some (ucast (ucast a XOR push_bit shift 1 :: u32), s)
   }"

definition btc32 :: "u32 \<Rightarrow> u32 \<Rightarrow> 'z cpu_flags_scheme \<Rightarrow> (u32 \<times> 'z cpu_flags_scheme) option" where
  "btc32 a shift s = do {
     let shift = unat (shift AND 31);
     s \<leftarrow> cpu_set_cf (drop_bit shift a AND 1) s;
     Some (a XOR push_bit shift 1, s)
   }"

definition btr16 :: "u16 \<Rightarrow> u32 \<Rightarrow> 'z cpu_flags_scheme \<Rightarrow> (u16 \<times> 'z cpu_flags_scheme) option" where
  "btr16 a shift s = do {
     let shift = unat (shift AND 15);
     s \<leftarrow> cpu_set_cf (drop_bit shift (ucast a) AND 1) s;
     Some (ucast (ucast a AND NOT (push_bit shift 1) :: u32), s)
   }"

definition btr32 :: "u32 \<Rightarrow> u32 \<Rightarrow> 'z cpu_flags_scheme \<Rightarrow> (u32 \<times> 'z cpu_flags_scheme) option" where
  "btr32 a shift s = do {
     let shift = unat (shift AND 31);
     s \<leftarrow> cpu_set_cf (drop_bit shift a AND 1) s;
     Some (a AND NOT (push_bit shift 1), s)
   }"

definition bsf16 :: "u16 \<Rightarrow> u16 \<Rightarrow> 'z cpu_flags_scheme \<Rightarrow> (u16 \<times> 'z cpu_flags_scheme) option" where
  "bsf16 src old s =
     (if src \<noteq> 0 then do {
        s \<leftarrow> cpu_set_zf 0 s;
        Some (of_nat (ctz32 (ucast src AND 0xFFFF)), s)
      } else do {
        s \<leftarrow> cpu_set_zf 1 s;
        Some (old, s)
      })"

definition bsf32 :: "u32 \<Rightarrow> u32 \<Rightarrow> 'z cpu_flags_scheme \<Rightarrow> u32 \<times> 'z cpu_flags_scheme" where
  "bsf32 src old s =
     (let s = s\<lparr>m_laux := op_code BIT\<rparr> in
      if src \<noteq> 0 then (of_nat (ctz32 src), s\<lparr>m_lr := 1\<rparr>) else (old, s\<lparr>m_lr := 0\<rparr>))"

definition bsr16 :: "u16 \<Rightarrow> u16 \<Rightarrow> 'z cpu_flags_scheme \<Rightarrow> (u16 \<times> 'z cpu_flags_scheme) option" where
  "bsr16 src old s =
     (if src \<noteq> 0 then do {
        s \<leftarrow> cpu_set_zf 0 s;
        Some (ucast ((of_nat (clz32 (ucast src AND 0xFFFF)) :: u32) XOR 31), s)
      } else do {
        s \<leftarrow> cpu_set_zf 1 s;
        Some (old, s)
      })"

definition bsr32 :: "u32 \<Rightarrow> u32 \<Rightarrow> 'z cpu_flags_scheme \<Rightarrow> (u32 \<times> 'z cpu_flags_scheme) option" where
  "bsr32 src old s =
     (if src \<noteq> 0 then do {
        s \<leftarrow> cpu_set_zf 0 s;
        Some (of_nat (clz32 src) XOR 31, s)
      } else do {
        s \<leftarrow> cpu_set_zf 1 s;
        Some (old, s)
      })"

section \<open>Single-bit updates\<close>

lemma bit_update16:
  fixes a :: u16
  assumes "k < 16"
  shows "(ucast (ucast a OR push_bit k 1 :: u32) :: u16) = set_bit k a"
    "(ucast (ucast a XOR push_bit k 1 :: u32) :: u16) = flip_bit k a"
    "(ucast (ucast a AND NOT (push_bit k 1) :: u32) :: u16) = unset_bit k a"
  by (rule bit_eqI, insert assms, auto simp: bit_simps)+

lemma bit_update32:
  fixes a :: u32
  shows "a OR push_bit k 1 = set_bit k a" "a XOR push_bit k 1 = flip_bit k a"
    "a AND NOT (push_bit k 1) = unset_bit k a"
  by (simp_all add: set_bit_eq_or flip_bit_eq_xor unset_bit_eq_and_not)

lemma set_cf_bind:
  assumes f: "flags_of s = Some f" and "a = of_bool x"
  shows "\<exists>t. Option.bind (cpu_set_cf a s) (\<lambda>s. Some (r, s)) = Some (r, t)
    \<and> flags_of t = Some (f\<lparr>fl_cf := x\<rparr>)"
  using set_cf.set_view [OF f, of x] assms(2) by (auto simp: bind_eq_Some_conv)

lemma set_zf_bind:
  assumes f: "flags_of s = Some f" and "a = of_bool x"
  shows "\<exists>t. Option.bind (cpu_set_zf a s) (\<lambda>s. Some (r, s)) = Some (r, t)
    \<and> flags_of t = Some (f\<lparr>fl_zf := x\<rparr>)"
  using set_zf.set_view [OF f, of x] assms(2) by (auto simp: bind_eq_Some_conv)

lemma bsf32_spec:
  "\<exists>r t. bsf32 y old s = (r, t) \<and> flags_of t = Some (logic_flags (of_bool (y \<noteq> 0) :: u32))
        \<and> (if y = 0 then r = old else bit y (unat r) \<and> (\<forall>i. i < unat r \<longrightarrow> \<not> bit y i))"
proof (cases "y = 0")
  case True
  then show ?thesis by (simp add: bsf32_def flags_BIT32)
next
  case False
  note c = ctz32_lowest [OF False]
  have "unat (of_nat (ctz32 y) :: u32) = ctz32 y" using c(1) by (intro unat_of_nat32) simp
  then show ?thesis using False c(2,3) by (simp add: bsf32_def flags_BIT32)
qed

lemma bsr32_spec:
  assumes f: "flags_of s = Some f"
  shows "\<exists>r t. bsr32 y old s = Some (r, t) \<and> flags_of t = Some (f\<lparr>fl_zf := y = 0\<rparr>)
        \<and> (if y = 0 then r = old else bit y (unat r) \<and> (\<forall>i. unat r < i \<longrightarrow> \<not> bit y i))"
proof (cases "y = 0")
  case True
  then show ?thesis using set_zf_bind [OF f, of 1 True old] by (simp add: bsr32_def)
next
  case False
  note c = clz32_highest [OF False]
  have u: "unat ((of_nat (clz32 y) :: u32) XOR 31) = 31 - clz32 y"
    unfolding xor_31 [OF c(1)] by (rule unat_of_nat32) simp
  obtain t where t: "bsr32 y old s = Some (of_nat (clz32 y) XOR 31, t)" "flags_of t = Some (f\<lparr>fl_zf := False\<rparr>)"
    using False set_zf_bind [OF f, of 0 False "of_nat (clz32 y) XOR 31 :: u32"] by (auto simp: bsr32_def)
  then show ?thesis
    using False c(2,3) u by (intro exI [of _ "of_nat (clz32 y) XOR 31"] exI [of _ t]) simp
qed

lemma zext16_nz: "x \<noteq> 0 \<Longrightarrow> (ucast (x::u16) :: u32) AND 0xFFFF \<noteq> 0"
  "bit ((ucast (x::u16) :: u32) AND 0xFFFF) i = bit x i"
  using zext16_inj [of x 0] by (simp_all add: low16_as_cast zext16_low bit_zext16)

lemma bsf16_spec:
  assumes f: "flags_of s = Some f"
  shows "\<exists>r t. bsf16 x old s = Some (r, t) \<and> flags_of t = Some (f\<lparr>fl_zf := x = 0\<rparr>)
        \<and> (if x = 0 then r = old else bit x (unat r) \<and> (\<forall>i. i < unat r \<longrightarrow> \<not> bit x i))"
proof (cases "x = 0")
  case True
  then show ?thesis using set_zf_bind [OF f, of 1 True old] by (simp add: bsf16_def)
next
  case False
  define n where "n = ctz32 (ucast x AND 0xFFFF)"
  have n: "n < 32" "bit x n" "i < n \<Longrightarrow> \<not> bit x i" for i
    using ctz32_lowest [OF zext16_nz(1) [OF False], folded n_def, unfolded zext16_nz(2)] by blast+
  have u: "unat (of_nat n :: u16) = n"
    using n(1) by (simp add: unat_of_nat take_bit_nat_eq_self)
  obtain t where t: "bsf16 x old s = Some (of_nat n, t)" "flags_of t = Some (f\<lparr>fl_zf := False\<rparr>)"
    using False set_zf_bind [OF f, of 0 False "of_nat n :: u16"] by (simp only: bsf16_def n_def [symmetric]) auto
  then show ?thesis
    using False n(2,3) u by (intro exI [of _ "of_nat n"] exI [of _ t]) simp
qed

lemma bsr16_spec:
  assumes f: "flags_of s = Some f"
  shows "\<exists>r t. bsr16 x old s = Some (r, t) \<and> flags_of t = Some (f\<lparr>fl_zf := x = 0\<rparr>)
        \<and> (if x = 0 then r = old else bit x (unat r) \<and> (\<forall>i. unat r < i \<longrightarrow> \<not> bit x i))"
proof (cases "x = 0")
  case True
  then show ?thesis using set_zf_bind [OF f, of 1 True old] by (simp add: bsr16_def)
next
  case False
  define n where "n = clz32 (ucast x AND 0xFFFF)"
  have n: "n < 32" "bit x (31 - n)" "31 - n < i \<Longrightarrow> \<not> bit x i" for i
    using clz32_highest [OF zext16_nz(1) [OF False], folded n_def, unfolded zext16_nz(2)] by blast+
  have "ucast ((of_nat n :: u32) XOR 31) = (of_nat (31 - n) :: u16)"
    unfolding xor_31 [OF n(1)] unsigned_of_nat by (subst take_bit_nat_eq_self) simp_all
  then have u: "unat (ucast ((of_nat n :: u32) XOR 31) :: u16) = 31 - n"
    by (simp add: unat_of_nat take_bit_nat_eq_self)
  obtain t where t: "bsr16 x old s = Some (ucast ((of_nat n :: u32) XOR 31), t)"
      "flags_of t = Some (f\<lparr>fl_zf := False\<rparr>)"
    using False set_zf_bind [OF f, of 0 False "ucast ((of_nat n :: u32) XOR 31) :: u16"]
    by (simp only: bsr16_def n_def [symmetric]) auto
  then show ?thesis
    using False n(2,3) u by (intro exI [of _ "ucast ((of_nat n :: u32) XOR 31)"] exI [of _ t]) simp
qed

section \<open>Properties\<close>

text \<open>C34: The bit-test instructions copy the addressed bit (position modulo the
  width) to the carry, keep the other five flags, and set, complement or clear exactly
  that bit of the operand.\<close>
theorem bit_test_correct:
  assumes f: "flags_of s = Some f" and k: "k = unat (n AND 15)" and m: "m = unat (n AND 31)"
  shows "(\<exists>t. bt16 a n s = Some t \<and> flags_of t = Some (f\<lparr>fl_cf := bit a k\<rparr>))
   \<and> (\<exists>t. bt32 b n s = Some t \<and> flags_of t = Some (f\<lparr>fl_cf := bit b m\<rparr>))
   \<and> (\<exists>t. bts16 a n s = Some (set_bit k a, t) \<and> flags_of t = Some (f\<lparr>fl_cf := bit a k\<rparr>))
   \<and> (\<exists>t. bts32 b n s = Some (set_bit m b, t) \<and> flags_of t = Some (f\<lparr>fl_cf := bit b m\<rparr>))
   \<and> (\<exists>t. btc16 a n s = Some (flip_bit k a, t) \<and> flags_of t = Some (f\<lparr>fl_cf := bit a k\<rparr>))
   \<and> (\<exists>t. btc32 b n s = Some (flip_bit m b, t) \<and> flags_of t = Some (f\<lparr>fl_cf := bit b m\<rparr>))
   \<and> (\<exists>t. btr16 a n s = Some (unset_bit k a, t) \<and> flags_of t = Some (f\<lparr>fl_cf := bit a k\<rparr>))
   \<and> (\<exists>t. btr32 b n s = Some (unset_bit m b, t) \<and> flags_of t = Some (f\<lparr>fl_cf := bit b m\<rparr>))"
proof -
  have lt: "k < 16" using mod_less_divisor [of 16 "unat n"] by (simp add: k unat_and_mask)
  have a: "drop_bit k (ucast a :: u32) AND 1 = of_bool (bit a k)" "drop_bit m b AND 1 = of_bool (bit b m)"
    by (simp_all add: bit_drop_bit_eq bit_zext16)
  show ?thesis
    unfolding bt16_def bt32_def bts16_def bts32_def btc16_def btc32_def btr16_def btr32_def Let_def
      k [symmetric] m [symmetric] a bit_update16 [OF lt]
    unfolding bit_update32
    by (intro conjI set_cf_bind [OF f refl] set_cf.set_view [OF f])
qed

theorem bit_test_correct_witness:
  "\<exists>t. bts16 4 0x11 carry_cpu = Some (6, t) \<and> cpu_get_cf t = Some 0"
proof -
  have s: "set_bit (Suc 0) (4::u16) = 6" by code_simp
  obtain t where "bts16 4 0x11 carry_cpu = Some (6, t)" and t: "flags_of t = Some (\<lparr>fl_cf = False, fl_pf = False,
      fl_af = False, fl_zf = False, fl_sf = False, fl_of = False\<rparr>)"
    using bit_test_correct [OF carry_cpu_flags, of 1 "0x11" "0x11" 4, THEN conjunct2, THEN conjunct2,
        THEN conjunct1] by (auto simp: s)
  then show ?thesis using flags_of_SomeD(1) [OF t] by auto
qed

text \<open>C35: On a non-zero source BSF returns the position of its lowest and BSR of its
  highest set bit and clears the zero flag; on a zero source they set it and return the old
  destination. The 16-bit forms and \<open>bsr32\<close> keep the other flags, \<open>bsf32\<close> replaces them.\<close>
theorem bit_scan_correct:
  assumes f: "flags_of s = Some f"
  shows "(\<exists>r t. bsf16 x old16 s = Some (r, t) \<and> flags_of t = Some (f\<lparr>fl_zf := x = 0\<rparr>)
        \<and> (if x = 0 then r = old16 else bit x (unat r) \<and> (\<forall>i. i < unat r \<longrightarrow> \<not> bit x i)))
   \<and> (\<exists>r t. bsr16 x old16 s = Some (r, t) \<and> flags_of t = Some (f\<lparr>fl_zf := x = 0\<rparr>)
        \<and> (if x = 0 then r = old16 else bit x (unat r) \<and> (\<forall>i. unat r < i \<longrightarrow> \<not> bit x i)))
   \<and> (\<exists>r t. bsf32 y old32 s = (r, t) \<and> flags_of t = Some (logic_flags (of_bool (y \<noteq> 0) :: u32))
        \<and> (if y = 0 then r = old32 else bit y (unat r) \<and> (\<forall>i. i < unat r \<longrightarrow> \<not> bit y i)))
   \<and> (\<exists>r t. bsr32 y old32 s = Some (r, t) \<and> flags_of t = Some (f\<lparr>fl_zf := y = 0\<rparr>)
        \<and> (if y = 0 then r = old32 else bit y (unat r) \<and> (\<forall>i. unat r < i \<longrightarrow> \<not> bit y i)))"
  by (intro conjI bsf16_spec [OF f] bsr16_spec [OF f] bsf32_spec bsr32_spec [OF f])

theorem bit_scan_correct_witness:
  "\<exists>r t. bsr32 0x50 7 carry_cpu = Some (r, t) \<and> bit (0x50::u32) (unat r) \<and> cpu_get_cf t = Some 1"
proof -
  obtain r t where "bsr32 0x50 7 carry_cpu = Some (r, t)" "bit (0x50::u32) (unat r)"
    and t: "flags_of t = Some \<lparr>fl_cf = True, fl_pf = False, fl_af = False, fl_zf = False,
      fl_sf = False, fl_of = False\<rparr>"
    using bit_scan_correct [OF carry_cpu_flags, of 0 0 "0x50" 7, THEN conjunct2, THEN conjunct2, THEN conjunct2]
    by auto
  then show ?thesis using flags_of_SomeD(1) [OF t] by auto
qed

end
