(* ===== verification/Cpu_Regs.thy ===== *)
theory Cpu_Regs
  imports Alu_Laws
begin

text \<open>
  The general registers of class \<open>CPU\<close> (the union of \<open>m_reg32\<close>,
  \<open>m_reg16\<close> and \<open>m_reg8\<close> in src/src/cpu/cpu.h) and the value of a routine that may
  raise a guest exception. The three arrays of the union are three views of one store,
  little endian: half-word 0 and byte 0 of a register are its low ones.
\<close>

section \<open>The register union\<close>

record cpu_regs = cpu_flags +
  m_reg32 :: "nat \<Rightarrow> u32"

definition get_reg32 :: "nat \<Rightarrow> 'z cpu_regs_scheme \<Rightarrow> u32" where
  "get_reg32 i s = m_reg32 s i"

definition set_reg32 :: "nat \<Rightarrow> u32 \<Rightarrow> 'z cpu_regs_scheme \<Rightarrow> 'z cpu_regs_scheme" where
  "set_reg32 i v s = s\<lparr>m_reg32 := (m_reg32 s)(i := v)\<rparr>"

text \<open>Overwriting a half-word or a byte of a word at bit position \<open>k\<close>.\<close>

definition put16 :: "nat \<Rightarrow> u16 \<Rightarrow> u32 \<Rightarrow> u32" where
  "put16 k v x = (x AND NOT (push_bit k 0xFFFF)) OR push_bit k (ucast v)"

definition put8 :: "nat \<Rightarrow> u8 \<Rightarrow> u32 \<Rightarrow> u32" where
  "put8 k v x = (x AND NOT (push_bit k 0xFF)) OR push_bit k (ucast v)"

definition get_reg16 :: "nat \<Rightarrow> 'z cpu_regs_scheme \<Rightarrow> u16" where
  "get_reg16 i s = ucast (drop_bit (16 * (i mod 2)) (m_reg32 s (i div 2)))"

definition set_reg16 :: "nat \<Rightarrow> u16 \<Rightarrow> 'z cpu_regs_scheme \<Rightarrow> 'z cpu_regs_scheme" where
  "set_reg16 i v s =
     s\<lparr>m_reg32 := (m_reg32 s)(i div 2 := put16 (16 * (i mod 2)) v (m_reg32 s (i div 2)))\<rparr>"

definition get_reg8 :: "nat \<Rightarrow> 'z cpu_regs_scheme \<Rightarrow> u8" where
  "get_reg8 i s = ucast (drop_bit (8 * (i mod 4)) (m_reg32 s (i div 4)))"

definition set_reg8 :: "nat \<Rightarrow> u8 \<Rightarrow> 'z cpu_regs_scheme \<Rightarrow> 'z cpu_regs_scheme" where
  "set_reg8 i v s =
     s\<lparr>m_reg32 := (m_reg32 s)(i div 4 := put8 (8 * (i mod 4)) v (m_reg32 s (i div 4)))\<rparr>"

text \<open>
  What a view promises: a cell reads back what was written to it, and no write to one cell
  shows in another. The clients write two cells of a view (quotient and remainder, the
  two halves of a product).
\<close>

locale reg_view =
  fixes get :: "nat \<Rightarrow> 's \<Rightarrow> 'v" and set :: "nat \<Rightarrow> 'v \<Rightarrow> 's \<Rightarrow> 's"
  assumes get_set: "get i (set j v s) = (if i = j then v else get i s)"
begin

lemma get_set_same: "get i (set i v s) = v"
  by (simp add: get_set)

lemma get_set_pair:
  assumes "i \<noteq> j"
  shows "get i (set j w (set i v s)) = v" "get j (set j w (set i v s)) = w"
    "k \<noteq> i \<Longrightarrow> k \<noteq> j \<Longrightarrow> get k (set j w (set i v s)) = get k s"
  using assms by (simp_all add: get_set)

end

lemma bit_put16: "k < 32 \<Longrightarrow> bit (put16 k v x) n \<longleftrightarrow>
    n < 32 \<and> (if k \<le> n \<and> n < k + 16 then bit v (n - k) else bit x n)"
proof -
  have m: "(0xFFFF :: u32) = mask 16" by (simp add: mask_eq_exp_minus_1)
  have "bit v (n - k) \<Longrightarrow> n - k < 16" using bit_imp_le_length [of v "n - k"] by simp
  moreover have "bit x n \<Longrightarrow> n < 32" using bit_imp_le_length [of x n] by simp
  ultimately show "k < 32 \<Longrightarrow> ?thesis"
    unfolding put16_def m
    by (auto simp: bit_or_iff bit_and_iff bit_not_iff bit_push_bit_iff bit_mask_iff bit_zext16)
qed

lemma bit_put8: "k < 32 \<Longrightarrow> bit (put8 k v x) n \<longleftrightarrow>
    n < 32 \<and> (if k \<le> n \<and> n < k + 8 then bit v (n - k) else bit x n)"
proof -
  have m: "(0xFF :: u32) = mask 8" by (simp add: mask_eq_exp_minus_1)
  have "bit v (n - k) \<Longrightarrow> n - k < 8" using bit_imp_le_length [of v "n - k"] by simp
  moreover have "bit x n \<Longrightarrow> n < 32" using bit_imp_le_length [of x n] by simp
  ultimately show "k < 32 \<Longrightarrow> ?thesis"
    unfolding put8_def m
    by (auto simp: bit_or_iff bit_and_iff bit_not_iff bit_push_bit_iff bit_mask_iff bit_zext8)
qed

lemma get_set_reg16: "get_reg16 i (set_reg16 j v s) = (if i = j then v else get_reg16 i s)"
proof -
  have k: "16 * (j mod 2) < 32" by (cases "even j") (auto simp: odd_iff_mod_2_eq_one)
  have e: "i div 2 = j div 2 \<Longrightarrow> i \<noteq> j \<Longrightarrow> i mod 2 \<noteq> j mod 2"
    by (metis div_mult_mod_eq)
  have m: "i mod 2 < 2" "j mod 2 < 2" by auto
  show ?thesis
  proof (rule bit_eqI)
    fix n assume "possible_bit TYPE(16 word) n"
    then have n: "n < 16" by simp
    show "bit (get_reg16 i (set_reg16 j v s)) n = bit (if i = j then v else get_reg16 i s) n"
    proof (cases "i div 2 = j div 2")
      case True
      then show ?thesis
        using n e m k by (auto simp: get_reg16_def set_reg16_def bit_low16 bit_drop_bit_eq
            bit_put16 [OF k])
    next
      case False
      then show ?thesis by (auto simp: get_reg16_def set_reg16_def)
    qed
  qed
qed

lemma get_set_reg8: "get_reg8 i (set_reg8 j v s) = (if i = j then v else get_reg8 i s)"
proof -
  have m: "i mod 4 < 4" "j mod 4 < 4" by auto
  then have k: "8 * (j mod 4) < 32" by simp
  have e: "i div 4 = j div 4 \<Longrightarrow> i \<noteq> j \<Longrightarrow> i mod 4 \<noteq> j mod 4"
    by (metis div_mult_mod_eq)
  show ?thesis
  proof (rule bit_eqI)
    fix n assume "possible_bit TYPE(8 word) n"
    then have n: "n < 8" by simp
    show "bit (get_reg8 i (set_reg8 j v s)) n = bit (if i = j then v else get_reg8 i s) n"
    proof (cases "i div 4 = j div 4")
      case True
      then show ?thesis
        using n e m k by (auto simp: get_reg8_def set_reg8_def bit_low8 bit_drop_bit_eq
            bit_put8 [OF k])
    next
      case False
      then show ?thesis by (auto simp: get_reg8_def set_reg8_def)
    qed
  qed
qed

interpretation reg8: reg_view get_reg8 set_reg8
  by unfold_locales (rule get_set_reg8)

interpretation reg16: reg_view get_reg16 set_reg16
  by unfold_locales (rule get_set_reg16)

interpretation reg32: reg_view get_reg32 set_reg32
  by unfold_locales (simp add: get_reg32_def set_reg32_def)

text \<open>The byte views of one half-word, and the half-words of one word.\<close>

lemma reg16_bytes: "get_reg16 0 s = word_cat (get_reg8 1 s) (get_reg8 0 s)"
  by (rule bit_eqI) (auto simp: get_reg16_def get_reg8_def bit_word_cat_iff bit_simps)

lemma reg32_halves: "get_reg32 0 s = word_cat (get_reg16 1 s) (get_reg16 0 s)"
  by (rule bit_eqI) (auto simp: get_reg32_def get_reg16_def bit_word_cat_iff bit_simps)

section \<open>Guest exceptions\<close>

text \<open>
  A routine that may raise a guest exception either runs to its end, or calls
  \<open>cpu_exception(vector, code)\<close> on the state it has reached and returns 1.
\<close>

datatype 's exec = Done 's | Raise u32 u32 's

end
