(* ===== verification/Alu_MulDiv.thy ===== *)
theory Alu_MulDiv
  imports Cpu_Regs "HOL-Library.Signed_Division"
begin

text \<open>
  Model of multiplication, division and compare-exchange in src/src/cpu/arith.cpp.
  The accumulator is register 0 of each view, its extension AH (byte 1), DX (half-word 4)
  or EDX (word 2). \<open>None\<close> is \<open>util_abort()\<close> (a sub-operation below 4) or a division
  whose quotient the host type cannot hold (the processor of the host traps).
\<close>

section \<open>The routines\<close>

definition cpu_muldiv8 :: "u32 \<Rightarrow> u32 \<Rightarrow> 'z cpu_regs_scheme \<Rightarrow> 'z cpu_regs_scheme exec option" where
  "cpu_muldiv8 op src s =
     (let k = op AND 7 in
      if k < 4 then None
      else if k = 4 then
        let result = src * ucast (get_reg8 0 s);
            s = s\<lparr>m_lop1 := 0, m_lop2 := drop_bit 8 result\<rparr>;
            s = s\<lparr>m_lr := scast (ucast result :: u8), m_laux := op_code MUL\<rparr>
        in Some (Done (set_reg16 0 (ucast result) s))
      else if k = 5 then
        let result = scast (ucast src :: u8) * (scast (get_reg8 0 s) :: u32);
            low = ucast result :: u8; high = ucast (drop_bit 8 result) :: u8;
            s = s\<lparr>m_lop1 := signed_drop_bit 7 (scast low), m_lop2 := scast high\<rparr>;
            s = s\<lparr>m_lr := scast (ucast result :: u8), m_laux := op_code MUL\<rparr>
        in Some (Done (set_reg16 0 (ucast result) s))
      else if k = 6 then
        if src = 0 then Some (Raise 0 0 s)
        else
          let result = ucast (get_reg16 0 s) div src in
          if 0xFF < result then Some (Raise 0 0 s)
          else
            let result_mod = ucast (get_reg16 0 s) mod src
            in Some (Done (set_reg8 1 (ucast result_mod) (set_reg8 0 (ucast result) s)))
      else
        if src = 0 then Some (Raise 0 0 s)
        else if (ucast src :: u8) = 0 then None
        else
          let a = sint (get_reg16 0 s); b = sint (ucast src :: u8);
              result = word_of_int (a sdiv b) :: u32;
              temp = sint (ucast result :: u16)
          in if 0x7F < temp \<or> temp < - 0x80 then Some (Raise 0 0 s)
             else
               let result_mod = word_of_int (a smod b) :: u32
               in Some (Done (set_reg8 1 (ucast result_mod) (set_reg8 0 (ucast result) s))))"

definition cpu_muldiv16 :: "u32 \<Rightarrow> u32 \<Rightarrow> 'z cpu_regs_scheme \<Rightarrow> 'z cpu_regs_scheme exec option" where
  "cpu_muldiv16 op src s =
     (let k = op AND 7;
          finish = (\<lambda>result s.
            let s = s\<lparr>m_lr := scast (ucast result :: u16), m_laux := op_code MUL\<rparr>
            in Some (Done (set_reg16 4 (ucast (drop_bit 16 result)) (set_reg16 0 (ucast result) s))));
          original = push_bit 16 (ucast (get_reg16 4 s)) OR ucast (get_reg16 0 s) :: u32
      in
      if k < 4 then None
      else if k = 4 then
        let result = src * ucast (get_reg16 0 s)
        in finish result (s\<lparr>m_lop1 := 0, m_lop2 := drop_bit 16 result\<rparr>)
      else if k = 5 then
        let result = scast (ucast src :: u16) * (scast (get_reg16 0 s) :: u32);
            low = ucast result :: u16; high = ucast (drop_bit 16 result) :: u16
        in finish result (s\<lparr>m_lop1 := signed_drop_bit 15 (scast low), m_lop2 := scast high\<rparr>)
      else if k = 6 then
        if src = 0 then Some (Raise 0 0 s)
        else
          let result = original div src in
          if 0xFFFF < result then Some (Raise 0 0 s)
          else
            let result_mod = original mod src
            in Some (Done (set_reg16 4 (ucast result_mod) (set_reg16 0 (ucast result) s)))
      else
        if src = 0 then Some (Raise 0 0 s)
        else
          let a = sint original; b = sint (ucast src :: u16) in
          if b = 0 \<or> (a = - (2 ^ 31) \<and> b = - 1) then None
          else
            let result = word_of_int (a sdiv b) :: u32; temp = sint result in
            if 0x7FFF < temp \<or> temp < - 0x8000 then Some (Raise 0 0 s)
            else
              let result_mod = word_of_int (a smod b) :: u32
              in Some (Done (set_reg16 4 (ucast result_mod) (set_reg16 0 (ucast result) s))))"

definition cpu_muldiv32 :: "u32 \<Rightarrow> u32 \<Rightarrow> 'z cpu_regs_scheme \<Rightarrow> 'z cpu_regs_scheme exec option" where
  "cpu_muldiv32 op src s =
     (let k = op AND 7;
          finish = (\<lambda>result s.
            let s = s\<lparr>m_lr := ucast (result :: u64), m_laux := op_code MUL\<rparr>
            in Some (Done (set_reg32 2 (ucast (drop_bit 32 result)) (set_reg32 0 (ucast result) s))));
          original = push_bit 32 (ucast (get_reg32 2 s)) OR ucast (get_reg32 0 s) :: u64
      in
      if k < 4 then None
      else if k = 4 then
        let result = ucast src * ucast (get_reg32 0 s) :: u64
        in finish result (s\<lparr>m_lop1 := 0, m_lop2 := ucast (drop_bit 32 result)\<rparr>)
      else if k = 5 then
        let result = scast src * (scast (get_reg32 0 s) :: u64);
            low = ucast result :: u32; high = ucast (drop_bit 32 result) :: u32
        in finish result (s\<lparr>m_lop1 := signed_drop_bit 31 low, m_lop2 := high\<rparr>)
      else if k = 6 then
        if src = 0 then Some (Raise 0 0 s)
        else
          let result = original div ucast src in
          if 0xFFFFFFFF < result then Some (Raise 0 0 s)
          else
            let result_mod = original mod ucast src
            in Some (Done (set_reg32 2 (ucast result_mod) (set_reg32 0 (ucast result) s)))
      else
        if src = 0 then Some (Raise 0 0 s)
        else
          let a = sint original; b = sint src in
          if a = - (2 ^ 63) \<and> b = - 1 then None
          else
            let result = word_of_int (a sdiv b) :: u64; temp = sint result in
            if 0x7FFFFFFF < temp \<or> temp < - 0x80000000 then Some (Raise 0 0 s)
            else
              let result_mod = word_of_int (a smod b) :: u64
              in Some (Done (set_reg32 2 (ucast result_mod) (set_reg32 0 (ucast result) s))))"

definition cpu_imul8 :: "u8 \<Rightarrow> u8 \<Rightarrow> 'z cpu_flags_scheme \<Rightarrow> u8 \<times> 'z cpu_flags_scheme" where
  "cpu_imul8 op1 op2 s =
     (let result = scast op1 * scast op2 :: u16;
          high = ucast (drop_bit 8 result) :: u8; low = ucast result :: u8
      in (ucast result, s\<lparr>m_laux := op_code MUL, m_lop1 := signed_drop_bit 7 (scast low),
                         m_lop2 := scast high, m_lr := scast low\<rparr>))"

definition cpu_imul16 :: "u16 \<Rightarrow> u16 \<Rightarrow> 'z cpu_flags_scheme \<Rightarrow> u16 \<times> 'z cpu_flags_scheme" where
  "cpu_imul16 op1 op2 s =
     (let result = scast op1 * scast op2 :: u32;
          high = ucast (drop_bit 16 result) :: u16; low = ucast result :: u16
      in (ucast result, s\<lparr>m_laux := op_code MUL, m_lop1 := signed_drop_bit 15 (scast low),
                         m_lop2 := scast high, m_lr := scast low\<rparr>))"

definition cpu_imul32 :: "u32 \<Rightarrow> u32 \<Rightarrow> 'z cpu_flags_scheme \<Rightarrow> u32 \<times> 'z cpu_flags_scheme" where
  "cpu_imul32 op1 op2 s =
     (let result = scast op1 * scast op2 :: u64;
          high = ucast (drop_bit 32 result) :: u32; low = ucast result :: u32
      in (ucast result, s\<lparr>m_laux := op_code MUL, m_lop1 := signed_drop_bit 31 low,
                         m_lop2 := high, m_lr := low\<rparr>))"

text \<open>Compare and exchange: the new value of the destination and the new state.\<close>

definition cpu_cmpxchg8 :: "u8 \<Rightarrow> u8 \<Rightarrow> 'z cpu_regs_scheme \<Rightarrow> u8 \<times> 'z cpu_regs_scheme" where
  "cpu_cmpxchg8 op1 op2 s =
     (let s = s\<lparr>m_lop2 := ucast op1\<rparr>;
          s = s\<lparr>m_lr := scast (ucast (ucast (get_reg8 0 s) - m_lop2 s) :: u8), m_laux := op_code SUB8\<rparr>
      in if m_lr s = 0 then (op2, s) else (op1, set_reg8 0 (ucast (m_lop2 s)) s))"

definition cpu_cmpxchg16 :: "u16 \<Rightarrow> u16 \<Rightarrow> 'z cpu_regs_scheme \<Rightarrow> u16 \<times> 'z cpu_regs_scheme" where
  "cpu_cmpxchg16 op1 op2 s =
     (let s = s\<lparr>m_lop2 := ucast op1\<rparr>;
          s = s\<lparr>m_lr := scast (ucast (ucast (get_reg16 0 s) - m_lop2 s) :: u16), m_laux := op_code SUB16\<rparr>
      in if m_lr s = 0 then (op2, s) else (op1, set_reg16 0 (ucast (m_lop2 s)) s))"

definition cpu_cmpxchg32 :: "u32 \<Rightarrow> u32 \<Rightarrow> 'z cpu_regs_scheme \<Rightarrow> u32 \<times> 'z cpu_regs_scheme" where
  "cpu_cmpxchg32 op1 op2 s =
     (let s = s\<lparr>m_lop2 := op1\<rparr>;
          s = s\<lparr>m_lr := get_reg32 0 s - m_lop2 s, m_laux := op_code SUB32\<rparr>
      in if m_lr s = 0 then (op2, s) else (op1, set_reg32 0 (m_lop2 s) s))"

end
