(* ===== verification/Alu_MulDiv_Laws.thy ===== *)
theory Alu_MulDiv_Laws
  imports Alu_MulDiv
begin

text \<open>
  Multiplication and division of Alu_MulDiv against integer arithmetic, and the
  compare-exchange routines against their atomic specification.
\<close>

section \<open>Widening products\<close>

lemma uint_up:
  fixes x :: "'w::len word"
  assumes "LENGTH('w) \<le> LENGTH('v::len)"
  shows "uint (ucast x :: 'v word) = uint x"
proof -
  have "(2::int) ^ LENGTH('w) \<le> 2 ^ LENGTH('v)" using assms by (intro power_increasing) auto
  then have "uint x < 2 ^ LENGTH('v)" using uint_lt2p [of x] by linarith
  then show ?thesis by (simp add: unsigned_ucast_eq take_bit_int_eq_self)
qed

lemma sint_up:
  fixes x :: "'w::len word"
  assumes "LENGTH('w) \<le> LENGTH('v::len)"
  shows "sint (scast x :: 'v word) = sint x"
proof -
  obtain m where m: "LENGTH('w) = Suc m" by (rule len_Suc)
  obtain n where n: "LENGTH('v) = Suc n" by (rule len_Suc)
  have "(2::int) ^ m \<le> 2 ^ n" using assms m n by (intro power_increasing) auto
  moreover have "- (2 ^ m) \<le> sint x" "sint x < 2 ^ m"
    using sint_greater_eq [of x] sint_less [of x] by (simp_all add: m)
  ultimately have "- (2 ^ n) \<le> sint x" "sint x < 2 ^ n" by linarith+
  then show ?thesis by (simp add: signed_scast_eq n signed_take_bit_int_eq_self)
qed

lemma uint_prod_wide:
  fixes x y :: "'w::len word"
  assumes "2 * LENGTH('w) \<le> LENGTH('v::len)"
  shows "uint (ucast x * ucast y :: 'v word) = uint x * uint y"
proof -
  have b: "uint x < 2 ^ LENGTH('w)" "uint y < 2 ^ LENGTH('w)" by simp_all
  have "LENGTH('w) \<le> LENGTH('v)" using assms by simp
  note u = uint_up [OF this, of x] uint_up [OF this, of y]
  have "uint x * uint y < 2 ^ LENGTH('w) * 2 ^ LENGTH('w)"
    using b by (intro mult_strict_mono') auto
  also have "\<dots> \<le> 2 ^ LENGTH('v)"
    using assms by (simp only: power_add [symmetric] mult_2 [symmetric]) (intro power_increasing, auto)
  finally show ?thesis
    by (simp add: uint_word_ariths u)
qed

lemma sint_prod_wide:
  fixes x y :: "'w::len word"
  assumes "2 * LENGTH('w) \<le> LENGTH('v::len)"
  shows "sint (scast x * scast y :: 'v word) = sint x * sint y"
proof -
  obtain m where m: "LENGTH('w) = Suc m" by (rule len_Suc)
  obtain n where n: "LENGTH('v) = Suc n" by (rule len_Suc)
  have mn: "2 * m + 1 \<le> n" using assms m n by simp
  define h :: int where "h = 2 ^ m"
  have b: "\<bar>sint x\<bar> \<le> h" "\<bar>sint y\<bar> \<le> h"
    using sint_greater_eq [of x] sint_less [of x] sint_greater_eq [of y] sint_less [of y]
    by (auto simp: m h_def)
  have "\<bar>sint x * sint y\<bar> \<le> h * h"
    unfolding abs_mult using b by (intro mult_mono) auto
  also have "h * h = 2 ^ (2 * m)" by (simp add: h_def power_add [symmetric] mult_2)
  also have "\<dots> < (2::int) ^ n" using mn by (intro power_strict_increasing) auto
  finally have p: "- (2 ^ n) \<le> sint x * sint y" "sint x * sint y < 2 ^ n" by auto
  have "LENGTH('w) \<le> LENGTH('v)" using assms by simp
  note s = sint_up [OF this, of x] sint_up [OF this, of y]
  show ?thesis
    using p by (simp add: sint_word_ariths s n signed_take_bit_int_eq_self)
qed


text \<open>When the upper half of a product is only the sign of the lower half.\<close>

lemma sign_fill:
  fixes l :: "'w::len word" and r :: "'v::len word"
  assumes "LENGTH('w) \<le> LENGTH('v)" "l = ucast r"
  shows "r = scast l \<longleftrightarrow> - (2 ^ (LENGTH('w) - 1)) \<le> sint r \<and> sint r < 2 ^ (LENGTH('w) - 1)"
proof -
  obtain m where m: "LENGTH('w) = Suc m" by (rule len_Suc)
  obtain n where n: "LENGTH('v) = Suc n" by (rule len_Suc)
  have "sint l = signed_take_bit m (sint r)"
  proof -
    have "m \<le> n" using assms(1) m n by simp
    then have "signed_take_bit m (sint r) = signed_take_bit m (uint r)"
      by (simp add: sint_uint n signed_take_bit_signed_take_bit min_def)
    moreover have "uint l = take_bit (Suc m) (uint r)"
      by (simp add: assms(2) unsigned_ucast_eq m)
    ultimately show ?thesis
      by (simp add: sint_uint [of l] m signed_take_bit_take_bit)
  qed
  moreover have "r = scast l \<longleftrightarrow> sint r = sint l"
    using sint_up [OF assms(1), of l] by (metis signed_word_eqI)
  moreover have "sint r = signed_take_bit m (sint r) \<longleftrightarrow> - (2 ^ m) \<le> sint r \<and> sint r < 2 ^ m"
    by (metis signed_take_bit_int_eq_self_iff)
  ultimately show ?thesis by (simp add: m)
qed


lemma bit_sar: "i < 32 \<Longrightarrow> bit (signed_drop_bit n y) i = bit y (min (n + i) 31)" for y :: u32
  by (auto simp: bit_signed_drop_bit_iff min_def not_le dest: bit_imp_le_length)

lemma high_is_sign8: "(signed_drop_bit 7 (scast (ucast r :: u8)) :: u32) = scast (ucast (drop_bit 8 r) :: u8) \<longleftrightarrow>
    - (2 ^ 7) \<le> sint r \<and> sint r < 2 ^ 7" for r :: u16
proof -
  have "(signed_drop_bit 7 (scast (ucast r :: u8)) :: u32) = scast (ucast (drop_bit 8 r) :: u8) \<longleftrightarrow> (\<forall>i<8. bit r (i + 8) = bit r 7)" (is "?l \<longleftrightarrow> ?b")
  proof
    assume l: ?l
    show ?b
    proof (intro allI impI)
      fix i :: nat assume i: "i < 8"
      show "bit r (i + 8) = bit r 7"
      proof -
        have "min (min (7 + i) 31) 7 = 7" "min i 7 = i" using i by auto
        then show ?thesis
          using arg_cong [OF l, of "\<lambda>x. bit x i"] i
          by (simp add: bit_sext8 bit_sar bit_unsigned_iff bit_drop_bit_eq add.commute)
      qed
    qed
  next
    assume b: ?b
    show ?l
    proof (rule bit_eqI)
      fix i assume "possible_bit TYPE(32 word) i"
      then have i: "i < 32" by simp
      have "min i 7 < 8" by (simp add: min_def)
      from b [rule_format, OF this] i
      have "bit r (min (min (7 + i) 31) 7) = bit r (min i 7 + 8)" by (simp add: min_absorb2)
      then show "bit (signed_drop_bit 7 (scast (ucast r :: u8)) :: u32) i
          = bit (scast (ucast (drop_bit 8 r) :: u8) :: u32) i"
        using i by (simp add: bit_sext8 bit_sar bit_unsigned_iff bit_drop_bit_eq add.commute)
          (auto simp: min_def)
    qed
  qed
  also have "\<dots> \<longleftrightarrow> r = scast (ucast r :: u8)" (is "_ \<longleftrightarrow> ?r")
  proof
    assume b: ?b
    show ?r
    proof (rule bit_eqI)
      fix i assume "possible_bit TYPE(16 word) i"
      then have i: "i < 16" by simp
      show "bit r i = bit (scast (ucast r :: u8) :: u16) i"
      proof (cases "i < 8")
        case True
        then show ?thesis by (cases "i = 7") (simp_all add: bit_simps min_def)
      next
        case False
        then obtain j where j: "i = j + 8" using le_Suc_ex by (metis add.commute not_less)
        then have "j < 8" using i by simp
        from b [rule_format, OF this] j show ?thesis using i by (simp add: bit_simps min_def)
      qed
    qed
  next
    assume r: ?r
    show ?b
    proof (intro allI impI)
      fix i :: nat assume "i < 8"
      then show "bit r (i + 8) = bit r 7"
        by (subst r) (simp add: bit_simps min_def)
    qed
  qed
  also have "\<dots> \<longleftrightarrow> - (2 ^ 7) \<le> sint r \<and> sint r < 2 ^ 7"
    using sign_fill [of "ucast r :: u8" r] by simp
  finally show ?thesis .
qed

lemma high_is_sign16: "(signed_drop_bit 15 (scast (ucast r :: u16)) :: u32) = scast (ucast (drop_bit 16 r) :: u16) \<longleftrightarrow>
    - (2 ^ 15) \<le> sint r \<and> sint r < 2 ^ 15" for r :: u32
proof -
  have "(signed_drop_bit 15 (scast (ucast r :: u16)) :: u32) = scast (ucast (drop_bit 16 r) :: u16) \<longleftrightarrow> (\<forall>i<16. bit r (i + 16) = bit r 15)" (is "?l \<longleftrightarrow> ?b")
  proof
    assume l: ?l
    show ?b
    proof (intro allI impI)
      fix i :: nat assume i: "i < 16"
      show "bit r (i + 16) = bit r 15"
      proof -
        have "min (min (15 + i) 31) 15 = 15" "min i 15 = i" using i by auto
        then show ?thesis
          using arg_cong [OF l, of "\<lambda>x. bit x i"] i
          by (simp add: bit_sext16 bit_sar bit_unsigned_iff bit_drop_bit_eq add.commute)
      qed
    qed
  next
    assume b: ?b
    show ?l
    proof (rule bit_eqI)
      fix i assume "possible_bit TYPE(32 word) i"
      then have i: "i < 32" by simp
      have "min i 15 < 16" by (simp add: min_def)
      from b [rule_format, OF this] i
      have "bit r (min (min (15 + i) 31) 15) = bit r (min i 15 + 16)" by (simp add: min_absorb2)
      then show "bit (signed_drop_bit 15 (scast (ucast r :: u16)) :: u32) i
          = bit (scast (ucast (drop_bit 16 r) :: u16) :: u32) i"
        using i by (simp add: bit_sext16 bit_sar bit_unsigned_iff bit_drop_bit_eq add.commute)
          (auto simp: min_def)
    qed
  qed
  also have "\<dots> \<longleftrightarrow> r = scast (ucast r :: u16)" (is "_ \<longleftrightarrow> ?r")
  proof
    assume b: ?b
    show ?r
    proof (rule bit_eqI)
      fix i assume "possible_bit TYPE(32 word) i"
      then have i: "i < 32" by simp
      show "bit r i = bit (scast (ucast r :: u16) :: u32) i"
      proof (cases "i < 16")
        case True
        then show ?thesis by (cases "i = 15") (simp_all add: bit_simps min_def)
      next
        case False
        then obtain j where j: "i = j + 16" using le_Suc_ex by (metis add.commute not_less)
        then have "j < 16" using i by simp
        from b [rule_format, OF this] j show ?thesis using i by (simp add: bit_simps min_def)
      qed
    qed
  next
    assume r: ?r
    show ?b
    proof (intro allI impI)
      fix i :: nat assume "i < 16"
      then show "bit r (i + 16) = bit r 15"
        by (subst r) (simp add: bit_simps min_def)
    qed
  qed
  also have "\<dots> \<longleftrightarrow> - (2 ^ 15) \<le> sint r \<and> sint r < 2 ^ 15"
    using sign_fill [of "ucast r :: u16" r] by simp
  finally show ?thesis .
qed

lemma high_is_sign32: "(signed_drop_bit 31 (ucast r :: u32)) = ucast (drop_bit 32 r) \<longleftrightarrow>
    - (2 ^ 31) \<le> sint r \<and> sint r < 2 ^ 31" for r :: u64
proof -
  have "(signed_drop_bit 31 (ucast r :: u32)) = ucast (drop_bit 32 r) \<longleftrightarrow> (\<forall>i<32. bit r (i + 32) = bit r 31)" (is "?l \<longleftrightarrow> ?b")
  proof
    assume l: ?l
    show ?b
    proof (intro allI impI)
      fix i :: nat assume i: "i < 32"
      show "bit r (i + 32) = bit r 31"
      proof -
        have "min (31 + i) 31 = (31::nat)" by auto
        then show ?thesis
          using arg_cong [OF l, of "\<lambda>x. bit x i"] i
          by (simp add: bit_sar bit_unsigned_iff bit_drop_bit_eq add.commute)
      qed
    qed
  next
    assume b: ?b
    show ?l
    proof (rule bit_eqI)
      fix i assume "possible_bit TYPE(32 word) i"
      then have i: "i < 32" by simp
      have "min i 31 < 32" by (simp add: min_def)
      from b [rule_format, OF this] i
      have "bit r (min (31 + i) 31) = bit r (i + 32)" by (simp add: min_absorb2 min_absorb1)
      then show "bit (signed_drop_bit 31 (ucast r :: u32)) i = bit (ucast (drop_bit 32 r) :: u32) i"
        using i by (simp add: bit_sar bit_unsigned_iff bit_drop_bit_eq add.commute)
    qed
  qed
  also have "\<dots> \<longleftrightarrow> r = scast (ucast r :: u32)" (is "_ \<longleftrightarrow> ?r")
  proof
    assume b: ?b
    show ?r
    proof (rule bit_eqI)
      fix i assume "possible_bit TYPE(64 word) i"
      then have i: "i < 64" by simp
      show "bit r i = bit (scast (ucast r :: u32) :: u64) i"
      proof (cases "i < 32")
        case True
        then show ?thesis by (cases "i = 31") (simp_all add: bit_simps min_def)
      next
        case False
        then obtain j where j: "i = j + 32" using le_Suc_ex by (metis add.commute not_less)
        then have "j < 32" using i by simp
        from b [rule_format, OF this] j show ?thesis using i by (simp add: bit_simps min_def)
      qed
    qed
  next
    assume r: ?r
    show ?b
    proof (intro allI impI)
      fix i :: nat assume "i < 32"
      then show "bit r (i + 32) = bit r 31"
        by (subst r) (simp add: bit_simps min_def)
    qed
  qed
  also have "\<dots> \<longleftrightarrow> - (2 ^ 31) \<le> sint r \<and> sint r < 2 ^ 31"
    using sign_fill [of "ucast r :: u32" r] by simp
  finally show ?thesis .
qed

section \<open>Multiplication\<close>

lemma flags_MUL:
  assumes "m_laux s = op_code MUL"
  shows "cpu_get_cf s = Some (of_bool (m_lop1 s \<noteq> m_lop2 s))"
    "cpu_get_of s = Some (of_bool (m_lop1 s \<noteq> m_lop2 s))"
  using result_flags(3) [OF assms] by (simp_all add: cpu_get_cf_def cpu_get_of_def Let_def)

lemma cat_parts:
  "word_cat (ucast (drop_bit 8 r) :: u8) (ucast r :: u8) = (r :: u16)"
  "word_cat (ucast (drop_bit 16 q) :: u16) (ucast q :: u16) = (q :: u32)"
  "word_cat (ucast (drop_bit 32 p) :: u32) (ucast p :: u32) = (p :: u64)"
  by (rule bit_eqI, auto simp: bit_word_cat_iff bit_simps)+

lemma upper_zero:
  "drop_bit n (x :: 'w::len word) = 0 \<longleftrightarrow> uint x < 2 ^ n"
proof -
  have "drop_bit n x = 0 \<longleftrightarrow> uint (drop_bit n x) = 0" by (simp add: word_uint_eq_iff)
  also have "\<dots> \<longleftrightarrow> uint x div 2 ^ n = 0" by (simp only: unsigned_drop_bit_eq) (simp add: drop_bit_eq_div take_bit_int_eq_self)
  finally show ?thesis by (auto simp: zdiv_eq_0_iff)
qed

lemma upper_half_zero: "(ucast (drop_bit 32 (r::u64)) :: u32) = 0 \<longleftrightarrow> drop_bit 32 r = 0"
proof -
  have "(ucast (ucast (drop_bit 32 r) :: u32) :: u64) = drop_bit 32 r"
    by (rule bit_eqI) (auto simp: bit_simps dest: bit_imp_le_length)
  then show ?thesis by (metis unsigned_0)
qed

lemma narrow16_prod:
  "(ucast (scast (x::u8) * scast (y::u8) :: u32) :: u16) = scast x * scast y"
  "(ucast (ucast (x::u8) * ucast (y::u8) :: u32) :: u16) = ucast x * ucast y"
proof -
  have c: "(ucast (scast (z::u8) :: u32) :: u16) = scast z" "(ucast (ucast (z::u8) :: u32) :: u16) = ucast z" for z
    by (rule bit_eqI, auto simp: bit_simps)+
  show "(ucast (scast (x::u8) * scast (y::u8) :: u32) :: u16) = scast x * scast y"
    "(ucast (ucast (x::u8) * ucast (y::u8) :: u32) :: u16) = ucast x * ucast y"
    by (simp_all add: ucast_down_mult c)
qed

lemma narrow16_parts:
  "(ucast (r::u32) :: u8) = ucast (ucast r :: u16)"
  "(ucast (drop_bit 8 (r::u32)) :: u8) = ucast (drop_bit 8 (ucast r :: u16))"
  by (rule bit_eqI, auto simp: bit_simps)+

lemma set_reg16_frame [simp]:
  "m_laux (set_reg16 i v s) = m_laux s" "m_lop1 (set_reg16 i v s) = m_lop1 s"
  "m_lop2 (set_reg16 i v s) = m_lop2 s"
  by (simp_all add: set_reg16_def)

lemma set_reg32_frame [simp]:
  "m_laux (set_reg32 i v s) = m_laux s" "m_lop1 (set_reg32 i v s) = m_lop1 s"
  "m_lop2 (set_reg32 i v s) = m_lop2 s"
  by (simp_all add: set_reg32_def)

lemma get_reg_flags_upd [simp]:
  "get_reg8 i (s\<lparr>m_lop1 := a\<rparr>) = get_reg8 i s" "get_reg8 i (s\<lparr>m_lop2 := a\<rparr>) = get_reg8 i s"
  "get_reg8 i (s\<lparr>m_lr := a\<rparr>) = get_reg8 i s" "get_reg8 i (s\<lparr>m_laux := a\<rparr>) = get_reg8 i s"
  "get_reg16 i (s\<lparr>m_lop1 := a\<rparr>) = get_reg16 i s" "get_reg16 i (s\<lparr>m_lop2 := a\<rparr>) = get_reg16 i s"
  "get_reg16 i (s\<lparr>m_lr := a\<rparr>) = get_reg16 i s" "get_reg16 i (s\<lparr>m_laux := a\<rparr>) = get_reg16 i s"
  "get_reg32 i (s\<lparr>m_lop1 := a\<rparr>) = get_reg32 i s" "get_reg32 i (s\<lparr>m_lop2 := a\<rparr>) = get_reg32 i s"
  "get_reg32 i (s\<lparr>m_lr := a\<rparr>) = get_reg32 i s" "get_reg32 i (s\<lparr>m_laux := a\<rparr>) = get_reg32 i s"
  by (simp_all add: get_reg8_def get_reg16_def get_reg32_def)

lemma muldiv8_mul:
  assumes "op AND 7 = 4"
  shows "\<exists>t. cpu_muldiv8 op (ucast (x::u8)) s = Some (Done t)
    \<and> uint (get_reg16 0 t) = uint x * uint (get_reg8 0 s)
    \<and> cpu_get_cf t = Some (of_bool (2 ^ 8 \<le> uint x * uint (get_reg8 0 s)))
    \<and> cpu_get_of t = cpu_get_cf t"
proof -
  define r where "r = ucast x * (ucast (get_reg8 0 s) :: u32)"
  have u: "uint r = uint x * uint (get_reg8 0 s)"
    by (simp add: r_def uint_prod_wide)
  have u16: "uint (ucast r :: u16) = uint x * uint (get_reg8 0 s)"
    by (simp only: r_def narrow16_prod) (simp add: uint_prod_wide)
  have ne: "0 \<noteq> drop_bit 8 r \<longleftrightarrow> 2 ^ 8 \<le> uint x * uint (get_reg8 0 s)"
    using upper_zero [of 8 r] u by auto
  define t where "t = set_reg16 0 (ucast r) (s\<lparr>m_lop1 := 0, m_lop2 := drop_bit 8 r,
    m_lr := scast (ucast r :: u8), m_laux := op_code MUL\<rparr>)"
  have "cpu_muldiv8 op (ucast x) s = Some (Done t)"
    by (simp add: cpu_muldiv8_def assms Let_def r_def t_def)
  moreover have "m_laux t = op_code MUL" by (simp add: t_def)
  ultimately show ?thesis
    using u16 ne by (intro exI [of _ t]) (simp add: flags_MUL, simp add: t_def reg16.get_set)
qed

lemma muldiv8_imul:
  assumes "op AND 7 = 5"
  shows "\<exists>t. cpu_muldiv8 op (ucast (x::u8)) s = Some (Done t)
    \<and> sint (get_reg16 0 t) = sint x * sint (get_reg8 0 s)
    \<and> cpu_get_cf t = Some (of_bool (\<not> (- (2 ^ 7) \<le> sint x * sint (get_reg8 0 s) \<and> sint x * sint (get_reg8 0 s) < 2 ^ 7)))
    \<and> cpu_get_of t = cpu_get_cf t"
proof -
  define r where "r = scast x * (scast (get_reg8 0 s) :: u32)"
  have r16: "(ucast r :: u16) = scast x * scast (get_reg8 0 s)"
    by (simp only: r_def narrow16_prod)
  have u16: "sint (ucast r :: u16) = sint x * sint (get_reg8 0 s)"
    unfolding r16 by (rule sint_prod_wide) simp
  define t where "t = set_reg16 0 (ucast r) (s\<lparr>m_lop1 := signed_drop_bit 7 (scast (ucast r :: u8)),
    m_lop2 := scast (ucast (drop_bit 8 r) :: u8), m_lr := scast (ucast r :: u8), m_laux := op_code MUL\<rparr>)"
  have "cpu_muldiv8 op (ucast x) s = Some (Done t)"
    by (simp add: cpu_muldiv8_def assms Let_def r_def t_def zext8_low)
  moreover have "m_laux t = op_code MUL" by (simp add: t_def)
  moreover have "m_lop1 t = m_lop2 t \<longleftrightarrow> - (2 ^ 7) \<le> sint x * sint (get_reg8 0 s) \<and> sint x * sint (get_reg8 0 s) < 2 ^ 7"
    using high_is_sign8 [of "ucast r :: u16"] unfolding u16
    by (simp add: t_def narrow16_parts [symmetric])
  ultimately show ?thesis
    using u16 by (intro exI [of _ t]) (simp add: flags_MUL, simp add: t_def reg16.get_set)
qed

lemma muldiv16_mul:
  assumes "op AND 7 = 4"
  shows "\<exists>t. cpu_muldiv16 op (ucast (x::u16)) s = Some (Done t)
    \<and> uint (word_cat (get_reg16 4 t) (get_reg16 0 t) :: u32) = uint x * uint (get_reg16 0 s)
    \<and> cpu_get_cf t = Some (of_bool (2 ^ 16 \<le> uint x * uint (get_reg16 0 s)))
    \<and> cpu_get_of t = cpu_get_cf t"
proof -
  define r where "r = ucast x * (ucast (get_reg16 0 s) :: u32)"
  have u: "uint r = uint x * uint (get_reg16 0 s)"
    by (simp add: r_def uint_prod_wide)
  have ne: "0 \<noteq> (drop_bit 16 r :: u32) \<longleftrightarrow> 2 ^ 16 \<le> uint x * uint (get_reg16 0 s)"
    using upper_zero [of 16 r] u  by auto
  define t where "t = set_reg16 4 (ucast (drop_bit 16 r)) (set_reg16 0 (ucast r) (s\<lparr>m_lop1 := 0, m_lop2 := drop_bit 16 r, m_lr := scast (ucast r :: u16), m_laux := op_code MUL\<rparr>))"
  have "cpu_muldiv16 op (ucast x) s = Some (Done t)"
    by (simp add: cpu_muldiv16_def assms Let_def r_def t_def)
  moreover have "m_laux t = op_code MUL" by (simp add: t_def)
  moreover have "word_cat (get_reg16 4 t) (get_reg16 0 t) = r"
    by (simp add: t_def reg16.get_set cat_parts)
  moreover have "m_lop1 t \<noteq> m_lop2 t \<longleftrightarrow> 2 ^ 16 \<le> uint x * uint (get_reg16 0 s)"
    using ne by (simp add: t_def)
  ultimately show ?thesis
    using u by (intro exI [of _ t]) (simp add: flags_MUL)
qed

lemma muldiv16_imul:
  assumes "op AND 7 = 5"
  shows "\<exists>t. cpu_muldiv16 op (ucast (x::u16)) s = Some (Done t)
    \<and> sint (word_cat (get_reg16 4 t) (get_reg16 0 t) :: u32) = sint x * sint (get_reg16 0 s)
    \<and> cpu_get_cf t = Some (of_bool (\<not> (- (2 ^ 15) \<le> sint x * sint (get_reg16 0 s) \<and> sint x * sint (get_reg16 0 s) < 2 ^ 15)))
    \<and> cpu_get_of t = cpu_get_cf t"
proof -
  define r where "r = scast x * (scast (get_reg16 0 s) :: u32)"
  have u: "sint r = sint x * sint (get_reg16 0 s)"
    unfolding r_def by (rule sint_prod_wide) simp
  define t where "t = set_reg16 4 (ucast (drop_bit 16 r)) (set_reg16 0 (ucast r) (s\<lparr>m_lop1 := signed_drop_bit 15 (scast (ucast r :: u16)), m_lop2 := scast (ucast (drop_bit 16 r) :: u16), m_lr := scast (ucast r :: u16), m_laux := op_code MUL\<rparr>))"
  have "cpu_muldiv16 op (ucast x) s = Some (Done t)"
    by (simp add: cpu_muldiv16_def assms Let_def r_def t_def zext16_low)
  moreover have "m_laux t = op_code MUL" by (simp add: t_def)
  moreover have "word_cat (get_reg16 4 t) (get_reg16 0 t) = r"
    by (simp add: t_def reg16.get_set cat_parts)
  moreover have "m_lop1 t = m_lop2 t \<longleftrightarrow> - (2 ^ 15) \<le> sint x * sint (get_reg16 0 s) \<and> sint x * sint (get_reg16 0 s) < 2 ^ 15"
    using high_is_sign16 [of r] unfolding u by (simp add: t_def)
  ultimately show ?thesis
    using u by (intro exI [of _ t]) (simp add: flags_MUL)
qed

lemma muldiv32_mul:
  assumes "op AND 7 = 4"
  shows "\<exists>t. cpu_muldiv32 op ((x::u32)) s = Some (Done t)
    \<and> uint (word_cat (get_reg32 2 t) (get_reg32 0 t) :: u64) = uint x * uint (get_reg32 0 s)
    \<and> cpu_get_cf t = Some (of_bool (2 ^ 32 \<le> uint x * uint (get_reg32 0 s)))
    \<and> cpu_get_of t = cpu_get_cf t"
proof -
  define r where "r = ucast x * (ucast (get_reg32 0 s) :: u64)"
  have u: "uint r = uint x * uint (get_reg32 0 s)"
    by (simp add: r_def uint_prod_wide)
  have ne: "0 \<noteq> (ucast (drop_bit 32 r) :: u32) \<longleftrightarrow> 2 ^ 32 \<le> uint x * uint (get_reg32 0 s)"
    using upper_zero [of 32 r] u upper_half_zero [of r] by auto
  define t where "t = set_reg32 2 (ucast (drop_bit 32 r)) (set_reg32 0 (ucast r) (s\<lparr>m_lop1 := 0, m_lop2 := ucast (drop_bit 32 r), m_lr := ucast r, m_laux := op_code MUL\<rparr>))"
  have "cpu_muldiv32 op (x) s = Some (Done t)"
    by (simp add: cpu_muldiv32_def assms Let_def r_def t_def)
  moreover have "m_laux t = op_code MUL" by (simp add: t_def)
  moreover have "word_cat (get_reg32 2 t) (get_reg32 0 t) = r"
    by (simp add: t_def reg32.get_set cat_parts)
  moreover have "m_lop1 t \<noteq> m_lop2 t \<longleftrightarrow> 2 ^ 32 \<le> uint x * uint (get_reg32 0 s)"
    using ne by (simp add: t_def)
  ultimately show ?thesis
    using u by (intro exI [of _ t]) (simp add: flags_MUL)
qed

lemma muldiv32_imul:
  assumes "op AND 7 = 5"
  shows "\<exists>t. cpu_muldiv32 op ((x::u32)) s = Some (Done t)
    \<and> sint (word_cat (get_reg32 2 t) (get_reg32 0 t) :: u64) = sint x * sint (get_reg32 0 s)
    \<and> cpu_get_cf t = Some (of_bool (\<not> (- (2 ^ 31) \<le> sint x * sint (get_reg32 0 s) \<and> sint x * sint (get_reg32 0 s) < 2 ^ 31)))
    \<and> cpu_get_of t = cpu_get_cf t"
proof -
  define r where "r = scast x * (scast (get_reg32 0 s) :: u64)"
  have u: "sint r = sint x * sint (get_reg32 0 s)"
    unfolding r_def by (rule sint_prod_wide) simp
  define t where "t = set_reg32 2 (ucast (drop_bit 32 r)) (set_reg32 0 (ucast r) (s\<lparr>m_lop1 := signed_drop_bit 31 (ucast r), m_lop2 := ucast (drop_bit 32 r), m_lr := ucast r, m_laux := op_code MUL\<rparr>))"
  have "cpu_muldiv32 op (x) s = Some (Done t)"
    by (simp add: cpu_muldiv32_def assms Let_def r_def t_def )
  moreover have "m_laux t = op_code MUL" by (simp add: t_def)
  moreover have "word_cat (get_reg32 2 t) (get_reg32 0 t) = r"
    by (simp add: t_def reg32.get_set cat_parts)
  moreover have "m_lop1 t = m_lop2 t \<longleftrightarrow> - (2 ^ 31) \<le> sint x * sint (get_reg32 0 s) \<and> sint x * sint (get_reg32 0 s) < 2 ^ 31"
    using high_is_sign32 [of r] unfolding u by (simp add: t_def)
  ultimately show ?thesis
    using u by (intro exI [of _ t]) (simp add: flags_MUL)
qed

lemma imul8_spec:
  "\<exists>t. cpu_imul8 x y s = (x * y, t)
    \<and> cpu_get_cf t = Some (of_bool (\<not> (- (2 ^ 7) \<le> sint x * sint y \<and> sint x * sint y < 2 ^ 7))) \<and> cpu_get_of t = cpu_get_cf t
    \<and> lazy_frame s t"
proof -
  define r where "r = scast x * (scast y :: u16)"
  have u: "sint r = sint x * sint y"
    unfolding r_def by (rule sint_prod_wide) simp
  have c: "(ucast (scast (z::u8) :: u16) :: u8) = z" for z
    by (rule bit_eqI) (simp add: bit_simps)
  have l: "(ucast r :: u8) = x * y"
    by (simp add: r_def ucast_down_mult c)
  define t where "t = snd (cpu_imul8 x y s)"
  have eq: "cpu_imul8 x y s = (x * y, t)"
    by (simp add: t_def cpu_imul8_def Let_def r_def [symmetric] l)
  have "m_laux t = op_code MUL" by (simp add: t_def cpu_imul8_def Let_def)
  moreover have "m_lop1 t = m_lop2 t \<longleftrightarrow> - (2 ^ 7) \<le> sint x * sint y \<and> sint x * sint y < 2 ^ 7"
    using high_is_sign8 [of r] unfolding u by (simp add: t_def cpu_imul8_def Let_def r_def)
  moreover have "lazy_frame s t"
    by (simp add: t_def cpu_imul8_def Let_def lazy_frame_def)
  ultimately show ?thesis
    unfolding eq by (intro exI [of _ t]) (simp add: flags_MUL)
qed

lemma imul16_spec:
  "\<exists>t. cpu_imul16 x y s = (x * y, t)
    \<and> cpu_get_cf t = Some (of_bool (\<not> (- (2 ^ 15) \<le> sint x * sint y \<and> sint x * sint y < 2 ^ 15))) \<and> cpu_get_of t = cpu_get_cf t
    \<and> lazy_frame s t"
proof -
  define r where "r = scast x * (scast y :: u32)"
  have u: "sint r = sint x * sint y"
    unfolding r_def by (rule sint_prod_wide) simp
  have c: "(ucast (scast (z::u16) :: u32) :: u16) = z" for z
    by (rule bit_eqI) (simp add: bit_simps)
  have l: "(ucast r :: u16) = x * y"
    by (simp add: r_def ucast_down_mult c)
  define t where "t = snd (cpu_imul16 x y s)"
  have eq: "cpu_imul16 x y s = (x * y, t)"
    by (simp add: t_def cpu_imul16_def Let_def r_def [symmetric] l)
  have "m_laux t = op_code MUL" by (simp add: t_def cpu_imul16_def Let_def)
  moreover have "m_lop1 t = m_lop2 t \<longleftrightarrow> - (2 ^ 15) \<le> sint x * sint y \<and> sint x * sint y < 2 ^ 15"
    using high_is_sign16 [of r] unfolding u by (simp add: t_def cpu_imul16_def Let_def r_def)
  moreover have "lazy_frame s t"
    by (simp add: t_def cpu_imul16_def Let_def lazy_frame_def)
  ultimately show ?thesis
    unfolding eq by (intro exI [of _ t]) (simp add: flags_MUL)
qed

lemma imul32_spec:
  "\<exists>t. cpu_imul32 x y s = (x * y, t)
    \<and> cpu_get_cf t = Some (of_bool (\<not> (- (2 ^ 31) \<le> sint x * sint y \<and> sint x * sint y < 2 ^ 31))) \<and> cpu_get_of t = cpu_get_cf t
    \<and> lazy_frame s t"
proof -
  define r where "r = scast x * (scast y :: u64)"
  have u: "sint r = sint x * sint y"
    unfolding r_def by (rule sint_prod_wide) simp
  have c: "(ucast (scast (z::u32) :: u64) :: u32) = z" for z
    by (rule bit_eqI) (simp add: bit_simps)
  have l: "(ucast r :: u32) = x * y"
    by (simp add: r_def ucast_down_mult c)
  define t where "t = snd (cpu_imul32 x y s)"
  have eq: "cpu_imul32 x y s = (x * y, t)"
    by (simp add: t_def cpu_imul32_def Let_def r_def [symmetric] l)
  have "m_laux t = op_code MUL" by (simp add: t_def cpu_imul32_def Let_def)
  moreover have "m_lop1 t = m_lop2 t \<longleftrightarrow> - (2 ^ 31) \<le> sint x * sint y \<and> sint x * sint y < 2 ^ 31"
    using high_is_sign32 [of r] unfolding u by (simp add: t_def cpu_imul32_def Let_def r_def)
  moreover have "lazy_frame s t"
    by (simp add: t_def cpu_imul32_def Let_def lazy_frame_def)
  ultimately show ?thesis
    unfolding eq by (intro exI [of _ t]) (simp add: flags_MUL)
qed

section \<open>Division\<close>

lemma sint_of_int:
  assumes "- (2 ^ (LENGTH('w::len) - 1)) \<le> i" "i < 2 ^ (LENGTH('w) - 1)"
  shows "sint (word_of_int i :: 'w word) = i"
  using assms by (simp add: signed_of_int signed_take_bit_int_eq_self)

lemma uint_of_int: "0 \<le> i \<Longrightarrow> i < 2 ^ LENGTH('w::len) \<Longrightarrow> uint (word_of_int i :: 'w word) = i"
  by (simp add: uint_word_of_int)

lemma narrow_of_int8: "(ucast (word_of_int i :: u32) :: u8) = word_of_int i"
  "(ucast (word_of_int i :: u32) :: u16) = word_of_int i"
  "(ucast (word_of_int i :: u64) :: u32) = word_of_int i"
  using word_of_int_take_bit_down [where 'b=8, of 32 i] word_of_int_take_bit_down [where 'b=16, of 32 i]
    word_of_int_take_bit_down [where 'b=32, of 64 i]
  by (simp_all add: unsigned_of_int)

lemma narrow_uint: "uint r = i \<Longrightarrow> (ucast (r :: 'v::len word) :: 'w::len word) = word_of_int i"
  by auto

lemma uint_quot_bound:
  assumes "0 \<le> b" "(0::int) \<le> a"
  shows "0 \<le> a div b" "0 \<le> a mod b" "a mod b \<le> a"
  using assms by (cases "b = 0"; simp add: pos_imp_zdiv_nonneg_iff zmod_le_nonneg_dividend)+

text \<open>The unsigned dividend of the wider forms.\<close>

lemma dividend16: "push_bit 16 (ucast (h::u16)) OR ucast (l::u16) = (word_cat h l :: u32)"
  by (rule bit_eqI) (auto simp: bit_cat16 bit_or_iff bit_push_bit_iff bit_zext16 dest: bit_imp_le_length)

lemma dividend32: "push_bit 32 (ucast (h::u32)) OR ucast (l::u32) = (word_cat h l :: u64)"
  by (rule bit_eqI) (auto simp: bit_cat32 bit_or_iff bit_push_bit_iff bit_unsigned_iff dest: bit_imp_le_length)

lemma muldiv8_div:
  assumes "op AND 7 = 6"
  shows "cpu_muldiv8 op (ucast (x::u8)) s =
    (let a = uint (get_reg16 0 s); b = uint x in
     if b = 0 \<or> 2 ^ 8 \<le> a div b then Some (Raise 0 0 s)
     else Some (Done (set_reg8 1 (word_of_int (a mod b)) (set_reg8 0 (word_of_int (a div b)) s))))"
proof -
  have z: "(ucast x :: u32) = 0 \<longleftrightarrow> uint x = 0" by (simp add: word_uint_eq_iff)
  have ux: "uint (ucast x :: u32) = uint x" by (rule uint_up) simp
  have ua: "uint (ucast (get_reg16 0 s) :: u32) = uint (get_reg16 0 s)" by (rule uint_up) simp
  have q: "uint ((ucast (get_reg16 0 s) :: u32) div (ucast x :: u32)) = uint (get_reg16 0 s) div uint x"
    "uint ((ucast (get_reg16 0 s) :: u32) mod (ucast x :: u32)) = uint (get_reg16 0 s) mod uint x"
    by (simp_all add: uint_div uint_mod ux)
  have lt: "0xFF < (ucast (get_reg16 0 s) :: u32) div (ucast x :: u32) \<longleftrightarrow> 2 ^ 8 \<le> uint (get_reg16 0 s) div uint x"
    unfolding word_less_def q by auto
  have n: "(ucast ((ucast (get_reg16 0 s) :: u32) div (ucast x :: u32)) :: u8) = word_of_int (uint (get_reg16 0 s) div uint x)"
    "(ucast ((ucast (get_reg16 0 s) :: u32) mod (ucast x :: u32)) :: u8) = word_of_int (uint (get_reg16 0 s) mod uint x)"
    by (rule narrow_uint, rule q)+
  show ?thesis
    unfolding cpu_muldiv8_def Let_def 
    using lt z n by (simp add: assms)
qed

lemma muldiv16_div:
  assumes "op AND 7 = 6"
  shows "cpu_muldiv16 op (ucast (x::u16)) s =
    (let a = uint (word_cat (get_reg16 4 s) (get_reg16 0 s) :: u32); b = uint x in
     if b = 0 \<or> 2 ^ 16 \<le> a div b then Some (Raise 0 0 s)
     else Some (Done (set_reg16 4 (word_of_int (a mod b)) (set_reg16 0 (word_of_int (a div b)) s))))"
proof -
  have z: "(ucast x :: u32) = 0 \<longleftrightarrow> uint x = 0" by (simp add: word_uint_eq_iff)
  have ux: "uint (ucast x :: u32) = uint x" by (rule uint_up) simp
  note ua = refl
  have q: "uint ((word_cat (get_reg16 4 s) (get_reg16 0 s) :: u32) div (ucast x :: u32)) = uint (word_cat (get_reg16 4 s) (get_reg16 0 s) :: u32) div uint x"
    "uint ((word_cat (get_reg16 4 s) (get_reg16 0 s) :: u32) mod (ucast x :: u32)) = uint (word_cat (get_reg16 4 s) (get_reg16 0 s) :: u32) mod uint x"
    by (simp_all add: uint_div uint_mod ux)
  have lt: "0xFFFF < (word_cat (get_reg16 4 s) (get_reg16 0 s) :: u32) div (ucast x :: u32) \<longleftrightarrow> 2 ^ 16 \<le> uint (word_cat (get_reg16 4 s) (get_reg16 0 s) :: u32) div uint x"
    unfolding word_less_def q by auto
  have n: "(ucast ((word_cat (get_reg16 4 s) (get_reg16 0 s) :: u32) div (ucast x :: u32)) :: u16) = word_of_int (uint (word_cat (get_reg16 4 s) (get_reg16 0 s) :: u32) div uint x)"
    "(ucast ((word_cat (get_reg16 4 s) (get_reg16 0 s) :: u32) mod (ucast x :: u32)) :: u16) = word_of_int (uint (word_cat (get_reg16 4 s) (get_reg16 0 s) :: u32) mod uint x)"
    by (rule narrow_uint, rule q)+
  show ?thesis
    unfolding cpu_muldiv16_def Let_def dividend16
    using lt z n by (simp add: assms)
qed

lemma muldiv32_div:
  assumes "op AND 7 = 6"
  shows "cpu_muldiv32 op ((x::u32)) s =
    (let a = uint (word_cat (get_reg32 2 s) (get_reg32 0 s) :: u64); b = uint x in
     if b = 0 \<or> 2 ^ 32 \<le> a div b then Some (Raise 0 0 s)
     else Some (Done (set_reg32 2 (word_of_int (a mod b)) (set_reg32 0 (word_of_int (a div b)) s))))"
proof -
  have z: "(x :: u32) = 0 \<longleftrightarrow> uint x = 0" by (simp add: word_uint_eq_iff)
  have ux: "uint (ucast x :: u64) = uint x" by (rule uint_up) simp
  note ua = refl
  have q: "uint ((word_cat (get_reg32 2 s) (get_reg32 0 s) :: u64) div (ucast x :: u64)) = uint (word_cat (get_reg32 2 s) (get_reg32 0 s) :: u64) div uint x"
    "uint ((word_cat (get_reg32 2 s) (get_reg32 0 s) :: u64) mod (ucast x :: u64)) = uint (word_cat (get_reg32 2 s) (get_reg32 0 s) :: u64) mod uint x"
    by (simp_all add: uint_div uint_mod ux)
  have lt: "0xFFFFFFFF < (word_cat (get_reg32 2 s) (get_reg32 0 s) :: u64) div (ucast x :: u64) \<longleftrightarrow> 2 ^ 32 \<le> uint (word_cat (get_reg32 2 s) (get_reg32 0 s) :: u64) div uint x"
    unfolding word_less_def q by auto
  have n: "(ucast ((word_cat (get_reg32 2 s) (get_reg32 0 s) :: u64) div (ucast x :: u64)) :: u32) = word_of_int (uint (word_cat (get_reg32 2 s) (get_reg32 0 s) :: u64) div uint x)"
    "(ucast ((word_cat (get_reg32 2 s) (get_reg32 0 s) :: u64) mod (ucast x :: u64)) :: u32) = word_of_int (uint (word_cat (get_reg32 2 s) (get_reg32 0 s) :: u64) mod uint x)"
    by (rule narrow_uint, rule q)+
  show ?thesis
    unfolding cpu_muldiv32_def Let_def dividend32
    using lt z n by (simp add: assms)
qed

lemma sdiv_within: "\<bar>a sdiv b\<bar> \<le> \<bar>a::int\<bar>"
  using sdiv_int_range [of a b] by auto

lemma smod_within: "b \<noteq> 0 \<Longrightarrow> \<bar>(a::int) smod b\<bar> < \<bar>b\<bar>"
  using smod_int_range [of b a] by auto

lemma sint_eq_0: "sint x = 0 \<longleftrightarrow> x = 0" for x :: "'w::len word"
  by (metis signed_0 signed_word_eqI)

lemma sdiv_by_neg1_or_small:
  assumes "b \<noteq> -1" "b \<noteq> 0" "b \<noteq> 1" "0 < h" "\<bar>a\<bar> \<le> (h::int)"
  shows "\<bar>a sdiv b\<bar> < h"
proof -
  have b: "2 \<le> \<bar>b\<bar>" using assms(1,2,3) by linarith
  have "\<bar>a\<bar> div \<bar>b\<bar> \<le> \<bar>a\<bar> div 2" using b by (intro zdiv_mono2) auto
  then have "\<bar>a\<bar> div \<bar>b\<bar> < h" using assms(4,5) by linarith
  moreover have "0 \<le> \<bar>a\<bar> div \<bar>b\<bar>" using b by (simp add: pos_imp_zdiv_nonneg_iff)
  ultimately show ?thesis
    by (simp add: signed_divide_int_def abs_mult)
qed

lemma sdiv_fits:
  assumes "- h \<le> a" "a < (h::int)" "0 < h" "\<not> (a = - h \<and> b = - 1)"
  shows "- h \<le> a sdiv b" "a sdiv b < h"
proof -
  consider "b = 0" | "b = 1" | "b = - 1" | "b \<noteq> - 1" "b \<noteq> 0" "b \<noteq> 1" by blast
  then have "- h \<le> a sdiv b \<and> a sdiv b < h"
  proof cases
    case 4
    have "\<bar>a\<bar> \<le> h" using assms by linarith
    with 4 assms(3) have "\<bar>a sdiv b\<bar> < h" by (intro sdiv_by_neg1_or_small)
    then show ?thesis by linarith
  qed (use assms in \<open>auto simp: sdiv_int_div_0\<close>)
  then show "- h \<le> a sdiv b" "a sdiv b < h" by auto
qed

lemma muldiv8_idiv:
  assumes "op AND 7 = 7"
  shows "cpu_muldiv8 op (ucast (x::u8)) s =
    (let a = sint (get_reg16 0 s); b = sint x in
     if b = 0 then Some (Raise 0 0 s)
     else if a sdiv b < - (2 ^ 7) \<or> 2 ^ 7 \<le> a sdiv b then Some (Raise 0 0 s)
     else Some (Done (set_reg8 1 (word_of_int (a smod b)) (set_reg8 0 (word_of_int (a sdiv b)) s))))"
proof -
  define a where "a = sint (get_reg16 0 s)"
  define b where "b = sint x"
  have z: "(ucast x :: u32) = 0 \<longleftrightarrow> b = 0" "x = 0 \<longleftrightarrow> b = 0"
    using zext8_inj [of _ 0] zext16_inj [of _ 0] by (simp_all add: b_def sint_eq_0)
  have ra: "- (2 ^ 15) \<le> a" "a < 2 ^ 15"
    using sint_greater_eq [of "(get_reg16 0 s)"] sint_less [of "(get_reg16 0 s)"] by (simp_all add: a_def)
  have low: "(ucast (ucast x :: u32) :: u8) = x" by (rule zext8_low)
  have "\<bar>a sdiv b\<bar> \<le> 2 ^ 15" using sdiv_within [of a b] ra by auto
  then consider "a sdiv b = 2 ^ 15" | "- (2 ^ 15) \<le> a sdiv b" "a sdiv b < 2 ^ 15" by fastforce
  then have t: "(0x7F < sint (ucast (word_of_int (a sdiv b) :: u32) :: u16) \<or> sint (ucast (word_of_int (a sdiv b) :: u32) :: u16) < - 0x80)
      \<longleftrightarrow> a sdiv b < - (2 ^ 7) \<or> 2 ^ 7 \<le> a sdiv b"
  proof cases
    case 1
    then show ?thesis by (simp add: narrow_of_int8)
  next
    case 2
    then have "sint (word_of_int (a sdiv b) :: u16) = a sdiv b" by (intro sint_of_int) simp_all
    then show ?thesis unfolding narrow_of_int8 by auto
  qed
  show ?thesis
    unfolding cpu_muldiv8_def Let_def low a_def [symmetric] b_def [symmetric]
    using t z by (simp add: assms narrow_of_int8)
qed

lemma muldiv16_idiv:
  assumes "op AND 7 = 7"
  shows "cpu_muldiv16 op (ucast (x::u16)) s =
    (let a = sint (word_cat (get_reg16 4 s) (get_reg16 0 s) :: u32); b = sint x in
     if b = 0 then Some (Raise 0 0 s) else if a = - (2 ^ 31) \<and> b = - 1 then None
     else if a sdiv b < - (2 ^ 15) \<or> 2 ^ 15 \<le> a sdiv b then Some (Raise 0 0 s)
     else Some (Done (set_reg16 4 (word_of_int (a smod b)) (set_reg16 0 (word_of_int (a sdiv b)) s))))"
proof -
  define a where "a = sint (word_cat (get_reg16 4 s) (get_reg16 0 s) :: u32)"
  define b where "b = sint x"
  have z: "(ucast x :: u32) = 0 \<longleftrightarrow> b = 0" "x = 0 \<longleftrightarrow> b = 0"
    using zext8_inj [of _ 0] zext16_inj [of _ 0] by (simp_all add: b_def sint_eq_0)
  have ra: "- (2 ^ 31) \<le> a" "a < 2 ^ 31"
    using sint_greater_eq [of "(word_cat (get_reg16 4 s) (get_reg16 0 s) :: u32)"] sint_less [of "(word_cat (get_reg16 4 s) (get_reg16 0 s) :: u32)"] by (simp_all add: a_def)
  have low: "(ucast (ucast x :: u32) :: u16) = x" by (rule zext16_low)
  have t: "(0x7FFF < sint (word_of_int (a sdiv b) :: u32) \<or> sint (word_of_int (a sdiv b) :: u32) < - 0x8000)
      \<longleftrightarrow> a sdiv b < - (2 ^ 15) \<or> 2 ^ 15 \<le> a sdiv b" if "\<not> (a = - (2 ^ 31) \<and> b = - 1)"
  proof -
    have "sint (word_of_int (a sdiv b) :: u32) = a sdiv b"
      using sdiv_fits [OF ra _ that] by (intro sint_of_int) simp_all
    then show ?thesis by auto
  qed
  show ?thesis
    unfolding cpu_muldiv16_def Let_def dividend16 low a_def [symmetric] b_def [symmetric]
    using t z by (simp add: assms narrow_of_int8)
qed

lemma muldiv32_idiv:
  assumes "op AND 7 = 7"
  shows "cpu_muldiv32 op ((x::u32)) s =
    (let a = sint (word_cat (get_reg32 2 s) (get_reg32 0 s) :: u64); b = sint x in
     if b = 0 then Some (Raise 0 0 s) else if a = - (2 ^ 63) \<and> b = - 1 then None
     else if a sdiv b < - (2 ^ 31) \<or> 2 ^ 31 \<le> a sdiv b then Some (Raise 0 0 s)
     else Some (Done (set_reg32 2 (word_of_int (a smod b)) (set_reg32 0 (word_of_int (a sdiv b)) s))))"
proof -
  define a where "a = sint (word_cat (get_reg32 2 s) (get_reg32 0 s) :: u64)"
  define b where "b = sint x"
  have z: "(x :: u32) = 0 \<longleftrightarrow> b = 0" "x = 0 \<longleftrightarrow> b = 0"
    using zext8_inj [of _ 0] zext16_inj [of _ 0] by (simp_all add: b_def sint_eq_0)
  have ra: "- (2 ^ 63) \<le> a" "a < 2 ^ 63"
    using sint_greater_eq [of "(word_cat (get_reg32 2 s) (get_reg32 0 s) :: u64)"] sint_less [of "(word_cat (get_reg32 2 s) (get_reg32 0 s) :: u64)"] by (simp_all add: a_def)
  note low = refl
  have t: "(0x7FFFFFFF < sint (word_of_int (a sdiv b) :: u64) \<or> sint (word_of_int (a sdiv b) :: u64) < - 0x80000000)
      \<longleftrightarrow> a sdiv b < - (2 ^ 31) \<or> 2 ^ 31 \<le> a sdiv b" if "\<not> (a = - (2 ^ 63) \<and> b = - 1)"
  proof -
    have "sint (word_of_int (a sdiv b) :: u64) = a sdiv b"
      using sdiv_fits [OF ra _ that] by (intro sint_of_int) simp_all
    then show ?thesis by auto
  qed
  show ?thesis
    unfolding cpu_muldiv32_def Let_def dividend32 low a_def [symmetric] b_def [symmetric]
    using t z by (simp add: assms narrow_of_int8)
qed

section \<open>Reading back\<close>

lemma set_regs_frame:
  "set_reg8 i v s = s\<lparr>m_reg32 := m_reg32 (set_reg8 i v s)\<rparr>"
  "set_reg16 i w s = s\<lparr>m_reg32 := m_reg32 (set_reg16 i w s)\<rparr>"
  "set_reg32 i x s = s\<lparr>m_reg32 := m_reg32 (set_reg32 i x s)\<rparr>"
  by (simp_all add: set_reg8_def set_reg16_def set_reg32_def)

lemma set_pair_frame:
  "set_reg8 j v (set_reg8 i v' s) = s\<lparr>m_reg32 := m_reg32 (set_reg8 j v (set_reg8 i v' s))\<rparr>"
  "set_reg16 j w (set_reg16 i w' s) = s\<lparr>m_reg32 := m_reg32 (set_reg16 j w (set_reg16 i w' s))\<rparr>"
  "set_reg32 j x (set_reg32 i x' s) = s\<lparr>m_reg32 := m_reg32 (set_reg32 j x (set_reg32 i x' s))\<rparr>"
  by (simp_all add: set_reg8_def set_reg16_def set_reg32_def)

lemma div8_ok:
  assumes "op AND 7 = 6"
  shows "(if uint x8 = 0 \<or> 2 ^ 8 \<le> uint (get_reg16 0 s) div uint x8 then cpu_muldiv8 op (ucast (x8 :: u8)) s = Some (Raise 0 0 s)
      else \<exists>t. cpu_muldiv8 op (ucast (x8 :: u8)) s = Some (Done t) \<and> t = s\<lparr>m_reg32 := m_reg32 t\<rparr>
        \<and> uint (get_reg8 0 t) = uint (get_reg16 0 s) div uint x8 \<and> uint (get_reg8 1 t) = uint (get_reg16 0 s) mod uint x8
        \<and> (\<forall>i. i \<noteq> 0 \<and> i \<noteq> 1 \<longrightarrow> get_reg8 i t = get_reg8 i s))"
proof (cases "uint x8 = 0 \<or> 2 ^ 8 \<le> uint (get_reg16 0 s) div uint x8")
  case True
  then show ?thesis using muldiv8_div [OF assms, of x8 s] by (simp add: Let_def)
next
  case False
  define a where "a = uint (get_reg16 0 s)"
  define b where "b = uint x8"
  define t where "t = set_reg8 1 (word_of_int (a mod b)) (set_reg8 0 (word_of_int (a div b)) s)"
  have ab: "0 \<le> a" "0 < b" "b < 2 ^ 8" "a div b < 2 ^ 8"
    using False uint_lt2p [of x8] by (auto simp: a_def b_def less_le)
  then have "0 \<le> a div b" "0 \<le> a mod b" "a mod b < 2 ^ 8"
    using less_trans [OF pos_mod_bound [OF ab(2), of a] ab(3)] by (simp_all add: pos_imp_zdiv_nonneg_iff)
  then have u: "uint (word_of_int (a div b) :: u8) = a div b" "uint (word_of_int (a mod b) :: u8) = a mod b"
    using ab(4) by (simp_all add: uint_of_int)
  have "cpu_muldiv8 op (ucast (x8 :: u8)) s = Some (Done t)"
    using False muldiv8_div [OF assms, of x8 s] by (simp add: Let_def t_def a_def b_def)
  moreover have "t = s\<lparr>m_reg32 := m_reg32 t\<rparr>" unfolding t_def by (rule set_pair_frame)
  moreover have "uint (get_reg8 0 t) = a div b" "uint (get_reg8 1 t) = a mod b"
    using u by (simp_all add: t_def reg8.get_set)
  moreover have "\<forall>i. i \<noteq> 0 \<and> i \<noteq> 1 \<longrightarrow> get_reg8 i t = get_reg8 i s"
    by (simp add: t_def reg8.get_set)
  ultimately show ?thesis
    using False by (auto simp: a_def b_def)
qed

lemma idiv8_ok:
  assumes "op AND 7 = 7"
  shows "(if sint x8 = 0 then cpu_muldiv8 op (ucast (x8 :: u8)) s = Some (Raise 0 0 s)
      else if sint (get_reg16 0 s) sdiv sint x8 < - (2 ^ 7) \<or> 2 ^ 7 \<le> sint (get_reg16 0 s) sdiv sint x8 then cpu_muldiv8 op (ucast (x8 :: u8)) s = Some (Raise 0 0 s)
      else \<exists>t. cpu_muldiv8 op (ucast (x8 :: u8)) s = Some (Done t) \<and> t = s\<lparr>m_reg32 := m_reg32 t\<rparr>
        \<and> sint (get_reg8 0 t) = sint (get_reg16 0 s) sdiv sint x8 \<and> sint (get_reg8 1 t) = sint (get_reg16 0 s) smod sint x8
        \<and> (\<forall>i. i \<noteq> 0 \<and> i \<noteq> 1 \<longrightarrow> get_reg8 i t = get_reg8 i s))"
proof -
  define a where "a = sint (get_reg16 0 s)"
  define b where "b = sint x8"
  define t where "t = set_reg8 1 (word_of_int (a smod b)) (set_reg8 0 (word_of_int (a sdiv b)) s)"
  note eq = muldiv8_idiv [OF assms, of x8 s, unfolded Let_def, folded a_def b_def]
  have ok: "t = s\<lparr>m_reg32 := m_reg32 t\<rparr> \<and> sint (get_reg8 0 t) = a sdiv b
      \<and> sint (get_reg8 1 t) = a smod b
      \<and> (\<forall>i. i \<noteq> 0 \<and> i \<noteq> 1 \<longrightarrow> get_reg8 i t = get_reg8 i s)"
    if b: "b \<noteq> 0" "- (2 ^ 7) \<le> a sdiv b" "a sdiv b < 2 ^ 7"
  proof (intro conjI)
    show "t = s\<lparr>m_reg32 := m_reg32 t\<rparr>" unfolding t_def by (rule set_pair_frame)
    have "sint (word_of_int (a sdiv b) :: u8) = a sdiv b" using b by (intro sint_of_int) simp_all
    then show "sint (get_reg8 0 t) = a sdiv b" by (simp add: t_def reg8.get_set)
    have "\<bar>b\<bar> \<le> 2 ^ 7"
      using sint_greater_eq [of x8] sint_less [of x8] by (auto simp: b_def)
    then have "- (2 ^ 7) \<le> a smod b" "a smod b < 2 ^ 7"
      using smod_within [OF b(1), of a] by linarith+
    then have "sint (word_of_int (a smod b) :: u8) = a smod b" by (intro sint_of_int) simp_all
    then show "sint (get_reg8 1 t) = a smod b" by (simp add: t_def reg8.get_set)
  qed (simp add: t_def reg8.get_set)
  show ?thesis
    unfolding a_def [symmetric] b_def [symmetric] eq t_def [symmetric] using ok by auto
qed

lemma div16_ok:
  assumes "op AND 7 = 6"
  shows "(if uint x16 = 0 \<or> 2 ^ 16 \<le> uint (word_cat (get_reg16 4 s) (get_reg16 0 s) :: u32) div uint x16 then cpu_muldiv16 op (ucast (x16 :: u16)) s = Some (Raise 0 0 s)
      else \<exists>t. cpu_muldiv16 op (ucast (x16 :: u16)) s = Some (Done t) \<and> t = s\<lparr>m_reg32 := m_reg32 t\<rparr>
        \<and> uint (get_reg16 0 t) = uint (word_cat (get_reg16 4 s) (get_reg16 0 s) :: u32) div uint x16 \<and> uint (get_reg16 4 t) = uint (word_cat (get_reg16 4 s) (get_reg16 0 s) :: u32) mod uint x16
        \<and> (\<forall>i. i \<noteq> 0 \<and> i \<noteq> 4 \<longrightarrow> get_reg16 i t = get_reg16 i s))"
proof (cases "uint x16 = 0 \<or> 2 ^ 16 \<le> uint (word_cat (get_reg16 4 s) (get_reg16 0 s) :: u32) div uint x16")
  case True
  then show ?thesis using muldiv16_div [OF assms, of x16 s] by (simp add: Let_def)
next
  case False
  define a where "a = uint (word_cat (get_reg16 4 s) (get_reg16 0 s) :: u32)"
  define b where "b = uint x16"
  define t where "t = set_reg16 4 (word_of_int (a mod b)) (set_reg16 0 (word_of_int (a div b)) s)"
  have ab: "0 \<le> a" "0 < b" "b < 2 ^ 16" "a div b < 2 ^ 16"
    using False uint_lt2p [of x16] by (auto simp: a_def b_def less_le)
  then have "0 \<le> a div b" "0 \<le> a mod b" "a mod b < 2 ^ 16"
    using less_trans [OF pos_mod_bound [OF ab(2), of a] ab(3)] by (simp_all add: pos_imp_zdiv_nonneg_iff)
  then have u: "uint (word_of_int (a div b) :: u16) = a div b" "uint (word_of_int (a mod b) :: u16) = a mod b"
    using ab(4) by (simp_all add: uint_of_int)
  have "cpu_muldiv16 op (ucast (x16 :: u16)) s = Some (Done t)"
    using False muldiv16_div [OF assms, of x16 s] by (simp add: Let_def t_def a_def b_def)
  moreover have "t = s\<lparr>m_reg32 := m_reg32 t\<rparr>" unfolding t_def by (rule set_pair_frame)
  moreover have "uint (get_reg16 0 t) = a div b" "uint (get_reg16 4 t) = a mod b"
    using u by (simp_all add: t_def reg16.get_set)
  moreover have "\<forall>i. i \<noteq> 0 \<and> i \<noteq> 4 \<longrightarrow> get_reg16 i t = get_reg16 i s"
    by (simp add: t_def reg16.get_set)
  ultimately show ?thesis
    using False by (auto simp: a_def b_def)
qed

lemma idiv16_ok:
  assumes "op AND 7 = 7"
  shows "(if sint x16 = 0 then cpu_muldiv16 op (ucast (x16 :: u16)) s = Some (Raise 0 0 s)
      else if sint (word_cat (get_reg16 4 s) (get_reg16 0 s) :: u32) = - (2 ^ 31) \<and> sint x16 = - 1 then cpu_muldiv16 op (ucast (x16 :: u16)) s = None
      else if sint (word_cat (get_reg16 4 s) (get_reg16 0 s) :: u32) sdiv sint x16 < - (2 ^ 15) \<or> 2 ^ 15 \<le> sint (word_cat (get_reg16 4 s) (get_reg16 0 s) :: u32) sdiv sint x16 then cpu_muldiv16 op (ucast (x16 :: u16)) s = Some (Raise 0 0 s)
      else \<exists>t. cpu_muldiv16 op (ucast (x16 :: u16)) s = Some (Done t) \<and> t = s\<lparr>m_reg32 := m_reg32 t\<rparr>
        \<and> sint (get_reg16 0 t) = sint (word_cat (get_reg16 4 s) (get_reg16 0 s) :: u32) sdiv sint x16 \<and> sint (get_reg16 4 t) = sint (word_cat (get_reg16 4 s) (get_reg16 0 s) :: u32) smod sint x16
        \<and> (\<forall>i. i \<noteq> 0 \<and> i \<noteq> 4 \<longrightarrow> get_reg16 i t = get_reg16 i s))"
proof -
  define a where "a = sint (word_cat (get_reg16 4 s) (get_reg16 0 s) :: u32)"
  define b where "b = sint x16"
  define t where "t = set_reg16 4 (word_of_int (a smod b)) (set_reg16 0 (word_of_int (a sdiv b)) s)"
  note eq = muldiv16_idiv [OF assms, of x16 s, unfolded Let_def, folded a_def b_def]
  have ok: "t = s\<lparr>m_reg32 := m_reg32 t\<rparr> \<and> sint (get_reg16 0 t) = a sdiv b
      \<and> sint (get_reg16 4 t) = a smod b
      \<and> (\<forall>i. i \<noteq> 0 \<and> i \<noteq> 4 \<longrightarrow> get_reg16 i t = get_reg16 i s)"
    if b: "b \<noteq> 0" "- (2 ^ 15) \<le> a sdiv b" "a sdiv b < 2 ^ 15"
  proof (intro conjI)
    show "t = s\<lparr>m_reg32 := m_reg32 t\<rparr>" unfolding t_def by (rule set_pair_frame)
    have "sint (word_of_int (a sdiv b) :: u16) = a sdiv b" using b by (intro sint_of_int) simp_all
    then show "sint (get_reg16 0 t) = a sdiv b" by (simp add: t_def reg16.get_set)
    have "\<bar>b\<bar> \<le> 2 ^ 15"
      using sint_greater_eq [of x16] sint_less [of x16] by (auto simp: b_def)
    then have "- (2 ^ 15) \<le> a smod b" "a smod b < 2 ^ 15"
      using smod_within [OF b(1), of a] by linarith+
    then have "sint (word_of_int (a smod b) :: u16) = a smod b" by (intro sint_of_int) simp_all
    then show "sint (get_reg16 4 t) = a smod b" by (simp add: t_def reg16.get_set)
  qed (simp add: t_def reg16.get_set)
  show ?thesis
    unfolding a_def [symmetric] b_def [symmetric] eq t_def [symmetric] using ok by auto
qed

lemma div32_ok:
  assumes "op AND 7 = 6"
  shows "(if uint x32 = 0 \<or> 2 ^ 32 \<le> uint (word_cat (get_reg32 2 s) (get_reg32 0 s) :: u64) div uint x32 then cpu_muldiv32 op (x32) s = Some (Raise 0 0 s)
      else \<exists>t. cpu_muldiv32 op (x32) s = Some (Done t) \<and> t = s\<lparr>m_reg32 := m_reg32 t\<rparr>
        \<and> uint (get_reg32 0 t) = uint (word_cat (get_reg32 2 s) (get_reg32 0 s) :: u64) div uint x32 \<and> uint (get_reg32 2 t) = uint (word_cat (get_reg32 2 s) (get_reg32 0 s) :: u64) mod uint x32
        \<and> (\<forall>i. i \<noteq> 0 \<and> i \<noteq> 2 \<longrightarrow> get_reg32 i t = get_reg32 i s))"
proof (cases "uint x32 = 0 \<or> 2 ^ 32 \<le> uint (word_cat (get_reg32 2 s) (get_reg32 0 s) :: u64) div uint x32")
  case True
  then show ?thesis using muldiv32_div [OF assms, of x32 s] by (simp add: Let_def)
next
  case False
  define a where "a = uint (word_cat (get_reg32 2 s) (get_reg32 0 s) :: u64)"
  define b where "b = uint x32"
  define t where "t = set_reg32 2 (word_of_int (a mod b)) (set_reg32 0 (word_of_int (a div b)) s)"
  have ab: "0 \<le> a" "0 < b" "b < 2 ^ 32" "a div b < 2 ^ 32"
    using False uint_lt2p [of x32] by (auto simp: a_def b_def less_le)
  then have "0 \<le> a div b" "0 \<le> a mod b" "a mod b < 2 ^ 32"
    using less_trans [OF pos_mod_bound [OF ab(2), of a] ab(3)] by (simp_all add: pos_imp_zdiv_nonneg_iff)
  then have u: "uint (word_of_int (a div b) :: u32) = a div b" "uint (word_of_int (a mod b) :: u32) = a mod b"
    using ab(4) by (simp_all add: uint_of_int)
  have "cpu_muldiv32 op (x32) s = Some (Done t)"
    using False muldiv32_div [OF assms, of x32 s] by (simp add: Let_def t_def a_def b_def)
  moreover have "t = s\<lparr>m_reg32 := m_reg32 t\<rparr>" unfolding t_def by (rule set_pair_frame)
  moreover have "uint (get_reg32 0 t) = a div b" "uint (get_reg32 2 t) = a mod b"
    using u by (simp_all add: t_def reg32.get_set)
  moreover have "\<forall>i. i \<noteq> 0 \<and> i \<noteq> 2 \<longrightarrow> get_reg32 i t = get_reg32 i s"
    by (simp add: t_def reg32.get_set)
  ultimately show ?thesis
    using False by (auto simp: a_def b_def)
qed

lemma idiv32_ok:
  assumes "op AND 7 = 7"
  shows "(if sint x32 = 0 then cpu_muldiv32 op (x32) s = Some (Raise 0 0 s)
      else if sint (word_cat (get_reg32 2 s) (get_reg32 0 s) :: u64) = - (2 ^ 63) \<and> sint x32 = - 1 then cpu_muldiv32 op (x32) s = None
      else if sint (word_cat (get_reg32 2 s) (get_reg32 0 s) :: u64) sdiv sint x32 < - (2 ^ 31) \<or> 2 ^ 31 \<le> sint (word_cat (get_reg32 2 s) (get_reg32 0 s) :: u64) sdiv sint x32 then cpu_muldiv32 op (x32) s = Some (Raise 0 0 s)
      else \<exists>t. cpu_muldiv32 op (x32) s = Some (Done t) \<and> t = s\<lparr>m_reg32 := m_reg32 t\<rparr>
        \<and> sint (get_reg32 0 t) = sint (word_cat (get_reg32 2 s) (get_reg32 0 s) :: u64) sdiv sint x32 \<and> sint (get_reg32 2 t) = sint (word_cat (get_reg32 2 s) (get_reg32 0 s) :: u64) smod sint x32
        \<and> (\<forall>i. i \<noteq> 0 \<and> i \<noteq> 2 \<longrightarrow> get_reg32 i t = get_reg32 i s))"
proof -
  define a where "a = sint (word_cat (get_reg32 2 s) (get_reg32 0 s) :: u64)"
  define b where "b = sint x32"
  define t where "t = set_reg32 2 (word_of_int (a smod b)) (set_reg32 0 (word_of_int (a sdiv b)) s)"
  note eq = muldiv32_idiv [OF assms, of x32 s, unfolded Let_def, folded a_def b_def]
  have ok: "t = s\<lparr>m_reg32 := m_reg32 t\<rparr> \<and> sint (get_reg32 0 t) = a sdiv b
      \<and> sint (get_reg32 2 t) = a smod b
      \<and> (\<forall>i. i \<noteq> 0 \<and> i \<noteq> 2 \<longrightarrow> get_reg32 i t = get_reg32 i s)"
    if b: "b \<noteq> 0" "- (2 ^ 31) \<le> a sdiv b" "a sdiv b < 2 ^ 31"
  proof (intro conjI)
    show "t = s\<lparr>m_reg32 := m_reg32 t\<rparr>" unfolding t_def by (rule set_pair_frame)
    have "sint (word_of_int (a sdiv b) :: u32) = a sdiv b" using b by (intro sint_of_int) simp_all
    then show "sint (get_reg32 0 t) = a sdiv b" by (simp add: t_def reg32.get_set)
    have "\<bar>b\<bar> \<le> 2 ^ 31"
      using sint_greater_eq [of x32] sint_less [of x32] by (auto simp: b_def)
    then have "- (2 ^ 31) \<le> a smod b" "a smod b < 2 ^ 31"
      using smod_within [OF b(1), of a] by linarith+
    then have "sint (word_of_int (a smod b) :: u32) = a smod b" by (intro sint_of_int) simp_all
    then show "sint (get_reg32 2 t) = a smod b" by (simp add: t_def reg32.get_set)
  qed (simp add: t_def reg32.get_set)
  show ?thesis
    unfolding a_def [symmetric] b_def [symmetric] eq t_def [symmetric] using ok by auto
qed

lemma getters_set_regs:
  "cpu_get_cf (s\<lparr>m_reg32 := r\<rparr>) = cpu_get_cf s" "cpu_get_of (s\<lparr>m_reg32 := r\<rparr>) = cpu_get_of s"
  "cpu_get_af (s\<lparr>m_reg32 := r\<rparr>) = cpu_get_af s" "cpu_get_pf (s\<lparr>m_reg32 := r\<rparr>) = cpu_get_pf s"
  "cpu_get_sf (s\<lparr>m_reg32 := r\<rparr>) = cpu_get_sf s" for s :: "'z cpu_regs_scheme"
  by (simp_all add: cpu_get_cf_def cpu_get_of_def cpu_get_af_def cpu_get_pf_def cpu_get_sf_def laux_op_def Let_def
      cong: option.case_cong flag_op.case_cong split del: split_of_bool)

lemma flags_of_set_regs:
  "flags_of (set_reg8 i v s) = flags_of s" "flags_of (set_reg16 i w s) = flags_of s"
  "flags_of (set_reg32 i x s) = flags_of s"
  by (simp_all add: flags_of_def set_reg8_def set_reg16_def set_reg32_def getters_set_regs)

lemma cmpxchg8_ok:
  "case cpu_cmpxchg8 d x s of (d', t) \<Rightarrow>
        d' = (if get_reg8 0 s = d then x else d)
      \<and> get_reg8 i t = (if i = 0 then d else get_reg8 i s)
      \<and> flags_of t = Some (sub_flags (get_reg8 0 s) d False)"
proof -
  define u where "u = s\<lparr>m_lop2 := ucast d, m_lr := scast (get_reg8 0 s - d), m_laux := op_code SUB8\<rparr>"
  have eq: "cpu_cmpxchg8 d x s = (if get_reg8 0 s = d then (x, u) else (d, set_reg8 0 d u))"
    by (simp add: cpu_cmpxchg8_def Let_def u_def ucast_down_diff zext8_low zext8_low)
  have f: "flags_of u = Some (sub_flags (get_reg8 0 s) d False)"
    by (rule flags_SUB8) (simp_all add: u_def)
  have r: "get_reg8 j u = get_reg8 j s" for j by (simp add: u_def)
  show ?thesis
    unfolding eq using f r by (auto simp: flags_of_set_regs reg8.get_set)
qed

lemma cmpxchg16_ok:
  "case cpu_cmpxchg16 d x s of (d', t) \<Rightarrow>
        d' = (if get_reg16 0 s = d then x else d)
      \<and> get_reg16 i t = (if i = 0 then d else get_reg16 i s)
      \<and> flags_of t = Some (sub_flags (get_reg16 0 s) d False)"
proof -
  define u where "u = s\<lparr>m_lop2 := ucast d, m_lr := scast (get_reg16 0 s - d), m_laux := op_code SUB16\<rparr>"
  have eq: "cpu_cmpxchg16 d x s = (if get_reg16 0 s = d then (x, u) else (d, set_reg16 0 d u))"
    by (simp add: cpu_cmpxchg16_def Let_def u_def ucast_down_diff zext16_low zext16_low)
  have f: "flags_of u = Some (sub_flags (get_reg16 0 s) d False)"
    by (rule flags_SUB16) (simp_all add: u_def)
  have r: "get_reg16 j u = get_reg16 j s" for j by (simp add: u_def)
  show ?thesis
    unfolding eq using f r by (auto simp: flags_of_set_regs reg16.get_set)
qed

lemma cmpxchg32_ok:
  "case cpu_cmpxchg32 d x s of (d', t) \<Rightarrow>
        d' = (if get_reg32 0 s = d then x else d)
      \<and> get_reg32 i t = (if i = 0 then d else get_reg32 i s)
      \<and> flags_of t = Some (sub_flags (get_reg32 0 s) d False)"
proof -
  define u where "u = s\<lparr>m_lop2 := d, m_lr := get_reg32 0 s - d, m_laux := op_code SUB32\<rparr>"
  have eq: "cpu_cmpxchg32 d x s = (if get_reg32 0 s = d then (x, u) else (d, set_reg32 0 d u))"
    by (simp add: cpu_cmpxchg32_def Let_def u_def  )
  have f: "flags_of u = Some (sub_flags (get_reg32 0 s) d False)"
    by (rule flags_SUB32) (simp_all add: u_def)
  have r: "get_reg32 j u = get_reg32 j s" for j by (simp add: u_def)
  show ?thesis
    unfolding eq using f r by (auto simp: flags_of_set_regs reg32.get_set)
qed

section \<open>Properties\<close>

text \<open>C25: MUL and IMUL leave the exact double-width product of accumulator and operand in
  the register pair, and set carry and overflow exactly when the product does not fit the
  single width (unsigned for MUL, signed for IMUL), at 8, 16 and 32 bits.\<close>
theorem mul_correct:
  assumes "opu AND 7 = 4" and "ops AND 7 = 5"
  shows "(\<exists>t. cpu_muldiv8 opu (ucast (x8 :: u8)) s = Some (Done t)
       \<and> uint (get_reg16 0 t) = uint x8 * uint (get_reg8 0 s)
       \<and> cpu_get_cf t = Some (of_bool (2 ^ 8 \<le> uint x8 * uint (get_reg8 0 s)))
       \<and> cpu_get_of t = cpu_get_cf t)
   \<and> (\<exists>t. cpu_muldiv8 ops (ucast (x8 :: u8)) s = Some (Done t)
       \<and> sint (get_reg16 0 t) = sint x8 * sint (get_reg8 0 s)
       \<and> cpu_get_cf t = Some (of_bool (\<not> (- (2 ^ 7) \<le> sint x8 * sint (get_reg8 0 s) \<and> sint x8 * sint (get_reg8 0 s) < 2 ^ 7)))
       \<and> cpu_get_of t = cpu_get_cf t)
   \<and> (\<exists>t. cpu_muldiv16 opu (ucast (x16 :: u16)) s = Some (Done t)
       \<and> uint (word_cat (get_reg16 4 t) (get_reg16 0 t) :: u32) = uint x16 * uint (get_reg16 0 s)
       \<and> cpu_get_cf t = Some (of_bool (2 ^ 16 \<le> uint x16 * uint (get_reg16 0 s)))
       \<and> cpu_get_of t = cpu_get_cf t)
   \<and> (\<exists>t. cpu_muldiv16 ops (ucast (x16 :: u16)) s = Some (Done t)
       \<and> sint (word_cat (get_reg16 4 t) (get_reg16 0 t) :: u32) = sint x16 * sint (get_reg16 0 s)
       \<and> cpu_get_cf t = Some (of_bool (\<not> (- (2 ^ 15) \<le> sint x16 * sint (get_reg16 0 s) \<and> sint x16 * sint (get_reg16 0 s) < 2 ^ 15)))
       \<and> cpu_get_of t = cpu_get_cf t)
   \<and> (\<exists>t. cpu_muldiv32 opu (x32) s = Some (Done t)
       \<and> uint (word_cat (get_reg32 2 t) (get_reg32 0 t) :: u64) = uint x32 * uint (get_reg32 0 s)
       \<and> cpu_get_cf t = Some (of_bool (2 ^ 32 \<le> uint x32 * uint (get_reg32 0 s)))
       \<and> cpu_get_of t = cpu_get_cf t)
   \<and> (\<exists>t. cpu_muldiv32 ops (x32) s = Some (Done t)
       \<and> sint (word_cat (get_reg32 2 t) (get_reg32 0 t) :: u64) = sint x32 * sint (get_reg32 0 s)
       \<and> cpu_get_cf t = Some (of_bool (\<not> (- (2 ^ 31) \<le> sint x32 * sint (get_reg32 0 s) \<and> sint x32 * sint (get_reg32 0 s) < 2 ^ 31)))
       \<and> cpu_get_of t = cpu_get_cf t)"
  using muldiv8_mul [OF assms(1), of x8 s] muldiv8_imul [OF assms(2), of x8 s]
    muldiv16_mul [OF assms(1), of x16 s] muldiv16_imul [OF assms(2), of x16 s]
    muldiv32_mul [OF assms(1), of x32 s] muldiv32_imul [OF assms(2), of x32 s]
  by blast

text \<open>A machine whose accumulator holds 0x8000, with all other registers clear.\<close>

definition acc_cpu :: cpu_regs where
  "acc_cpu =
     \<lparr>m_cycles = 0, m_cycles_to_run = 0, m_refill_counter = 0, m_cycle_offset = 0,
      m_intr_line_state = 0, m_interrupts_blocked = 0, m_exit_reason = 0,
      m_eflags = 0, m_laux = 0, m_lop1 = 0, m_lop2 = 0, m_lr = 0, m_reg32 = (\<lambda>i. if i = 0 then 0x8000 else 0)\<rparr>"

lemma acc_cpu_regs:
  "get_reg16 0 acc_cpu = 0x8000" "get_reg8 0 acc_cpu = 0" "get_reg16 4 acc_cpu = 0"
  "get_reg32 0 acc_cpu = 0x8000" "get_reg32 2 acc_cpu = 0"
  by (simp_all add: get_reg16_def get_reg8_def get_reg32_def acc_cpu_def)

theorem mul_correct_witness:
  "\<exists>t. cpu_muldiv32 4 0x20000 acc_cpu = Some (Done t) \<and> cpu_get_cf t = Some 1"
  using mul_correct [of 4 5 0 acc_cpu 0 "0x20000"] by (auto simp: acc_cpu_regs)

text \<open>C24: DIV raises the divide error (vector 0) on the unchanged state when the divisor is zero
  or the quotient does not fit; otherwise it leaves quotient and remainder of the unsigned
  dividend in their registers and changes nothing else, at 8, 16 and 32 bits.\<close>
theorem div_correct:
  assumes "op AND 7 = 6"
  shows "(if uint x8 = 0 \<or> 2 ^ 8 \<le> uint (get_reg16 0 s) div uint x8 then cpu_muldiv8 op (ucast (x8 :: u8)) s = Some (Raise 0 0 s)
      else \<exists>t. cpu_muldiv8 op (ucast (x8 :: u8)) s = Some (Done t) \<and> t = s\<lparr>m_reg32 := m_reg32 t\<rparr>
        \<and> uint (get_reg8 0 t) = uint (get_reg16 0 s) div uint x8 \<and> uint (get_reg8 1 t) = uint (get_reg16 0 s) mod uint x8
        \<and> (\<forall>i. i \<noteq> 0 \<and> i \<noteq> 1 \<longrightarrow> get_reg8 i t = get_reg8 i s))
   \<and> (if uint x16 = 0 \<or> 2 ^ 16 \<le> uint (word_cat (get_reg16 4 s) (get_reg16 0 s) :: u32) div uint x16 then cpu_muldiv16 op (ucast (x16 :: u16)) s = Some (Raise 0 0 s)
      else \<exists>t. cpu_muldiv16 op (ucast (x16 :: u16)) s = Some (Done t) \<and> t = s\<lparr>m_reg32 := m_reg32 t\<rparr>
        \<and> uint (get_reg16 0 t) = uint (word_cat (get_reg16 4 s) (get_reg16 0 s) :: u32) div uint x16 \<and> uint (get_reg16 4 t) = uint (word_cat (get_reg16 4 s) (get_reg16 0 s) :: u32) mod uint x16
        \<and> (\<forall>i. i \<noteq> 0 \<and> i \<noteq> 4 \<longrightarrow> get_reg16 i t = get_reg16 i s))
   \<and> (if uint x32 = 0 \<or> 2 ^ 32 \<le> uint (word_cat (get_reg32 2 s) (get_reg32 0 s) :: u64) div uint x32 then cpu_muldiv32 op (x32) s = Some (Raise 0 0 s)
      else \<exists>t. cpu_muldiv32 op (x32) s = Some (Done t) \<and> t = s\<lparr>m_reg32 := m_reg32 t\<rparr>
        \<and> uint (get_reg32 0 t) = uint (word_cat (get_reg32 2 s) (get_reg32 0 s) :: u64) div uint x32 \<and> uint (get_reg32 2 t) = uint (word_cat (get_reg32 2 s) (get_reg32 0 s) :: u64) mod uint x32
        \<and> (\<forall>i. i \<noteq> 0 \<and> i \<noteq> 2 \<longrightarrow> get_reg32 i t = get_reg32 i s))"
  by (intro conjI div8_ok [OF assms] div16_ok [OF assms] div32_ok [OF assms])

theorem div_correct_witness:
  "\<exists>t. cpu_muldiv32 6 3 acc_cpu = Some (Done t) \<and> uint (get_reg32 0 t) = 10922 \<and> uint (get_reg32 2 t) = 2"
proof -
  have a: "uint (word_cat (0::u32) (0x8000::u32) :: u64) = 0x8000" by code_simp
  show ?thesis
    using div_correct [of 6 3 acc_cpu 3 3, THEN conjunct2, THEN conjunct2] by (auto simp: acc_cpu_regs a)
qed

text \<open>C23: IDIV gives the quotient truncated towards zero and the remainder with the sign of
  the dividend, raises the divide error for a zero divisor or a quotient out of range, and
  changes nothing else; but for the most negative 32- or 64-bit dividend over minus one the
  division is carried out on the host, which traps (\<open>None\<close>) where the guest should see
  the divide error.\<close>
theorem idiv_correct:
  assumes "op AND 7 = 7"
  shows "(if sint x8 = 0 then cpu_muldiv8 op (ucast (x8 :: u8)) s = Some (Raise 0 0 s)
      else if sint (get_reg16 0 s) sdiv sint x8 < - (2 ^ 7) \<or> 2 ^ 7 \<le> sint (get_reg16 0 s) sdiv sint x8 then cpu_muldiv8 op (ucast (x8 :: u8)) s = Some (Raise 0 0 s)
      else \<exists>t. cpu_muldiv8 op (ucast (x8 :: u8)) s = Some (Done t) \<and> t = s\<lparr>m_reg32 := m_reg32 t\<rparr>
        \<and> sint (get_reg8 0 t) = sint (get_reg16 0 s) sdiv sint x8 \<and> sint (get_reg8 1 t) = sint (get_reg16 0 s) smod sint x8
        \<and> (\<forall>i. i \<noteq> 0 \<and> i \<noteq> 1 \<longrightarrow> get_reg8 i t = get_reg8 i s))
   \<and> (if sint x16 = 0 then cpu_muldiv16 op (ucast (x16 :: u16)) s = Some (Raise 0 0 s)
      else if sint (word_cat (get_reg16 4 s) (get_reg16 0 s) :: u32) = - (2 ^ 31) \<and> sint x16 = - 1 then cpu_muldiv16 op (ucast (x16 :: u16)) s = None
      else if sint (word_cat (get_reg16 4 s) (get_reg16 0 s) :: u32) sdiv sint x16 < - (2 ^ 15) \<or> 2 ^ 15 \<le> sint (word_cat (get_reg16 4 s) (get_reg16 0 s) :: u32) sdiv sint x16 then cpu_muldiv16 op (ucast (x16 :: u16)) s = Some (Raise 0 0 s)
      else \<exists>t. cpu_muldiv16 op (ucast (x16 :: u16)) s = Some (Done t) \<and> t = s\<lparr>m_reg32 := m_reg32 t\<rparr>
        \<and> sint (get_reg16 0 t) = sint (word_cat (get_reg16 4 s) (get_reg16 0 s) :: u32) sdiv sint x16 \<and> sint (get_reg16 4 t) = sint (word_cat (get_reg16 4 s) (get_reg16 0 s) :: u32) smod sint x16
        \<and> (\<forall>i. i \<noteq> 0 \<and> i \<noteq> 4 \<longrightarrow> get_reg16 i t = get_reg16 i s))
   \<and> (if sint x32 = 0 then cpu_muldiv32 op (x32) s = Some (Raise 0 0 s)
      else if sint (word_cat (get_reg32 2 s) (get_reg32 0 s) :: u64) = - (2 ^ 63) \<and> sint x32 = - 1 then cpu_muldiv32 op (x32) s = None
      else if sint (word_cat (get_reg32 2 s) (get_reg32 0 s) :: u64) sdiv sint x32 < - (2 ^ 31) \<or> 2 ^ 31 \<le> sint (word_cat (get_reg32 2 s) (get_reg32 0 s) :: u64) sdiv sint x32 then cpu_muldiv32 op (x32) s = Some (Raise 0 0 s)
      else \<exists>t. cpu_muldiv32 op (x32) s = Some (Done t) \<and> t = s\<lparr>m_reg32 := m_reg32 t\<rparr>
        \<and> sint (get_reg32 0 t) = sint (word_cat (get_reg32 2 s) (get_reg32 0 s) :: u64) sdiv sint x32 \<and> sint (get_reg32 2 t) = sint (word_cat (get_reg32 2 s) (get_reg32 0 s) :: u64) smod sint x32
        \<and> (\<forall>i. i \<noteq> 0 \<and> i \<noteq> 2 \<longrightarrow> get_reg32 i t = get_reg32 i s))"
  by (intro conjI idiv8_ok [OF assms] idiv16_ok [OF assms] idiv32_ok [OF assms])

theorem idiv_correct_witness:
  "cpu_muldiv16 7 0xFFFF (set_reg16 0 0 (set_reg16 4 0x8000 acc_cpu)) = None"
proof -
  have a: "sint (word_cat (0x8000::u16) (0::u16) :: u32) = - (2 ^ 31)" by code_simp
  have b: "sint (0xFFFF::u16) = - 1" by simp
  show ?thesis
    using idiv_correct [of 7 0 "set_reg16 0 0 (set_reg16 4 0x8000 acc_cpu)" "0xFFFF" 0, THEN conjunct2, THEN conjunct1]
    by (simp add: reg16.get_set a b)
qed

text \<open>C33: CMPXCHG compares the accumulator with the destination: when they are equal
  the destination takes the source and the accumulator is unchanged, otherwise the
  accumulator takes the destination; the flags are those of the comparison. XADD leaves the
  sum in the destination and the old destination in the source, with the flags of the sum.\<close>
theorem cmpxchg_xadd_correct:
  "(case cpu_cmpxchg8 d8 x8 s of (d, t) \<Rightarrow>
        d = (if get_reg8 0 s = d8 then x8 else d8)
      \<and> get_reg8 i t = (if i = 0 then d8 else get_reg8 i s)
      \<and> flags_of t = Some (sub_flags (get_reg8 0 s) d8 False))
   \<and> (case xadd8 d8 x8 s of (ds, t) \<Rightarrow>
        ds = (d8 + x8, d8) \<and> flags_of t = Some (add_flags d8 x8 False) \<and> lazy_frame s t)
   \<and> (case cpu_cmpxchg16 d16 x16 s of (d, t) \<Rightarrow>
        d = (if get_reg16 0 s = d16 then x16 else d16)
      \<and> get_reg16 i t = (if i = 0 then d16 else get_reg16 i s)
      \<and> flags_of t = Some (sub_flags (get_reg16 0 s) d16 False))
   \<and> (case xadd16 d16 x16 s of (ds, t) \<Rightarrow>
        ds = (d16 + x16, d16) \<and> flags_of t = Some (add_flags d16 x16 False) \<and> lazy_frame s t)
   \<and> (case cpu_cmpxchg32 d32 x32 s of (d, t) \<Rightarrow>
        d = (if get_reg32 0 s = d32 then x32 else d32)
      \<and> get_reg32 i t = (if i = 0 then d32 else get_reg32 i s)
      \<and> flags_of t = Some (sub_flags (get_reg32 0 s) d32 False))
   \<and> (case xadd32 d32 x32 s of (ds, t) \<Rightarrow>
        ds = (d32 + x32, d32) \<and> flags_of t = Some (add_flags d32 x32 False) \<and> lazy_frame s t)"
  by (intro conjI cmpxchg8_ok cmpxchg16_ok cmpxchg32_ok)
    (insert xadd8_spec [of d8 x8 s] xadd16_spec [of d16 x16 s] xadd32_spec [of d32 x32 s],
     auto simp: split_beta prod_eq_iff)

end
