(* ===== verification/Io_Bus.thy ===== *)
theory Io_Bus
  imports Machine_Prelude
begin

text \<open>
  Model of src/src/io.cpp: the port tables (one handler per port and access size), the table
  of memory-mapped regions, and the reset list. The devices behind the handlers are a state
  of type \<open>'d\<close>; a handler is a function on it, \<open>None\<close> being an abort of the
  emulator, or one of the default handlers of the file. Access sizes 0, 1, 2 are byte, word
  and double word.
\<close>

section \<open>Handlers and tables\<close>

datatype 'd rd_cb = Rd_default | Rd "u32 \<Rightarrow> 'd \<Rightarrow> (u32 \<times> 'd) option"
datatype 'd wr_cb = Wr_default | Wr "u32 \<Rightarrow> u32 \<Rightarrow> 'd \<Rightarrow> 'd option"

record 'd mmio =
  mm_r :: "nat \<Rightarrow> 'd rd_cb"
  mm_w :: "nat \<Rightarrow> 'd wr_cb"
  mm_begin :: u32
  mm_end :: u32

record 'd io_bus =
  io_dev :: 'd
  io_rtab :: "u32 \<Rightarrow> nat \<Rightarrow> 'd rd_cb"
  io_wtab :: "u32 \<Rightarrow> nat \<Rightarrow> 'd wr_cb"
  io_resets :: "('d \<Rightarrow> 'd option) list"
  io_mmio :: "nat \<Rightarrow> 'd mmio"
  io_mmio_pos0 :: nat
  io_mmio_pos1 :: nat
  io_tf :: bool

definition max_mmio :: nat where "max_mmio = 10"
definition max_resets :: nat where "max_resets = 15"

definition io_with :: "('d \<Rightarrow> 'd option) \<Rightarrow> 'd io_bus \<Rightarrow> 'd io_bus option" where
  "io_with f io = map_option (\<lambda>d. io\<lparr>io_dev := d\<rparr>) (f (io_dev io))"

definition io_ask :: "('d \<Rightarrow> (u32 \<times> 'd) option) \<Rightarrow> 'd io_bus \<Rightarrow> (u32 \<times> 'd io_bus) option" where
  "io_ask f io = map_option (\<lambda>(v, d). (v, io\<lparr>io_dev := d\<rparr>)) (f (io_dev io))"

section \<open>Port accesses\<close>

definition io_readb :: "u32 \<Rightarrow> 'd io_bus \<Rightarrow> (u8 \<times> 'd io_bus) option" where
  "io_readb port io =
     (case io_rtab io (port AND 0xFFFF) 0 of
        Rd_default \<Rightarrow> Some (ucast (- 1 :: u32), io)
      | Rd f \<Rightarrow> map_option (\<lambda>(v, io). (ucast v, io)) (io_ask (f port) io))"

definition io_default_readw :: "u32 \<Rightarrow> 'd io_bus \<Rightarrow> (u32 \<times> 'd io_bus) option" where
  "io_default_readw port io = do {
     (a, io) \<leftarrow> io_readb port io;
     (b, io) \<leftarrow> io_readb (port + 1) io;
     Some (ucast (ucast a :: u16) OR push_bit 8 (ucast b), io)
   }"

definition io_default_readd :: "u32 \<Rightarrow> 'd io_bus \<Rightarrow> (u32 \<times> 'd io_bus) option" where
  "io_default_readd port io = do {
     (a, io) \<leftarrow> io_readb port io;
     (b, io) \<leftarrow> io_readb (port + 1) io;
     (c, io) \<leftarrow> io_readb (port + 2) io;
     (d, io) \<leftarrow> io_readb (port + 3) io;
     Some (ucast a OR push_bit 8 (ucast b) OR push_bit 16 (ucast c) OR push_bit 24 (ucast d), io)
   }"

definition io_readw :: "u32 \<Rightarrow> 'd io_bus \<Rightarrow> (u16 \<times> 'd io_bus) option" where
  "io_readw port io =
     map_option (\<lambda>(v, io). (ucast v, io))
       (case io_rtab io (port AND 0xFFFF) 1 of
          Rd_default \<Rightarrow> io_default_readw port io
        | Rd f \<Rightarrow> io_ask (f port) io)"

definition io_readd :: "u32 \<Rightarrow> 'd io_bus \<Rightarrow> (u32 \<times> 'd io_bus) option" where
  "io_readd port io =
     (case io_rtab io (port AND 0xFFFF) 2 of
        Rd_default \<Rightarrow> io_default_readd port io
      | Rd f \<Rightarrow> io_ask (f port) io)"

definition io_writeb :: "u32 \<Rightarrow> u8 \<Rightarrow> 'd io_bus \<Rightarrow> 'd io_bus option" where
  "io_writeb port data io =
     (case io_wtab io (port AND 0xFFFF) 0 of
        Wr_default \<Rightarrow> Some io
      | Wr f \<Rightarrow> io_with (f port (ucast data)) io)"

definition io_default_writew :: "u32 \<Rightarrow> u32 \<Rightarrow> 'd io_bus \<Rightarrow> 'd io_bus option" where
  "io_default_writew port data io = do {
     io \<leftarrow> io_writeb port (ucast data) io;
     io_writeb (port + 1) (ucast (drop_bit 8 data)) io
   }"

definition io_default_writed :: "u32 \<Rightarrow> u32 \<Rightarrow> 'd io_bus \<Rightarrow> 'd io_bus option" where
  "io_default_writed port data io = do {
     io \<leftarrow> io_writeb port (ucast data) io;
     io \<leftarrow> io_writeb (port + 1) (ucast (drop_bit 8 data)) io;
     io \<leftarrow> io_writeb (port + 2) (ucast (drop_bit 16 data)) io;
     io_writeb (port + 3) (ucast (drop_bit 24 data)) io
   }"

definition io_writew :: "u32 \<Rightarrow> u16 \<Rightarrow> 'd io_bus \<Rightarrow> 'd io_bus option" where
  "io_writew port data io =
     (case io_wtab io (port AND 0xFFFF) 1 of
        Wr_default \<Rightarrow> io_default_writew port (ucast data) io
      | Wr f \<Rightarrow> io_with (f port (ucast data)) io)"

definition io_writed :: "u32 \<Rightarrow> u32 \<Rightarrow> 'd io_bus \<Rightarrow> 'd io_bus option" where
  "io_writed port data io =
     (case io_wtab io (port AND 0xFFFF) 2 of
        Wr_default \<Rightarrow> io_default_writed port data io
      | Wr f \<Rightarrow> io_with (f port data) io)"

section \<open>Registration of ports\<close>

text \<open>The argument gives the handler of each size; a null pointer is the default.\<close>

fun io_fill :: "nat \<Rightarrow> u32 \<Rightarrow> (nat \<Rightarrow> 'c) \<Rightarrow> (u32 \<Rightarrow> nat \<Rightarrow> 'c) \<Rightarrow> u32 \<Rightarrow> nat \<Rightarrow> 'c" where
  "io_fill 0 port h tab = tab"
| "io_fill (Suc n) port h tab =
     io_fill n (port + 1) h (tab(port AND 0xFFFF := (\<lambda>sz. if sz < 3 then h sz else tab (port AND 0xFFFF) sz)))"

definition io_register_read :: "u32 \<Rightarrow> nat \<Rightarrow> (nat \<Rightarrow> 'd rd_cb) \<Rightarrow> 'd io_bus \<Rightarrow> 'd io_bus" where
  "io_register_read port len h io = io\<lparr>io_rtab := io_fill len port h (io_rtab io)\<rparr>"

definition io_register_write :: "u32 \<Rightarrow> nat \<Rightarrow> (nat \<Rightarrow> 'd wr_cb) \<Rightarrow> 'd io_bus \<Rightarrow> 'd io_bus" where
  "io_register_write port len h io = io\<lparr>io_wtab := io_fill len port h (io_wtab io)\<rparr>"

definition io_unregister_read :: "u32 \<Rightarrow> nat \<Rightarrow> 'd io_bus \<Rightarrow> 'd io_bus" where
  "io_unregister_read port len io = io\<lparr>io_rtab := io_fill len port (\<lambda>_. Rd_default) (io_rtab io)\<rparr>"

definition io_unregister_write :: "u32 \<Rightarrow> nat \<Rightarrow> 'd io_bus \<Rightarrow> 'd io_bus" where
  "io_unregister_write port len io = io\<lparr>io_wtab := io_fill len port (\<lambda>_. Wr_default) (io_wtab io)\<rparr>"

definition io_register_reset :: "('d \<Rightarrow> 'd option) \<Rightarrow> 'd io_bus \<Rightarrow> 'd io_bus option" where
  "io_register_reset cb io =
     (if length (io_resets io) = max_resets then None else Some (io\<lparr>io_resets := io_resets io @ [cb]\<rparr>))"

fun io_run_resets :: "('d \<Rightarrow> 'd option) list \<Rightarrow> 'd io_bus \<Rightarrow> 'd io_bus option" where
  "io_run_resets [] io = Some io"
| "io_run_resets (r # rs) io = do { io \<leftarrow> io_with r io; io_run_resets rs io }"

definition io_trigger_reset :: "'d io_bus \<Rightarrow> 'd io_bus option" where
  "io_trigger_reset io = io_run_resets (io_resets io) io"

section \<open>Memory-mapped regions\<close>

text \<open>The loop over the slots; the first region that holds the address wins.\<close>

definition mmio_hit :: "u32 \<Rightarrow> 'd mmio \<Rightarrow> bool" where
  "mmio_hit addr m \<longleftrightarrow> mm_begin m \<le> addr \<and> addr \<le> mm_end m"

definition mmio_find :: "u32 \<Rightarrow> 'd io_bus \<Rightarrow> 'd mmio option" where
  "mmio_find addr io = List.find (mmio_hit addr) (map (io_mmio io) [0..<max_mmio + 1])"

definition io_mmio_readb :: "u32 \<Rightarrow> 'd io_bus \<Rightarrow> (u32 \<times> 'd io_bus) option" where
  "io_mmio_readb addr io =
     (case mmio_find addr io of
        None \<Rightarrow> None
      | Some m \<Rightarrow> (case mm_r m 0 of Rd_default \<Rightarrow> Some (- 1, io) | Rd f \<Rightarrow> io_ask (f addr) io))"

definition io_default_mmio_readw :: "u32 \<Rightarrow> 'd io_bus \<Rightarrow> (u32 \<times> 'd io_bus) option" where
  "io_default_mmio_readw addr io = do {
     (a, io) \<leftarrow> io_mmio_readb addr io;
     (b, io) \<leftarrow> io_mmio_readb (addr + 1) io;
     Some (ucast (ucast a :: u16) OR push_bit 8 b, io)
   }"

definition io_default_mmio_readd :: "u32 \<Rightarrow> 'd io_bus \<Rightarrow> (u32 \<times> 'd io_bus) option" where
  "io_default_mmio_readd addr io = do {
     (a, io) \<leftarrow> io_mmio_readb addr io;
     (b, io) \<leftarrow> io_mmio_readb (addr + 1) io;
     (c, io) \<leftarrow> io_mmio_readb (addr + 2) io;
     (d, io) \<leftarrow> io_mmio_readb (addr + 3) io;
     Some (a OR push_bit 8 b OR push_bit 16 c OR push_bit 24 d, io)
   }"

definition io_handle_mmio_read :: "u32 \<Rightarrow> nat \<Rightarrow> 'd io_bus \<Rightarrow> (u32 \<times> 'd io_bus) option" where
  "io_handle_mmio_read addr sz io =
     (case mmio_find addr io of
        None \<Rightarrow> None
      | Some m \<Rightarrow>
          (case mm_r m sz of
             Rd f \<Rightarrow> io_ask (f addr) io
           | Rd_default \<Rightarrow>
               if sz = 0 then io_mmio_readb addr io
               else if sz = 1 then io_default_mmio_readw addr io
               else io_default_mmio_readd addr io))"

definition io_mmio_writeb :: "u32 \<Rightarrow> u32 \<Rightarrow> 'd io_bus \<Rightarrow> 'd io_bus option" where
  "io_mmio_writeb addr data io =
     (case mmio_find addr io of
        None \<Rightarrow> None
      | Some m \<Rightarrow> (case mm_w m 0 of Wr_default \<Rightarrow> Some io | Wr f \<Rightarrow> io_with (f addr data) io))"

definition io_default_mmio_writew :: "u32 \<Rightarrow> u32 \<Rightarrow> 'd io_bus \<Rightarrow> 'd io_bus option" where
  "io_default_mmio_writew addr data io = do {
     io \<leftarrow> io_mmio_writeb addr (data AND 0xFF) io;
     io_mmio_writeb (addr + 1) (drop_bit 8 data AND 0xFF) io
   }"

definition io_default_mmio_writed :: "u32 \<Rightarrow> u32 \<Rightarrow> 'd io_bus \<Rightarrow> 'd io_bus option" where
  "io_default_mmio_writed addr data io = do {
     io \<leftarrow> io_mmio_writeb addr (data AND 0xFF) io;
     io \<leftarrow> io_mmio_writeb (addr + 1) (drop_bit 8 data AND 0xFF) io;
     io \<leftarrow> io_mmio_writeb (addr + 2) (drop_bit 16 data AND 0xFF) io;
     io_mmio_writeb (addr + 3) (drop_bit 24 data AND 0xFF) io
   }"

definition io_handle_mmio_write :: "u32 \<Rightarrow> u32 \<Rightarrow> nat \<Rightarrow> 'd io_bus \<Rightarrow> 'd io_bus option" where
  "io_handle_mmio_write addr data sz io =
     (case mmio_find addr io of
        None \<Rightarrow> None
      | Some m \<Rightarrow>
          (case mm_w m sz of
             Wr f \<Rightarrow> io_with (f addr data) io
           | Wr_default \<Rightarrow>
               if sz = 0 then io_mmio_writeb addr data io
               else if sz = 1 then io_default_mmio_writew addr data io
               else io_default_mmio_writed addr data io))"

definition io_addr_mmio_read :: "u32 \<Rightarrow> 'd io_bus \<Rightarrow> bool" where
  "io_addr_mmio_read addr io = (case mmio_find addr io of None \<Rightarrow> False | Some m \<Rightarrow> mm_begin m \<noteq> 0)"

text \<open>Registration: two cursors over the same slots, one for reads and one for writes.\<close>

definition io_register_mmio_read :: "u32 \<Rightarrow> u32 \<Rightarrow> (nat \<Rightarrow> 'd rd_cb) \<Rightarrow> 'd io_bus \<Rightarrow> 'd io_bus option" where
  "io_register_mmio_read start len h io =
     (let p = io_mmio_pos0 io in
      if io_tf io \<and> p = max_mmio then None
      else Some (io\<lparr>io_mmio := (io_mmio io)(p := (io_mmio io p)\<lparr>mm_begin := start, mm_end := start + len,
                      mm_r := (\<lambda>sz. if sz < 3 then h sz else mm_r (io_mmio io p) sz)\<rparr>),
                    io_mmio_pos0 := p + 1\<rparr>))"

definition io_register_mmio_write :: "u32 \<Rightarrow> u32 \<Rightarrow> (nat \<Rightarrow> 'd wr_cb) \<Rightarrow> 'd io_bus \<Rightarrow> 'd io_bus option" where
  "io_register_mmio_write start len h io =
     (let p = io_mmio_pos1 io in
      if io_tf io \<and> p = max_mmio then None
      else Some (io\<lparr>io_mmio := (io_mmio io)(p := (io_mmio io p)\<lparr>mm_begin := start, mm_end := start + len,
                      mm_w := (\<lambda>sz. if sz < 3 then h sz else mm_w (io_mmio io p) sz)\<rparr>),
                    io_mmio_pos1 := p + 1\<rparr>))"

fun io_remap_from :: "nat list \<Rightarrow> u32 \<Rightarrow> u32 \<Rightarrow> 'd io_bus \<Rightarrow> 'd io_bus" where
  "io_remap_from [] oldstart newstart io = io"
| "io_remap_from (i # is) oldstart newstart io =
     (if mm_begin (io_mmio io i) = oldstart
      then io\<lparr>io_mmio := (io_mmio io)(i := (io_mmio io i)\<lparr>mm_begin := newstart,
                mm_end := (mm_end (io_mmio io i) - oldstart) + newstart\<rparr>)\<rparr>
      else io_remap_from is oldstart newstart io)"

definition io_remap_mmio_read :: "u32 \<Rightarrow> u32 \<Rightarrow> 'd io_bus \<Rightarrow> 'd io_bus" where
  "io_remap_mmio_read oldstart newstart io = io_remap_from [0..<max_mmio] oldstart newstart io"

text \<open>The start-up: every port and every region has the default handlers.\<close>

fun io_init_regions :: "nat \<Rightarrow> 'd io_bus \<Rightarrow> 'd io_bus option" where
  "io_init_regions 0 io = Some io"
| "io_init_regions (Suc n) io = do {
     io \<leftarrow> io_register_mmio_read 0 (- 1) (\<lambda>_. Rd_default) io;
     io \<leftarrow> io_register_mmio_write 0 (- 1) (\<lambda>_. Wr_default) io;
     io_init_regions n io
   }"

definition io_init :: "'d io_bus \<Rightarrow> 'd io_bus option" where
  "io_init io = do {
     let io = io_register_read 0 65536 (\<lambda>_. Rd_default) io;
     let io = io_register_write 0 65536 (\<lambda>_. Wr_default) io;
     io \<leftarrow> io_init_regions (max_mmio + 1) (io\<lparr>io_tf := False\<rparr>);
     Some (io\<lparr>io_mmio_pos0 := 0, io_mmio_pos1 := 0, io_tf := True\<rparr>)
   }"

end
