(* ===== verification/Cpu_Mem.thy ===== *)
theory Cpu_Mem
  imports Cpu_Regs Io_Bus
begin

text \<open>
  The memory side of class \<open>CPU\<close>: guest RAM, the translation look-aside buffer,
  the map of pages with translated code and the trace table, with the operations of
  src/src/cpu/smc.cpp, src/src/cpu/trace.cpp and the TLB maintenance of
  src/src/cpu/mmu.cpp. Arrays are functions from the index. A TLB entry holds the host
  pointer of its page relative to the start of guest RAM and to the linear address, so that
  the pointer for an address is the entry plus the address; \<open>None\<close> is the null pointer.
\<close>

section \<open>State\<close>

record trace_info =
  t_phys :: u32
  t_state_hash :: u32
  t_flags :: u32

text \<open>The control fields of \<open>float_status\<close> that MXCSR decodes into.\<close>

record sse_status =
  float_exception_flags :: u32
  float_nan_first_operand :: bool
  float_rounding_mode :: u32
  flush_underflow_to_zero :: u32
  float_exception_masks :: u32
  float_suppress_exception :: u32
  denormals_are_zeros :: u32

record 'd cpu_mem = cpu_regs +
  m_seg :: "nat \<Rightarrow> u16"
  m_seg_base :: "nat \<Rightarrow> u32"
  m_seg_limit :: "nat \<Rightarrow> u32"
  m_seg_access :: "nat \<Rightarrow> u32"
  m_cr :: "nat \<Rightarrow> u32"
  m_dr :: "nat \<Rightarrow> u32"
  m_cpl :: u32
  m_esp_mask :: u32
  m_state_hash :: u32
  m_phys_eip :: u32
  m_last_phys_eip :: u32
  m_eip_phys_bias :: u32
  m_a20_mask :: u32
  m_memory_size :: u32
  m_mem :: "u32 \<Rightarrow> u8"
  m_ia32_efer :: u64
  m_apic_base :: u64
  m_tsc_fudge :: u64
  m_mtrr_fixed :: "nat \<Rightarrow> u64"
  m_mtrr_variable_addr_mask :: "nat \<Rightarrow> u64"
  m_mtrr_deftype :: u64
  m_page_attribute_tables :: u64
  m_sysenter :: "nat \<Rightarrow> u32"
  m_tlb :: "u32 \<Rightarrow> u32 option"
  m_tlb_tags :: "u32 \<Rightarrow> u8"
  m_tlb_attrs :: "u32 \<Rightarrow> u8"
  m_tlb_entry_indexes :: "nat \<Rightarrow> u32"
  m_tlb_entry_count :: nat
  m_tlb_shift_read :: nat
  m_tlb_shift_write :: nat
  m_read_result :: u32
  m_smc_has_code_length :: u32
  m_smc_has_code :: "u32 \<Rightarrow> u32"
  m_trace_info :: "u32 \<Rightarrow> trace_info"
  m_trace_cache_usage :: u32
  m_winnt_limit_cpuid :: u32
  m_mxcsr :: u32
  m_status :: sse_status
  m_bus :: "'d io_bus"

section \<open>Outcome of a routine\<close>

text \<open>
  A routine returns, or calls \<open>cpu_exception(vector, code)\<close> on the state reached
  and returns 1, or leaves C++ (an abort, or an access outside the host array).
\<close>

datatype ('a, 's) outcome = Ok 'a 's | Fault u32 u32 's | Abort

fun seq :: "('a, 's) outcome \<Rightarrow> ('a \<Rightarrow> 's \<Rightarrow> ('b, 's) outcome) \<Rightarrow> ('b, 's) outcome" where
  "seq (Ok x s) f = f x s"
| "seq (Fault v c s) f = Fault v c s"
| "seq Abort f = Abort"

lemma seq_Ok_iff: "seq m f = Ok y t \<longleftrightarrow> (\<exists>x s. m = Ok x s \<and> f x s = Ok y t)"
  by (cases m) auto

lemma seq_assoc: "seq (seq m f) g = seq m (\<lambda>x s. seq (f x s) g)"
  by (cases m) auto

lemma seq_return [simp]: "seq m Ok = m"
  by (cases m) auto

text \<open>The exceptions of the code carry the flag 0x10000 in their error code.\<close>

definition raise_code :: "u32 \<Rightarrow> u32 \<Rightarrow> 's \<Rightarrow> ('a, 's) outcome" where
  "raise_code v code s = Fault v (code OR 0x10000) s"

section \<open>Guest RAM\<close>

definition ram_ok :: "nat \<Rightarrow> u32 \<Rightarrow> 'd cpu_mem \<Rightarrow> bool" where
  "ram_ok n p s \<longleftrightarrow> unat p + n \<le> unat (m_memory_size s)"

definition ram_get16 :: "u32 \<Rightarrow> 'd cpu_mem \<Rightarrow> u16" where
  "ram_get16 p s = word_cat (m_mem s (p + 1)) (m_mem s p)"

definition ram_get32 :: "u32 \<Rightarrow> 'd cpu_mem \<Rightarrow> u32" where
  "ram_get32 p s = word_cat (ram_get16 (p + 2) s) (ram_get16 p s)"

definition ram_put8 :: "u32 \<Rightarrow> u8 \<Rightarrow> 'd cpu_mem \<Rightarrow> 'd cpu_mem" where
  "ram_put8 p v s = s\<lparr>m_mem := (m_mem s)(p := v)\<rparr>"

definition ram_put16 :: "u32 \<Rightarrow> u16 \<Rightarrow> 'd cpu_mem \<Rightarrow> 'd cpu_mem" where
  "ram_put16 p v s = ram_put8 (p + 1) (ucast (drop_bit 8 v)) (ram_put8 p (ucast v) s)"

definition ram_put32 :: "u32 \<Rightarrow> u32 \<Rightarrow> 'd cpu_mem \<Rightarrow> 'd cpu_mem" where
  "ram_put32 p v s = ram_put16 (p + 2) (ucast (drop_bit 16 v)) (ram_put16 p (ucast v) s)"

definition mmio_read :: "u32 \<Rightarrow> nat \<Rightarrow> 'd cpu_mem \<Rightarrow> (u32, 'd cpu_mem) outcome" where
  "mmio_read p sz s =
     (case io_handle_mmio_read p sz (m_bus s) of
        None \<Rightarrow> Abort | Some (v, io) \<Rightarrow> Ok v (s\<lparr>m_bus := io\<rparr>))"

definition mmio_write :: "u32 \<Rightarrow> u32 \<Rightarrow> nat \<Rightarrow> 'd cpu_mem \<Rightarrow> (unit, 'd cpu_mem) outcome" where
  "mmio_write p v sz s =
     (case io_handle_mmio_write p v sz (m_bus s) of
        None \<Rightarrow> Abort | Some io \<Rightarrow> Ok () (s\<lparr>m_bus := io\<rparr>))"

section \<open>The trace table\<close>

definition hash_eip :: "u32 \<Rightarrow> u32" where
  "hash_eip phys = phys AND (64 * 1024 - 1)"

definition cpu_trace_flush :: "'d cpu_mem \<Rightarrow> 'd cpu_mem" where
  "cpu_trace_flush s =
     s\<lparr>m_trace_info := (\<lambda>i. if unat i < 64 * 1024 then \<lparr>t_phys = 0, t_state_hash = 0, t_flags = 0\<rparr>
                            else m_trace_info s i),
       m_trace_cache_usage := 0\<rparr>"

definition cpu_trace_get_entry :: "u32 \<Rightarrow> 'd cpu_mem \<Rightarrow> trace_info option" where
  "cpu_trace_get_entry phys s =
     (let i = m_trace_info s (hash_eip phys) in if t_phys i \<noteq> phys then None else Some i)"

section \<open>Invalidation of TLB entries\<close>

definition tlb_drop :: "nat \<Rightarrow> 'd cpu_mem \<Rightarrow> 'd cpu_mem" where
  "tlb_drop i s =
     (let entry = m_tlb_entry_indexes s i in
      s\<lparr>m_tlb := (m_tlb s)(entry := None), m_tlb_tags := (m_tlb_tags s)(entry := 0xFF),
        m_tlb_entry_indexes := (m_tlb_entry_indexes s)(i := - 1),
        m_tlb_attrs := (m_tlb_attrs s)(entry := 0xFF)\<rparr>)"

fun tlb_flush_from :: "nat list \<Rightarrow> 'd cpu_mem \<Rightarrow> 'd cpu_mem" where
  "tlb_flush_from [] s = s"
| "tlb_flush_from (i # is) s =
     tlb_flush_from is (if m_tlb_entry_indexes s i = - 1 then s else tlb_drop i s)"

definition cpu_mmu_tlb_flush :: "'d cpu_mem \<Rightarrow> 'd cpu_mem" where
  "cpu_mmu_tlb_flush s = (tlb_flush_from [0..<m_tlb_entry_count s] s)\<lparr>m_tlb_entry_count := 0\<rparr>"

fun tlb_flush_nonglobal_from :: "nat list \<Rightarrow> 'd cpu_mem \<Rightarrow> 'd cpu_mem" where
  "tlb_flush_nonglobal_from [] s = s"
| "tlb_flush_nonglobal_from (i # is) s =
     tlb_flush_nonglobal_from is
       (if m_tlb_entry_indexes s i = - 1 then s
        else if m_tlb_attrs s (m_tlb_entry_indexes s i) AND 2 = 0 then s
        else tlb_drop i s)"

definition cpu_mmu_tlb_flush_nonglobal :: "'d cpu_mem \<Rightarrow> 'd cpu_mem" where
  "cpu_mmu_tlb_flush_nonglobal s = tlb_flush_nonglobal_from [0..<m_tlb_entry_count s] s"

definition cpu_mmu_tlb_invalidate :: "u32 \<Rightarrow> 'd cpu_mem \<Rightarrow> 'd cpu_mem" where
  "cpu_mmu_tlb_invalidate lin s =
     s\<lparr>m_tlb := (m_tlb s)(drop_bit 12 lin := None), m_tlb_tags := (m_tlb_tags s)(drop_bit 12 lin := 0xFF)\<rparr>"

section \<open>Translated code\<close>

text \<open>One word per page, one bit per 128 bytes.\<close>

definition cpu_smc_page_has_code :: "u32 \<Rightarrow> 'd cpu_mem \<Rightarrow> bool" where
  "cpu_smc_page_has_code phys s \<longleftrightarrow>
     \<not> m_smc_has_code_length s \<le> drop_bit 12 phys \<and> m_smc_has_code s (drop_bit 12 phys) \<noteq> 0"

definition cpu_smc_has_code :: "u32 \<Rightarrow> 'd cpu_mem \<Rightarrow> bool" where
  "cpu_smc_has_code phys s \<longleftrightarrow>
     (let p = drop_bit 7 phys in
      \<not> m_smc_has_code_length s \<le> drop_bit 5 p \<and>
      m_smc_has_code s (drop_bit 5 p) AND push_bit (unat (p AND 31)) 1 \<noteq> 0)"

definition cpu_smc_set_code :: "u32 \<Rightarrow> 'd cpu_mem \<Rightarrow> 'd cpu_mem" where
  "cpu_smc_set_code phys s =
     (let p = drop_bit 7 phys; q = drop_bit 5 p in
      if m_smc_has_code_length s \<le> q then s
      else s\<lparr>m_smc_has_code := (m_smc_has_code s)(q := m_smc_has_code s q OR push_bit (unat (p AND 31)) 1)\<rparr>)"

text \<open>The inner loop over the 128 addresses of a chunk; the flag is \<open>quit\<close>.\<close>

fun smc_clear_chunk :: "nat list \<Rightarrow> u32 \<Rightarrow> u32 \<Rightarrow> bool \<times> 'd cpu_mem \<Rightarrow> bool \<times> 'd cpu_mem" where
  "smc_clear_chunk [] phys physbase (quit, s) = (quit, s)"
| "smc_clear_chunk (j # js) phys physbase (quit, s) =
     smc_clear_chunk js phys physbase
       (case cpu_trace_get_entry (physbase + of_nat j) s of
          None \<Rightarrow> (quit, s)
        | Some info \<Rightarrow>
            (quit \<or> (t_phys info \<le> phys \<and> phys \<le> t_phys info + (t_flags info AND 0x3FF)),
             s\<lparr>m_trace_info := (m_trace_info s)(hash_eip (physbase + of_nat j) := info\<lparr>t_phys := - 1\<rparr>)\<rparr>))"

fun smc_clear_chunks :: "nat list \<Rightarrow> u32 \<Rightarrow> u32 \<Rightarrow> u32 \<Rightarrow> bool \<times> 'd cpu_mem \<Rightarrow> bool \<times> 'd cpu_mem" where
  "smc_clear_chunks [] phys pagebase page_info qs = qs"
| "smc_clear_chunks (i # is) phys pagebase page_info qs =
     smc_clear_chunks is phys pagebase page_info
       (if page_info AND push_bit i 1 \<noteq> 0
        then smc_clear_chunk [0..<128] phys (pagebase + push_bit 7 (of_nat i)) qs else qs)"

definition cpu_smc_invalidate :: "u32 \<Rightarrow> u32 \<Rightarrow> 'd cpu_mem \<Rightarrow> 'd cpu_mem" where
  "cpu_smc_invalidate lin phys s =
     (let pageid = drop_bit 12 phys; pagebase = phys AND NOT 0xFFF in
      if m_smc_has_code_length s \<le> pageid then s
      else
        let page_info = m_smc_has_code s pageid;
            p128 = unat (drop_bit 7 phys AND 31);
            endmask = push_bit p128 1 :: u32;
            invmask = endmask OR (endmask - 1)
        in if page_info AND invmask = 0 then s
           else
             let (quit, s) = smc_clear_chunks [0..<p128 + 1] phys pagebase page_info (False, s);
                 page_info = page_info AND NOT invmask;
                 s = s\<lparr>m_smc_has_code := (m_smc_has_code s)(pageid := page_info)\<rparr>;
                 s = (if page_info = 0 then cpu_mmu_tlb_invalidate lin s else s)
             in if quit then cpu_request_fast_return 0 s else s)"

text \<open>The whole-page variant for DMA does not check the page number; \<open>quit\<close> starts as 1.\<close>

definition cpu_smc_invalidate_page :: "u32 \<Rightarrow> 'd cpu_mem \<Rightarrow> 'd cpu_mem option" where
  "cpu_smc_invalidate_page phys s =
     (let pageid = drop_bit 12 phys; pagebase = phys AND NOT 0xFFF in
      if m_smc_has_code_length s \<le> pageid then None
      else
        let page_info = m_smc_has_code s pageid;
            (quit, s) = smc_clear_chunks [0..<31] phys pagebase page_info (True, s)
        in Some (if quit then cpu_request_fast_return 0 s else s))"

definition cpu_init_dma :: "u32 \<Rightarrow> 'd cpu_mem \<Rightarrow> 'd cpu_mem option" where
  "cpu_init_dma page s = cpu_smc_invalidate_page page s"

text \<open>\<open>set_smc\<close> of the decoder: a trace of \<open>length\<close> bytes has been translated.\<close>

definition set_smc :: "nat \<Rightarrow> u32 \<Rightarrow> 'd cpu_mem \<Rightarrow> 'd cpu_mem" where
  "set_smc len lin s =
     (let s = s\<lparr>m_tlb_tags := (m_tlb_tags s)(drop_bit 12 lin := m_tlb_tags s (drop_bit 12 lin) OR 0x44)\<rparr>;
          b128 = unat (drop_bit 7 (m_phys_eip s + of_nat len) - drop_bit 7 (m_phys_eip s) + 1)
      in fold (\<lambda>i s. cpu_smc_set_code (m_phys_eip s + push_bit 7 (of_nat i)) s) [0..<b128] s)"

end
