(* ===== verification/Mmu.thy ===== *)
theory Mmu
  imports Cpu_Mem
begin

text \<open>
  Model of src/src/cpu/mmu.cpp (filling the TLB and walking the page tables, two-level and
  PAE), src/src/cpu/prot.cpp (control registers and the privilege level) and the address
  line 20 gate of src/src/cpu/cpu.cpp. An access kind is the shift of the source: 0 system
  read, 2 system write, 4 user read, 6 user write, plus 8 for an instruction fetch.
\<close>

section \<open>Filling the TLB\<close>

text \<open>
  All callers pass a null host pointer, so that the entry is the physical page. A tag holds
  two bits per access kind: bit 0 diverts the access to the slow path, bit 1 forces a walk.
\<close>

definition tlb_tag :: "bool \<Rightarrow> bool \<Rightarrow> bool \<Rightarrow> bool \<Rightarrow> u8" where
  "tlb_tag tag tag_write user write =
     (let t = of_bool tag; tw = of_bool tag_write;
          system_read = t;
          system_write = push_bit 2 (tw OR (if \<not> write then 3 else 0));
          user_read = push_bit 4 (t OR (if \<not> user then 3 else 0));
          user_write = push_bit 6 (tw OR (if \<not> user \<or> \<not> write then 3 else 0))
      in system_read OR system_write OR user_read OR user_write)"

definition cpu_set_tlb_entry ::
  "u32 \<Rightarrow> u32 \<Rightarrow> bool \<Rightarrow> bool \<Rightarrow> bool \<Rightarrow> bool \<Rightarrow> 'd cpu_mem \<Rightarrow> 'd cpu_mem" where
  "cpu_set_tlb_entry lin phys user write global nx s =
     (let phys = phys AND m_a20_mask s;
          phys = (if 0xFFF00000 \<le> phys then phys AND 0xFFFFF else phys);
          vga = (0xA0000 \<le> phys \<and> phys < 0x100000);
          beyond = (m_memory_size s \<le> phys);
          tag = (if vga then phys AND 0x40000 = 0 else False) \<or> beyond;
          tag_write = vga \<or> beyond \<or> cpu_smc_page_has_code phys s;
          s = (if 8192 \<le> m_tlb_entry_count s then cpu_mmu_tlb_flush s else s);
          entry = drop_bit 12 lin
      in s\<lparr>m_tlb_entry_indexes := (m_tlb_entry_indexes s)(m_tlb_entry_count s := entry),
           m_tlb_entry_count := m_tlb_entry_count s + 1,
           m_tlb_attrs := (m_tlb_attrs s)(entry := of_bool nx OR (if global then 0 else 2)),
           m_tlb := (m_tlb s)(entry := Some (phys - lin)),
           m_tlb_tags := (m_tlb_tags s)(entry := tlb_tag tag tag_write user write)\<rparr>)"

section \<open>Physical accesses of the walk\<close>

definition phys_is_io :: "u32 \<Rightarrow> 'd cpu_mem \<Rightarrow> bool" where
  "phys_is_io addr s \<longleftrightarrow> m_memory_size s \<le> addr \<or> (0xA0000 \<le> addr \<and> addr < 0xC0000)"

definition cpu_read_phys :: "u32 \<Rightarrow> 'd cpu_mem \<Rightarrow> (u32, 'd cpu_mem) outcome" where
  "cpu_read_phys addr s =
     (if phys_is_io addr s then mmio_read addr 2 s
      else if ram_ok 4 addr s then Ok (ram_get32 addr s) s else Abort)"

definition cpu_write_phys :: "u32 \<Rightarrow> u32 \<Rightarrow> 'd cpu_mem \<Rightarrow> (unit, 'd cpu_mem) outcome" where
  "cpu_write_phys addr data s =
     (if phys_is_io addr s then mmio_write addr data 2 s
      else if ram_ok 4 addr s then Ok () (ram_put32 addr data s) else Abort)"

section \<open>The walk\<close>

definition page_fault :: "u32 \<Rightarrow> u32 \<Rightarrow> 'd cpu_mem \<Rightarrow> ('a, 'd cpu_mem) outcome" where
  "page_fault lin code s = raise_code 14 code (s\<lparr>m_cr := (m_cr s)(2 := lin)\<rparr>)"

definition write_if :: "bool \<Rightarrow> u32 \<Rightarrow> u32 \<Rightarrow> 'd cpu_mem \<Rightarrow> (unit, 'd cpu_mem) outcome" where
  "write_if c addr data s = (if c then cpu_write_phys addr data s else Ok () s)"

text \<open>Two-level tables, \<open>CR4.PAE\<close> clear.\<close>

definition mmu_walk32 :: "u32 \<Rightarrow> bool \<Rightarrow> bool \<Rightarrow> 'd cpu_mem \<Rightarrow> (unit, 'd cpu_mem) outcome" where
  "mmu_walk32 lin write user s =
     (let access = push_bit 1 (of_bool write) OR push_bit 2 (of_bool user);
          page = lin AND NOT 0xFFF;
          pde_addr = m_cr s 3 + (drop_bit 20 lin AND 0xFFC)
      in seq (cpu_read_phys pde_addr s) (\<lambda>pde s.
         if \<not> bit pde 0 then page_fault lin access s
         else
           let pte_addr = (drop_bit 10 lin AND 0xFFC) + (pde AND NOT 0xFFF) in
           if pde AND 0x80 \<noteq> 0 \<and> bit (m_cr s 4) 4 then
             let new_pde = pde OR 0x20 OR push_bit 6 (of_bool write) in
             seq (write_if (new_pde \<noteq> pde) pde_addr new_pde s) (\<lambda>_ s.
               Ok () (cpu_set_tlb_entry page ((pde AND 0xFFC00000) OR (lin AND 0x3FF000))
                 user write (pde AND 0x100 \<noteq> 0) False s))
           else
             seq (cpu_read_phys pte_addr s) (\<lambda>pte s.
               if \<not> bit pte 0 then page_fault lin access s
               else
                 let combined = NOT pte OR NOT pde in
                 if combined AND push_bit 1 (of_bool write) \<noteq> 0 \<and> (user \<or> bit (m_cr s 0) 16)
                 then page_fault lin (1 OR access) s
                 else if combined AND push_bit 2 (of_bool user) \<noteq> 0
                 then page_fault lin (1 OR access) s
                 else
                   seq (write_if (pde AND 0x20 = 0) pde_addr (pde OR 0x20) s) (\<lambda>_ s.
                   let new_pte = pte OR push_bit 6 (of_bool write) OR 0x20 in
                   seq (write_if (new_pte \<noteq> pte) pte_addr new_pte s) (\<lambda>_ s.
                     Ok () (cpu_set_tlb_entry page (pte AND NOT 0xFFF) user write
                       (pte AND 0x100 \<noteq> 0) False s))))))"

text \<open>Three-level tables with 64-bit entries, \<open>CR4.PAE\<close> set.\<close>

definition pae_denied :: "u32 \<Rightarrow> bool \<Rightarrow> bool \<Rightarrow> 'd cpu_mem \<Rightarrow> bool" where
  "pae_denied e write user s \<longleftrightarrow>
     push_bit 1 (of_bool write) AND NOT e \<noteq> 0 \<and> (user \<or> bit (m_cr s 0) 16)
     \<or> push_bit 2 (of_bool user) AND NOT e \<noteq> 0"

definition mmu_walk_pae :: "u32 \<Rightarrow> bool \<Rightarrow> bool \<Rightarrow> bool \<Rightarrow> 'd cpu_mem \<Rightarrow> (unit, 'd cpu_mem) outcome" where
  "mmu_walk_pae lin execute write user s =
     (let access = push_bit 1 (of_bool write) OR push_bit 2 (of_bool user);
          page = lin AND NOT 0xFFF;
          pdp_addr = (m_cr s 3 AND NOT 31) OR (drop_bit 27 lin AND 0x18)
      in seq (cpu_read_phys pdp_addr s) (\<lambda>pdpte s.
         if \<not> bit pdpte 0 then page_fault lin access s
         else seq (cpu_read_phys (pdp_addr + 4) s) (\<lambda>pdpte2 s.
         if pdpte2 AND NOT 15 \<noteq> 0 then raise_code 13 0 s
         else
           let pde_addr = (pdpte AND NOT 0xFFF) OR (drop_bit 18 lin AND 0xFF8) in
           seq (cpu_read_phys pde_addr s) (\<lambda>pde s.
           seq (cpu_read_phys (pde_addr + 4) s) (\<lambda>pde2 s.
           let nx_mask = - 1 XOR (ucast (push_bit 20 (m_ia32_efer s)) AND 0x80000000) in
           seq (cpu_read_phys (pdp_addr + 4) s) (\<lambda>pdpte3 s.
           if pdpte3 AND NOT 15 AND nx_mask \<noteq> 0 then raise_code 13 0 s
           else if pde2 AND NOT 15 AND nx_mask \<noteq> 0 then raise_code 13 0 s
           else
             let nx_enabled = bit (m_ia32_efer s) 11;
                 nx = bit pde2 31 \<and> nx_enabled;
                 fail = access OR push_bit 4 (of_bool (execute \<and> nx_enabled))
             in if \<not> bit pde 0 then page_fault lin fail s
                else if pae_denied pde write user s then page_fault lin (fail OR 1) s
                else if bit pde 7 then
                  let new_pde = pde OR 0x20 OR push_bit 6 (of_bool write) in
                  seq (write_if (new_pde \<noteq> pde) pde_addr new_pde s) (\<lambda>_ s.
                    Ok () (cpu_set_tlb_entry page ((pde AND 0xFFE00000) OR (lin AND 0x1FF000))
                      user write (pde AND 0x100 \<noteq> 0) nx s))
                else
                  let pte_addr = (pde AND NOT 0xFFF) OR (drop_bit 9 lin AND 0xFF8) in
                  seq (cpu_read_phys pte_addr s) (\<lambda>pte s.
                  seq (cpu_read_phys (pte_addr + 4) s) (\<lambda>pte2 s.
                  if \<not> bit pte 0 then page_fault lin fail s
                  else if pae_denied pte write user s then page_fault lin (fail OR 1) s
                  else
                    let new_pde = pde OR 0x20 in
                    seq (write_if (new_pde \<noteq> pde) pde_addr new_pde s) (\<lambda>_ s.
                    let new_pte = pte OR 0x20 OR push_bit 6 (of_bool write) in
                    seq (write_if (new_pte \<noteq> pte) pte_addr new_pte s) (\<lambda>_ s.
                      Ok () (cpu_set_tlb_entry page (pte AND NOT 0xFFF) user write
                        (pte AND 0x100 \<noteq> 0) nx s)))))))))))"

definition cpu_mmu_translate :: "u32 \<Rightarrow> nat \<Rightarrow> 'd cpu_mem \<Rightarrow> (unit, 'd cpu_mem) outcome" where
  "cpu_mmu_translate lin shift s =
     (if \<not> bit (m_cr s 0) 31
      then Ok () (cpu_set_tlb_entry (lin AND NOT 0xFFF) (lin AND NOT 0xFFF) True True False False s)
      else if \<not> bit (m_cr s 4) 5 then mmu_walk32 lin (bit shift 1) (bit shift 2) s
      else mmu_walk_pae lin (bit shift 3) (bit shift 1) (bit shift 2) s)"

section \<open>Control registers and privilege level\<close>

definition cpu_prot_update_cpl :: "'d cpu_mem \<Rightarrow> 'd cpu_mem" where
  "cpu_prot_update_cpl s =
     (if m_cpl s = 3 then s\<lparr>m_tlb_shift_read := 4, m_tlb_shift_write := 6\<rparr>
      else s\<lparr>m_tlb_shift_read := 0, m_tlb_shift_write := 2\<rparr>)"

definition cpu_prot_set_cr :: "nat \<Rightarrow> u32 \<Rightarrow> 'd cpu_mem \<Rightarrow> 'd cpu_mem" where
  "cpu_prot_set_cr cr v s =
     (let diffxor = v XOR m_cr s cr;
          s = s\<lparr>m_cr := (m_cr s)(cr := v)\<rparr>
      in if cr = 0 then
           (if diffxor AND 0x80010001 \<noteq> 0 then cpu_mmu_tlb_flush s else s)
         else if cr = 3 then
           let s = s\<lparr>m_cr := (m_cr s)(3 := m_cr s 3 AND NOT 31)\<rparr>
           in if bit (m_cr s 4) 7 then cpu_mmu_tlb_flush_nonglobal s else cpu_mmu_tlb_flush s
         else if cr = 4 then
           (if diffxor AND 0x1200B0 \<noteq> 0 then cpu_mmu_tlb_flush s else s)
         else s)"

definition cpu_prot_set_dr :: "nat \<Rightarrow> u32 \<Rightarrow> 'd cpu_mem \<Rightarrow> 'd cpu_mem" where
  "cpu_prot_set_dr i val s =
     (if i \<le> 3 then cpu_mmu_tlb_invalidate val (s\<lparr>m_dr := (m_dr s)(i := val)\<rparr>)
      else if i = 6 then s\<lparr>m_dr := (m_dr s)(6 := (m_dr s 6 AND 0xFFFF0FF0) OR (val AND 0xE00F))\<rparr>
      else if i = 7 then cpu_mmu_tlb_flush (s\<lparr>m_dr := (m_dr s)(7 := (val AND 0xFFFF2FFF) OR 0x400)\<rparr>)
      else s\<lparr>m_dr := (m_dr s)(i := val)\<rparr>)"

definition cpu_set_a20 :: "bool \<Rightarrow> 'd cpu_mem \<Rightarrow> 'd cpu_mem" where
  "cpu_set_a20 a20_enabled s =
     (let old_a20_mask = m_a20_mask s;
          s = s\<lparr>m_a20_mask := - 1 XOR push_bit 20 (of_bool (\<not> a20_enabled))\<rparr>
      in if old_a20_mask \<noteq> m_a20_mask s then cpu_mmu_tlb_flush s else s)"

definition cpu_interrupts_masked :: "'d cpu_mem \<Rightarrow> u32" where
  "cpu_interrupts_masked s = m_eflags s AND 0x200"

definition cpu_add_rom :: "u32 \<Rightarrow> u8 list \<Rightarrow> 'd cpu_mem \<Rightarrow> 'd cpu_mem" where
  "cpu_add_rom addr data s =
     (if m_memory_size s < addr \<or> m_memory_size s < addr + of_nat (length data) then s
      else s\<lparr>m_mem := (\<lambda>p. if unat (p - addr) < length data then data ! unat (p - addr) else m_mem s p)\<rparr>)"

end
