(* ===== verification/Access.thy ===== *)
theory Access
  imports Mmu
begin

text \<open>
  Model of src/src/cpu/access.cpp (the slow path of a memory access: walk, memory-mapped
  devices, unaligned accesses byte by byte, self-modifying code), of the inlined fast path
  that every access of the emulator starts with, and of src/src/cpu/stack.cpp.
\<close>

section \<open>The host pointer of an address\<close>

definition tag_at :: "u32 \<Rightarrow> nat \<Rightarrow> 'd cpu_mem \<Rightarrow> u32" where
  "tag_at addr shift s = drop_bit shift (ucast (m_tlb_tags s (drop_bit 12 addr)))"

definition host_at :: "u32 \<Rightarrow> 'd cpu_mem \<Rightarrow> u32 option" where
  "host_at addr s = map_option (\<lambda>off. off + addr) (m_tlb s (drop_bit 12 addr))"

definition walk_if :: "u32 \<Rightarrow> u32 \<Rightarrow> nat \<Rightarrow> 'd cpu_mem \<Rightarrow> (unit, 'd cpu_mem) outcome" where
  "walk_if tag addr shift s = (if bit tag 1 then cpu_mmu_translate addr shift s else Ok () s)"

section \<open>Slow reads\<close>

definition set_result :: "u32 \<Rightarrow> 'd cpu_mem \<Rightarrow> 'd cpu_mem" where
  "set_result v s = s\<lparr>m_read_result := v\<rparr>"

definition slow_read :: "nat \<Rightarrow> nat \<Rightarrow> (u32 \<Rightarrow> 'd cpu_mem \<Rightarrow> u32) \<Rightarrow> u32 \<Rightarrow> 'd cpu_mem \<Rightarrow> (unit, 'd cpu_mem) outcome" where
  "slow_read n sz get addr s =
     (case host_at addr s of
        None \<Rightarrow> Abort
      | Some phys \<Rightarrow>
          if phys_is_io phys s then seq (mmio_read phys sz s) (\<lambda>v s. Ok () (set_result v s))
          else if ram_ok n phys s then Ok () (set_result (get phys s) s) else Abort)"

definition cpu_access_read8 :: "u32 \<Rightarrow> u32 \<Rightarrow> nat \<Rightarrow> 'd cpu_mem \<Rightarrow> (unit, 'd cpu_mem) outcome" where
  "cpu_access_read8 addr tag shift s =
     seq (walk_if tag addr shift s) (\<lambda>_ s. slow_read 1 0 (\<lambda>p s. ucast (m_mem s p)) addr s)"

text \<open>The loop over the bytes of an unaligned operand.\<close>

fun read_bytes :: "nat list \<Rightarrow> u32 \<Rightarrow> nat \<Rightarrow> u32 \<Rightarrow> 'd cpu_mem \<Rightarrow> (unit, 'd cpu_mem) outcome" where
  "read_bytes [] addr shift res s = Ok () (set_result res s)"
| "read_bytes (i # is) addr shift res s =
     (let a = addr + of_nat i in
      seq (cpu_access_read8 a (tag_at a shift s) shift s)
        (\<lambda>_ s. read_bytes is addr shift (res OR push_bit (8 * i) (m_read_result s)) s))"

definition cpu_access_read16 :: "u32 \<Rightarrow> u32 \<Rightarrow> nat \<Rightarrow> 'd cpu_mem \<Rightarrow> (unit, 'd cpu_mem) outcome" where
  "cpu_access_read16 addr tag shift s =
     (if addr AND 1 \<noteq> 0 then read_bytes [0..<2] addr shift 0 s
      else seq (walk_if tag addr shift s) (\<lambda>_ s. slow_read 2 1 (\<lambda>p s. ucast (ram_get16 p s)) addr s))"

definition cpu_access_read32 :: "u32 \<Rightarrow> u32 \<Rightarrow> nat \<Rightarrow> 'd cpu_mem \<Rightarrow> (unit, 'd cpu_mem) outcome" where
  "cpu_access_read32 addr tag shift s =
     (if addr AND 3 \<noteq> 0 then read_bytes [0..<4] addr shift 0 s
      else seq (walk_if tag addr shift s) (\<lambda>_ s. slow_read 4 2 ram_get32 addr s))"

section \<open>Slow writes\<close>

definition slow_write :: "nat \<Rightarrow> nat \<Rightarrow> (u32 \<Rightarrow> 'd cpu_mem \<Rightarrow> 'd cpu_mem) \<Rightarrow> u32 \<Rightarrow> u32 \<Rightarrow> 'd cpu_mem \<Rightarrow> (unit, 'd cpu_mem) outcome" where
  "slow_write n sz put addr data s =
     (case host_at addr s of
        None \<Rightarrow> Abort
      | Some phys \<Rightarrow>
          if (0xA0000 \<le> phys \<and> phys < 0x100000) \<or> m_memory_size s \<le> phys
          then mmio_write phys data sz s
          else if ram_ok n phys s then
            Ok () (put phys (if cpu_smc_has_code phys s then cpu_smc_invalidate addr phys s else s))
          else Abort)"

definition cpu_access_write8 :: "u32 \<Rightarrow> u32 \<Rightarrow> u32 \<Rightarrow> nat \<Rightarrow> 'd cpu_mem \<Rightarrow> (unit, 'd cpu_mem) outcome" where
  "cpu_access_write8 addr data tag shift s =
     seq (walk_if tag addr shift s) (\<lambda>_ s. slow_write 1 0 (\<lambda>p. ram_put8 p (ucast data)) addr data s)"

fun write_bytes :: "nat list \<Rightarrow> u32 \<Rightarrow> u32 \<Rightarrow> nat \<Rightarrow> 'd cpu_mem \<Rightarrow> (unit, 'd cpu_mem) outcome" where
  "write_bytes [] addr data shift s = Ok () s"
| "write_bytes (i # is) addr data shift s =
     (let a = addr + of_nat i in
      seq (cpu_access_write8 a (drop_bit (8 * i) data) (tag_at a shift s) shift s)
        (\<lambda>_ s. write_bytes is addr data shift s))"

definition cpu_access_write16 :: "u32 \<Rightarrow> u32 \<Rightarrow> u32 \<Rightarrow> nat \<Rightarrow> 'd cpu_mem \<Rightarrow> (unit, 'd cpu_mem) outcome" where
  "cpu_access_write16 addr data tag shift s =
     (if addr AND 1 \<noteq> 0 then write_bytes [0..<2] addr data shift s
      else seq (walk_if tag addr shift s)
             (\<lambda>_ s. slow_write 2 1 (\<lambda>p. ram_put16 p (ucast data)) addr data s))"

definition cpu_access_write32 :: "u32 \<Rightarrow> u32 \<Rightarrow> u32 \<Rightarrow> nat \<Rightarrow> 'd cpu_mem \<Rightarrow> (unit, 'd cpu_mem) outcome" where
  "cpu_access_write32 addr data tag shift s =
     (if addr AND 3 \<noteq> 0 then write_bytes [0..<4] addr data shift s
      else seq (walk_if tag addr shift s) (\<lambda>_ s. slow_write 4 2 (\<lambda>p. ram_put32 p data) addr data s))"

text \<open>Checks both ends of an access without performing it.\<close>

definition cpu_access_verify :: "u32 \<Rightarrow> u32 \<Rightarrow> nat \<Rightarrow> 'd cpu_mem \<Rightarrow> (unit, 'd cpu_mem) outcome" where
  "cpu_access_verify addr end_addr shift s =
     (let check = (\<lambda>a s. if m_tlb_tags s (drop_bit 12 a) AND 2 \<noteq> 0 then cpu_mmu_translate a shift s else Ok () s)
      in if (addr XOR end_addr) AND NOT 0xFFF \<noteq> 0
         then seq (check addr s) (\<lambda>_ s. check end_addr s)
         else check addr s)"

section \<open>The fast path\<close>

text \<open>
  The sequence the source inlines at every access: when the tag and the alignment allow, the
  host pointer is used directly, without any check.
\<close>

definition mem_read8 :: "nat \<Rightarrow> u32 \<Rightarrow> 'd cpu_mem \<Rightarrow> (u8, 'd cpu_mem) outcome" where
  "mem_read8 shift addr s =
     (let tag = tag_at addr shift s in
      if bit tag 0 then seq (cpu_access_read8 addr tag shift s) (\<lambda>_ s. Ok (ucast (m_read_result s)) s)
      else case host_at addr s of
        None \<Rightarrow> Abort
      | Some p \<Rightarrow> if ram_ok 1 p s then Ok (m_mem s p) s else Abort)"

text \<open>The 32-bit variable a 16-bit read may fill; a 16-bit variable takes the low half.\<close>

definition mem_read16_raw :: "nat \<Rightarrow> u32 \<Rightarrow> 'd cpu_mem \<Rightarrow> (u32, 'd cpu_mem) outcome" where
  "mem_read16_raw shift addr s =
     (let tag = tag_at addr shift s in
      if (addr OR tag) AND 1 \<noteq> 0
      then seq (cpu_access_read16 addr tag shift s) (\<lambda>_ s. Ok (m_read_result s) s)
      else case host_at addr s of
        None \<Rightarrow> Abort
      | Some p \<Rightarrow> if ram_ok 2 p s then Ok (ucast (ram_get16 p s)) s else Abort)"

definition mem_read16 :: "nat \<Rightarrow> u32 \<Rightarrow> 'd cpu_mem \<Rightarrow> (u16, 'd cpu_mem) outcome" where
  "mem_read16 shift addr s = seq (mem_read16_raw shift addr s) (\<lambda>v s. Ok (ucast v) s)"

definition mem_read32 :: "nat \<Rightarrow> u32 \<Rightarrow> 'd cpu_mem \<Rightarrow> (u32, 'd cpu_mem) outcome" where
  "mem_read32 shift addr s =
     (let tag = tag_at addr shift s in
      if (addr OR tag) AND 3 \<noteq> 0
      then seq (cpu_access_read32 addr tag shift s) (\<lambda>_ s. Ok (m_read_result s) s)
      else case host_at addr s of
        None \<Rightarrow> Abort
      | Some p \<Rightarrow> if ram_ok 4 p s then Ok (ram_get32 p s) s else Abort)"

definition mem_write8 :: "nat \<Rightarrow> u32 \<Rightarrow> u32 \<Rightarrow> 'd cpu_mem \<Rightarrow> (unit, 'd cpu_mem) outcome" where
  "mem_write8 shift addr data s =
     (let tag = tag_at addr shift s in
      if bit tag 0 then cpu_access_write8 addr data tag shift s
      else case host_at addr s of
        None \<Rightarrow> Abort
      | Some p \<Rightarrow> if ram_ok 1 p s then Ok () (ram_put8 p (ucast data) s) else Abort)"

definition mem_write16 :: "nat \<Rightarrow> u32 \<Rightarrow> u32 \<Rightarrow> 'd cpu_mem \<Rightarrow> (unit, 'd cpu_mem) outcome" where
  "mem_write16 shift addr data s =
     (let tag = tag_at addr shift s in
      if (addr OR tag) AND 1 \<noteq> 0 then cpu_access_write16 addr data tag shift s
      else case host_at addr s of
        None \<Rightarrow> Abort
      | Some p \<Rightarrow> if ram_ok 2 p s then Ok () (ram_put16 p (ucast data) s) else Abort)"

definition mem_write32 :: "nat \<Rightarrow> u32 \<Rightarrow> u32 \<Rightarrow> 'd cpu_mem \<Rightarrow> (unit, 'd cpu_mem) outcome" where
  "mem_write32 shift addr data s =
     (let tag = tag_at addr shift s in
      if (addr OR tag) AND 3 \<noteq> 0 then cpu_access_write32 addr data tag shift s
      else case host_at addr s of
        None \<Rightarrow> Abort
      | Some p \<Rightarrow> if ram_ok 4 p s then Ok () (ram_put32 p data s) else Abort)"

section \<open>The stack\<close>

definition stack_addr :: "u32 \<Rightarrow> 'd cpu_mem \<Rightarrow> u32" where
  "stack_addr esp s = esp + m_seg_base s 2"

definition cpu_push16 :: "u32 \<Rightarrow> 'd cpu_mem \<Rightarrow> (unit, 'd cpu_mem) outcome" where
  "cpu_push16 data s =
     (let esp = get_reg32 4 s; esp_mask = m_esp_mask s; esp_minus_two = (esp - 2) AND esp_mask in
      seq (mem_write16 (m_tlb_shift_write s) (stack_addr esp_minus_two s) data s)
        (\<lambda>_ s. Ok () (set_reg32 4 (esp_minus_two OR (esp AND NOT esp_mask)) s)))"

definition cpu_push32 :: "u32 \<Rightarrow> 'd cpu_mem \<Rightarrow> (unit, 'd cpu_mem) outcome" where
  "cpu_push32 data s =
     (let esp = get_reg32 4 s; esp_mask = m_esp_mask s; esp_minus_four = (esp - 4) AND esp_mask in
      seq (mem_write32 (m_tlb_shift_write s) (stack_addr esp_minus_four s) data s)
        (\<lambda>_ s. Ok () (set_reg32 4 (esp_minus_four OR (esp AND NOT esp_mask)) s)))"

definition cpu_pop16 :: "'d cpu_mem \<Rightarrow> (u16, 'd cpu_mem) outcome" where
  "cpu_pop16 s =
     (let esp_mask = m_esp_mask s; esp = get_reg32 4 s in
      seq (mem_read16 (m_tlb_shift_read s) (stack_addr (esp AND esp_mask) s) s)
        (\<lambda>v s. Ok v (set_reg32 4 (((esp + 2) AND esp_mask) OR (esp AND NOT esp_mask)) s)))"

definition cpu_pop16_dest32 :: "'d cpu_mem \<Rightarrow> (u32, 'd cpu_mem) outcome" where
  "cpu_pop16_dest32 s =
     (let esp_mask = m_esp_mask s; esp = get_reg32 4 s in
      seq (mem_read16_raw (m_tlb_shift_read s) (stack_addr (esp AND esp_mask) s) s)
        (\<lambda>v s. Ok v (set_reg32 4 (((esp + 2) AND esp_mask) OR (esp AND NOT esp_mask)) s)))"

definition cpu_pop32 :: "'d cpu_mem \<Rightarrow> (u32, 'd cpu_mem) outcome" where
  "cpu_pop32 s =
     (let esp_mask = m_esp_mask s; esp = get_reg32 4 s in
      seq (mem_read32 (m_tlb_shift_read s) (stack_addr (esp AND esp_mask) s) s)
        (\<lambda>v s. Ok v (set_reg32 4 (((esp + 4) AND esp_mask) OR (esp AND NOT esp_mask)) s)))"

text \<open>
  PUSHA and POPA: all the accesses first, the registers and the stack pointer only at the
  end, so that a fault in the middle leaves the registers alone.
\<close>

fun push_all16 :: "nat list \<Rightarrow> u32 \<Rightarrow> 'd cpu_mem \<Rightarrow> (u32, 'd cpu_mem) outcome" where
  "push_all16 [] esp s = Ok esp s"
| "push_all16 (i # is) esp s =
     (let esp = (esp - 2) AND m_esp_mask s in
      seq (mem_write16 (m_tlb_shift_write s) (stack_addr esp s) (ucast (get_reg16 (2 * i) s)) s)
        (\<lambda>_ s. push_all16 is esp s))"

definition cpu_pusha :: "'d cpu_mem \<Rightarrow> (unit, 'd cpu_mem) outcome" where
  "cpu_pusha s =
     seq (push_all16 [0..<8] (get_reg32 4 s) s)
       (\<lambda>esp s. Ok () (set_reg32 4 (esp OR (get_reg32 4 s AND NOT (m_esp_mask s))) s))"

fun push_all32 :: "nat list \<Rightarrow> u32 \<Rightarrow> 'd cpu_mem \<Rightarrow> (u32, 'd cpu_mem) outcome" where
  "push_all32 [] esp s = Ok esp s"
| "push_all32 (i # is) esp s =
     (let esp = (esp - 4) AND m_esp_mask s in
      seq (mem_write32 (m_tlb_shift_write s) (stack_addr esp s) (get_reg32 i s) s)
        (\<lambda>_ s. push_all32 is esp s))"

definition cpu_pushad :: "'d cpu_mem \<Rightarrow> (unit, 'd cpu_mem) outcome" where
  "cpu_pushad s =
     seq (push_all32 [0..<8] (get_reg32 4 s) s)
       (\<lambda>esp s. Ok () (set_reg32 4 (esp OR (get_reg32 4 s AND NOT (m_esp_mask s))) s))"

fun pop_all16 :: "nat list \<Rightarrow> u32 \<Rightarrow> (nat \<Rightarrow> u16) \<Rightarrow> 'd cpu_mem \<Rightarrow> (u32 \<times> (nat \<Rightarrow> u16), 'd cpu_mem) outcome" where
  "pop_all16 [] esp temp s = Ok (esp, temp) s"
| "pop_all16 (i # is) esp temp s =
     seq (mem_read16 (m_tlb_shift_read s) (stack_addr esp s) s)
       (\<lambda>v s. pop_all16 is ((esp + 2) AND m_esp_mask s) (temp(i := v)) s)"

definition cpu_popa :: "'d cpu_mem \<Rightarrow> (unit, 'd cpu_mem) outcome" where
  "cpu_popa s =
     seq (pop_all16 [7, 6, 5, 4, 3, 2, 1, 0] (get_reg32 4 s AND m_esp_mask s) (\<lambda>_. 0) s)
       (\<lambda>(esp, temp) s.
         let s = fold (\<lambda>i s. if i = 4 then s else set_reg16 (2 * i) (temp i) s) [0..<8] s
         in Ok () (set_reg32 4 (esp OR (get_reg32 4 s AND NOT (m_esp_mask s))) s))"

fun pop_all32 :: "nat list \<Rightarrow> u32 \<Rightarrow> (nat \<Rightarrow> u32) \<Rightarrow> 'd cpu_mem \<Rightarrow> (u32 \<times> (nat \<Rightarrow> u32), 'd cpu_mem) outcome" where
  "pop_all32 [] esp temp s = Ok (esp, temp) s"
| "pop_all32 (i # is) esp temp s =
     seq (mem_read32 (m_tlb_shift_read s) (stack_addr esp s) s)
       (\<lambda>v s. pop_all32 is ((esp + 4) AND m_esp_mask s) (temp(i := v)) s)"

definition cpu_popad :: "'d cpu_mem \<Rightarrow> (unit, 'd cpu_mem) outcome" where
  "cpu_popad s =
     seq (pop_all32 [7, 6, 5, 4, 3, 2, 1, 0] (get_reg32 4 s AND m_esp_mask s) (\<lambda>_. 0) s)
       (\<lambda>(esp, temp) s.
         let s = fold (\<lambda>i s. if i = 4 then s else set_reg32 i (temp i) s) [0..<8] s
         in Ok () (set_reg32 4 (esp OR (get_reg32 4 s AND NOT (m_esp_mask s))) s))"

end
