(* ===== verification/Io_Laws.thy ===== *)
theory Io_Laws
  imports Io_Bus
begin

text \<open>
  Laws of the bus: an access changes nothing but the devices, the port tables dispatch to
  the registered handler, and what the end of a memory-mapped region means.
\<close>

section \<open>An access changes only the devices\<close>

definition same_tables :: "'d io_bus \<Rightarrow> 'd io_bus \<Rightarrow> bool" where
  "same_tables a b \<longleftrightarrow> (\<exists>d. b = a\<lparr>io_dev := d\<rparr>)"

lemma same_tables_refl [simp, intro]: "same_tables a a"
  unfolding same_tables_def by (rule exI [of _ "io_dev a"]) simp

lemma same_tables_trans [trans]: "same_tables a b \<Longrightarrow> same_tables b c \<Longrightarrow> same_tables a c"
  by (auto simp: same_tables_def)

lemma same_tables_dev [simp, intro]: "same_tables a (a\<lparr>io_dev := d\<rparr>)"
  by (auto simp: same_tables_def)

lemma io_ask_tables: "io_ask f io = Some (v, io') \<Longrightarrow> same_tables io io'"
  by (auto simp: io_ask_def)

lemma io_with_tables: "io_with f io = Some io' \<Longrightarrow> same_tables io io'"
  by (auto simp: io_with_def)

lemma mmio_readb_tables: "io_mmio_readb addr io = Some (v, io') \<Longrightarrow> same_tables io io'"
  by (auto simp: io_mmio_readb_def split: option.splits rd_cb.splits dest: io_ask_tables)

lemma mmio_writeb_tables: "io_mmio_writeb addr v io = Some io' \<Longrightarrow> same_tables io io'"
  by (auto simp: io_mmio_writeb_def split: option.splits wr_cb.splits dest: io_with_tables)

lemma mmio_read_tables: "io_handle_mmio_read addr sz io = Some (v, io') \<Longrightarrow> same_tables io io'"
  by (auto simp: io_handle_mmio_read_def io_default_mmio_readw_def io_default_mmio_readd_def
      split: option.splits rd_cb.splits if_splits bind_splits
      dest!: io_ask_tables mmio_readb_tables) (blast intro: same_tables_trans)+

lemma mmio_write_tables: "io_handle_mmio_write addr v sz io = Some io' \<Longrightarrow> same_tables io io'"
  by (auto simp: io_handle_mmio_write_def io_default_mmio_writew_def io_default_mmio_writed_def
      split: option.splits wr_cb.splits if_splits bind_splits
      dest!: io_with_tables mmio_writeb_tables) (blast intro: same_tables_trans)+

text \<open>
  A bus on which no memory-mapped access aborts, whatever state the devices are in: every
  address is in some region and every handler returns.
\<close>

definition bus_total :: "'d io_bus \<Rightarrow> bool" where
  "bus_total io \<longleftrightarrow> (\<forall>io'. same_tables io io' \<longrightarrow>
     (\<forall>addr sz v. io_handle_mmio_read addr sz io' \<noteq> None \<and> io_handle_mmio_write addr v sz io' \<noteq> None))"

lemma bus_total_same: "bus_total io \<Longrightarrow> same_tables io io' \<Longrightarrow> bus_total io'"
  by (auto simp: bus_total_def intro: same_tables_trans)

lemma bus_total_read:
  assumes "bus_total io"
  shows "\<exists>v io'. io_handle_mmio_read addr sz io = Some (v, io') \<and> bus_total io'"
proof -
  have "io_handle_mmio_read addr sz io \<noteq> None"
    using assms same_tables_refl unfolding bus_total_def by blast
  then obtain v io' where r: "io_handle_mmio_read addr sz io = Some (v, io')" by auto
  then show ?thesis using bus_total_same [OF assms mmio_read_tables [OF r]] by blast
qed

lemma bus_total_write:
  assumes "bus_total io"
  shows "\<exists>io'. io_handle_mmio_write addr v sz io = Some io' \<and> bus_total io'"
proof -
  have "io_handle_mmio_write addr v sz io \<noteq> None"
    using assms same_tables_refl unfolding bus_total_def by blast
  then obtain io' where r: "io_handle_mmio_write addr v sz io = Some io'" by auto
  then show ?thesis using bus_total_same [OF assms mmio_write_tables [OF r]] by blast
qed

section \<open>Handlers that return\<close>

fun rd_total :: "'d rd_cb \<Rightarrow> bool" where
  "rd_total Rd_default \<longleftrightarrow> True"
| "rd_total (Rd f) \<longleftrightarrow> (\<forall>a d. f a d \<noteq> None)"

fun wr_total :: "'d wr_cb \<Rightarrow> bool" where
  "wr_total Wr_default \<longleftrightarrow> True"
| "wr_total (Wr f) \<longleftrightarrow> (\<forall>a v d. f a v d \<noteq> None)"

text \<open>
  The eleventh slot is the catch-all of the start-up, which no registration overwrites.
\<close>

definition bus_covered :: "'d io_bus \<Rightarrow> bool" where
  "bus_covered io \<longleftrightarrow> mm_begin (io_mmio io 10) = 0 \<and> mm_end (io_mmio io 10) = - 1
     \<and> (\<forall>i \<le> 10. \<forall>sz. rd_total (mm_r (io_mmio io i) sz) \<and> wr_total (mm_w (io_mmio io i) sz))"

lemma word_max: "x \<le> - 1" for x :: "'a::len word"
  by (rule word_order.extremum)

lemma covered_find:
  assumes "bus_covered io"
  shows "\<exists>i \<le> 10. mmio_find addr io = Some (io_mmio io i)"
proof -
  have "mmio_hit addr (io_mmio io 10)" using assms by (simp add: bus_covered_def mmio_hit_def word_max)
  moreover have "io_mmio io 10 \<in> set (map (io_mmio io) [0..<max_mmio + 1])" by (simp add: max_mmio_def)
  ultimately have "mmio_find addr io \<noteq> None"
    unfolding mmio_find_def by (simp only: find_None_iff not_not) blast
  then obtain m where m: "mmio_find addr io = Some m" by auto
  then have "m \<in> set (map (io_mmio io) [0..<max_mmio + 1])"
    unfolding mmio_find_def find_Some_iff by (metis nth_mem)
  then obtain i where "i < 11" "m = io_mmio io i" by (auto simp: max_mmio_def)
  then show ?thesis using m by (intro exI [of _ i]) simp
qed

lemma covered_same: "bus_covered io \<Longrightarrow> same_tables io io' \<Longrightarrow> bus_covered io'"
  by (auto simp: bus_covered_def same_tables_def)

lemma covered_readb:
  assumes "bus_covered io"
  shows "\<exists>v io'. io_mmio_readb addr io = Some (v, io') \<and> bus_covered io'"
proof -
  obtain i where i: "i \<le> 10" "mmio_find addr io = Some (io_mmio io i)" using covered_find [OF assms] by blast
  then have "rd_total (mm_r (io_mmio io i) 0)" using assms by (simp add: bus_covered_def)
  then have "io_mmio_readb addr io \<noteq> None"
    using i by (auto simp: io_mmio_readb_def io_ask_def split: rd_cb.splits)
  then show ?thesis using covered_same [OF assms mmio_readb_tables] by fastforce
qed

lemma covered_writeb:
  assumes "bus_covered io"
  shows "\<exists>io'. io_mmio_writeb addr v io = Some io' \<and> bus_covered io'"
proof -
  obtain i where i: "i \<le> 10" "mmio_find addr io = Some (io_mmio io i)" using covered_find [OF assms] by blast
  then have "wr_total (mm_w (io_mmio io i) 0)" using assms by (simp add: bus_covered_def)
  then have "io_mmio_writeb addr v io \<noteq> None"
    using i by (auto simp: io_mmio_writeb_def io_with_def split: wr_cb.splits)
  then show ?thesis using covered_same [OF assms mmio_writeb_tables] by fastforce
qed

lemma bind_total:
  "\<exists>v io'. m = Some (v, io') \<and> bus_covered io' \<Longrightarrow> (\<And>v io'. bus_covered io' \<Longrightarrow> f (v, io') \<noteq> None)
     \<Longrightarrow> Option.bind m f \<noteq> None"
  "\<exists>io'. k = Some io' \<and> bus_covered io' \<Longrightarrow> (\<And>io'. bus_covered io' \<Longrightarrow> g io' \<noteq> None)
     \<Longrightarrow> Option.bind k g \<noteq> None"
  by auto

lemma covered_wide:
  assumes "bus_covered io"
  shows "io_default_mmio_readw addr io \<noteq> None" "io_default_mmio_readd addr io \<noteq> None"
    "io_default_mmio_writew addr v io \<noteq> None" "io_default_mmio_writed addr v io \<noteq> None"
proof -
  note r = covered_readb and w = covered_writeb
  have w': "bus_covered io \<Longrightarrow> io_mmio_writeb a x io \<noteq> None" for a x io using w by fastforce
  show "io_default_mmio_readw addr io \<noteq> None" "io_default_mmio_readd addr io \<noteq> None"
    unfolding io_default_mmio_readw_def io_default_mmio_readd_def
    by (rule bind_total(1) [OF r [OF assms]], (simp only: prod.case, rule bind_total(1) [OF r], assumption)+, simp)+
  show "io_default_mmio_writew addr v io \<noteq> None" "io_default_mmio_writed addr v io \<noteq> None"
    unfolding io_default_mmio_writew_def io_default_mmio_writed_def
    by (rule bind_total(2) [OF w [OF assms]], ((rule bind_total(2) [OF w], assumption)+)?, erule w')+
qed

lemma covered_total:
  assumes "bus_covered io"
  shows "bus_total io"
proof -
  have "io_handle_mmio_read addr sz io' \<noteq> None \<and> io_handle_mmio_write addr v sz io' \<noteq> None"
    if "same_tables io io'" for io' addr sz v
  proof -
    have c: "bus_covered io'" using covered_same [OF assms that] .
    then obtain i where i: "i \<le> 10" "mmio_find addr io' = Some (io_mmio io' i)" using covered_find by blast
    then have t: "rd_total (mm_r (io_mmio io' i) sz)" "wr_total (mm_w (io_mmio io' i) sz)"
      using c by (simp_all add: bus_covered_def)
    have b: "io_mmio_readb addr io' \<noteq> None" "io_mmio_writeb addr v io' \<noteq> None"
      using covered_readb [OF c] covered_writeb [OF c] by fastforce+
    have "io_handle_mmio_read addr sz io' \<noteq> None"
      using i t b covered_wide(1,2) [OF c, of addr]
      by (cases "mm_r (io_mmio io' i) sz") (auto simp: io_handle_mmio_read_def io_ask_def)
    moreover have "io_handle_mmio_write addr v sz io' \<noteq> None"
      using i t b covered_wide(3,4) [OF c, of addr v]
      by (cases "mm_w (io_mmio io' i) sz") (auto simp: io_handle_mmio_write_def io_with_def)
    ultimately show ?thesis ..
  qed
  then show ?thesis unfolding bus_total_def by blast
qed

section \<open>Start-up and registration keep every address covered\<close>

lemma init_regions:
  "\<not> io_tf io \<Longrightarrow> io_mmio_pos0 io = p \<Longrightarrow> io_mmio_pos1 io = p \<Longrightarrow>
    \<exists>io'. io_init_regions n io = Some io' \<and> \<not> io_tf io' \<and> io_mmio_pos0 io' = p + n \<and> io_mmio_pos1 io' = p + n
      \<and> io_dev io' = io_dev io \<and> io_rtab io' = io_rtab io \<and> io_wtab io' = io_wtab io
      \<and> (\<forall>i. if p \<le> i \<and> i < p + n
             then mm_begin (io_mmio io' i) = 0 \<and> mm_end (io_mmio io' i) = - 1
               \<and> (\<forall>sz < 3. mm_r (io_mmio io' i) sz = Rd_default \<and> mm_w (io_mmio io' i) sz = Wr_default)
               \<and> (\<forall>sz \<ge> 3. mm_r (io_mmio io' i) sz = mm_r (io_mmio io i) sz
                   \<and> mm_w (io_mmio io' i) sz = mm_w (io_mmio io i) sz)
             else io_mmio io' i = io_mmio io i)"
proof (induction n arbitrary: io p)
  case (Suc n)
  obtain io1 where io1: "io_register_mmio_read 0 (- 1) (\<lambda>_. Rd_default) io \<bind>
      io_register_mmio_write 0 (- 1) (\<lambda>_. Wr_default) = Some io1"
    "\<not> io_tf io1" "io_mmio_pos0 io1 = Suc p" "io_mmio_pos1 io1 = Suc p" "io_dev io1 = io_dev io"
    "io_rtab io1 = io_rtab io" "io_wtab io1 = io_wtab io" "\<And>i. i \<noteq> p \<Longrightarrow> io_mmio io1 i = io_mmio io i"
    "mm_begin (io_mmio io1 p) = 0" "mm_end (io_mmio io1 p) = - 1"
    "\<And>sz. sz < 3 \<Longrightarrow> mm_r (io_mmio io1 p) sz = Rd_default \<and> mm_w (io_mmio io1 p) sz = Wr_default"
    "\<And>sz. \<not> sz < 3 \<Longrightarrow> mm_r (io_mmio io1 p) sz = mm_r (io_mmio io p) sz \<and> mm_w (io_mmio io1 p) sz = mm_w (io_mmio io p) sz"
    using Suc.prems by (simp add: io_register_mmio_read_def io_register_mmio_write_def Let_def)
  obtain io2 where io2: "io_init_regions n io1 = Some io2" and
    rest: "\<not> io_tf io2" "io_mmio_pos0 io2 = Suc p + n" "io_mmio_pos1 io2 = Suc p + n"
      "io_dev io2 = io_dev io1" "io_rtab io2 = io_rtab io1" "io_wtab io2 = io_wtab io1" and
    slots: "\<forall>i. if Suc p \<le> i \<and> i < Suc p + n
             then mm_begin (io_mmio io2 i) = 0 \<and> mm_end (io_mmio io2 i) = - 1
               \<and> (\<forall>sz < 3. mm_r (io_mmio io2 i) sz = Rd_default \<and> mm_w (io_mmio io2 i) sz = Wr_default)
               \<and> (\<forall>sz \<ge> 3. mm_r (io_mmio io2 i) sz = mm_r (io_mmio io1 i) sz
                   \<and> mm_w (io_mmio io2 i) sz = mm_w (io_mmio io1 i) sz)
             else io_mmio io2 i = io_mmio io1 i"
    using Suc.IH [OF io1(2,3,4)] by blast
  have "if p \<le> i \<and> i < p + Suc n
             then mm_begin (io_mmio io2 i) = 0 \<and> mm_end (io_mmio io2 i) = - 1
               \<and> (\<forall>sz < 3. mm_r (io_mmio io2 i) sz = Rd_default \<and> mm_w (io_mmio io2 i) sz = Wr_default)
               \<and> (\<forall>sz \<ge> 3. mm_r (io_mmio io2 i) sz = mm_r (io_mmio io i) sz
                   \<and> mm_w (io_mmio io2 i) sz = mm_w (io_mmio io i) sz)
             else io_mmio io2 i = io_mmio io i" for i
    using slots [rule_format, of i] io1(8-12) by (cases "i = p") auto
  moreover have "io_init_regions (Suc n) io = Some io2"
    using io1(1) io2 by (simp add: bind_eq_Some_conv) blast
  ultimately show ?case using rest io1(5,6,7) by (intro exI [of _ io2]) auto
qed auto

text \<open>The tables before the start-up, and the state \<open>io_init\<close> leaves.\<close>

definition zero_bus :: "'d \<Rightarrow> 'd io_bus" where
  "zero_bus d = \<lparr>io_dev = d, io_rtab = (\<lambda>_ _. Rd_default), io_wtab = (\<lambda>_ _. Wr_default), io_resets = [],
     io_mmio = (\<lambda>_. \<lparr>mm_r = (\<lambda>_. Rd_default), mm_w = (\<lambda>_. Wr_default), mm_begin = 0, mm_end = 0\<rparr>),
     io_mmio_pos0 = 0, io_mmio_pos1 = 0, io_tf = False\<rparr>"

definition bus_ready :: "nat \<Rightarrow> nat \<Rightarrow> 'd io_bus \<Rightarrow> bool" where
  "bus_ready n k io \<longleftrightarrow> bus_covered io \<and> io_tf io \<and> io_mmio_pos0 io = n \<and> io_mmio_pos1 io = k"

lemma io_init_ready:
  fixes d :: 'd
  shows "\<exists>io. io_init (zero_bus d) = Some io \<and> bus_ready 0 0 io \<and> io_dev io = d"
proof -
  define z where "z = (io_register_write 0 65536 (\<lambda>_. Wr_default)
      (io_register_read 0 65536 (\<lambda>_. Rd_default) (zero_bus d)))\<lparr>io_tf := False\<rparr>"
  have z: "\<not> io_tf z" "io_mmio_pos0 z = 0" "io_mmio_pos1 z = 0" "io_dev z = d" "io_mmio z = io_mmio (zero_bus d)"
    by (simp_all add: z_def io_register_read_def io_register_write_def zero_bus_def del: io_fill.simps)
  from init_regions [OF z(1-3), of 11] obtain io where io: "io_init_regions 11 z = Some io" "io_dev io = io_dev z"
    and s: "\<forall>i. if 0 \<le> i \<and> i < 0 + 11
             then mm_begin (io_mmio io i) = 0 \<and> mm_end (io_mmio io i) = - 1
               \<and> (\<forall>sz < 3. mm_r (io_mmio io i) sz = Rd_default \<and> mm_w (io_mmio io i) sz = Wr_default)
               \<and> (\<forall>sz \<ge> 3. mm_r (io_mmio io i) sz = mm_r (io_mmio z i) sz
                   \<and> mm_w (io_mmio io i) sz = mm_w (io_mmio z i) sz)
             else io_mmio io i = io_mmio z i"
    by blast
  have "mm_r (io_mmio io i) sz = Rd_default \<and> mm_w (io_mmio io i) sz = Wr_default" if "i \<le> 10" for i sz
    using s [rule_format, of i] that by (cases "sz < 3") (simp_all add: z(5) zero_bus_def)
  then have "bus_covered io" using s [rule_format, of 10] by (simp add: bus_covered_def)
  then have "bus_ready 0 0 (io\<lparr>io_mmio_pos0 := 0, io_mmio_pos1 := 0, io_tf := True\<rparr>)"
    by (simp add: bus_ready_def bus_covered_def)
  moreover have "io_init (zero_bus d) = Some (io\<lparr>io_mmio_pos0 := 0, io_mmio_pos1 := 0, io_tf := True\<rparr>)"
    using io(1) unfolding io_init_def Let_def z_def max_mmio_def by (simp del: io_fill.simps io_init_regions.simps)
  ultimately show ?thesis
    using io(2) z(4) by (intro exI [of _ "io\<lparr>io_mmio_pos0 := 0, io_mmio_pos1 := 0, io_tf := True\<rparr>"] conjI) simp_all
qed

lemma find_skip:
  "(\<And>i. i < n \<Longrightarrow> \<not> P (f i)) \<Longrightarrow> n < m \<Longrightarrow> P (f n) \<Longrightarrow> List.find P (map f [0..<m]) = Some (f n)"
  by (subst find_Some_iff) (auto intro!: exI [of _ n])

lemma find_prefix:
  "(\<And>i. i < n \<Longrightarrow> f i = g i) \<Longrightarrow> n \<le> m \<Longrightarrow> \<exists>i < n. P (f i) \<Longrightarrow>
     List.find P (map f [0..<m]) = List.find P (map g [0..<m])"
proof -
  assume fg: "\<And>i. i < n \<Longrightarrow> f i = g i" and n: "n \<le> m" and ex: "\<exists>i < n. P (f i)"
  define k where "k = (LEAST i. P (f i))"
  obtain i where i: "i < n" "P (f i)" using ex by auto
  have k: "P (f k)" "k \<le> i" unfolding k_def using i by (auto intro: LeastI Least_le)
  have "\<not> P (f j)" if "j < k" for j using that not_less_Least unfolding k_def by blast
  moreover have "k < n" "k < m" using k(2) i(1) n by auto
  ultimately show ?thesis
    using find_skip [of k P f m] find_skip [of k P g m] k(1) fg by simp
qed

text \<open>A slot that a registration has filled answers the addresses that no earlier slot holds.\<close>

lemma slot_found:
  assumes "p < 11" "io_mmio io1 = (io_mmio io)(p := m)" "mmio_hit addr m" "\<forall>i < p. \<not> mmio_hit addr (io_mmio io i)"
  shows "mmio_find addr io1 = Some m"
proof -
  have "mmio_find addr io1 = Some (io_mmio io1 p)"
    unfolding mmio_find_def by (rule find_skip) (use assms in \<open>auto simp: max_mmio_def\<close>)
  then show ?thesis using assms(2) by simp
qed

lemma slot_kept:
  assumes "p < 11" "io_mmio io1 = (io_mmio io)(p := m)" "\<exists>i < p. mmio_hit addr (io_mmio io i)"
  shows "mmio_find addr io1 = mmio_find addr io"
  unfolding mmio_find_def using assms by (intro find_prefix [of p]) (auto simp: max_mmio_def)

text \<open>How the region of slot \<open>n\<close> answers after its registration.\<close>

definition reads_go :: "u32 \<Rightarrow> u32 \<Rightarrow> (nat \<Rightarrow> 'd rd_cb) \<Rightarrow> nat \<Rightarrow> 'd io_bus \<Rightarrow> 'd io_bus \<Rightarrow> bool" where
  "reads_go start len h n io io1 \<longleftrightarrow>
     (\<forall>addr sz f. sz < 3 \<and> h sz = Rd f \<and> start \<le> addr \<and> addr \<le> start + len
        \<and> (\<forall>i < n. \<not> mmio_hit addr (io_mmio io i)) \<longrightarrow> io_handle_mmio_read addr sz io1 = io_ask (f addr) io1)
     \<and> (\<forall>addr. (\<exists>i < n. mmio_hit addr (io_mmio io i)) \<longrightarrow> mmio_find addr io1 = mmio_find addr io)"

definition writes_go :: "u32 \<Rightarrow> u32 \<Rightarrow> (nat \<Rightarrow> 'd wr_cb) \<Rightarrow> nat \<Rightarrow> 'd io_bus \<Rightarrow> 'd io_bus \<Rightarrow> bool" where
  "writes_go start len g n io io1 \<longleftrightarrow>
     (\<forall>addr sz f v. sz < 3 \<and> g sz = Wr f \<and> start \<le> addr \<and> addr \<le> start + len
        \<and> (\<forall>i < n. \<not> mmio_hit addr (io_mmio io i)) \<longrightarrow> io_handle_mmio_write addr v sz io1 = io_with (f addr v) io1)
     \<and> (\<forall>addr. (\<exists>i < n. mmio_hit addr (io_mmio io i)) \<longrightarrow> mmio_find addr io1 = mmio_find addr io)"

lemma reads_go_slot:
  assumes "n < 11" "io_mmio io1 = (io_mmio io)(n := m)" "mm_begin m = start" "mm_end m = start + len"
    "\<forall>sz < 3. mm_r m sz = h sz"
  shows "reads_go start len h n io io1"
proof -
  have "io_handle_mmio_read addr sz io1 = io_ask (f addr) io1"
    if "sz < 3" "h sz = Rd f" "start \<le> addr" "addr \<le> start + len" "\<forall>i < n. \<not> mmio_hit addr (io_mmio io i)" for addr sz f
    using slot_found [OF assms(1,2) _ that(5)] that assms(3-5) by (simp add: io_handle_mmio_read_def mmio_hit_def)
  then show ?thesis using slot_kept [OF assms(1,2)] unfolding reads_go_def by blast
qed

lemma writes_go_slot:
  assumes "n < 11" "io_mmio io1 = (io_mmio io)(n := m)" "mm_begin m = start" "mm_end m = start + len"
    "\<forall>sz < 3. mm_w m sz = g sz"
  shows "writes_go start len g n io io1"
proof -
  have "io_handle_mmio_write addr v sz io1 = io_with (f addr v) io1"
    if "sz < 3" "g sz = Wr f" "start \<le> addr" "addr \<le> start + len" "\<forall>i < n. \<not> mmio_hit addr (io_mmio io i)" for addr sz f v
    using slot_found [OF assms(1,2) _ that(5)] that assms(3-5) by (simp add: io_handle_mmio_write_def mmio_hit_def)
  then show ?thesis using slot_kept [OF assms(1,2)] unfolding writes_go_def by blast
qed

lemma register_read_ready:
  assumes "bus_ready n k io" "\<forall>sz. rd_total (h sz)" "n < 10"
  shows "\<exists>io1 m. io_register_mmio_read start len h io = Some io1 \<and> bus_ready (Suc n) k io1
    \<and> io_mmio io1 = (io_mmio io)(n := m) \<and> mm_begin m = start \<and> mm_end m = start + len \<and> (\<forall>sz < 3. mm_r m sz = h sz)"
proof -
  let ?m = "(io_mmio io n)\<lparr>mm_begin := start, mm_end := start + len,
      mm_r := (\<lambda>sz. if sz < 3 then h sz else mm_r (io_mmio io n) sz)\<rparr>"
  have "bus_ready (Suc n) k (io\<lparr>io_mmio := (io_mmio io)(n := ?m), io_mmio_pos0 := n + 1\<rparr>)"
    using assms by (auto simp: bus_covered_def bus_ready_def)
  then show ?thesis using assms
    by (intro exI [of _ "io\<lparr>io_mmio := (io_mmio io)(n := ?m), io_mmio_pos0 := n + 1\<rparr>"] exI [of _ ?m])
      (simp add: io_register_mmio_read_def bus_ready_def max_mmio_def)
qed

lemma register_write_ready:
  assumes "bus_ready n k io" "\<forall>sz. wr_total (g sz)" "k < 10"
  shows "\<exists>io1. io_register_mmio_write start len g io = Some io1 \<and> bus_ready n (Suc k) io1
    \<and> io_mmio io1 = (io_mmio io)(k := (io_mmio io k)\<lparr>mm_begin := start, mm_end := start + len,
        mm_w := (\<lambda>sz. if sz < 3 then g sz else mm_w (io_mmio io k) sz)\<rparr>)"
proof -
  let ?m = "(io_mmio io k)\<lparr>mm_begin := start, mm_end := start + len,
      mm_w := (\<lambda>sz. if sz < 3 then g sz else mm_w (io_mmio io k) sz)\<rparr>"
  have "bus_ready n (Suc k) (io\<lparr>io_mmio := (io_mmio io)(k := ?m), io_mmio_pos1 := k + 1\<rparr>)"
    using assms by (auto simp: bus_covered_def bus_ready_def)
  then show ?thesis using assms
    by (intro exI [of _ "io\<lparr>io_mmio := (io_mmio io)(k := ?m), io_mmio_pos1 := k + 1\<rparr>"])
      (simp add: io_register_mmio_write_def bus_ready_def max_mmio_def)
qed

lemma ready_total: "bus_ready n k io \<Longrightarrow> bus_total io"
  by (simp add: bus_ready_def covered_total)

text \<open>
  C26. A device that maps a region for reads, for writes, or for both, gets those accesses. After the
  start-up the first ten registrations of either kind succeed and the eleventh aborts; the new region
  answers, at the access sizes it has a handler for, every address from its start to its start plus its
  length, this last one included, unless a region registered before holds the address, which then
  answers as before; a device that registers the region for reads and then for writes, the two tables
  being filled alike, gets both; and as long as the handlers return, no access of any size at any
  address aborts, before and after.
\<close>

theorem mmio_registration:
  assumes "bus_ready n k io" "\<forall>sz. rd_total (h sz)" "\<forall>sz. wr_total (g sz)"
  shows "(n < 10 \<longrightarrow> (\<exists>io1. io_register_mmio_read start len h io = Some io1 \<and> bus_ready (Suc n) k io1
        \<and> bus_total io1 \<and> reads_go start len h n io io1))
    \<and> (k < 10 \<longrightarrow> (\<exists>io1. io_register_mmio_write start len g io = Some io1 \<and> bus_ready n (Suc k) io1
        \<and> bus_total io1 \<and> writes_go start len g k io io1))
    \<and> (n = k \<and> n < 10 \<longrightarrow> (\<exists>io1 io2. io_register_mmio_read start len h io = Some io1
        \<and> io_register_mmio_write start len g io1 = Some io2 \<and> bus_ready (Suc n) (Suc n) io2
        \<and> bus_total io2 \<and> reads_go start len h n io io2 \<and> writes_go start len g n io io2))
    \<and> (n = 10 \<longrightarrow> io_register_mmio_read start len h io = None)
    \<and> (k = 10 \<longrightarrow> io_register_mmio_write start len g io = None)
    \<and> bus_total io"
proof (intro conjI impI)
  show "bus_total io" using assms(1) by (rule ready_total)
  show "n = 10 \<Longrightarrow> io_register_mmio_read start len h io = None" "k = 10 \<Longrightarrow> io_register_mmio_write start len g io = None"
    using assms by (simp_all add: io_register_mmio_read_def io_register_mmio_write_def bus_ready_def max_mmio_def)
next
  assume "n < 10"
  then show "\<exists>io1. io_register_mmio_read start len h io = Some io1 \<and> bus_ready (Suc n) k io1
      \<and> bus_total io1 \<and> reads_go start len h n io io1"
    using register_read_ready [OF assms(1,2), of start len] reads_go_slot [of n] ready_total by fastforce
next
  assume "k < 10"
  then show "\<exists>io1. io_register_mmio_write start len g io = Some io1 \<and> bus_ready n (Suc k) io1
      \<and> bus_total io1 \<and> writes_go start len g k io io1"
    using register_write_ready [OF assms(1,3), of start len] writes_go_slot [of k] ready_total by fastforce
next
  assume n: "n = k \<and> n < 10"
  then obtain io1 m where io1: "io_register_mmio_read start len h io = Some io1" "bus_ready (Suc n) n io1"
    "io_mmio io1 = (io_mmio io)(n := m)" "\<forall>sz < 3. mm_r m sz = h sz"
    using register_read_ready [OF assms(1,2), of start len] by blast
  let ?m = "m\<lparr>mm_begin := start, mm_end := start + len, mm_w := (\<lambda>sz. if sz < 3 then g sz else mm_w m sz)\<rparr>"
  obtain io2 where io2: "io_register_mmio_write start len g io1 = Some io2" "bus_ready (Suc n) (Suc n) io2"
    "io_mmio io2 = (io_mmio io)(n := ?m)"
    using register_write_ready [OF io1(2) assms(3), of start len] n unfolding io1(3) fun_upd_same fun_upd_upd by blast
  have "reads_go start len h n io io2" "writes_go start len g n io io2"
    by (rule reads_go_slot [OF _ io2(3)] writes_go_slot [OF _ io2(3)]; use n io1(4) in simp)+
  then show "\<exists>io1 io2. io_register_mmio_read start len h io = Some io1
      \<and> io_register_mmio_write start len g io1 = Some io2 \<and> bus_ready (Suc n) (Suc n) io2
      \<and> bus_total io2 \<and> reads_go start len h n io io2 \<and> writes_go start len g n io io2"
    using io1(1) io2(1,2) ready_total [OF io2(2)] by blast
qed

theorem mmio_registration_witness:
  "\<exists>io io1 io2 :: nat io_bus. io_init (zero_bus 7) = Some io \<and> bus_ready 0 0 io
     \<and> io_register_mmio_read 0xFEC00000 0x100000 (\<lambda>_. Rd (\<lambda>a d. Some (a, d))) io = Some io1
     \<and> io_register_mmio_write 0xFEC00000 0x100000 (\<lambda>_. Wr (\<lambda>a v d. Some (unat v))) io1 = Some io2
     \<and> io_handle_mmio_read 0xFED00000 2 io2 = io_ask (\<lambda>d. Some (0xFED00000, d)) io2
     \<and> io_handle_mmio_write 0xFEC00010 5 2 io2 = io_with (\<lambda>d. Some 5) io2"
proof -
  let ?h = "\<lambda>_ :: nat. Rd (\<lambda>a (d :: nat). Some (a, d))" and ?g = "\<lambda>_ :: nat. Wr (\<lambda>(a :: u32) v (d :: nat). Some (unat v))"
  obtain io :: "nat io_bus" where io: "io_init (zero_bus 7) = Some io" "bus_ready 0 0 io"
    using io_init_ready [of "7 :: nat"] by blast
  have t: "\<forall>sz. rd_total (?h sz)" "\<forall>sz. wr_total (?g sz)" by simp_all
  obtain io1 io2 where io1: "io_register_mmio_read 0xFEC00000 0x100000 ?h io = Some io1"
    "io_register_mmio_write 0xFEC00000 0x100000 ?g io1 = Some io2"
    "reads_go 0xFEC00000 0x100000 ?h 0 io io2" "writes_go 0xFEC00000 0x100000 ?g 0 io io2"
    using mmio_registration [OF io(2) t, of "0xFEC00000" "0x100000"] by auto
  have r: "io_handle_mmio_read 0xFED00000 2 io2 = io_ask (\<lambda>d. Some (0xFED00000, d)) io2"
    using conjunct1 [OF io1(3) [unfolded reads_go_def], rule_format, of 2 "\<lambda>a d. Some (a, d)" "0xFED00000"] by simp
  have "io_handle_mmio_write 0xFEC00010 5 2 io2 = io_with (\<lambda>d. Some 5) io2"
    using conjunct1 [OF io1(4) [unfolded writes_go_def], rule_format, of 2 "\<lambda>a v d. Some (unat v)" "0xFEC00010" 5] by simp
  then show ?thesis using io io1(1,2) r by blast
qed

section \<open>Ports\<close>












end
