(* ===== verification/Mem_Inv.thy ===== *)
theory Mem_Inv
  imports Access Io_Laws
begin

text \<open>
  Memory safety of the emulated memory. The fast path of an access uses a host pointer from
  the TLB without a check, so that everything rests on what the TLB holds: the invariant
  \<open>mem_ok\<close> says that an entry whose tag allows a direct access names a page of
  guest RAM (and not of the memory-mapped window). Every operation keeps it, and under it no
  access leaves the host array.
\<close>

section \<open>Pages\<close>

lemma unat_and_fff: "unat (x AND 0xFFF) = unat x mod 4096" for x :: u32
  by (simp only: and_mask_take_bit unsigned_take_bit_eq) (simp add: take_bit_eq_mod)

lemma page_dvd: "x AND 0xFFF = 0 \<longleftrightarrow> 4096 dvd unat x" for x :: u32
  using unat_and_fff [of x] by (metis mod_0_imp_dvd dvd_imp_mod_0 unat_eq_zero)

lemma page_split: "a = push_bit 12 (drop_bit 12 a) + (a AND 0xFFF)" for a :: u32
  using bits_ident [of 12 a] by (simp only: and_mask_take_bit)

lemma page_offset:
  fixes p a :: u32
  assumes "p AND 0xFFF = 0"
  shows "unat (p + (a AND 0xFFF)) = unat p + unat a mod 4096"
proof -
  obtain k where k: "unat p = 4096 * k" using assms page_dvd [of p] by (auto elim: dvdE)
  have "unat p < 2 ^ 32" using unsigned_less [of p, where ?'a = nat] by simp
  then have "k < 1048576" using k by simp
  moreover have "unat a mod 4096 < 4096" by simp
  ultimately have "unat p + unat a mod 4096 < 4294967296" using k by linarith
  then show ?thesis
    by (simp add: unat_and_fff unat_word_ariths)
qed

text \<open>A naturally aligned operand that starts in a page lies in it.\<close>

lemma operand_in_page:
  fixes p a M :: u32
  assumes p: "p AND 0xFFF = 0" and M: "M AND 0xFFF = 0" and lt: "p < M"
    and n: "n dvd 4096" "n dvd unat a" "n > 0"
  shows "unat (p + (a AND 0xFFF)) + n \<le> unat M" "p + (a AND 0xFFF) < M"
proof -
  obtain j where j: "unat p = 4096 * j" using p page_dvd [of p] by (auto elim: dvdE)
  obtain k where k: "unat M = 4096 * k" using M page_dvd [of M] by (auto elim: dvdE)
  note jk = j k
  have "j < k" using lt jk by (simp add: word_less_nat_alt)
  then have pm: "unat p + 4096 \<le> unat M" using jk by simp
  have d: "n dvd unat a mod 4096" using n by (simp add: dvd_mod)
  obtain m where m: "unat a mod 4096 = n * m" using d by (auto elim: dvdE)
  obtain l where l: "4096 = n * l" using n(1) by (metis dvdE)
  note ml = m l
  have "n * m < n * l" unfolding m [symmetric] l [symmetric] by simp
  then have "m < l" by simp
  then have "n * m + n \<le> n * l" by (metis Suc_leI mult_Suc_right mult_le_mono2 add.commute)
  then have o: "unat a mod 4096 + n \<le> 4096" using ml by simp
  show "unat (p + (a AND 0xFFF)) + n \<le> unat M"
    using pm o by (simp add: page_offset [OF p])
  show "p + (a AND 0xFFF) < M"
    using pm by (simp add: word_less_nat_alt page_offset [OF p] order_less_le_trans)
qed

text \<open>An aligned operand below the end of an aligned RAM lies in RAM.\<close>

lemma operand_below:
  fixes x M :: u32
  assumes "n dvd unat x" "n dvd unat M" "x < M"
  shows "unat x + n \<le> unat M"
proof -
  obtain j where "unat x = n * j" using assms(1) by (auto elim: dvdE)
  moreover obtain k where "unat M = n * k" using assms(2) by (auto elim: dvdE)
  moreover from calculation have "n * j < n * k" using assms(3) by (simp add: word_less_nat_alt)
  then have "Suc j \<le> k" by simp
  then have "n * Suc j \<le> n * k" by (rule mult_le_mono2)
  ultimately show ?thesis by simp
qed

section \<open>The invariant\<close>

definition entry_page :: "u32 \<Rightarrow> u32 \<Rightarrow> u32" where
  "entry_page e off = off + push_bit 12 e"

fun entry_inv :: "u32 \<Rightarrow> u32 \<Rightarrow> u32 option \<Rightarrow> u8 \<Rightarrow> bool" where
  "entry_inv M e None tags \<longleftrightarrow> tags = 0xFF"
| "entry_inv M e (Some off) tags \<longleftrightarrow>
     (let p = entry_page e off in
      p AND 0xFFF = 0 \<and>
      (\<forall>k \<in> {0, 2, 4, 6}. \<not> bit tags k \<longrightarrow> p < M) \<and>
      (\<forall>k \<in> {2, 6}. \<not> bit tags k \<longrightarrow> \<not> (0xA0000 \<le> p \<and> p < 0x100000)) \<and>
      (\<forall>k \<in> {0, 4}. \<not> bit tags k \<longrightarrow> \<not> (0xA0000 \<le> p \<and> p < 0xC0000)))"

definition entry_ok :: "'d cpu_mem \<Rightarrow> u32 \<Rightarrow> bool" where
  "entry_ok s e \<longleftrightarrow> entry_inv (m_memory_size s) e (m_tlb s e) (m_tlb_tags s e)"

definition sys_ok :: "'d cpu_mem \<Rightarrow> bool" where
  "sys_ok s \<longleftrightarrow> m_memory_size s AND 0xFFF = 0 \<and> m_a20_mask s AND 0xFFF = 0xFFF \<and> m_cr s 3 AND 31 = 0
     \<and> m_tlb_shift_read s \<in> {0, 4} \<and> m_tlb_shift_write s \<in> {2, 6} \<and> m_tlb_entry_count s \<le> 8192
     \<and> bus_total (m_bus s)"

definition mem_ok :: "'d cpu_mem \<Rightarrow> bool" where
  "mem_ok s \<longleftrightarrow> sys_ok s \<and> (\<forall>e. entry_ok s e)"

text \<open>What the invariant depends on.\<close>

definition same_sys :: "'d cpu_mem \<Rightarrow> 'd cpu_mem \<Rightarrow> bool" where
  "same_sys s t \<longleftrightarrow> m_memory_size t = m_memory_size s \<and> m_a20_mask t = m_a20_mask s \<and> m_cr t 3 = m_cr s 3
     \<and> m_tlb_shift_read t = m_tlb_shift_read s \<and> m_tlb_shift_write t = m_tlb_shift_write s
     \<and> m_tlb_entry_count t = m_tlb_entry_count s \<and> m_bus t = m_bus s"

lemma mem_okI:
  assumes "mem_ok s" "same_sys s t" "\<And>e. (m_tlb t e = m_tlb s e \<and> m_tlb_tags t e = m_tlb_tags s e)
     \<or> (m_tlb t e = None \<and> m_tlb_tags t e = 0xFF)"
  shows "mem_ok t"
proof -
  have "entry_ok t e" for e
    using assms(1,2) assms(3) [of e] by (auto simp: mem_ok_def entry_ok_def same_sys_def)
  then show ?thesis using assms(1,2) by (simp add: mem_ok_def sys_ok_def same_sys_def)
qed

lemma mem_ok_frame:
  "mem_ok s \<Longrightarrow> same_sys s t \<Longrightarrow> m_tlb t = m_tlb s \<Longrightarrow> m_tlb_tags t = m_tlb_tags s \<Longrightarrow> mem_ok t"
  by (erule mem_okI) auto

lemma ram_put_ok [simp]:
  "mem_ok s \<Longrightarrow> mem_ok (ram_put8 p v s)" "mem_ok s \<Longrightarrow> mem_ok (ram_put16 p w s)"
  "mem_ok s \<Longrightarrow> mem_ok (ram_put32 p x s)" "mem_ok s \<Longrightarrow> mem_ok (set_result x s)"
  "mem_ok s \<Longrightarrow> mem_ok (set_reg32 r x s)" "mem_ok s \<Longrightarrow> mem_ok (set_reg16 r w s)"
  by (auto simp: ram_put8_def ram_put16_def ram_put32_def set_result_def set_reg32_def set_reg16_def same_sys_def
      elim!: mem_ok_frame)

lemma fast_return_ok [simp]: "mem_ok s \<Longrightarrow> mem_ok (cpu_request_fast_return r s)"
  by (auto simp: cpu_request_fast_return_def same_sys_def elim!: mem_ok_frame)

lemma bus_ok: "mem_ok s \<Longrightarrow> bus_total io \<Longrightarrow> mem_ok (s\<lparr>m_bus := io\<rparr>)"
proof -
  assume s: "mem_ok s" "bus_total io"
  have "entry_ok (s\<lparr>m_bus := io\<rparr>) e = entry_ok s e" for e
    by (simp add: entry_ok_def)
  then show ?thesis using s by (simp add: mem_ok_def sys_ok_def)
qed


section \<open>Maintenance of the TLB keeps the invariant\<close>

lemma tlb_drop_ok: "mem_ok s \<Longrightarrow> mem_ok (tlb_drop i s)"
  by (erule mem_okI) (auto simp: tlb_drop_def Let_def same_sys_def)

lemma flush_from_ok: "mem_ok s \<Longrightarrow> mem_ok (tlb_flush_from is s)"
  by (induction "is" arbitrary: s) (auto intro: tlb_drop_ok)

lemma flush_nonglobal_from_ok: "mem_ok s \<Longrightarrow> mem_ok (tlb_flush_nonglobal_from is s)"
  by (induction "is" arbitrary: s) (auto intro: tlb_drop_ok)

lemma count_ok: "mem_ok s \<Longrightarrow> n \<le> 8192 \<Longrightarrow> mem_ok (s\<lparr>m_tlb_entry_count := n\<rparr>)"
  by (auto simp: mem_ok_def sys_ok_def entry_ok_def)

lemma flush_ok [simp]: "mem_ok s \<Longrightarrow> mem_ok (cpu_mmu_tlb_flush s)"
  by (simp add: cpu_mmu_tlb_flush_def count_ok flush_from_ok)

lemma flush_nonglobal_ok [simp]: "mem_ok s \<Longrightarrow> mem_ok (cpu_mmu_tlb_flush_nonglobal s)"
  by (simp add: cpu_mmu_tlb_flush_nonglobal_def flush_nonglobal_from_ok)

lemma invalidate_ok [simp]: "mem_ok s \<Longrightarrow> mem_ok (cpu_mmu_tlb_invalidate lin s)"
  by (erule mem_okI) (auto simp: cpu_mmu_tlb_invalidate_def same_sys_def)

lemma clear_chunk_ok: "mem_ok s \<Longrightarrow> mem_ok (snd (smc_clear_chunk js phys base (q, s)))"
proof (induction js arbitrary: q s)
  case (Cons j js)
  have "mem_ok (s\<lparr>m_trace_info := f\<rparr>)" for f
    using Cons.prems by (rule mem_ok_frame) (simp_all add: same_sys_def)
  then show ?case using Cons by (auto split: option.split)
qed simp

lemma clear_chunks_ok: "mem_ok s \<Longrightarrow> mem_ok (snd (smc_clear_chunks is phys base info (q, s)))"
proof (induction "is" arbitrary: q s)
  case (Cons i "is")
  obtain q1 s1 where c: "smc_clear_chunk [0..<128] phys (base + push_bit 7 (of_nat i)) (q, s) = (q1, s1)"
    by fastforce
  then have "mem_ok s1" using clear_chunk_ok [OF Cons.prems] by (metis snd_conv)
  then show ?case using Cons c by simp
qed simp

lemma smc_invalidate_ok [simp]:
  assumes "mem_ok s"
  shows "mem_ok (cpu_smc_invalidate lin phys s)"
proof -
  obtain q s1 where c: "smc_clear_chunks [0..<unat (drop_bit 7 phys AND 31) + 1] phys (phys AND NOT 0xFFF)
      (m_smc_has_code s (drop_bit 12 phys)) (False, s) = (q, s1)" by fastforce
  then have ok: "mem_ok s1" using clear_chunks_ok [OF assms] by (metis snd_conv)
  have "mem_ok (s1\<lparr>m_smc_has_code := f\<rparr>)" for f
    using ok by (rule mem_ok_frame) (simp_all add: same_sys_def)
  then show ?thesis using assms c by (simp add: cpu_smc_invalidate_def Let_def)
qed

section \<open>A filled entry\<close>

lemma tlb_tag_bits:
  "bit (tlb_tag t tw u w) 0 = t" "bit (tlb_tag t tw u w) 1 = False"
  "bit (tlb_tag t tw u w) 2 = (tw \<or> \<not> w)" "bit (tlb_tag t tw u w) 3 = (\<not> w)"
  "bit (tlb_tag t tw u w) 4 = (t \<or> \<not> u)" "bit (tlb_tag t tw u w) 5 = (\<not> u)"
  "bit (tlb_tag t tw u w) 6 = (tw \<or> \<not> u \<or> \<not> w)" "bit (tlb_tag t tw u w) 7 = (\<not> u \<or> \<not> w)"
  by (cases t; cases tw; cases u; cases w; simp add: tlb_tag_def Let_def)+

lemma aligned_and: "p AND 0xFFF = 0 \<Longrightarrow> (p AND m) AND 0xFFF = 0" for p m :: u32
  by (metis and.assoc and.commute and_zero_eq)

text \<open>The physical page an entry is filled with.\<close>

definition gate_phys :: "u32 \<Rightarrow> 'd cpu_mem \<Rightarrow> u32" where
  "gate_phys phys s =
     (let p = phys AND m_a20_mask s in if 0xFFF00000 \<le> p then p AND 0xFFFFF else p)"

lemma set_entry_tlb:
  assumes "lin AND 0xFFF = 0"
  defines "e \<equiv> drop_bit 12 lin"
  shows "m_tlb (cpu_set_tlb_entry lin phys user write global nx s) e = Some (gate_phys phys s - lin)"
    "entry_page e (gate_phys phys s - lin) = gate_phys phys s"
  using page_split [of lin] assms
  by (simp_all add: cpu_set_tlb_entry_def Let_def gate_phys_def entry_page_def)


lemma a20_page: "m_a20_mask s AND 0xFFF = 0xFFF \<Longrightarrow> gate_phys phys s AND 0xFFF = phys AND 0xFFF"
proof -
  assume a: "m_a20_mask s AND 0xFFF = 0xFFF"
  have "(phys AND m_a20_mask s) AND 0xFFF = phys AND (m_a20_mask s AND 0xFFF)" by (simp only: and.assoc)
  moreover have "((phys AND m_a20_mask s) AND 0xFFFFF) AND 0xFFF = (phys AND m_a20_mask s) AND 0xFFF"
    by (simp add: and.assoc)
  ultimately show ?thesis by (simp add: gate_phys_def Let_def a)
qed

lemma flush_from_size [simp]: "m_memory_size (tlb_flush_from is s) = m_memory_size s"
  by (induction "is" arbitrary: s) (auto simp: tlb_drop_def Let_def)

lemma flush_size [simp]: "m_memory_size (cpu_mmu_tlb_flush s) = m_memory_size s"
  by (simp add: cpu_mmu_tlb_flush_def)

text \<open>Bit 18 tells the RAM of the video window from the ROM above it.\<close>

lemma vga_window: "0xA0000 \<le> p \<Longrightarrow> p < 0xC0000 \<Longrightarrow> p AND 0x40000 = 0" for p :: u32
proof -
  assume "0xA0000 \<le> p" "p < 0xC0000"
  then have "unat p div 262144 = 2" by (simp add: word_le_nat_alt word_less_nat_alt)
  then have "\<not> bit (unat p) 18" by (simp add: bit_iff_odd)
  then have "\<not> bit p 18" by (simp add: bit_unsigned_iff)
  then show ?thesis using and_exp_eq_0_iff_not_bit [of p 18] by simp
qed

lemma set_entry_ok:
  assumes s: "mem_ok s" and lin: "lin AND 0xFFF = 0" and phys: "phys AND 0xFFF = 0"
  shows "mem_ok (cpu_set_tlb_entry lin phys user write global nx s)"
proof -
  define s1 where "s1 = (if 8192 \<le> m_tlb_entry_count s then cpu_mmu_tlb_flush s else s)"
  have s1: "mem_ok s1" using s by (simp add: s1_def)
  have n: "m_tlb_entry_count s1 + 1 \<le> 8192"
    using s by (simp add: s1_def cpu_mmu_tlb_flush_def mem_ok_def sys_ok_def)
  define p where "p = gate_phys phys s"
  have p: "p AND 0xFFF = 0" using a20_page [of s phys] s phys by (simp add: p_def mem_ok_def sys_ok_def)
  have M: "m_memory_size s1 = m_memory_size s" by (simp add: s1_def)
  define vga where "vga \<longleftrightarrow> 0xA0000 \<le> p \<and> p < 0x100000"
  define tag where "tag \<longleftrightarrow> (if vga then p AND 0x40000 = 0 else False) \<or> m_memory_size s \<le> p"
  define tw where "tw \<longleftrightarrow> vga \<or> m_memory_size s \<le> p \<or> cpu_smc_page_has_code p s"
  define e where "e = drop_bit 12 lin"
  define t where "t = s1\<lparr>m_tlb_entry_indexes := (m_tlb_entry_indexes s1)(m_tlb_entry_count s1 := e),
           m_tlb_entry_count := m_tlb_entry_count s1 + 1,
           m_tlb_attrs := (m_tlb_attrs s1)(e := of_bool nx OR (if global then 0 else 2)),
           m_tlb := (m_tlb s1)(e := Some (p - lin)),
           m_tlb_tags := (m_tlb_tags s1)(e := tlb_tag tag tw user write)\<rparr>"
  have t: "cpu_set_tlb_entry lin phys user write global nx s = t"
    unfolding cpu_set_tlb_entry_def Let_def t_def s1_def e_def tag_def tw_def vga_def p_def gate_phys_def
    by (rule refl)
  have low: "p < 0xC0000 \<Longrightarrow> vga \<Longrightarrow> p AND 0x40000 = 0"
    using vga_window [of p] by (simp add: vga_def)
  have t1: "\<not> tag \<Longrightarrow> p < m_memory_size s1" and t2: "\<not> tw \<Longrightarrow> p < m_memory_size s1"
    by (simp_all add: tag_def tw_def M not_le)
  have t3: "\<not> tw \<Longrightarrow> \<not> (0xA0000 \<le> p \<and> p < 0x100000)" by (simp add: tw_def vga_def)
  have t4: "\<not> (0xA0000 \<le> p \<and> p < 0xC0000)" if "\<not> tag"
  proof
    assume w: "0xA0000 \<le> p \<and> p < 0xC0000"
    moreover have "p < 0x100000" by (rule less_trans [of _ "0xC0000"]) (simp_all add: w)
    ultimately have "vga" by (simp add: vga_def)
    then show False using that low w by (simp add: tag_def)
  qed
  have pg: "entry_page e (p - lin) = p"
    using page_split [of lin] lin by (simp add: entry_page_def e_def)
  have "entry_inv (m_memory_size s1) e (Some (p - lin)) (tlb_tag tag tw user write)"
    using p t1 t2 t3 t4 by (simp add: Let_def pg tlb_tag_bits) blast
  then have "entry_ok t x" for x
    using s1 by (auto simp: t_def entry_ok_def mem_ok_def)
  moreover have "sys_ok t" using s1 n by (simp add: t_def mem_ok_def sys_ok_def)
  ultimately show ?thesis by (simp add: t mem_ok_def)
qed

section \<open>Outcomes that keep the invariant\<close>

definition safe :: "('a, 'd cpu_mem) outcome \<Rightarrow> bool" where
  "safe m = (case m of Ok x t \<Rightarrow> mem_ok t | Fault v c t \<Rightarrow> mem_ok t | Abort \<Rightarrow> False)"

lemma safe_simps [simp]: "safe (Ok x t) = mem_ok t" "safe (Fault v c t) = mem_ok t" "safe Abort = False"
  by (simp_all add: safe_def)

lemma safe_seq: "safe m \<Longrightarrow> (\<And>x t. mem_ok t \<Longrightarrow> safe (f x t)) \<Longrightarrow> safe (seq m f)"
  by (cases m) auto

lemma safe_if: "(c \<Longrightarrow> safe a) \<Longrightarrow> (\<not> c \<Longrightarrow> safe b) \<Longrightarrow> safe (if c then a else b)"
  by simp

lemma safe_raise: "mem_ok s \<Longrightarrow> safe (raise_code v c s)"
  by (simp add: raise_code_def)

lemma safe_page_fault: "mem_ok s \<Longrightarrow> safe (page_fault lin c s)"
  unfolding page_fault_def
  by (rule safe_raise, erule mem_ok_frame) (simp_all add: same_sys_def)

lemma safe_mmio: "mem_ok s \<Longrightarrow> safe (mmio_read p sz s)" "mem_ok s \<Longrightarrow> safe (mmio_write p v sz s)"
proof -
  assume s: "mem_ok s"
  then have b: "bus_total (m_bus s)" by (simp add: mem_ok_def sys_ok_def)
  show "safe (mmio_read p sz s)" "safe (mmio_write p v sz s)"
    using bus_total_read [OF b, of p sz] bus_total_write [OF b, of p v sz] bus_ok [OF s]
    by (auto simp: mmio_read_def mmio_write_def)
qed

lemma mem_size_4: "mem_ok s \<Longrightarrow> 4 dvd unat (m_memory_size s)"
  using dvd_trans [of 4 4096 "unat (m_memory_size s)"] by (simp add: mem_ok_def sys_ok_def page_dvd)

lemma safe_phys:
  assumes s: "mem_ok s" and a: "4 dvd unat addr"
  shows "safe (cpu_read_phys addr s)" "safe (cpu_write_phys addr v s)"
proof -
  have "ram_ok 4 addr s" if "\<not> phys_is_io addr s"
    using operand_below [OF a mem_size_4 [OF s]] that by (auto simp: ram_ok_def phys_is_io_def)
  then show "safe (cpu_read_phys addr s)" "safe (cpu_write_phys addr v s)"
    using s safe_mmio by (auto simp: cpu_read_phys_def cpu_write_phys_def)
qed

lemma safe_write_if: "mem_ok s \<Longrightarrow> 4 dvd unat addr \<Longrightarrow> safe (write_if c addr v s)"
  by (simp add: write_if_def safe_phys)

lemmas safe_intros = safe_seq safe_if safe_page_fault safe_raise safe_phys safe_write_if


section \<open>The walk keeps the invariant\<close>

lemma dvd4: "4 dvd unat x \<longleftrightarrow> x AND 3 = 0" for x :: u32
proof -
  have "x AND 3 = take_bit 2 x" by (simp add: take_bit_eq_mask mask_eq_exp_minus_1)
  then have "unat (x AND 3) = take_bit 2 (unat x)" by (simp only: unsigned_take_bit_eq)
  then have "unat (x AND 3) = unat x mod 4" by (simp add: take_bit_eq_mod)
  then show ?thesis by (metis dvd_eq_mod_eq_0 unat_eq_zero)
qed

lemma aligned4:
  "a AND 3 = 0 \<Longrightarrow> b AND 3 = 0 \<Longrightarrow> (a + b) AND 3 = 0"
  "a AND 3 = 0 \<Longrightarrow> b AND 3 = 0 \<Longrightarrow> (a OR b) AND 3 = 0"
  "m AND 3 = 0 \<Longrightarrow> (a AND m) AND 3 = 0" for a b m :: u32
proof -
  show "a AND 3 = 0 \<Longrightarrow> b AND 3 = 0 \<Longrightarrow> (a + b) AND 3 = 0"
    unfolding dvd4 [symmetric] by (simp add: unat_word_ariths dvd_mod)
  show "a AND 3 = 0 \<Longrightarrow> b AND 3 = 0 \<Longrightarrow> (a OR b) AND 3 = 0"
    by (simp add: bit.conj_disj_distrib2)
  show "m AND 3 = 0 \<Longrightarrow> (a AND m) AND 3 = 0" by (simp add: and.assoc)
qed

lemma cr3_aligned: "mem_ok s \<Longrightarrow> m_cr s 3 AND 3 = 0"
proof -
  assume "mem_ok s"
  then have "m_cr s 3 AND 31 = 0" by (simp add: mem_ok_def sys_ok_def)
  then have "(m_cr s 3 AND 31) AND 3 = 0" by simp
  then show ?thesis by (simp add: and.assoc)
qed

lemma page_masks:
  "(x AND NOT 0xFFF) AND 0xFFF = 0" "(x AND NOT 0xFFF) AND 3 = 0" "(x AND 0xFFC) AND 3 = 0"
  "(x AND 0xFF8) AND 3 = 0" "(x AND 0x18) AND 3 = 0" "(x AND NOT 31) AND 3 = 0"
  "((x AND 0xFFC00000) OR (y AND 0x3FF000)) AND 0xFFF = 0"
  "((x AND 0xFFE00000) OR (y AND 0x1FF000)) AND 0xFFF = 0" for x y :: u32
  by (simp_all add: and.assoc bit.conj_disj_distrib2)

lemma four_aligned: "(4 :: u32) AND 3 = 0"
  by simp

lemma table_addr:
  "mem_ok s \<Longrightarrow> 4 dvd unat (m_cr s 3 + (x AND 0xFFC))"
  "4 dvd unat ((x AND 0xFFC) + (y AND NOT 0xFFF))"
  "4 dvd unat ((x AND NOT 31) OR (y AND 0x18))" "4 dvd unat (((x AND NOT 31) OR (y AND 0x18)) + 4)"
  "4 dvd unat ((x AND NOT 0xFFF) OR (y AND 0xFF8))" "4 dvd unat (((x AND NOT 0xFFF) OR (y AND 0xFF8)) + 4)"
  for x y :: u32
  unfolding dvd4
  by (intro aligned4(1,2) page_masks cr3_aligned four_aligned; assumption)+

lemma safe_Ok: "mem_ok t \<Longrightarrow> safe (Ok x t)"
  by simp

lemma walk32_safe: "mem_ok s \<Longrightarrow> safe (mmu_walk32 lin write user s)"
  unfolding mmu_walk32_def Let_def
  by (intro safe_intros safe_Ok set_entry_ok page_masks table_addr; assumption)

lemma walk_pae_safe: "mem_ok s \<Longrightarrow> safe (mmu_walk_pae lin ex write user s)"
  unfolding mmu_walk_pae_def Let_def
  by (intro safe_intros safe_Ok set_entry_ok page_masks table_addr; assumption)

lemma translate_safe: "mem_ok s \<Longrightarrow> safe (cpu_mmu_translate lin shift s)"
  unfolding cpu_mmu_translate_def
  by (intro safe_if safe_Ok set_entry_ok page_masks walk32_safe walk_pae_safe; assumption)

end
