(* ===== verification/Ram_Laws.thy ===== *)
theory Ram_Laws
  imports Mem_Inv
begin

text \<open>
  Guest RAM as a little-endian byte array: what the half-word and double-word accesses of the
  host read and write, byte by byte, and that aligned double words do not overlap.
\<close>

section \<open>Bytes of a word\<close>

lemma cat8: "bit (word_cat (a :: u8) (b :: u8) :: u16) i \<longleftrightarrow> i < 16 \<and> (if i < 8 then bit b i else bit a (i - 8))"
  by (subst bit_word_cat_iff) (simp only: len_num1 len_of_numeral_defs, simp)

lemma bytes16: "word_cat (ucast (drop_bit 8 v) :: u8) (ucast v :: u8) = v" for v :: u16
  by (rule bit_eqI) (auto simp: cat8 bit_simps)

lemma bytes32: "word_cat (ucast (drop_bit 16 v) :: u16) (ucast v :: u16) = v" for v :: u32
  by (rule bit_eqI) (auto simp: bit_cat16 bit_simps)

lemma ucast_cat16: "ucast (word_cat (a :: u8) (b :: u8) :: u16) = b"
  "ucast (drop_bit 8 (word_cat (a :: u8) (b :: u8) :: u16)) = a"
  by (rule bit_eqI, auto simp: cat8 bit_simps)+

lemma ucast_cat32: "ucast (word_cat (a :: u16) (b :: u16) :: u32) = b"
  "ucast (drop_bit 16 (word_cat (a :: u16) (b :: u16) :: u32)) = a"
  by (rule bit_eqI, auto simp: bit_cat16 bit_simps)+

lemma or_bytes16: "ucast b OR push_bit 8 (ucast a) = (ucast (word_cat (a :: u8) (b :: u8) :: u16) :: u32)"
  by (rule bit_eqI) (auto simp: bit_or_iff bit_push_bit_iff bit_zext8 bit_zext16 cat8 dest: bit_imp_le_length)

lemma or_halves32: "ucast b OR push_bit 16 (ucast a) = (word_cat (a :: u16) (b :: u16) :: u32)"
  by (rule bit_eqI) (auto simp: bit_or_iff bit_push_bit_iff bit_zext16 bit_cat16 dest: bit_imp_le_length)

section \<open>Reads and writes of RAM\<close>

lemma plus_distinct [simp]:
  "p + 1 \<noteq> p" "p + 2 \<noteq> p" "p + 3 \<noteq> p" "p + 1 \<noteq> p + 2" "p + 1 \<noteq> p + 3" "p + 2 \<noteq> p + 3"
  "p \<noteq> p + 1" "p \<noteq> p + 2" "p \<noteq> p + 3" "p + 2 \<noteq> p + 1" "p + 3 \<noteq> p + 1" "p + 3 \<noteq> p + 2" for p :: u32
  by simp_all

lemma put16_mem: "m_mem (ram_put16 p v s) = (m_mem s)(p := ucast v, p + 1 := ucast (drop_bit 8 v))"
  by (simp add: ram_put16_def ram_put8_def)

lemma put32_mem:
  "m_mem (ram_put32 p v s) = (m_mem s)(p := ucast v, p + 1 := ucast (drop_bit 8 v),
     p + 2 := ucast (drop_bit 16 v), p + 3 := ucast (drop_bit 24 v))"
proof -
  have e: "(ucast (ucast v :: u16) :: u8) = ucast v" "(ucast (drop_bit 8 (ucast v :: u16)) :: u8) = ucast (drop_bit 8 v)"
    "(ucast (ucast (drop_bit 16 v) :: u16) :: u8) = ucast (drop_bit 16 v)"
    "(ucast (drop_bit 8 (ucast (drop_bit 16 v) :: u16)) :: u8) = ucast (drop_bit 24 v)"
    by (rule bit_eqI, simp add: bit_simps)+
  show ?thesis by (simp add: ram_put32_def put16_mem e add.commute)
qed

lemma get32_bytes:
  "ram_get32 p s = word_cat (word_cat (m_mem s (p + 3)) (m_mem s (p + 2)) :: u16) (word_cat (m_mem s (p + 1)) (m_mem s p) :: u16)"
  by (simp add: ram_get32_def ram_get16_def add.assoc)

lemma get_put_same [simp]:
  "ram_get16 p (ram_put16 p v s) = v" "ram_get32 p (ram_put32 p w s) = w"
proof -
  show "ram_get16 p (ram_put16 p v s) = v" by (simp add: ram_get16_def put16_mem bytes16)
  have e: "word_cat (ucast (drop_bit 24 w) :: u8) (ucast (drop_bit 16 w) :: u8) = (ucast (drop_bit 16 w) :: u16)"
    "word_cat (ucast (drop_bit 8 w) :: u8) (ucast w :: u8) = (ucast w :: u16)"
    by (rule bit_eqI, auto simp: cat8 bit_simps)+
  show "ram_get32 p (ram_put32 p w s) = w" by (simp add: get32_bytes put32_mem e bytes32)
qed

lemma get_cong:
  "m_mem t p = m_mem s p \<Longrightarrow> m_mem t (p + 1) = m_mem s (p + 1) \<Longrightarrow> ram_get16 p t = ram_get16 p s"
  "\<forall>i < 4. m_mem t (p + of_nat i) = m_mem s (p + of_nat i) \<Longrightarrow> ram_get32 p t = ram_get32 p s"
proof -
  show "m_mem t p = m_mem s p \<Longrightarrow> m_mem t (p + 1) = m_mem s (p + 1) \<Longrightarrow> ram_get16 p t = ram_get16 p s"
    by (simp add: ram_get16_def)
  assume a: "\<forall>i < 4. m_mem t (p + of_nat i) = m_mem s (p + of_nat i)"
  show "ram_get32 p t = ram_get32 p s"
    using a [rule_format, of 0] a [rule_format, of 1] a [rule_format, of 2] a [rule_format, of 3]
    by (simp add: get32_bytes)
qed

lemma aligned_step: "p AND 3 = 0 \<Longrightarrow> i < 4 \<Longrightarrow> unat (p + of_nat i) = unat p + i" for p :: u32
proof -
  assume p: "p AND 3 = 0" and i: "i < 4"
  obtain k where k: "unat p = 4 * k" using p unfolding dvd4 [symmetric] by (auto elim: dvdE)
  have "unat p < 2 ^ 32" using unsigned_less [of p, where ?'a = nat] by simp
  then have "unat p + i < 2 ^ 32" using k i by simp
  then show ?thesis using i by (simp add: unat_word_ariths unat_of_nat)
qed

lemma aligned_disjoint:
  fixes p q :: u32
  assumes "p AND 3 = 0" "q AND 3 = 0" "i < 4" "j < 4" "p + of_nat i = q + of_nat j"
  shows "p = q \<and> i = j"
proof -
  have "unat p + i = unat q + j"
    using assms(5) aligned_step [OF assms(1,3)] aligned_step [OF assms(2,4)] by metis
  moreover obtain k l where "unat p = 4 * k" "unat q = 4 * l"
    using assms(1,2) unfolding dvd4 [symmetric] by (auto elim!: dvdE)
  ultimately have "unat p = unat q \<and> i = j" using assms(3,4) by presburger
  then show ?thesis by (simp add: word_unat_eq_iff)
qed

lemma put32_other:
  assumes "\<And>i. i < 4 \<Longrightarrow> q \<noteq> p + of_nat i"
  shows "m_mem (ram_put32 p v s) q = m_mem s q"
  using assms [of 0] assms [of 1] assms [of 2] assms [of 3] by (simp add: put32_mem)

lemma get_put_other:
  assumes "p AND 3 = 0" "q AND 3 = 0" "p \<noteq> q"
  shows "ram_get32 q (ram_put32 p v s) = ram_get32 q s"
  using aligned_disjoint [OF assms(2,1)] assms(3) by (intro get_cong(2) allI impI put32_other) blast

end
