(* ===== verification/Mem_Safety.thy ===== *)
theory Mem_Safety
  imports Mem_Inv
begin

text \<open>
  Memory safety of every access, slow and fast, of the stack operations and of the
  operations that maintain the translation state.
\<close>

section \<open>A successful walk leaves an entry\<close>

lemma drop_20: "drop_bit 12 lin AND 1048575 = drop_bit 12 lin" for lin :: u32
proof -
  have "drop_bit 12 lin AND 1048575 = take_bit 20 (drop_bit 12 lin)"
    by (simp add: take_bit_eq_mask mask_eq_exp_minus_1)
  also have "\<dots> = drop_bit 12 lin"
    by (rule bit_word_eqI) (auto simp: bit_take_bit_iff bit_drop_bit_eq dest: bit_imp_le_length)
  finally show ?thesis .
qed

lemma set_entry_some:
  "m_tlb (cpu_set_tlb_entry (lin AND - 4096) phys user write global nx s) (drop_bit 12 lin) \<noteq> None"
  "\<exists>y. m_tlb (cpu_set_tlb_entry (lin AND - 4096) phys user write global nx s) (drop_bit 12 lin) = Some y"
  by (simp_all add: cpu_set_tlb_entry_def Let_def drop_20)

lemma walk32_entry: "mmu_walk32 lin write user s = Ok x t \<Longrightarrow> m_tlb t (drop_bit 12 lin) \<noteq> None"
  unfolding mmu_walk32_def Let_def page_fault_def raise_code_def
  by (auto simp: seq_Ok_iff set_entry_some split: if_splits)

lemma walk_pae_entry: "mmu_walk_pae lin ex write user s = Ok x t \<Longrightarrow> m_tlb t (drop_bit 12 lin) \<noteq> None"
  unfolding mmu_walk_pae_def Let_def page_fault_def raise_code_def
  by (auto simp: seq_Ok_iff set_entry_some split: if_splits)

lemma translate_entry: "cpu_mmu_translate lin shift s = Ok x t \<Longrightarrow> m_tlb t (drop_bit 12 lin) \<noteq> None"
  unfolding cpu_mmu_translate_def
  by (auto simp: set_entry_some split: if_splits dest: walk32_entry walk_pae_entry)

lemma bit_tag_at: "bit (tag_at addr shift s) k = bit (m_tlb_tags s (drop_bit 12 addr)) (shift + k)"
  by (simp add: tag_at_def bit_drop_bit_eq bit_zext8)

text \<open>A host pointer of a page, and where it points.\<close>

lemma host_page:
  assumes s: "mem_ok s" and off: "m_tlb s (drop_bit 12 addr) = Some off"
  defines "p \<equiv> entry_page (drop_bit 12 addr) off"
  shows "p AND 0xFFF = 0" "host_at addr s = Some (p + (addr AND 0xFFF))"
proof -
  show "p AND 0xFFF = 0"
    using s off by (auto simp: mem_ok_def entry_ok_def p_def Let_def dest: spec [of _ "drop_bit 12 addr"])
  have "off + addr = off + (push_bit 12 (drop_bit 12 addr) + (addr AND 0xFFF))"
    using page_split [of addr] by simp
  then show "host_at addr s = Some (p + (addr AND 0xFFF))"
    by (simp add: host_at_def off p_def entry_page_def add.assoc)
qed

lemma host_aligned:
  fixes p addr :: u32
  assumes "p AND 0xFFF = 0" "n dvd 4096" "n dvd unat addr"
  shows "n dvd unat (p + (addr AND 0xFFF))"
  using assms page_dvd [of p] dvd_trans [of n 4096 "unat p"] by (simp add: page_offset dvd_mod)

lemma slow_ram_ok:
  assumes s: "mem_ok s" and off: "m_tlb s (drop_bit 12 addr) \<noteq> None" and n: "n dvd 4" "n dvd unat addr"
    and h: "host_at addr s = Some p" "p < m_memory_size s"
  shows "ram_ok n p s"
proof -
  obtain f where "m_tlb s (drop_bit 12 addr) = Some f" using off by auto
  note hp = host_page [OF s this]
  have "n dvd 4096" using n(1) dvd_trans [of n 4 4096] by simp
  then have "n dvd unat p" using host_aligned [OF hp(1) _ n(2)] hp(2) h(1) by simp
  moreover have "n dvd unat (m_memory_size s)" using mem_size_4 [OF s] n(1) by (rule dvd_trans [rotated])
  ultimately show ?thesis using operand_below h(2) by (simp add: ram_ok_def)
qed

lemma host_at_some: "m_tlb s (drop_bit 12 addr) \<noteq> None \<Longrightarrow> \<exists>p. host_at addr s = Some p"
  by (auto simp: host_at_def)

lemma slow_read_safe:
  assumes s: "mem_ok s" and off: "m_tlb s (drop_bit 12 addr) \<noteq> None" and n: "n dvd 4" "n dvd unat addr"
  shows "safe (slow_read n sz get addr s)"
proof -
  obtain p where p: "host_at addr s = Some p" using host_at_some [OF off] by auto
  have "\<not> phys_is_io p s \<Longrightarrow> ram_ok n p s"
    using slow_ram_ok [OF s off n p] by (simp add: phys_is_io_def not_le)
  then show ?thesis
    using s p safe_mmio(1) [OF s, of p sz] by (auto simp: slow_read_def intro!: safe_seq)
qed

lemma slow_write_safe:
  assumes s: "mem_ok s" and off: "m_tlb s (drop_bit 12 addr) \<noteq> None" and n: "n dvd 4" "n dvd unat addr"
    and put: "\<And>p t. mem_ok t \<Longrightarrow> mem_ok (put p t)"
  shows "safe (slow_write n sz put addr data s)"
proof -
  obtain p where p: "host_at addr s = Some p" using host_at_some [OF off] by auto
  have "\<not> m_memory_size s \<le> p \<Longrightarrow> ram_ok n p s"
    using slow_ram_ok [OF s off n p] by (simp add: not_le)
  then show ?thesis
    using s p safe_mmio(2) [OF s, of p data sz] put by (auto simp: slow_write_def)
qed

text \<open>The walk of the slow path.\<close>

lemma walk_if_safe:
  assumes s: "mem_ok s" and sh: "shift \<in> {0, 2, 4, 6}" and f: "\<And>t. mem_ok t \<Longrightarrow> m_tlb t (drop_bit 12 addr) \<noteq> None \<Longrightarrow> safe (f t)"
  shows "safe (seq (walk_if (tag_at addr shift s) addr shift s) (\<lambda>_. f))"
proof (cases "bit (tag_at addr shift s) 1")
  case True
  then have w: "walk_if (tag_at addr shift s) addr shift s = cpu_mmu_translate addr shift s"
    by (simp add: walk_if_def)
  show ?thesis
    using translate_safe [OF s, of addr shift] f translate_entry [of addr shift s] unfolding w
    by (cases "cpu_mmu_translate addr shift s") auto
next
  case False
  then have "m_tlb_tags s (drop_bit 12 addr) \<noteq> 0xFF"
    using sh by (auto simp: bit_tag_at)
  then have "m_tlb s (drop_bit 12 addr) \<noteq> None"
    using s by (cases "m_tlb s (drop_bit 12 addr)")
      (auto simp: mem_ok_def entry_ok_def dest!: spec [of _ "drop_bit 12 addr"])
  then show ?thesis using False f [OF s] by (simp add: walk_if_def)
qed


section \<open>The slow path\<close>

lemma dvd2: "2 dvd unat x \<longleftrightarrow> x AND 1 = 0" for x :: u32
proof -
  have "x AND 1 = take_bit 1 x" by (simp add: take_bit_eq_mask mask_eq_exp_minus_1)
  then have "unat (x AND 1) = take_bit 1 (unat x)" by (simp only: unsigned_take_bit_eq)
  then have "unat (x AND 1) = unat x mod 2" by (simp add: take_bit_eq_mod)
  then show ?thesis by (metis dvd_eq_mod_eq_0 unat_eq_zero)
qed

lemma access_read8_safe:
  "mem_ok s \<Longrightarrow> shift \<in> {0, 2, 4, 6} \<Longrightarrow> safe (cpu_access_read8 addr (tag_at addr shift s) shift s)"
  unfolding cpu_access_read8_def by (rule walk_if_safe) (auto intro: slow_read_safe)

lemma access_write8_safe:
  "mem_ok s \<Longrightarrow> shift \<in> {0, 2, 4, 6} \<Longrightarrow> safe (cpu_access_write8 addr v (tag_at addr shift s) shift s)"
  unfolding cpu_access_write8_def by (rule walk_if_safe) (auto intro: slow_write_safe)

lemma read_bytes_safe: "mem_ok s \<Longrightarrow> shift \<in> {0, 2, 4, 6} \<Longrightarrow> safe (read_bytes is addr shift res s)"
  by (induction "is" arbitrary: res s) (auto simp: Let_def intro!: safe_seq access_read8_safe)

lemma write_bytes_safe: "mem_ok s \<Longrightarrow> shift \<in> {0, 2, 4, 6} \<Longrightarrow> safe (write_bytes is addr v shift s)"
  by (induction "is" arbitrary: s) (auto simp: Let_def intro!: safe_seq access_write8_safe)

lemma access_read16_safe:
  "mem_ok s \<Longrightarrow> shift \<in> {0, 2, 4, 6} \<Longrightarrow> safe (cpu_access_read16 addr (tag_at addr shift s) shift s)"
  unfolding cpu_access_read16_def
  by (intro safe_if read_bytes_safe walk_if_safe slow_read_safe) (auto simp: dvd2)

lemma access_read32_safe:
  "mem_ok s \<Longrightarrow> shift \<in> {0, 2, 4, 6} \<Longrightarrow> safe (cpu_access_read32 addr (tag_at addr shift s) shift s)"
  unfolding cpu_access_read32_def
  by (intro safe_if read_bytes_safe walk_if_safe slow_read_safe) (auto simp: dvd4)

lemma access_write16_safe:
  "mem_ok s \<Longrightarrow> shift \<in> {0, 2, 4, 6} \<Longrightarrow> safe (cpu_access_write16 addr v (tag_at addr shift s) shift s)"
  unfolding cpu_access_write16_def
  by (intro safe_if write_bytes_safe walk_if_safe slow_write_safe) (auto simp: dvd2)

lemma access_write32_safe:
  "mem_ok s \<Longrightarrow> shift \<in> {0, 2, 4, 6} \<Longrightarrow> safe (cpu_access_write32 addr v (tag_at addr shift s) shift s)"
  unfolding cpu_access_write32_def
  by (intro safe_if write_bytes_safe walk_if_safe slow_write_safe) (auto simp: dvd4)

section \<open>The fast path\<close>

text \<open>A tag without its low bit: the pointer is there and the whole operand is in RAM.\<close>

lemma fast_ok:
  assumes s: "mem_ok s" and sh: "shift \<in> {0, 2, 4, 6}" and t: "\<not> bit (tag_at addr shift s) 0"
    and n: "n dvd 4" "n dvd unat addr" "n > 0"
  shows "\<exists>p. host_at addr s = Some p \<and> ram_ok n p s"
proof -
  let ?e = "drop_bit 12 addr"
  have tb: "\<not> bit (m_tlb_tags s ?e) shift" using t by (simp add: bit_tag_at)
  have inv: "entry_inv (m_memory_size s) ?e (m_tlb s ?e) (m_tlb_tags s ?e)"
    using s by (simp add: mem_ok_def entry_ok_def)
  have "m_tlb_tags s ?e \<noteq> 0xFF" using tb sh by auto
  then obtain off where off: "m_tlb s ?e = Some off" using inv by (cases "m_tlb s ?e") auto
  have lt: "entry_page ?e off < m_memory_size s"
    using inv tb sh by (simp add: off Let_def) blast
  have "m_memory_size s AND 0xFFF = 0" using s by (simp add: mem_ok_def sys_ok_def)
  moreover have "n dvd 4096" using n(1) dvd_trans [of n 4 4096] by simp
  ultimately have "ram_ok n (entry_page ?e off + (addr AND 0xFFF)) s"
    using operand_in_page(1) [OF host_page(1) [OF s off] _ lt _ n(2,3)] by (simp add: ram_ok_def)
  then show ?thesis using host_page(2) [OF s off] by auto
qed

lemma or_and_zero: "(a OR b) AND m = 0 \<longleftrightarrow> a AND m = 0 \<and> b AND m = 0" for a b m :: u32
  by (auto simp: bit.conj_disj_distrib2 or_eq_0_iff)

lemma host_fast:
  "mem_ok s \<Longrightarrow> shift \<in> {0, 2, 4, 6} \<Longrightarrow> (addr OR tag_at addr shift s) AND 3 = 0
    \<Longrightarrow> \<exists>p. host_at addr s = Some p \<and> ram_ok 4 p s"
  "mem_ok s \<Longrightarrow> shift \<in> {0, 2, 4, 6} \<Longrightarrow> (addr OR tag_at addr shift s) AND 1 = 0
    \<Longrightarrow> \<exists>p. host_at addr s = Some p \<and> ram_ok 2 p s"
proof -
  have b: "\<not> bit x 0" if "x AND 3 = 0" for x :: u32
  proof -
    have "bit (x AND 3) 0 = bit x 0" by (simp add: bit_and_iff)
    then show ?thesis using that by simp
  qed
  show "mem_ok s \<Longrightarrow> shift \<in> {0, 2, 4, 6} \<Longrightarrow> (addr OR tag_at addr shift s) AND 3 = 0
    \<Longrightarrow> \<exists>p. host_at addr s = Some p \<and> ram_ok 4 p s"
    using fast_ok [of s shift addr 4] b by (simp add: or_and_zero dvd4)
  show "mem_ok s \<Longrightarrow> shift \<in> {0, 2, 4, 6} \<Longrightarrow> (addr OR tag_at addr shift s) AND 1 = 0
    \<Longrightarrow> \<exists>p. host_at addr s = Some p \<and> ram_ok 2 p s"
    using fast_ok [of s shift addr 2] by (simp add: bit_or_iff dvd2)
qed

lemma mem_read8_safe: "mem_ok s \<Longrightarrow> shift \<in> {0, 2, 4, 6} \<Longrightarrow> safe (mem_read8 shift addr s)"
  using fast_ok [of s shift addr 1]
  by (auto simp: mem_read8_def Let_def intro!: safe_seq access_read8_safe)

lemma mem_read16_raw_safe: "mem_ok s \<Longrightarrow> shift \<in> {0, 2, 4, 6} \<Longrightarrow> safe (mem_read16_raw shift addr s)"
  using host_fast(2) [of s shift addr]
  unfolding mem_read16_raw_def Let_def by (intro safe_if safe_seq access_read16_safe) auto

lemma mem_read16_safe: "mem_ok s \<Longrightarrow> shift \<in> {0, 2, 4, 6} \<Longrightarrow> safe (mem_read16 shift addr s)"
  unfolding mem_read16_def by (intro safe_seq mem_read16_raw_safe) auto

lemma mem_read32_safe: "mem_ok s \<Longrightarrow> shift \<in> {0, 2, 4, 6} \<Longrightarrow> safe (mem_read32 shift addr s)"
  using host_fast(1) [of s shift addr]
  unfolding mem_read32_def Let_def by (intro safe_if safe_seq access_read32_safe) auto

lemma mem_write8_safe: "mem_ok s \<Longrightarrow> shift \<in> {0, 2, 4, 6} \<Longrightarrow> safe (mem_write8 shift addr v s)"
  using fast_ok [of s shift addr 1]
  by (auto simp: mem_write8_def Let_def intro!: access_write8_safe)

lemma mem_write16_safe: "mem_ok s \<Longrightarrow> shift \<in> {0, 2, 4, 6} \<Longrightarrow> safe (mem_write16 shift addr v s)"
  using host_fast(2) [of s shift addr]
  unfolding mem_write16_def Let_def by (intro safe_if access_write16_safe) auto

lemma mem_write32_safe: "mem_ok s \<Longrightarrow> shift \<in> {0, 2, 4, 6} \<Longrightarrow> safe (mem_write32 shift addr v s)"
  using host_fast(1) [of s shift addr]
  unfolding mem_write32_def Let_def by (intro safe_if access_write32_safe) auto

section \<open>The stack\<close>

lemma shifts_ok:
  "mem_ok s \<Longrightarrow> m_tlb_shift_read s \<in> {0, 2, 4, 6}" "mem_ok s \<Longrightarrow> m_tlb_shift_write s \<in> {0, 2, 4, 6}"
  by (auto simp: mem_ok_def sys_ok_def)

lemmas stack_intros = safe_seq mem_read16_safe mem_read16_raw_safe mem_read32_safe mem_write16_safe mem_write32_safe
  shifts_ok safe_Ok ram_put_ok

lemma push_pop_safe:
  assumes "mem_ok s"
  shows "safe (cpu_push16 x s)" "safe (cpu_push32 x s)" "safe (cpu_pop16 s)" "safe (cpu_pop16_dest32 s)"
    "safe (cpu_pop32 s)"
  unfolding cpu_push16_def cpu_push32_def cpu_pop16_def cpu_pop16_dest32_def cpu_pop32_def Let_def
  by (intro stack_intros assms; assumption)+

lemma push_all_safe: "mem_ok s \<Longrightarrow> safe (push_all16 is esp s)" "mem_ok s \<Longrightarrow> safe (push_all32 is esp s)"
  by (induction "is" arbitrary: esp s) (auto simp: Let_def intro!: safe_seq mem_write16_safe mem_write32_safe shifts_ok)

lemma pop_all_safe: "mem_ok s \<Longrightarrow> safe (pop_all16 is esp f s)" "mem_ok s \<Longrightarrow> safe (pop_all32 is esp g s)"
  by (induction "is" arbitrary: esp f g s) (auto intro!: safe_seq mem_read16_safe mem_read32_safe shifts_ok)

lemma fold_regs_ok:
  "mem_ok s \<Longrightarrow> mem_ok (fold (\<lambda>i s. if i = 4 then s else set_reg16 (2 * i) (f i) s) is s)"
  "mem_ok s \<Longrightarrow> mem_ok (fold (\<lambda>i s. if i = 4 then s else set_reg32 i (g i) s) is s)"
  by (induction "is" arbitrary: s) auto

lemma push_pop_all_safe:
  assumes "mem_ok s"
  shows "safe (cpu_pusha s)" "safe (cpu_pushad s)" "safe (cpu_popa s)" "safe (cpu_popad s)"
  unfolding cpu_pusha_def cpu_pushad_def cpu_popa_def cpu_popad_def Let_def
  using assms
  by (auto simp del: pop_all16.simps pop_all32.simps push_all16.simps push_all32.simps
      intro!: safe_seq push_all_safe pop_all_safe fold_regs_ok ram_put_ok)

section \<open>Control registers\<close>

lemma set_cr_ok: "mem_ok s \<Longrightarrow> mem_ok (cpu_prot_set_cr cr v s)"
proof -
  assume s: "mem_ok s"
  have a: "cr \<noteq> 3 \<Longrightarrow> mem_ok (s\<lparr>m_cr := (m_cr s)(cr := v)\<rparr>)"
    using s by (auto simp: same_sys_def elim!: mem_ok_frame)
  have b: "mem_ok (s\<lparr>m_cr := ((m_cr s)(3 := v))(3 := v AND NOT 31)\<rparr>)"
  proof -
    have "entry_ok (s\<lparr>m_cr := f\<rparr>) e = entry_ok s e" for f e by (simp add: entry_ok_def)
    moreover have "(v AND NOT 31) AND 31 = 0" by (simp add: and.assoc)
    ultimately show ?thesis using s by (simp add: mem_ok_def sys_ok_def)
  qed
  show ?thesis using a b by (auto simp: cpu_prot_set_cr_def Let_def)
qed

lemma update_cpl_ok: "mem_ok s \<Longrightarrow> mem_ok (cpu_prot_update_cpl s)"
proof -
  assume s: "mem_ok s"
  have "entry_ok (cpu_prot_update_cpl s) e = entry_ok s e" for e
    by (simp add: entry_ok_def cpu_prot_update_cpl_def)
  moreover have "sys_ok (cpu_prot_update_cpl s)"
    using s by (simp add: cpu_prot_update_cpl_def mem_ok_def sys_ok_def)
  ultimately show ?thesis using s by (simp add: mem_ok_def)
qed

lemma set_a20_ok: "mem_ok s \<Longrightarrow> mem_ok (cpu_set_a20 b s)"
proof -
  assume s: "mem_ok s"
  have m: "(- 1 XOR push_bit 20 (of_bool (\<not> b))) AND 0xFFF = (0xFFF :: u32)"
    by (cases b) simp_all
  have "entry_ok (s\<lparr>m_a20_mask := x\<rparr>) e = entry_ok s e" for x e by (simp add: entry_ok_def)
  then have "mem_ok (s\<lparr>m_a20_mask := - 1 XOR push_bit 20 (of_bool (\<not> b))\<rparr>)"
    using s m by (simp add: mem_ok_def sys_ok_def)
  then show ?thesis by (simp add: cpu_set_a20_def Let_def)
qed

lemma set_code_ok: "mem_ok s \<Longrightarrow> mem_ok (cpu_smc_set_code p s)"
  by (auto simp: cpu_smc_set_code_def Let_def same_sys_def elim!: mem_ok_frame)

lemma set_smc_ok:
  assumes s: "mem_ok s"
  shows "mem_ok (set_smc len lin s)"
proof -
  let ?i = "drop_bit 12 lin" let ?t = "m_tlb_tags s ?i"
  have b: "bit (?t OR 0x44) k \<longleftrightarrow> bit ?t k \<or> k = 2 \<or> k = 6" for k
  proof -
    have "(0x44 :: u8) = push_bit 2 1 OR push_bit 6 1" by simp
    moreover have "bit (push_bit 2 1 OR push_bit 6 (1 :: u8)) k \<longleftrightarrow> k = 2 \<or> k = 6"
      by (auto simp: bit_or_iff bit_push_bit_iff bit_1_iff simp del: push_bit_of_1)
    ultimately show ?thesis by (simp only: bit_or_iff)
  qed
  have "entry_inv (m_memory_size s) ?i (m_tlb s ?i) ?t"
    using s by (auto simp: mem_ok_def entry_ok_def dest: spec [of _ ?i])
  then have "entry_inv (m_memory_size s) ?i (m_tlb s ?i) (?t OR 0x44)"
    by (cases "m_tlb s ?i") (auto simp: Let_def b)
  then have "entry_ok (s\<lparr>m_tlb_tags := (m_tlb_tags s)(?i := ?t OR 0x44)\<rparr>) x" for x
    using s by (auto simp: mem_ok_def entry_ok_def)
  then have ok: "mem_ok (s\<lparr>m_tlb_tags := (m_tlb_tags s)(?i := ?t OR 0x44)\<rparr>)"
    using s by (simp add: mem_ok_def sys_ok_def)
  have "mem_ok s \<Longrightarrow> mem_ok (fold (\<lambda>i s. cpu_smc_set_code (m_phys_eip s + push_bit 7 (of_nat i)) s) is s)" for "is" s
    by (induction "is" arbitrary: s) (auto intro: set_code_ok)
  then show ?thesis using ok unfolding set_smc_def Let_def by blast
qed

lemma invalidate_page_ok: "mem_ok s \<Longrightarrow> cpu_smc_invalidate_page phys s = Some t \<Longrightarrow> mem_ok t"
proof -
  assume s: "mem_ok s" and t: "cpu_smc_invalidate_page phys s = Some t"
  obtain q s1 where c: "smc_clear_chunks [0..<31] phys (phys AND NOT 0xFFF) (m_smc_has_code s (drop_bit 12 phys)) (True, s) = (q, s1)"
    by fastforce
  then have "mem_ok s1" using clear_chunks_ok [OF s] by (metis snd_conv)
  then show "mem_ok t" using t c by (auto simp: cpu_smc_invalidate_page_def Let_def split: if_splits)
qed

end
