(* ===== verification/Seg.thy ===== *)
theory Seg
  imports Access
begin

text \<open>
  Model of src/src/cpu/seg.cpp: decoding of descriptors, loading of segment registers in real,
  virtual-8086 and protected mode with the checks of a move to a segment register, and the
  loads of CS:EIP.
\<close>

section \<open>Descriptors\<close>

record seg_desc =
  raw0 :: u32
  raw1 :: u32

definition desc_access :: "seg_desc \<Rightarrow> u32" where
  "desc_access info = drop_bit 8 (raw1 info) AND 0xFFFF"

definition cpu_seg_get_base :: "seg_desc \<Rightarrow> u32" where
  "cpu_seg_get_base info =
     drop_bit 16 (raw0 info) OR ((push_bit 16 (raw1 info) AND 0xFF0000) OR (raw1 info AND 0xFF000000))"

definition cpu_seg_get_limit :: "seg_desc \<Rightarrow> u32" where
  "cpu_seg_get_limit info =
     (let limit = (raw0 info AND 0xFFFF) OR (raw1 info AND 0xF0000) in
      if desc_access info AND 0x8000 \<noteq> 0 then push_bit 12 limit OR 0xFFF else limit)"

definition cpu_seg_gate_target_segment :: "seg_desc \<Rightarrow> u32" where
  "cpu_seg_gate_target_segment info = drop_bit 16 (raw0 info) AND 0xFFFF"

text \<open>The 386 gates are the types 12, 14 and 15.\<close>

definition cpu_seg_gate_target_offset :: "seg_desc \<Rightarrow> u32" where
  "cpu_seg_gate_target_offset info =
     (let offset = raw0 info AND 0xFFFF in
      if desc_access info AND 0x1F \<in> {12, 14, 15} then offset OR (raw1 info AND NOT 0xFFFF) else offset)"

definition cpu_seg_gate_parameter_count :: "seg_desc \<Rightarrow> u32" where
  "cpu_seg_gate_parameter_count info = raw1 info AND 0x1F"

definition cpu_seg_get_dpl :: "nat \<Rightarrow> 'd cpu_mem \<Rightarrow> u32" where
  "cpu_seg_get_dpl seg s = drop_bit 5 (m_seg_access s seg) AND 3"

text \<open>The all-ones address stands for a selector beyond the limit of its table.\<close>

definition cpu_seg_descriptor_address :: "nat option \<Rightarrow> u16 \<Rightarrow> 'd cpu_mem \<Rightarrow> u32" where
  "cpu_seg_descriptor_address table sel s =
     (let tbl = (case table of Some t \<Rightarrow> t | None \<Rightarrow> if sel AND 4 \<noteq> 0 then 8 else 7) in
      if m_seg_limit s tbl < ucast (sel OR 7) then - 1
      else ucast (sel AND NOT 7) + m_seg_base s tbl)"

text \<open>
  \<open>Ok None\<close> is the return value -1, for a selector beyond the limit when no exception
  is asked for.
\<close>

definition cpu_seg_load_descriptor2 ::
  "nat \<Rightarrow> u32 \<Rightarrow> u32 option \<Rightarrow> u32 \<Rightarrow> 'd cpu_mem \<Rightarrow> (seg_desc option, 'd cpu_mem) outcome" where
  "cpu_seg_load_descriptor2 table selector exc code s =
     (if m_seg_limit s table < selector OR 7
      then (case exc of None \<Rightarrow> Ok None s | Some v \<Rightarrow> raise_code v code s)
      else
        let addr = (selector AND NOT 7) + m_seg_base s table in
        seq (mem_read32 0 addr s) (\<lambda>a s.
        seq (mem_read32 0 (addr + 4) s) (\<lambda>b s.
          Ok (Some \<lparr>raw0 = a, raw1 = b\<rparr>) s)))"

definition cpu_seg_load_descriptor ::
  "u32 \<Rightarrow> u32 option \<Rightarrow> u32 \<Rightarrow> 'd cpu_mem \<Rightarrow> (seg_desc option, 'd cpu_mem) outcome" where
  "cpu_seg_load_descriptor selector exc code s =
     cpu_seg_load_descriptor2 (if selector AND 4 \<noteq> 0 then 8 else 7) selector exc code s"

section \<open>Loading a segment register\<close>

definition real_segment :: "nat \<Rightarrow> u16 \<Rightarrow> 'd cpu_mem \<Rightarrow> 'd cpu_mem" where
  "real_segment i sel s =
     (let s = s\<lparr>m_seg := (m_seg s)(i := sel), m_seg_base := (m_seg_base s)(i := push_bit 4 (ucast sel)),
               m_seg_limit := (m_seg_limit s)(i := 0xFFFF),
               m_seg_access := (m_seg_access s)(i := m_seg_access s i AND NOT (0x60 OR 0x4000))\<rparr>
      in if i = 1 then s\<lparr>m_state_hash := 3\<rparr>
         else if i = 2 then s\<lparr>m_esp_mask := 0xFFFF\<rparr>
         else s)"

definition cpu_seg_load_real :: "nat \<Rightarrow> u16 \<Rightarrow> 'd cpu_mem \<Rightarrow> 'd cpu_mem" where
  "cpu_seg_load_real i sel s = real_segment i sel s"

definition cpu_seg_load_virtual :: "nat \<Rightarrow> u16 \<Rightarrow> 'd cpu_mem \<Rightarrow> 'd cpu_mem" where
  "cpu_seg_load_virtual i sel s = real_segment i sel s"

text \<open>
  The register is filled first; then the accessed bit goes to the descriptor in memory,
  an access that may fault; the mode that hangs on CS or SS follows. The result is the
  descriptor with its accessed bit.
\<close>

definition cpu_seg_load_protected ::
  "nat \<Rightarrow> u16 \<Rightarrow> seg_desc \<Rightarrow> 'd cpu_mem \<Rightarrow> (seg_desc, 'd cpu_mem) outcome" where
  "cpu_seg_load_protected i sel info s =
     (let s = s\<lparr>m_seg := (m_seg s)(i := sel),
               m_seg_base := (m_seg_base s)(i := cpu_seg_get_base info),
               m_seg_limit := (m_seg_limit s)(i := cpu_seg_get_limit info),
               m_seg_access := (m_seg_access s)(i := desc_access info)\<rparr>;
          linaddr = cpu_seg_descriptor_address None sel s
      in if linaddr = - 1 then Abort
         else
           let info = info\<lparr>raw1 := raw1 info OR 0x100\<rparr> in
           seq (mem_write8 2 (linaddr + 5) (drop_bit 8 (raw1 info) AND 0xFF) s) (\<lambda>_ s.
             if i = 1 then
               let s = s\<lparr>m_state_hash := (if m_seg_access s 1 AND 0x4000 \<noteq> 0 then 0 else 3),
                         m_cpl := ucast (sel AND 3)\<rparr>
               in Ok info (cpu_prot_update_cpl s)
             else if i = 2 then
               Ok info (s\<lparr>m_esp_mask := (if m_seg_access s 2 AND 0x4000 \<noteq> 0 then - 1 else 0xFFFF)\<rparr>)
             else Ok info s))"

section \<open>Moves to a segment register\<close>

definition protected_mode :: "'d cpu_mem \<Rightarrow> bool" where
  "protected_mode s \<longleftrightarrow> bit (m_cr s 0) 0 \<and> m_eflags s AND 0x20000 = 0"

definition load_done :: "nat \<Rightarrow> u16 \<Rightarrow> seg_desc \<Rightarrow> 'd cpu_mem \<Rightarrow> (unit, 'd cpu_mem) outcome" where
  "load_done i sel info s = seq (cpu_seg_load_protected i sel info s) (\<lambda>_ s. Ok () s)"

definition load_stack_segment :: "u16 \<Rightarrow> 'd cpu_mem \<Rightarrow> (unit, 'd cpu_mem) outcome" where
  "load_stack_segment val s =
     (let off = ucast (val AND 0xFFFC) in
      if off = 0 then raise_code 13 0 s
      else seq (cpu_seg_load_descriptor (ucast val) (Some 13) off s) (\<lambda>d s.
        case d of
          None \<Rightarrow> Ok () s
        | Some info \<Rightarrow>
            let access = desc_access info; rpl = ucast (val AND 3); dpl = drop_bit 5 access AND 3;
                ty = access AND 0x1F
            in if m_cpl s \<noteq> rpl \<or> m_cpl s \<noteq> dpl then raise_code 13 off s
               else if ty \<in> {0x12, 0x13, 0x16, 0x17} then
                 if access AND 0x80 = 0 then raise_code 13 off s
                 else load_done 2 val info s
               else raise_code 13 off s))"

definition load_data_segment :: "nat \<Rightarrow> u16 \<Rightarrow> 'd cpu_mem \<Rightarrow> (unit, 'd cpu_mem) outcome" where
  "load_data_segment i val s =
     (let off = ucast (val AND 0xFFFC) in
      if off \<noteq> 0 then
        seq (cpu_seg_load_descriptor (ucast val) (Some 13) off s) (\<lambda>d s.
          case d of
            None \<Rightarrow> Ok () s
          | Some info \<Rightarrow>
              let access = desc_access info; ty = access AND 0x1F;
                  dpl = drop_bit 5 access AND 3; rpl = ucast (val AND 3)
              in if ty \<in> {0x1A, 0x1B, 0x1E, 0x1F} \<or> (0x10 \<le> ty \<and> ty \<le> 0x19 \<and> \<not> (dpl < m_cpl s \<or> dpl < rpl))
                 then if access AND 0x80 = 0 then raise_code 11 off s
                      else load_done i val info s
                 else raise_code 13 off s)
      else Ok () (s\<lparr>m_seg := (m_seg s)(i := val), m_seg_base := (m_seg_base s)(i := 0),
                   m_seg_limit := (m_seg_limit s)(i := 0), m_seg_access := (m_seg_access s)(i := 0)\<rparr>))"

definition cpu_load_seg_value_mov :: "nat \<Rightarrow> u16 \<Rightarrow> 'd cpu_mem \<Rightarrow> (unit, 'd cpu_mem) outcome" where
  "cpu_load_seg_value_mov seg val s =
     (if \<not> protected_mode s then
        Ok () (if \<not> bit (m_cr s 0) 0 then cpu_seg_load_real seg val s else cpu_seg_load_virtual seg val s)
      else if seg = 1 then load_done 1 val \<lparr>raw0 = 0, raw1 = 0\<rparr> s
      else if seg = 2 then load_stack_segment val s
      else if seg \<in> {0, 3, 4, 5} then load_data_segment seg val s
      else Ok () s)"

section \<open>CS:EIP\<close>

definition virt_eip :: "'d cpu_mem \<Rightarrow> u32" where
  "virt_eip s = m_phys_eip s + m_eip_phys_bias s"

definition set_virt_eip :: "u32 \<Rightarrow> 'd cpu_mem \<Rightarrow> 'd cpu_mem" where
  "set_virt_eip eip s = s\<lparr>m_phys_eip := m_phys_eip s + (eip - virt_eip s)\<rparr>"

definition reload_cs_base :: "'d cpu_mem \<Rightarrow> (unit, 'd cpu_mem) outcome" where
  "reload_cs_base s =
     (let veip = virt_eip s; lin_eip = veip + m_seg_base s 1;
          tag = tag_at lin_eip (m_tlb_shift_read s) s
      in if tag AND 2 \<noteq> 0 then Ok () (s\<lparr>m_last_phys_eip := m_phys_eip s + 0x1000\<rparr>)
         else case host_at lin_eip s of
           None \<Rightarrow> Abort
         | Some p \<Rightarrow> Ok () (s\<lparr>m_phys_eip := p, m_last_phys_eip := p AND NOT 0xFFF,
                              m_eip_phys_bias := veip - p\<rparr>))"

definition cpu_load_csip_real :: "u16 \<Rightarrow> u32 \<Rightarrow> 'd cpu_mem \<Rightarrow> (unit, 'd cpu_mem) outcome" where
  "cpu_load_csip_real cs eip s = reload_cs_base (cpu_seg_load_real 1 cs (set_virt_eip eip s))"

definition cpu_load_csip_virtual :: "u16 \<Rightarrow> u32 \<Rightarrow> 'd cpu_mem \<Rightarrow> (unit, 'd cpu_mem) outcome" where
  "cpu_load_csip_virtual cs eip s = reload_cs_base (cpu_seg_load_virtual 1 cs (set_virt_eip eip s))"

definition cpu_load_csip_protected ::
  "u16 \<Rightarrow> seg_desc \<Rightarrow> u32 \<Rightarrow> 'd cpu_mem \<Rightarrow> (unit, 'd cpu_mem) outcome" where
  "cpu_load_csip_protected cs info eip s =
     seq (cpu_seg_load_protected 1 cs info (set_virt_eip eip s)) (\<lambda>_ s. reload_cs_base s)"

section \<open>Reset and memory\<close>

definition cpu_update_mxcsr :: "'d cpu_mem \<Rightarrow> 'd cpu_mem" where
  "cpu_update_mxcsr s =
     s\<lparr>m_status := \<lparr>float_exception_flags = 0, float_nan_first_operand = True,
         float_rounding_mode = drop_bit 13 (m_mxcsr s) AND 3,
         flush_underflow_to_zero = drop_bit 15 (m_mxcsr s) AND drop_bit 11 (m_mxcsr s) AND 1,
         float_exception_masks = drop_bit 7 (m_mxcsr s) AND 63,
         float_suppress_exception = 0,
         denormals_are_zeros = drop_bit 6 (m_mxcsr s) AND 1\<rparr>\<rparr>"

text \<open>The loop of the reset over the eight indices of all register files.\<close>

definition reset_registers :: "nat \<Rightarrow> 'd cpu_mem \<Rightarrow> 'd cpu_mem" where
  "reset_registers i s =
     (let s = s\<lparr>m_reg32 := (m_reg32 s)(i := 0), m_cr := (m_cr s)(i := if i = 0 then 0x60000010 else 0)\<rparr>;
          s = cpu_seg_load_real i (if i = 1 then 0xF000 else 0) s
      in s\<lparr>m_dr := (m_dr s)(i := if 6 \<le> i then if i = 6 then 0xFFFF0FF0 else 0x400 else 0)\<rparr>)"

text \<open>The argument is the result of \<open>apic_is_enabled()\<close>.\<close>

definition cpu_reset :: "bool \<Rightarrow> 'd cpu_mem \<Rightarrow> 'd cpu_mem" where
  "cpu_reset apic_enabled s =
     (let s = fold reset_registers [0..<8] s;
          s = set_virt_eip 0xFFF0 s;
          s = cpu_prot_update_cpl (s\<lparr>m_cpl := 0\<rparr>);
          s = s\<lparr>m_eflags := 2, m_page_attribute_tables := 0x0007040600070406,
               m_apic_base := (if apic_enabled then 0xFEE00900 else 0), m_mxcsr := 0x1F80\<rparr>;
          s = cpu_update_mxcsr s
      in cpu_mmu_tlb_flush
           (s\<lparr>m_tlb := (\<lambda>_. None), m_tlb_tags := (\<lambda>_. 0xFF), m_tlb_attrs := (\<lambda>_. 0xFF)\<rparr>))"

text \<open>
  The ROM area is filled with ones, which needs a megabyte of RAM; the size is an \<open>int\<close>
  that is rounded up to pages.
\<close>

definition cpu_init_mem :: "u32 \<Rightarrow> 'd cpu_mem \<Rightarrow> 'd cpu_mem option" where
  "cpu_init_mem n s =
     (if n < 0x100000 \<or> 0x7FFFF000 < n then None
      else Some (s\<lparr>m_mem := (\<lambda>p. if 0xC0000 \<le> p \<and> p < 0x100000 then 0xFF else 0), m_memory_size := n,
                  m_smc_has_code_length := drop_bit 12 (n + 4095), m_smc_has_code := (\<lambda>_. 0)\<rparr>))"

text \<open>The object before its first use: a global of C++, zero-initialised.\<close>

definition power_on :: "'d io_bus \<Rightarrow> 'd cpu_mem" where
  "power_on io = \<lparr>m_cycles = 0, m_cycles_to_run = 0, m_refill_counter = 0, m_cycle_offset = 0,
     m_intr_line_state = 0, m_interrupts_blocked = 0, m_exit_reason = 0,
     m_eflags = 0, m_laux = 0, m_lop1 = 0, m_lop2 = 0, m_lr = 0, m_reg32 = (\<lambda>_. 0),
     m_seg = (\<lambda>_. 0), m_seg_base = (\<lambda>_. 0), m_seg_limit = (\<lambda>_. 0), m_seg_access = (\<lambda>_. 0),
     m_cr = (\<lambda>_. 0), m_dr = (\<lambda>_. 0), m_cpl = 0, m_esp_mask = 0, m_state_hash = 0,
     m_phys_eip = 0, m_last_phys_eip = 0, m_eip_phys_bias = 0, m_a20_mask = 0, m_memory_size = 0,
     m_mem = (\<lambda>_. 0), m_ia32_efer = 0, m_apic_base = 0, m_tsc_fudge = 0, m_mtrr_fixed = (\<lambda>_. 0),
     m_mtrr_variable_addr_mask = (\<lambda>_. 0), m_mtrr_deftype = 0, m_page_attribute_tables = 0,
     m_sysenter = (\<lambda>_. 0), m_tlb = (\<lambda>_. None), m_tlb_tags = (\<lambda>_. 0), m_tlb_attrs = (\<lambda>_. 0),
     m_tlb_entry_indexes = (\<lambda>_. 0), m_tlb_entry_count = 0, m_tlb_shift_read = 0, m_tlb_shift_write = 0,
     m_read_result = 0, m_smc_has_code_length = 0, m_smc_has_code = (\<lambda>_. 0),
     m_trace_info = (\<lambda>_. \<lparr>t_phys = 0, t_state_hash = 0, t_flags = 0\<rparr>), m_trace_cache_usage = 0,
     m_winnt_limit_cpuid = 0, m_mxcsr = 0,
     m_status = \<lparr>float_exception_flags = 0, float_nan_first_operand = False, float_rounding_mode = 0,
       flush_underflow_to_zero = 0, float_exception_masks = 0, float_suppress_exception = 0,
       denormals_are_zeros = 0\<rparr>,
     m_bus = io\<rparr>"

end
