(* ===== verification/Misc.thy ===== *)
theory Misc
  imports Seg Apic
begin

text \<open>
  Model of src/src/cpu/misc.cpp (identification, model-specific registers, PUSHF and POPF,
  the task and local descriptor table registers, ARPL) and src/src/cpu/io.cpp (the I/O
  permission bitmap and the port instructions).
\<close>

section \<open>Identification\<close>

definition cpu_apic_connected :: "bool \<Rightarrow> 'd cpu_mem \<Rightarrow> bool" where
  "cpu_apic_connected apic_enabled s \<longleftrightarrow> apic_enabled \<and> m_apic_base s AND 0x100 \<noteq> 0"

text \<open>Assigns EAX, ECX, EDX and EBX, which are the registers 0 to 3.\<close>

definition set_id :: "u32 \<Rightarrow> u32 \<Rightarrow> u32 \<Rightarrow> u32 \<Rightarrow> 'd cpu_mem \<Rightarrow> 'd cpu_mem" where
  "set_id a c d b s = set_reg32 3 b (set_reg32 2 d (set_reg32 1 c (set_reg32 0 a s)))"

definition brand_string :: "u8 list" where
  "brand_string = map of_char ''         Intel(R) Atom(TM) CPU N270   @ 1.60GHz'' @ [0]"

definition brand_byte :: "nat \<Rightarrow> nat \<Rightarrow> 'd cpu_mem \<Rightarrow> 'd cpu_mem" where
  "brand_byte offset i s =
     (let shift = 8 * (i mod 4); reg = [0, 3, 1, 2] ! (i div 4)
      in set_reg32 reg ((get_reg32 reg s AND NOT (push_bit shift 0xFF))
           OR push_bit shift (ucast (brand_string ! (offset + i)))) s)"

definition cpuid :: "bool \<Rightarrow> 'd cpu_mem \<Rightarrow> 'd cpu_mem" where
  "cpuid apic_enabled s =
     (let leaf = get_reg32 0 s in
      if leaf = 0 then set_id (if m_winnt_limit_cpuid s \<noteq> 0 then 2 else 10) 0x6c65746e 0x49656e69 0x756e6547 s
      else if leaf = 1 then
        set_id 0x000106C2 0x40C39D (0xBFEBF9FF OR push_bit 9 (of_bool (cpu_apic_connected apic_enabled s))) 0x00010800 s
      else if leaf = 2 then set_id 0x4fba5901 0 0 0x0e3080c0 s
      else if leaf = 4 then
        (if get_reg32 1 s = 0 then set_id 0x00004121 0x3F 1 0x0140003f s
         else if get_reg32 1 s = 1 then set_id 0x00004122 0x3F 1 0x01C0003f s
         else if get_reg32 1 s = 2 then set_id 0x00004143 0x3FF 1 0x01C0003F s
         else set_id 0 0 0 0 s)
      else if leaf = 5 then set_id 0x40 3 0x00020220 0x40 s
      else if leaf = 6 then set_id 1 1 0 2 s
      else if leaf \<in> {0x40000000, 0x40000001, 10} then set_id 0x07280203 0 0x2501 0 s
      else if leaf = 0x80000000 then set_id 0x80000008 0 0 0 s
      else if leaf = 0x80000001 then set_id 0 1 0 0 s
      else if 0x80000002 \<le> leaf \<and> leaf \<le> 0x80000004 then
        fold (brand_byte (16 * unat (leaf - 0x80000002))) [0..<16] s
      else if leaf = 0x80000005 then set_id 0x01ff01ff 0x40020140 0x40020140 0x01ff01ff s
      else if leaf = 0x80000006 then set_id 0 0x02008140 0 0x42004200 s
      else if leaf = 0x80000008 then set_id 0x2028 0 0 0 s
      else set_id 0 0 0 0 s)"

definition cpu_set_cpuid :: "u32 \<Rightarrow> 'd cpu_mem \<Rightarrow> 'd cpu_mem" where
  "cpu_set_cpuid cpuid_limit_winnt s = s\<lparr>m_winnt_limit_cpuid := cpuid_limit_winnt\<rparr>"

section \<open>Model-specific registers\<close>

definition msr_value :: "u32 \<Rightarrow> 'd cpu_mem \<Rightarrow> u64" where
  "msr_value index s =
     (if index = 0x1B then m_apic_base s
      else if 0x250 \<le> index \<and> index \<le> 0x26F then m_mtrr_fixed s (unat (index - 0x250))
      else if 0x200 \<le> index \<and> index \<le> 0x20F then m_mtrr_variable_addr_mask s (unat (index XOR 0x200))
      else if index = 0x277 then m_page_attribute_tables s
      else if index = 0x2FF then m_mtrr_deftype s
      else if 0x174 \<le> index \<and> index \<le> 0x176 then ucast (m_sysenter s (unat (index - 0x174)))
      else if index = 0xFE then 0x508
      else if index = 0x10 then cpu_get_cycles s - m_tsc_fudge s
      else if index = 0xC0000080 then m_ia32_efer s
      else 0)"

text \<open>The result is the pair of the high and the low word.\<close>

definition rdmsr :: "bool \<Rightarrow> u32 \<Rightarrow> 'd cpu_mem \<Rightarrow> (u32 \<times> u32, 'd cpu_mem) outcome" where
  "rdmsr apic_enabled index s =
     (if index = 0x1B \<and> \<not> cpu_apic_connected apic_enabled s then raise_code 13 0 s
      else let v = msr_value index s in Ok (ucast (drop_bit 32 v), ucast v) s)"

definition wrmsr :: "u32 \<Rightarrow> u32 \<Rightarrow> u32 \<Rightarrow> 'd cpu_mem \<Rightarrow> 'd cpu_mem" where
  "wrmsr index high low s =
     (let v = push_bit 32 (ucast high) OR ucast low :: u64 in
      if index = 0x1B then s\<lparr>m_apic_base := v\<rparr>
      else if 0x174 \<le> index \<and> index \<le> 0x176 then
        s\<lparr>m_sysenter := (m_sysenter s)(unat (index - 0x174) := low)\<rparr>
      else if 0x250 \<le> index \<and> index \<le> 0x26F then
        s\<lparr>m_mtrr_fixed := (m_mtrr_fixed s)(unat (index - 0x250) := v)\<rparr>
      else if 0x200 \<le> index \<and> index \<le> 0x20F then
        s\<lparr>m_mtrr_variable_addr_mask := (m_mtrr_variable_addr_mask s)(unat (index XOR 0x200) := v)\<rparr>
      else if index = 0x277 then s\<lparr>m_page_attribute_tables := v\<rparr>
      else if index = 0x2FF then s\<lparr>m_mtrr_deftype := v\<rparr>
      else if index = 0x10 then s\<lparr>m_tsc_fudge := cpu_get_cycles s - v\<rparr>
      else if index = 0xC0000080 then s\<lparr>m_ia32_efer := v\<rparr>
      else s)"

section \<open>PUSHF and POPF\<close>

definition v86 :: "'d cpu_mem \<Rightarrow> bool" where
  "v86 s \<longleftrightarrow> m_eflags s AND 0x20000 \<noteq> 0"

definition iopl :: "'d cpu_mem \<Rightarrow> u32" where
  "iopl s = drop_bit 12 (m_eflags s) AND 3"

text \<open>
  The flag routines return \<open>None\<close> where the lazy flags are undefined; then so is the
  instruction.
\<close>

definition pushf :: "'d cpu_mem \<Rightarrow> (unit, 'd cpu_mem) outcome" where
  "pushf s =
     (if v86 s \<and> iopl s < 3 then
        if bit (m_cr s 4) 0 then
          (case cpu_get_eflags s of
             None \<Rightarrow> Abort
           | Some fl \<Rightarrow>
               let flags = ucast fl AND NOT (push_bit 9 1) :: u16;
                   flags = flags OR push_bit 9 (of_bool (m_eflags s AND push_bit 19 1 \<noteq> 0));
                   flags = flags OR 0x3000
               in cpu_push16 (ucast flags) s)
        else raise_code 13 0 s
      else (case cpu_get_eflags s of None \<Rightarrow> Abort | Some fl \<Rightarrow> cpu_push16 (fl AND 0xFFFF) s))"

definition pushfd :: "'d cpu_mem \<Rightarrow> (unit, 'd cpu_mem) outcome" where
  "pushfd s =
     (if v86 s \<and> iopl s < 3 then raise_code 13 0 s
      else (case cpu_get_eflags s of None \<Rightarrow> Abort | Some fl \<Rightarrow> cpu_push32 (fl AND 0x00FCFFFF) s))"

definition flags_return :: "u32 \<Rightarrow> 'd cpu_mem \<Rightarrow> (unit, 'd cpu_mem) outcome" where
  "flags_return fl s = Ok () (cpu_set_eflags fl s)"

definition popf_user :: "'d cpu_mem \<Rightarrow> (unit, 'd cpu_mem) outcome" where
  "popf_user s = seq (cpu_pop16 s) (\<lambda>f s.
     flags_return ((ucast f AND NOT 0x3000) OR (m_eflags s AND (0xFFFF0000 OR 0x3000))) s)"

definition popf :: "'d cpu_mem \<Rightarrow> (unit, 'd cpu_mem) outcome" where
  "popf s =
     (if v86 s then
        if iopl s = 3 then popf_user s
        else if bit (m_cr s 4) 0 then
          seq (cpu_pop16 s) (\<lambda>f s.
            let temp = ucast f :: u32 in
            if \<not> (m_eflags s AND 0x100000 \<noteq> 0 \<and> temp AND 0x200 \<noteq> 0 \<or> temp AND 0x100 \<noteq> 0) then
              let s = s\<lparr>m_eflags := (m_eflags s AND NOT 0x80000) OR (if temp AND 0x200 \<noteq> 0 then 0x80000 else 0)\<rparr>;
                  mask = 0xFFFF XOR (0x200 OR 0x3000)
              in flags_return ((temp AND mask) OR (m_eflags s AND NOT mask)) s
            else raise_code 13 0 s)
        else raise_code 13 0 s
      else if m_cpl s = 0 \<or> \<not> bit (m_cr s 0) 0 then
        seq (cpu_pop16 s) (\<lambda>f s. flags_return (ucast f OR (m_eflags s AND 0xFFFF0000)) s)
      else popf_user s)"

definition popfd :: "'d cpu_mem \<Rightarrow> (unit, 'd cpu_mem) outcome" where
  "popfd s =
     (if v86 s then
        if iopl s = 3 then
          seq (cpu_pop32 s) (\<lambda>f s.
            let keep = 0x3000 OR 0x100000 OR 0x80000 OR 0x20000 OR 0x10000
            in flags_return ((f AND NOT keep) OR (m_eflags s AND keep)) s)
        else raise_code 13 0 s
      else if m_cpl s = 0 \<or> \<not> bit (m_cr s 0) 0 then
        seq (cpu_pop32 s) (\<lambda>f s.
          let f = f AND NOT 0x10000; preserve = 0x100000 OR 0x80000 OR 0x20000
          in flags_return ((f AND NOT preserve) OR (m_eflags s AND preserve)) s)
      else
        seq (cpu_pop32 s) (\<lambda>f s.
          let f = f AND NOT 0x10000;
              preserve = (0x3000 OR 0x100000 OR 0x80000 OR 0x20000)
                OR (if iopl s < m_cpl s then 0x200 else 0)
          in flags_return ((f AND NOT preserve) OR (m_eflags s AND preserve)) s))"

section \<open>System segments\<close>

definition set_system_segment :: "nat \<Rightarrow> u32 \<Rightarrow> seg_desc \<Rightarrow> 'd cpu_mem \<Rightarrow> 'd cpu_mem" where
  "set_system_segment i selector info s =
     s\<lparr>m_seg_base := (m_seg_base s)(i := cpu_seg_get_base info),
       m_seg_limit := (m_seg_limit s)(i := cpu_seg_get_limit info),
       m_seg_access := (m_seg_access s)(i := desc_access info),
       m_seg := (m_seg s)(i := ucast selector)\<rparr>"

definition ltr :: "u32 \<Rightarrow> 'd cpu_mem \<Rightarrow> (unit, 'd cpu_mem) outcome" where
  "ltr selector s =
     (let off = selector AND 0xFFFC in
      if off = 0 then raise_code 13 0 s
      else if selector AND 4 \<noteq> 0 then raise_code 13 off s
      else seq (cpu_seg_load_descriptor2 7 selector (Some 13) off s) (\<lambda>d s.
        case d of
          None \<Rightarrow> Ok () s
        | Some info \<Rightarrow>
            if desc_access info AND 0x80 = 0 then raise_code 11 off s
            else
              let tss_addr = cpu_seg_descriptor_address (Some 7) (ucast selector) s;
                  info = info\<lparr>raw1 := raw1 info OR 0x200\<rparr>
              in seq (mem_write32 2 (tss_addr + 4) (raw1 info) s) (\<lambda>_ s.
                   Ok () (set_system_segment 6 selector info s))))"

definition lldt :: "u32 \<Rightarrow> 'd cpu_mem \<Rightarrow> (unit, 'd cpu_mem) outcome" where
  "lldt selector s =
     (let off = selector AND 0xFFFC in
      if off = 0 then
        Ok () (s\<lparr>m_seg_base := (m_seg_base s)(8 := 0), m_seg_limit := (m_seg_limit s)(8 := 0),
                m_seg_access := (m_seg_access s)(8 := 0), m_seg := (m_seg s)(8 := ucast selector)\<rparr>)
      else if off AND 4 \<noteq> 0 then raise_code 13 off s
      else seq (cpu_seg_load_descriptor2 7 selector (Some 13) off s) (\<lambda>d s.
        case d of
          None \<Rightarrow> Ok () s
        | Some info \<Rightarrow>
            if desc_access info AND 0x80 = 0 then raise_code 11 off s
            else Ok () (set_system_segment 8 selector info s)))"

text \<open>The result is the new value of the operand.\<close>

definition arpl :: "u16 \<Rightarrow> u16 \<Rightarrow> 'd cpu_mem \<Rightarrow> (u16 \<times> 'd cpu_mem) option" where
  "arpl dest reg s =
     (let reg = reg AND 3 in
      if dest AND 3 < reg
      then map_option (\<lambda>s. ((dest AND NOT 3) OR reg, s)) (cpu_set_zf 1 s)
      else map_option (\<lambda>s. (dest, s)) (cpu_set_zf 0 s))"

section \<open>Ports\<close>

definition io_unprivileged :: "'d cpu_mem \<Rightarrow> bool" where
  "io_unprivileged s \<longleftrightarrow> bit (m_cr s 0) 0 \<and> (v86 s \<or> iopl s < m_cpl s)"

text \<open>
  The permission bitmap of the task state segment. The size is the number of bytes, 1, 2
  or 4; the available and the busy 386 TSS are the types 9 and 11.
\<close>

definition cpu_io_check_access :: "u32 \<Rightarrow> u32 \<Rightarrow> 'd cpu_mem \<Rightarrow> (unit, 'd cpu_mem) outcome" where
  "cpu_io_check_access port n s =
     (if \<not> io_unprivileged s then Ok () s
      else
        seq (cpu_seg_load_descriptor (ucast (m_seg s 6)) (Some 13) 0 s) (\<lambda>d s.
        case d of
          None \<Rightarrow> Ok () s
        | Some info \<Rightarrow>
            if desc_access info AND 0x1F \<notin> {9, 11} then raise_code 13 0 s
            else
              let base = m_seg_base s 6; limit = m_seg_limit s 6 in
              if limit < 0x67 then raise_code 13 0 s
              else
                seq (mem_read16_raw 0 (base + 0x66) s) (\<lambda>io_offset s.
                if limit < io_offset + drop_bit 3 (port + n) then raise_code 13 0 s
                else
                  let mask = push_bit (unat (port AND 7)) (push_bit 1 n - 1) in
                  seq (mem_read16 0 (base + io_offset + drop_bit 3 port) s) (\<lambda>bitmask s.
                    if ucast bitmask AND mask = 0 then Ok () s else raise_code 13 0 s))))"

definition bus_do :: "('d io_bus \<Rightarrow> 'd io_bus option) \<Rightarrow> 'd cpu_mem \<Rightarrow> (unit, 'd cpu_mem) outcome" where
  "bus_do f s = (case f (m_bus s) of None \<Rightarrow> Abort | Some io \<Rightarrow> Ok () (s\<lparr>m_bus := io\<rparr>))"

definition bus_ask :: "('d io_bus \<Rightarrow> ('a \<times> 'd io_bus) option) \<Rightarrow> 'd cpu_mem \<Rightarrow> ('a, 'd cpu_mem) outcome" where
  "bus_ask f s = (case f (m_bus s) of None \<Rightarrow> Abort | Some (v, io) \<Rightarrow> Ok v (s\<lparr>m_bus := io\<rparr>))"

definition cpu_outb :: "u32 \<Rightarrow> u32 \<Rightarrow> 'd cpu_mem \<Rightarrow> (unit, 'd cpu_mem) outcome" where
  "cpu_outb port data = bus_do (io_writeb port (ucast data))"

definition cpu_outw :: "u32 \<Rightarrow> u32 \<Rightarrow> 'd cpu_mem \<Rightarrow> (unit, 'd cpu_mem) outcome" where
  "cpu_outw port data = bus_do (io_writew port (ucast data))"

definition cpu_outd :: "u32 \<Rightarrow> u32 \<Rightarrow> 'd cpu_mem \<Rightarrow> (unit, 'd cpu_mem) outcome" where
  "cpu_outd port data = bus_do (io_writed port data)"

definition cpu_inb :: "u32 \<Rightarrow> 'd cpu_mem \<Rightarrow> (u32, 'd cpu_mem) outcome" where
  "cpu_inb port s = seq (bus_ask (io_readb port) s) (\<lambda>v s. Ok (ucast v) s)"

definition cpu_inw :: "u32 \<Rightarrow> 'd cpu_mem \<Rightarrow> (u32, 'd cpu_mem) outcome" where
  "cpu_inw port s = seq (bus_ask (io_readw port) s) (\<lambda>v s. Ok (ucast v) s)"

definition cpu_ind :: "u32 \<Rightarrow> 'd cpu_mem \<Rightarrow> (u32, 'd cpu_mem) outcome" where
  "cpu_ind port = bus_ask (io_readd port)"

end
