(* ===== verification/Guest_Run.thy ===== *)
theory Guest_Run
  imports Mem_Safety Misc
begin

text \<open>
  The memory system as one machine: the operations a guest can apply to it through the processor, in any
  order, keep the invariant of the TLB and never leave guest RAM.
\<close>

section \<open>Segment and system register operations keep the invariant\<close>

lemma okf: "mem_ok s \<Longrightarrow> same_sys s t \<Longrightarrow> m_tlb t = m_tlb s \<Longrightarrow> m_tlb_tags t = m_tlb_tags s \<Longrightarrow> safe (Ok x t)"
  using mem_ok_frame by auto

lemma load_descriptor_safe:
  "mem_ok s \<Longrightarrow> safe (cpu_seg_load_descriptor2 t sel e code s)"
  "mem_ok s \<Longrightarrow> safe (cpu_seg_load_descriptor sel e code s)"
  unfolding cpu_seg_load_descriptor_def cpu_seg_load_descriptor2_def Let_def
  by (auto split: option.split intro!: safe_if safe_seq mem_read32_safe safe_raise)

lemma set_system_ok: "mem_ok s \<Longrightarrow> mem_ok (set_system_segment i sel info s)"
  by (erule mem_ok_frame) (simp_all add: set_system_segment_def same_sys_def)

lemma set_seg_ok:
  "mem_ok s \<Longrightarrow> mem_ok (s\<lparr>m_seg_base := f, m_seg_limit := g, m_seg_access := h, m_seg := k\<rparr>)"
  by (erule mem_ok_frame) (simp_all add: same_sys_def)

lemma ltr_safe: "mem_ok s \<Longrightarrow> safe (ltr sel s)"
  unfolding ltr_def Let_def
  by (auto split: option.split intro!: safe_if safe_seq load_descriptor_safe mem_write32_safe safe_raise set_system_ok)

lemma lldt_safe: "mem_ok s \<Longrightarrow> safe (lldt sel s)"
  unfolding lldt_def Let_def
  by (auto split: option.split intro!: safe_if safe_seq load_descriptor_safe safe_raise set_system_ok set_seg_ok)

lemma io_check_safe: "mem_ok s \<Longrightarrow> safe (cpu_io_check_access port n s)"
  unfolding cpu_io_check_access_def Let_def
  by (auto split: option.split
      intro!: safe_if safe_seq load_descriptor_safe mem_read16_raw_safe mem_read16_safe safe_raise)

lemma real_segment_ok: "mem_ok s \<Longrightarrow> mem_ok (real_segment i sel s)"
  by (auto simp: real_segment_def Let_def same_sys_def elim!: mem_ok_frame)

lemma wrmsr_ok: "mem_ok s \<Longrightarrow> mem_ok (wrmsr i h l s)"
  by (auto simp: wrmsr_def Let_def same_sys_def elim!: mem_ok_frame)

lemma set_dr_ok: "mem_ok s \<Longrightarrow> mem_ok (cpu_prot_set_dr i v s)"
proof -
  assume s: "mem_ok s"
  have "mem_ok (s\<lparr>m_dr := f\<rparr>)" for f using s by (rule mem_ok_frame) (simp_all add: same_sys_def)
  then show ?thesis by (simp add: cpu_prot_set_dr_def)
qed

lemma add_rom_ok: "mem_ok s \<Longrightarrow> mem_ok (cpu_add_rom a d s)"
  by (auto simp: cpu_add_rom_def same_sys_def elim!: mem_ok_frame)

lemma seg_load_protected_safe:
  assumes s: "mem_ok s" and a: "cpu_seg_descriptor_address None sel (s\<lparr>m_seg := f, m_seg_base := g, m_seg_limit := h, m_seg_access := k\<rparr>) \<noteq> - 1"
    and d: "f = (m_seg s)(i := sel)" "g = (m_seg_base s)(i := cpu_seg_get_base info)"
      "h = (m_seg_limit s)(i := cpu_seg_get_limit info)" "k = (m_seg_access s)(i := desc_access info)"
  shows "safe (cpu_seg_load_protected i sel info s)"
proof -
  have ok: "mem_ok (s\<lparr>m_seg := f, m_seg_base := g, m_seg_limit := h, m_seg_access := k\<rparr>)"
    using s by (rule mem_ok_frame) (simp_all add: same_sys_def)
  have cpl: "mem_ok t \<Longrightarrow> mem_ok (t\<lparr>m_state_hash := x, m_cpl := y\<rparr>)" for t :: "'a cpu_mem" and x y
    by (erule mem_ok_frame) (simp_all add: same_sys_def)
  have msk: "mem_ok t \<Longrightarrow> mem_ok (t\<lparr>m_esp_mask := x\<rparr>)" for t :: "'a cpu_mem" and x
    by (erule mem_ok_frame) (simp_all add: same_sys_def)
  show ?thesis
    using a unfolding cpu_seg_load_protected_def Let_def d [symmetric]
    by (auto intro!: safe_seq mem_write8_safe ok update_cpl_ok cpl msk)
qed

section \<open>Operations of the guest\<close>

datatype guest_op =
    Read8 u32 | Read16 u32 | Read32 u32
  | Write8 u32 u32 | Write16 u32 u32 | Write32 u32 u32
  | Push16 u32 | Push32 u32 | Pop16 | Pop32 | Pusha | Pushad | Popa | Popad
  | Set_cr nat u32 | Set_dr nat u32 | Set_a20 bool | Set_cpl u32 | Invlpg u32
  | Write_msr u32 u32 u32 | Load_real nat u16 | Ltr u32 | Lldt u32 | Io_check u32 u32
  | Verify u32 u32 nat | Translated nat u32

text \<open>
  Accesses use the access kind of the current privilege level, and translation of the instruction
  at \<open>lin\<close> follows its fetch. The transfers of the DMA controller and of the disk controller are no
  operations of the processor and are not among them: they write guest RAM themselves.
\<close>

definition discard :: "('a, 's) outcome \<Rightarrow> (unit, 's) outcome" where
  "discard m = seq m (\<lambda>_ s. Ok () s)"

fun guest_step :: "guest_op \<Rightarrow> 'd cpu_mem \<Rightarrow> (unit, 'd cpu_mem) outcome" where
  "guest_step (Read8 a) s = discard (mem_read8 (m_tlb_shift_read s) a s)"
| "guest_step (Read16 a) s = discard (mem_read16 (m_tlb_shift_read s) a s)"
| "guest_step (Read32 a) s = discard (mem_read32 (m_tlb_shift_read s) a s)"
| "guest_step (Write8 a v) s = mem_write8 (m_tlb_shift_write s) a v s"
| "guest_step (Write16 a v) s = mem_write16 (m_tlb_shift_write s) a v s"
| "guest_step (Write32 a v) s = mem_write32 (m_tlb_shift_write s) a v s"
| "guest_step (Push16 v) s = cpu_push16 v s"
| "guest_step (Push32 v) s = cpu_push32 v s"
| "guest_step Pop16 s = discard (cpu_pop16 s)"
| "guest_step Pop32 s = discard (cpu_pop32 s)"
| "guest_step Pusha s = cpu_pusha s"
| "guest_step Pushad s = cpu_pushad s"
| "guest_step Popa s = cpu_popa s"
| "guest_step Popad s = cpu_popad s"
| "guest_step (Set_cr i v) s = Ok () (cpu_prot_set_cr i v s)"
| "guest_step (Set_dr i v) s = Ok () (cpu_prot_set_dr i v s)"
| "guest_step (Set_a20 b) s = Ok () (cpu_set_a20 b s)"
| "guest_step (Set_cpl c) s = Ok () (cpu_prot_update_cpl (s\<lparr>m_cpl := c AND 3\<rparr>))"
| "guest_step (Invlpg lin) s = Ok () (cpu_mmu_tlb_invalidate lin s)"
| "guest_step (Write_msr i h l) s = Ok () (wrmsr i h l s)"
| "guest_step (Load_real i sel) s = Ok () (cpu_seg_load_real i sel s)"
| "guest_step (Ltr sel) s = ltr sel s"
| "guest_step (Lldt sel) s = lldt sel s"
| "guest_step (Io_check port n) s = cpu_io_check_access port n s"
| "guest_step (Verify a b shift) s = cpu_access_verify a b shift s"
| "guest_step (Translated len lin) s =
     seq (mem_read8 (m_tlb_shift_read s) lin s) (\<lambda>_ s.
       Ok () (set_smc len lin s))"

text \<open>A run goes on after a fault, from the state the fault was raised in.\<close>

fun guest_run :: "guest_op list \<Rightarrow> 'd cpu_mem \<Rightarrow> 'd cpu_mem option" where
  "guest_run [] s = Some s"
| "guest_run (g # gs) s =
     (case guest_step g s of
        Ok x t \<Rightarrow> guest_run gs t
      | Fault v c t \<Rightarrow> guest_run gs t
      | Abort \<Rightarrow> None)"

lemma safe_discard: "safe m \<Longrightarrow> safe (discard m)"
  unfolding discard_def by (rule safe_seq) auto

lemma verify_safe: "mem_ok s \<Longrightarrow> safe (cpu_access_verify a b shift s)"
  unfolding cpu_access_verify_def Let_def by (intro safe_if safe_seq translate_safe safe_Ok)

lemma cpl_ok: "mem_ok s \<Longrightarrow> mem_ok (s\<lparr>m_cpl := c\<rparr>)"
  by (erule mem_ok_frame) (simp_all add: same_sys_def)

lemmas guest_safe = safe_discard mem_read8_safe mem_read16_safe mem_read32_safe mem_write8_safe mem_write16_safe
  mem_write32_safe push_pop_safe push_pop_all_safe shifts_ok safe_Ok set_cr_ok set_dr_ok set_a20_ok update_cpl_ok
  cpl_ok invalidate_ok wrmsr_ok ltr_safe lldt_safe io_check_safe verify_safe

lemma guest_step_safe: "mem_ok s \<Longrightarrow> safe (guest_step g s)"
proof (cases g)
  case (Translated len lin)
  assume "mem_ok s"
  then show ?thesis unfolding Translated
    by (auto intro!: safe_seq mem_read8_safe shifts_ok set_smc_ok)
next
  case (Load_real i sel)
  assume "mem_ok s"
  then show ?thesis by (simp add: Load_real cpu_seg_load_real_def real_segment_ok)
qed (simp only: guest_step.simps, (intro guest_safe; assumption))+

lemma guest_run_ok: "mem_ok s \<Longrightarrow> \<exists>t. guest_run gs s = Some t \<and> mem_ok t"
proof (induction gs arbitrary: s)
  case (Cons g gs)
  then show ?case using guest_step_safe [of s g] by (cases "guest_step g s") auto
qed simp

section \<open>The start-up establishes the invariant\<close>

lemma fold_reset:
  "m_a20_mask (fold reset_registers is s) = m_a20_mask s" "m_bus (fold reset_registers is s) = m_bus s"
  "m_tlb_entry_count (fold reset_registers is s) = m_tlb_entry_count s"
  by (induction "is" arbitrary: s) (simp_all add: reset_registers_def cpu_seg_load_real_def real_segment_def Let_def)

lemma flush_empty:
  "m_tlb s = (\<lambda>_. None) \<Longrightarrow> m_tlb_tags s = (\<lambda>_. 0xFF) \<Longrightarrow>
    m_tlb (tlb_flush_from is s) = (\<lambda>_. None) \<and> m_tlb_tags (tlb_flush_from is s) = (\<lambda>_. 0xFF)"
  by (induction "is" arbitrary: s) (simp_all add: tlb_drop_def Let_def fun_upd_def)

lemma flush_keeps:
  "m_a20_mask (tlb_flush_from is s) = m_a20_mask s" "m_bus (tlb_flush_from is s) = m_bus s"
  "m_cr (tlb_flush_from is s) = m_cr s" "m_tlb_shift_read (tlb_flush_from is s) = m_tlb_shift_read s"
  "m_tlb_shift_write (tlb_flush_from is s) = m_tlb_shift_write s"
  by (induction "is" arbitrary: s) (simp_all add: tlb_drop_def Let_def)

text \<open>The order of the start-up: address line 20, the reset, then the RAM.\<close>

definition booted :: "u32 \<Rightarrow> bool \<Rightarrow> 'd io_bus \<Rightarrow> 'd cpu_mem option" where
  "booted n apic_enabled io = cpu_init_mem n (cpu_reset apic_enabled (cpu_set_a20 True (power_on io)))"

lemma flush_keeps_more:
  "m_esp_mask (tlb_flush_from is s) = m_esp_mask s" "m_seg_base (tlb_flush_from is s) = m_seg_base s"
  "m_reg32 (tlb_flush_from is s) = m_reg32 s"
  by (induction "is" arbitrary: s) (simp_all add: tlb_drop_def Let_def)

lemma booted_state:
  assumes "bus_total io" "0x100000 \<le> n" "n \<le> 0x7FFFF000" "n AND 0xFFF = 0"
  shows "\<exists>s. booted n a io = Some s \<and> mem_ok s \<and> m_tlb s = (\<lambda>_. None) \<and> m_a20_mask s = - 1
    \<and> m_memory_size s = n \<and> m_cr s 0 = 0x60000010 \<and> m_esp_mask s = 0xFFFF \<and> m_seg_base s 2 = 0
    \<and> get_reg32 4 s = 0 \<and> m_mem s = (\<lambda>p. if 0xC0000 \<le> p \<and> p < 0x100000 then 0xFF else 0)
    \<and> m_tlb_tags s = (\<lambda>_. 0xFF) \<and> m_tlb_shift_read s = 0 \<and> m_tlb_shift_write s = 2"
proof -
  define r where "r = fold reset_registers [0..<8] (cpu_set_a20 True (power_on io))"
  have a: "m_a20_mask r = - 1" "m_bus r = io"
    and c: "m_cr r 3 = 0" "m_cr r 0 = 0x60000010" "m_esp_mask r = 0xFFFF" "m_seg_base r 2 = 0" "m_reg32 r 4 = 0"
    by (simp_all add: r_def fold_reset cpu_set_a20_def cpu_mmu_tlb_flush_def flush_keeps power_on_def
        reset_registers_def cpu_seg_load_real_def real_segment_def Let_def upt_rec)
  define t where "t = cpu_reset a (cpu_set_a20 True (power_on io))"
  have t: "m_tlb t = (\<lambda>_. None)" "m_tlb_tags t = (\<lambda>_. 0xFF)" "m_a20_mask t = - 1" "m_bus t = io" "m_cr t 3 = 0"
    "m_tlb_shift_read t = 0" "m_tlb_shift_write t = 2" "m_tlb_entry_count t = 0"
    "m_cr t 0 = 0x60000010" "m_esp_mask t = 0xFFFF" "m_seg_base t 2 = 0" "m_reg32 t 4 = 0"
    using a c unfolding t_def cpu_reset_def Let_def r_def [symmetric]
    by (simp_all add: cpu_mmu_tlb_flush_def flush_empty flush_keeps flush_keeps_more cpu_update_mxcsr_def
        cpu_prot_update_cpl_def set_virt_eip_def)
  define u where "u = t\<lparr>m_mem := (\<lambda>p. if 0xC0000 \<le> p \<and> p < 0x100000 then 0xFF else 0), m_memory_size := n,
                  m_smc_has_code_length := drop_bit 12 (n + 4095), m_smc_has_code := (\<lambda>_. 0)\<rparr>"
  have "\<not> n < 0x100000" "\<not> 0x7FFFF000 < n" using assms by (simp_all add: not_less)
  then have "booted n a io = Some u" by (simp add: booted_def cpu_init_mem_def u_def t_def)
  moreover have "entry_ok u e" for e using t by (simp add: entry_ok_def u_def)
  moreover have "sys_ok u" using t assms(1,4) by (simp add: sys_ok_def u_def)
  moreover have "m_tlb u = (\<lambda>_. None) \<and> m_a20_mask u = - 1 \<and> m_memory_size u = n \<and> m_cr u 0 = 0x60000010
      \<and> m_esp_mask u = 0xFFFF \<and> m_seg_base u 2 = 0 \<and> get_reg32 4 u = 0
      \<and> m_mem u = (\<lambda>p. if 0xC0000 \<le> p \<and> p < 0x100000 then 0xFF else 0)
      \<and> m_tlb_tags u = (\<lambda>_. 0xFF) \<and> m_tlb_shift_read u = 0 \<and> m_tlb_shift_write u = 2"
    using t by (simp add: u_def get_reg32_def)
  ultimately show ?thesis by (auto simp: mem_ok_def)
qed

lemma booted_ok:
  assumes "bus_total io" "0x100000 \<le> n" "n \<le> 0x7FFFF000" "n AND 0xFFF = 0"
  shows "\<exists>s. booted n a io = Some s \<and> mem_ok s"
  using booted_state [OF assms, of a] by blast

text \<open>A concrete bus for the examples: nothing but the start-up.\<close>

lemma some_bus: "\<exists>io :: unit io_bus. io_init (zero_bus ()) = Some io \<and> bus_total io"
proof -
  obtain io where io: "io_init (zero_bus ()) = Some io" "bus_ready 0 0 io" using io_init_ready [of "()"] by blast
  have "bus_total io" using io(2) by (simp add: bus_ready_def covered_total)
  then show ?thesis using io(1) by blast
qed

text \<open>
  C1. Memory safety. Take the machine as its start-up leaves it, with any page-aligned amount of
  RAM of at least a megabyte on a bus whose handlers return. Whatever sequence of memory accesses,
  stack operations, control, debug and model-specific register writes, privilege changes, page table walks, system
  register loads, permission checks and translations the guest makes, with arbitrary addresses and page tables, no
  access of the processor leaves the array of guest RAM, although the fast path uses host pointers unchecked; and
  the TLB invariant holds again after every step. The transfers that the DMA and disk controllers make on their
  own are not part of the claim.
\<close>

theorem guest_memory_safety:
  assumes "bus_total io" "0x100000 \<le> n" "n \<le> 0x7FFFF000" "n AND 0xFFF = 0"
  shows "\<exists>s t. booted n a io = Some s \<and> guest_run gs s = Some t \<and> mem_ok t"
proof -
  obtain s where s: "booted n a io = Some s" "mem_ok s" using booted_ok [OF assms] by auto
  then show ?thesis using guest_run_ok [OF s(2), of gs] by auto
qed

theorem guest_memory_safety_witness:
  "\<exists>io s t. io_init (zero_bus ()) = Some io \<and> booted 0x200000 True io = Some s
     \<and> guest_run [Write32 0x1FFFFD 7, Set_cr 0 0x80000001, Read32 0xFFFFFFFF, Push32 5] s = Some t \<and> mem_ok t"
proof -
  obtain io :: "unit io_bus" where io: "io_init (zero_bus ()) = Some io" "bus_total io" using some_bus by blast
  have "\<exists>s t. booted 0x200000 True io = Some s
     \<and> guest_run [Write32 0x1FFFFD 7, Set_cr 0 0x80000001, Read32 0xFFFFFFFF, Push32 5] s = Some t \<and> mem_ok t"
    using io(2) by (rule guest_memory_safety) simp_all
  then show ?thesis using io by (intro exI [of _ io]) simp
qed

end
