(* ===== verification/Flat_Mem.thy ===== *)
theory Flat_Mem
  imports Ram_Laws Guest_Run
begin

text \<open>
  With paging off, the TLB, the slow and the fast path, the code-invalidation and the
  byte-by-byte treatment of unaligned operands implement a flat array of bytes: the
  abstraction of a machine is its \<open>m_mem\<close>.
\<close>

section \<open>What an access of RAM leaves alone\<close>

definition same_core :: "'d cpu_mem \<Rightarrow> 'd cpu_mem \<Rightarrow> bool" where
  "same_core s t \<longleftrightarrow> m_memory_size t = m_memory_size s \<and> m_cr t = m_cr s \<and> m_a20_mask t = m_a20_mask s
     \<and> m_reg32 t = m_reg32 s \<and> m_seg_base t = m_seg_base s \<and> m_esp_mask t = m_esp_mask s
     \<and> m_tlb_shift_read t = m_tlb_shift_read s \<and> m_tlb_shift_write t = m_tlb_shift_write s
     \<and> m_bus t = m_bus s \<and> m_eflags t = m_eflags s"

lemma same_core_refl [simp]: "same_core s s"
  by (simp add: same_core_def)

lemma same_core_trans: "same_core s t \<Longrightarrow> same_core t u \<Longrightarrow> same_core s u"
  by (simp add: same_core_def)

lemma core_set_result [simp]: "same_core s (set_result v s)" "m_mem (set_result v s) = m_mem s"
  "m_tlb (set_result v s) = m_tlb s" "m_read_result (set_result v s) = v"
  by (simp_all add: same_core_def set_result_def)

lemma put8_mem: "m_mem (ram_put8 p v s) = (m_mem s)(p := v)"
  by (simp add: ram_put8_def)

lemma core_put [simp]:
  "same_core s (ram_put8 p a s)" "same_core s (ram_put16 p b s)" "same_core s (ram_put32 p c s)"
  "m_tlb (ram_put8 p a s) = m_tlb s" "m_tlb (ram_put16 p b s) = m_tlb s" "m_tlb (ram_put32 p c s) = m_tlb s"
  by (simp_all add: same_core_def ram_put8_def ram_put16_def ram_put32_def)

definition tlb_shrinks :: "'d cpu_mem \<Rightarrow> 'd cpu_mem \<Rightarrow> bool" where
  "tlb_shrinks s t \<longleftrightarrow> same_core s t \<and> m_mem t = m_mem s \<and> (\<forall>e. m_tlb t e = None \<or> m_tlb t e = m_tlb s e)"

lemma tlb_shrinks_refl: "tlb_shrinks s s"
  by (simp add: tlb_shrinks_def)

lemma tlb_shrinks_trans: "tlb_shrinks s t \<Longrightarrow> tlb_shrinks t u \<Longrightarrow> tlb_shrinks s u"
  unfolding tlb_shrinks_def by (auto intro: same_core_trans) metis

lemma flush_from_shrinks: "tlb_shrinks s (tlb_flush_from is s)"
proof (induction "is" arbitrary: s)
  case (Cons i "is")
  have "tlb_shrinks s (tlb_drop i s)" by (simp add: tlb_shrinks_def tlb_drop_def Let_def same_core_def)
  then show ?case using Cons tlb_shrinks_trans by simp blast
qed (simp add: tlb_shrinks_refl)

lemma flush_core:
  "same_core s (cpu_mmu_tlb_flush s)" "m_mem (cpu_mmu_tlb_flush s) = m_mem s"
  "m_tlb (cpu_mmu_tlb_flush s) e \<in> {None, m_tlb s e}"
  using flush_from_shrinks [of s "[0..<m_tlb_entry_count s]"]
  by (simp_all add: cpu_mmu_tlb_flush_def same_core_def tlb_shrinks_def)

lemma set_entry_core:
  "same_core s (cpu_set_tlb_entry lin phys u w g nx s)" "m_mem (cpu_set_tlb_entry lin phys u w g nx s) = m_mem s"
  "e \<noteq> drop_bit 12 lin \<Longrightarrow> m_tlb (cpu_set_tlb_entry lin phys u w g nx s) e \<in> {None, m_tlb s e}"
  using flush_core [of s] by (simp_all add: cpu_set_tlb_entry_def Let_def same_core_def)

lemma fast_return_core [simp]:
  "same_core s (cpu_request_fast_return r s)" "m_mem (cpu_request_fast_return r s) = m_mem s"
  "m_tlb (cpu_request_fast_return r s) = m_tlb s"
  by (simp_all add: cpu_request_fast_return_def same_core_def)

lemma clear_chunk_core:
  "same_core s (snd (smc_clear_chunk js p b (q, s))) \<and> m_mem (snd (smc_clear_chunk js p b (q, s))) = m_mem s
    \<and> m_tlb (snd (smc_clear_chunk js p b (q, s))) = m_tlb s"
proof (induction js arbitrary: q s)
  case (Cons j js)
  have "same_core s (s\<lparr>m_trace_info := f\<rparr>)" for f by (simp add: same_core_def)
  then show ?case using Cons by (auto split: option.split intro: same_core_trans)
qed simp

lemma clear_chunks_core:
  "same_core s (snd (smc_clear_chunks is p b f (q, s))) \<and> m_mem (snd (smc_clear_chunks is p b f (q, s))) = m_mem s
    \<and> m_tlb (snd (smc_clear_chunks is p b f (q, s))) = m_tlb s"
proof (induction "is" arbitrary: q s)
  case (Cons i "is")
  obtain q1 s1 where c: "smc_clear_chunk [0..<128] p (b + push_bit 7 (of_nat i)) (q, s) = (q1, s1)" by fastforce
  then have "same_core s s1 \<and> m_mem s1 = m_mem s \<and> m_tlb s1 = m_tlb s"
    using clear_chunk_core by (metis snd_conv)
  then show ?case using Cons [of s1 q1] Cons [of s q] c same_core_trans by auto
qed simp

lemma smc_core:
  "same_core s (cpu_smc_invalidate lin p s)" "m_mem (cpu_smc_invalidate lin p s) = m_mem s"
  "m_tlb (cpu_smc_invalidate lin p s) e \<in> {None, m_tlb s e}"
proof -
  obtain q s1 where c: "smc_clear_chunks [0..<unat (drop_bit 7 p AND 31) + 1] p (p AND NOT 0xFFF)
      (m_smc_has_code s (drop_bit 12 p)) (False, s) = (q, s1)" by fastforce
  then have h: "same_core s s1 \<and> m_mem s1 = m_mem s \<and> m_tlb s1 = m_tlb s"
    using clear_chunks_core by (metis snd_conv)
  have x: "same_core s (cpu_smc_invalidate lin p s) \<and> m_mem (cpu_smc_invalidate lin p s) = m_mem s
      \<and> m_tlb (cpu_smc_invalidate lin p s) e \<in> {None, m_tlb s e}"
    using h c by (simp add: cpu_smc_invalidate_def cpu_mmu_tlb_invalidate_def Let_def same_core_def
        cpu_request_fast_return_def)
  then show "same_core s (cpu_smc_invalidate lin p s)" "m_mem (cpu_smc_invalidate lin p s) = m_mem s"
    "m_tlb (cpu_smc_invalidate lin p s) e \<in> {None, m_tlb s e}" by simp_all
qed

section \<open>The flat machine\<close>

definition flat :: "'d cpu_mem \<Rightarrow> bool" where
  "flat s \<longleftrightarrow> mem_ok s \<and> \<not> bit (m_cr s 0) 31 \<and> m_a20_mask s = - 1 \<and> m_memory_size s \<le> 0xFFF00000
     \<and> (\<forall>e. e < 0xFFF00 \<longrightarrow> m_tlb s e \<in> {None, Some 0})"

definition in_ram :: "u32 \<Rightarrow> 'd cpu_mem \<Rightarrow> bool" where
  "in_ram a s \<longleftrightarrow> a < m_memory_size s \<and> \<not> (0xA0000 \<le> a \<and> a < 0x100000)"

lemma flat_step:
  assumes "flat s" "mem_ok t" "same_core s t" "\<And>e. e < 0xFFF00 \<Longrightarrow> m_tlb t e \<in> {None, Some 0, m_tlb s e}"
  shows "flat t"
proof -
  have "m_tlb t e \<in> {None, Some 0}" if "e < 0xFFF00" for e
    using assms(1) assms(4) [OF that] that by (auto simp: flat_def)
  then show ?thesis using assms(1-3) by (auto simp: flat_def same_core_def)
qed

lemma page_number: "a < 0xFFF00000 \<Longrightarrow> drop_bit 12 a < 0xFFF00" for a :: u32
proof -
  assume "a < 0xFFF00000"
  then have "unat a div 4096 < 0xFFF00" by (simp add: word_less_nat_alt)
  then show ?thesis by (simp add: word_less_nat_alt unat_drop_bit_eq drop_bit_eq_div unat_div)
qed

lemma page_base: "a AND NOT 0xFFF = push_bit 12 (drop_bit 12 a)" for a :: u32
proof -
  have m: "(0xFFF :: u32) = mask 12" by (simp add: mask_eq_exp_minus_1)
  show ?thesis unfolding m
    by (rule bit_eqI) (auto simp: bit_and_iff bit_not_iff bit_mask_iff bit_push_bit_iff bit_drop_bit_eq)
qed

lemma drop_page: "drop_bit 12 (a AND NOT 0xFFF) = drop_bit 12 a" for a :: u32
  unfolding page_base by (rule bit_eqI) (auto simp: bit_push_bit_iff bit_drop_bit_eq dest: bit_imp_le_length)

lemma and_le: "a AND m \<le> a" for a m :: u32
  by (simp add: word_le_def unsigned_and_eq AND_upper1)

lemma flat_gate: "flat s \<Longrightarrow> in_ram a s \<Longrightarrow> gate_phys (a AND NOT 0xFFF) s = a AND NOT 0xFFF"
proof -
  assume "flat s" "in_ram a s"
  then have "a < 0xFFF00000" by (auto simp: flat_def in_ram_def)
  then have "\<not> 0xFFF00000 \<le> a AND NOT 0xFFF" using and_le [of a "NOT 0xFFF"] by auto
  then show ?thesis using \<open>flat s\<close> by (simp add: gate_phys_def flat_def Let_def)
qed

text \<open>The walk of the slow path: the entry is there afterwards and is the identity.\<close>

lemma host_flat: "m_tlb t (drop_bit 12 a) = Some 0 \<Longrightarrow> host_at a t = Some a"
  by (simp add: host_at_def)

lemma walk_flat:
  assumes s: "flat s" and a: "in_ram a s" and sh: "shift \<in> {0, 2, 4, 6}"
  shows "\<exists>t. walk_if (tag_at a shift s) a shift s = Ok () t \<and> flat t \<and> same_core s t \<and> m_mem t = m_mem s
    \<and> m_tlb t (drop_bit 12 a) = Some 0"
proof -
  let ?e = "drop_bit 12 a"
  have e: "?e < 0xFFF00" using s a by (intro page_number) (auto simp: flat_def in_ram_def)
  show ?thesis
  proof (cases "bit (tag_at a shift s) 1")
    case False
    then have "m_tlb_tags s ?e \<noteq> 0xFF" using sh by (auto simp: bit_tag_at)
    then have "m_tlb s ?e \<noteq> None"
      using s by (cases "m_tlb s ?e") (auto simp: flat_def mem_ok_def entry_ok_def dest!: spec [of _ ?e])
    then have "m_tlb s ?e = Some 0" using s e by (auto simp: flat_def)
    then show ?thesis using False s by (intro exI [of _ s]) (simp add: walk_if_def)
  next
    case True
    define t where "t = cpu_set_tlb_entry (a AND NOT 0xFFF) (a AND NOT 0xFFF) True True False False s"
    have w: "walk_if (tag_at a shift s) a shift s = Ok () t"
      using True s by (simp add: walk_if_def cpu_mmu_translate_def flat_def t_def)
    have z: "(a AND NOT 0xFFF) AND 0xFFF = 0" by (rule page_masks)
    have pe: "drop_bit 12 (a AND NOT 0xFFF) = ?e" by (simp only: drop_page)
    have tl: "m_tlb t ?e = Some 0"
      using set_entry_tlb(1) [OF z, of "a AND NOT 0xFFF" True True False False s] flat_gate [OF s a]
      unfolding t_def pe by simp
    have "mem_ok t" using s z unfolding t_def by (intro set_entry_ok) (simp_all add: flat_def)
    moreover have "m_tlb t x \<in> {None, Some 0, m_tlb s x}" for x
      using set_entry_core(3) [of x "a AND NOT 0xFFF" "a AND NOT 0xFFF" True True False False s] tl
      unfolding t_def pe by (cases "x = ?e") auto
    ultimately have "flat t" by (intro flat_step [OF s]) (auto simp: t_def set_entry_core)
    then show ?thesis using w tl by (auto simp: t_def set_entry_core)
  qed
qed

section \<open>Bytes\<close>

lemma in_ram_core: "same_core s t \<Longrightarrow> in_ram a t = in_ram a s"
  by (simp add: in_ram_def same_core_def)

lemma in_ram_io: "in_ram a s \<Longrightarrow> \<not> phys_is_io a s"
proof -
  have "a < 0xC0000 \<Longrightarrow> a < 0x100000" by (rule less_trans [of _ "0xC0000"]) simp_all
  then show "in_ram a s \<Longrightarrow> \<not> phys_is_io a s" by (auto simp: in_ram_def phys_is_io_def)
qed

lemma result_ok [simp]: "flat s \<Longrightarrow> flat (set_result v s)"
  by (rule flat_step [of s]) (auto simp: flat_def)

lemma host_fast_flat:
  assumes s: "flat s" and a: "in_ram a s" and h: "host_at a s = Some p"
  shows "p = a"
proof -
  have "drop_bit 12 a < 0xFFF00" using s a by (intro page_number) (auto simp: flat_def in_ram_def)
  then have "m_tlb s (drop_bit 12 a) \<in> {None, Some 0}" using s by (simp add: flat_def)
  then show ?thesis using h by (auto simp: host_at_def)
qed

text \<open>An aligned operand of \<open>n\<close> bytes, slow path and fast path.\<close>

lemma slow_read_flat:
  assumes s: "flat s" and a: "in_ram a s" and sh: "shift \<in> {0, 2, 4, 6}" and n: "n dvd 4" "n dvd unat a"
  shows "\<exists>t. seq (walk_if (tag_at a shift s) a shift s) (\<lambda>_ s. slow_read n sz get a s) = Ok () (set_result (get a t) t)
    \<and> flat t \<and> same_core s t \<and> m_mem t = m_mem s"
proof -
  obtain t where t: "walk_if (tag_at a shift s) a shift s = Ok () t" "flat t" "same_core s t" "m_mem t = m_mem s"
    "m_tlb t (drop_bit 12 a) = Some 0" using walk_flat [OF s a sh] by blast
  have h: "host_at a t = Some a" using host_flat [OF t(5)] .
  have r: "in_ram a t" using a t(3) by (simp add: in_ram_core)
  have "ram_ok n a t"
    using slow_ram_ok [of t a n a] t(2,5) n h r by (simp add: flat_def in_ram_def)
  then show ?thesis
    using t h in_ram_io [OF r] by (intro exI [of _ t]) (simp add: slow_read_def)
qed

lemma smc_flat: "flat t \<Longrightarrow> flat (cpu_smc_invalidate lin p t)"
proof (rule flat_step)
  show "m_tlb (cpu_smc_invalidate lin p t) e \<in> {None, Some 0, m_tlb t e}" for e
    using smc_core(3) [of lin p t e] by blast
qed (simp_all add: flat_def smc_core(1))

lemma slow_write_flat:
  assumes s: "flat s" and a: "in_ram a s" and sh: "shift \<in> {0, 2, 4, 6}" and n: "n dvd 4" "n dvd unat a"
  shows "\<exists>t. seq (walk_if (tag_at a shift s) a shift s) (\<lambda>_ s. slow_write n sz put a v s) = Ok () (put a t)
    \<and> flat t \<and> same_core s t \<and> m_mem t = m_mem s"
proof -
  obtain t where t: "walk_if (tag_at a shift s) a shift s = Ok () t" "flat t" "same_core s t" "m_mem t = m_mem s"
    "m_tlb t (drop_bit 12 a) = Some 0" using walk_flat [OF s a sh] by blast
  have h: "host_at a t = Some a" using host_flat [OF t(5)] .
  have r: "in_ram a t" using a t(3) by (simp add: in_ram_core)
  have ok: "ram_ok n a t"
    using slow_ram_ok [of t a n a] t(2,5) n h r by (simp add: flat_def in_ram_def)
  have i: "flat (cpu_smc_invalidate a a t)"
    using t(2) by (rule smc_flat)
  have w: "slow_write n sz put a v t = Ok () (put a (if cpu_smc_has_code a t then cpu_smc_invalidate a a t else t))"
    using h ok r by (auto simp: slow_write_def in_ram_def not_le)
  show ?thesis
  proof (cases "cpu_smc_has_code a t")
    case True
    then show ?thesis
      using t w i smc_core(1) [of t a a] smc_core(2) [of a a t] same_core_trans [OF t(3)] by (intro exI [of _ "cpu_smc_invalidate a a t"]) simp
  next
    case False
    then show ?thesis using t w by (intro exI [of _ t]) simp
  qed
qed

lemma put_flat:
  "flat s \<Longrightarrow> flat (ram_put8 p v s)" "flat s \<Longrightarrow> flat (ram_put16 p w s)" "flat s \<Longrightarrow> flat (ram_put32 p x s)"
  by (rule flat_step [of s], simp, simp add: flat_def, simp, simp)+

lemma access_read8_flat:
  assumes "flat s" "in_ram a s" "shift \<in> {0, 2, 4, 6}"
  shows "\<exists>t. cpu_access_read8 a (tag_at a shift s) shift s = Ok () t \<and> m_read_result t = ucast (m_mem s a)
    \<and> flat t \<and> same_core s t \<and> m_mem t = m_mem s"
proof -
  obtain t where "cpu_access_read8 a (tag_at a shift s) shift s = Ok () (set_result (ucast (m_mem t a)) t)"
    "flat t" "same_core s t" "m_mem t = m_mem s"
    using slow_read_flat [OF assms, of 1 0 "\<lambda>p s. ucast (m_mem s p)"] by (auto simp: cpu_access_read8_def)
  then show ?thesis
    using same_core_trans [of s t] by (intro exI [of _ "set_result (ucast (m_mem t a)) t"]) simp
qed

lemma access_write8_flat:
  assumes "flat s" "in_ram a s" "shift \<in> {0, 2, 4, 6}"
  shows "\<exists>t. cpu_access_write8 a v (tag_at a shift s) shift s = Ok () t
    \<and> flat t \<and> same_core s t \<and> m_mem t = (m_mem s)(a := ucast v)"
proof -
  obtain t where "cpu_access_write8 a v (tag_at a shift s) shift s = Ok () (ram_put8 a (ucast v) t)"
    "flat t" "same_core s t" "m_mem t = m_mem s"
    using slow_write_flat [OF assms, of 1 0 "\<lambda>p. ram_put8 p (ucast v)"] by (auto simp: cpu_access_write8_def)
  then show ?thesis
    using same_core_trans [of s t] put_flat
    by (intro exI [of _ "ram_put8 a (ucast v) t"]) (simp add: put8_mem)
qed

section \<open>Wider operands\<close>

text \<open>An aligned operand that starts in RAM ends in it.\<close>

lemma fast_flat:
  assumes s: "flat s" and a: "in_ram a s" and sh: "shift \<in> {0, 2, 4, 6}"
  shows "\<not> bit (tag_at a shift s) 0 \<Longrightarrow> host_at a s = Some a \<and> ram_ok 1 a s"
    and "(a OR tag_at a shift s) AND 1 = 0 \<Longrightarrow> host_at a s = Some a \<and> ram_ok 2 a s"
    and "(a OR tag_at a shift s) AND 3 = 0 \<Longrightarrow> host_at a s = Some a \<and> ram_ok 4 a s"
  using fast_ok [of s shift a 1] host_fast [of s shift a] host_fast_flat [OF s a] s sh
  by (auto simp: flat_def)

definition ram_span :: "nat \<Rightarrow> u32 \<Rightarrow> 'd cpu_mem \<Rightarrow> bool" where
  "ram_span n a s \<longleftrightarrow> (\<forall>i < n. in_ram (a + of_nat i) s)"

lemma span_first: "0 < n \<Longrightarrow> ram_span n a s \<Longrightarrow> in_ram a s"
  by (auto simp: ram_span_def)

lemma read_bytes_flat:
  assumes "flat s" "shift \<in> {0, 2, 4, 6}" "\<forall>i \<in> set is. in_ram (a + of_nat i) s"
  shows "\<exists>t. read_bytes is a shift res s = Ok () t
    \<and> m_read_result t = fold (\<lambda>i r. r OR push_bit (8 * i) (ucast (m_mem s (a + of_nat i)))) is res
    \<and> flat t \<and> same_core s t \<and> m_mem t = m_mem s"
  using assms
proof (induction "is" arbitrary: res s)
  case Nil
  then show ?case by (intro exI [of _ "set_result res s"]) simp
next
  case (Cons i "is")
  obtain t where t: "cpu_access_read8 (a + of_nat i) (tag_at (a + of_nat i) shift s) shift s = Ok () t"
    "m_read_result t = ucast (m_mem s (a + of_nat i))" "flat t" "same_core s t" "m_mem t = m_mem s"
    using access_read8_flat [of s "a + of_nat i" shift] Cons.prems by auto
  have "\<forall>i \<in> set is. in_ram (a + of_nat i) t" using Cons.prems t(4) by (simp add: in_ram_core)
  from Cons.IH [OF t(3) Cons.prems(2) this, of "res OR push_bit (8 * i) (m_read_result t)"] obtain u
    where u: "read_bytes is a shift (res OR push_bit (8 * i) (m_read_result t)) t = Ok () u"
    "m_read_result u = fold (\<lambda>i r. r OR push_bit (8 * i) (ucast (m_mem t (a + of_nat i)))) is
       (res OR push_bit (8 * i) (m_read_result t))" "flat u" "same_core t u" "m_mem u = m_mem t"
    by blast
  then show ?case using t same_core_trans [OF t(4)] by (intro exI [of _ u]) (simp add: Let_def)
qed

definition poke :: "u32 \<Rightarrow> u32 \<Rightarrow> nat \<Rightarrow> (u32 \<Rightarrow> u8) \<Rightarrow> u32 \<Rightarrow> u8" where
  "poke a v i m = m(a + of_nat i := ucast (drop_bit (8 * i) v))"

lemma write_bytes_flat:
  assumes "flat s" "shift \<in> {0, 2, 4, 6}" "\<forall>i \<in> set is. in_ram (a + of_nat i) s"
  shows "\<exists>t. write_bytes is a v shift s = Ok () t \<and> flat t \<and> same_core s t
    \<and> m_mem t = fold (poke a v) is (m_mem s)"
  using assms
proof (induction "is" arbitrary: s)
  case (Cons i "is")
  obtain t where t: "cpu_access_write8 (a + of_nat i) (drop_bit (8 * i) v) (tag_at (a + of_nat i) shift s) shift s = Ok () t"
    "flat t" "same_core s t" "m_mem t = (m_mem s)(a + of_nat i := ucast (drop_bit (8 * i) v))"
    using access_write8_flat [of s "a + of_nat i" shift] Cons.prems by auto
  have "\<forall>i \<in> set is. in_ram (a + of_nat i) t" using Cons.prems t(3) by (simp add: in_ram_core)
  from Cons.IH [OF t(2) Cons.prems(2) this] obtain u
    where "write_bytes is a v shift t = Ok () u" "flat u" "same_core t u"
    "m_mem u = fold (poke a v) is (m_mem t)" by blast
  moreover have "poke a v i (m_mem s) = m_mem t" by (simp only: poke_def t(4))
  ultimately show ?case using t(1) same_core_trans [OF t(3)] by (intro exI [of _ u]) (simp add: Let_def)
qed simp

text \<open>The outcome of an access that behaves like the flat array.\<close>

definition reads_flat :: "'a \<Rightarrow> 'd cpu_mem \<Rightarrow> ('a, 'd cpu_mem) outcome \<Rightarrow> bool" where
  "reads_flat v s m \<longleftrightarrow> (\<exists>t. m = Ok v t \<and> flat t \<and> same_core s t \<and> m_mem t = m_mem s)"

definition writes_flat :: "(u32 \<Rightarrow> u8) \<Rightarrow> 'd cpu_mem \<Rightarrow> (unit, 'd cpu_mem) outcome \<Rightarrow> bool" where
  "writes_flat f s m \<longleftrightarrow> (\<exists>t. m = Ok () t \<and> flat t \<and> same_core s t \<and> m_mem t = f)"

lemma mem_read8_flat:
  assumes "flat s" "in_ram a s" "shift \<in> {0, 2, 4, 6}"
  shows "reads_flat (m_mem s a) s (mem_read8 shift a s)"
  using access_read8_flat [OF assms] fast_flat(1) [OF assms] assms(1)
  by (auto simp: mem_read8_def reads_flat_def Let_def zext8_low)

lemma mem_write8_flat:
  assumes "flat s" "in_ram a s" "shift \<in> {0, 2, 4, 6}"
  shows "writes_flat ((m_mem s)(a := ucast v)) s (mem_write8 shift a v s)"
  using access_write8_flat [OF assms, of v] fast_flat(1) [OF assms] put_flat(1) [OF assms(1)]
  by (auto simp: mem_write8_def writes_flat_def Let_def put8_mem)

lemma mem_read16_raw_flat:
  assumes "flat s" "ram_span 2 a s" "shift \<in> {0, 2, 4, 6}"
  shows "reads_flat (ucast (ram_get16 a s) :: u32) s (mem_read16_raw shift a s)"
proof -
  have a: "in_ram a s" using assms(2) span_first [of 2] by simp
  show ?thesis
  proof (cases "(a OR tag_at a shift s) AND 1 = 0")
    case True
    then show ?thesis using fast_flat(2) [OF assms(1) a assms(3)] assms(1)
      by (simp add: mem_read16_raw_def reads_flat_def)
  next
    case slow: False
    show ?thesis
    proof (cases "a AND 1 = 0")
      case True
      then obtain t where t: "cpu_access_read16 a (tag_at a shift s) shift s = Ok () (set_result (ucast (ram_get16 a t)) t)"
        "flat t" "same_core s t" "m_mem t = m_mem s"
        using slow_read_flat [OF assms(1) a assms(3), of 2 1 "\<lambda>p s. ucast (ram_get16 p s)"]
        by (auto simp: cpu_access_read16_def dvd2)
      have "ram_get16 a t = ram_get16 a s" using t(4) by (intro get_cong(1)) simp_all
      then show ?thesis
        using slow t same_core_trans [OF t(3)] by (simp add: mem_read16_raw_def reads_flat_def)
    next
      case False
      obtain t where t: "read_bytes [0..<2] a shift 0 s = Ok () t" "flat t" "same_core s t" "m_mem t = m_mem s"
        "m_read_result t = fold (\<lambda>i r. r OR push_bit (8 * i) (ucast (m_mem s (a + of_nat i)))) [0..<2] 0"
        using read_bytes_flat [OF assms(1,3), of "[0..<2]" a 0] assms(2) by (auto simp: ram_span_def)
      have "m_read_result t = ucast (ram_get16 a s)"
        using or_bytes16 [of "m_mem s a" "m_mem s (a + 1)"] by (simp add: t(5) upt_rec ram_get16_def)
      then show ?thesis using slow False t by (simp add: mem_read16_raw_def reads_flat_def cpu_access_read16_def)
    qed
  qed
qed

lemma mem_read16_flat:
  assumes "flat s" "ram_span 2 a s" "shift \<in> {0, 2, 4, 6}"
  shows "reads_flat (ram_get16 a s) s (mem_read16 shift a s)"
  using mem_read16_raw_flat [OF assms] by (auto simp: reads_flat_def mem_read16_def zext16_low)

lemma mem_read32_flat:
  assumes "flat s" "ram_span 4 a s" "shift \<in> {0, 2, 4, 6}"
  shows "reads_flat (ram_get32 a s) s (mem_read32 shift a s)"
proof -
  have a: "in_ram a s" using assms(2) span_first [of 4] by simp
  show ?thesis
  proof (cases "(a OR tag_at a shift s) AND 3 = 0")
    case True
    then show ?thesis using fast_flat(3) [OF assms(1) a assms(3)] assms(1)
      by (simp add: mem_read32_def reads_flat_def)
  next
    case slow: False
    show ?thesis
    proof (cases "a AND 3 = 0")
      case True
      then obtain t where t: "cpu_access_read32 a (tag_at a shift s) shift s = Ok () (set_result (ram_get32 a t) t)"
        "flat t" "same_core s t" "m_mem t = m_mem s"
        using slow_read_flat [OF assms(1) a assms(3), of 4 2 ram_get32]
        by (auto simp: cpu_access_read32_def dvd4)
      have "ram_get32 a t = ram_get32 a s" using t(4) by (intro get_cong(2)) simp
      then show ?thesis
        using slow t same_core_trans [OF t(3)] by (simp add: mem_read32_def reads_flat_def)
    next
      case False
      obtain t where t: "read_bytes [0..<4] a shift 0 s = Ok () t" "flat t" "same_core s t" "m_mem t = m_mem s"
        "m_read_result t = fold (\<lambda>i r. r OR push_bit (8 * i) (ucast (m_mem s (a + of_nat i)))) [0..<4] 0"
        using read_bytes_flat [OF assms(1,3), of "[0..<4]" a 0] assms(2) by (auto simp: ram_span_def)
      have "m_read_result t = ram_get32 a s"
        by (rule bit_eqI) (auto simp: t(5) upt_rec get32_bytes bit_cat16 cat8 bit_or_iff bit_push_bit_iff
            bit_zext8 dest: bit_imp_le_length)
      then show ?thesis using slow False t by (simp add: mem_read32_def reads_flat_def cpu_access_read32_def)
    qed
  qed
qed

lemma poke2: "fold (poke a v) [0..<2] m = m(a := ucast v, a + 1 := ucast (drop_bit 8 v))"
  by (simp add: upt_rec poke_def)

lemma poke4: "fold (poke a v) [0..<4] m =
    m(a := ucast v, a + 1 := ucast (drop_bit 8 v), a + 2 := ucast (drop_bit 16 v), a + 3 := ucast (drop_bit 24 v))"
  by (simp add: upt_rec poke_def)

lemma put16_mem32: "m_mem (ram_put16 p (ucast v) s) = (m_mem s)(p := ucast v, p + 1 := ucast (drop_bit 8 v))"
  for v :: u32
proof -
  have "(ucast (ucast v :: u16) :: u8) = ucast v" "(ucast (drop_bit 8 (ucast v :: u16)) :: u8) = ucast (drop_bit 8 v)"
    by (rule bit_eqI, simp add: bit_simps)+
  then show ?thesis by (simp add: put16_mem)
qed

lemma mem_write16_flat:
  assumes "flat s" "ram_span 2 a s" "shift \<in> {0, 2, 4, 6}"
  shows "writes_flat ((m_mem s)(a := ucast v, a + 1 := ucast (drop_bit 8 v))) s (mem_write16 shift a v s)"
proof -
  have a: "in_ram a s" using assms(2) span_first [of 2] by simp
  show ?thesis
  proof (cases "(a OR tag_at a shift s) AND 1 = 0")
    case True
    then show ?thesis using fast_flat(2) [OF assms(1) a assms(3)] put_flat(2) [OF assms(1)]
      by (simp add: mem_write16_def writes_flat_def put16_mem32)
  next
    case slow: False
    show ?thesis
    proof (cases "a AND 1 = 0")
      case True
      then obtain t where t: "cpu_access_write16 a v (tag_at a shift s) shift s = Ok () (ram_put16 a (ucast v) t)"
        "flat t" "same_core s t" "m_mem t = m_mem s"
        using slow_write_flat [OF assms(1) a assms(3), of 2 1 "\<lambda>p. ram_put16 p (ucast v)" v]
        by (auto simp: cpu_access_write16_def dvd2)
      then show ?thesis
        using slow same_core_trans [OF t(3)] put_flat(2) by (simp add: mem_write16_def writes_flat_def put16_mem32)
    next
      case False
      obtain t where t: "write_bytes [0..<2] a v shift s = Ok () t" "flat t" "same_core s t"
        "m_mem t = fold (poke a v) [0..<2] (m_mem s)"
        using write_bytes_flat [OF assms(1,3), of "[0..<2]" a v] assms(2) by (auto simp: ram_span_def)
      show ?thesis using slow False t(1-3) t(4) [unfolded poke2]
        by (simp add: mem_write16_def writes_flat_def cpu_access_write16_def)
    qed
  qed
qed

lemma mem_write32_flat:
  assumes "flat s" "ram_span 4 a s" "shift \<in> {0, 2, 4, 6}"
  shows "writes_flat ((m_mem s)(a := ucast v, a + 1 := ucast (drop_bit 8 v), a + 2 := ucast (drop_bit 16 v),
    a + 3 := ucast (drop_bit 24 v))) s (mem_write32 shift a v s)"
proof -
  have a: "in_ram a s" using assms(2) span_first [of 4] by simp
  show ?thesis
  proof (cases "(a OR tag_at a shift s) AND 3 = 0")
    case True
    then show ?thesis using fast_flat(3) [OF assms(1) a assms(3)] put_flat(3) [OF assms(1)]
      by (simp add: mem_write32_def writes_flat_def put32_mem)
  next
    case slow: False
    show ?thesis
    proof (cases "a AND 3 = 0")
      case True
      then obtain t where t: "cpu_access_write32 a v (tag_at a shift s) shift s = Ok () (ram_put32 a v t)"
        "flat t" "same_core s t" "m_mem t = m_mem s"
        using slow_write_flat [OF assms(1) a assms(3), of 4 2 "\<lambda>p. ram_put32 p v" v]
        by (auto simp: cpu_access_write32_def dvd4)
      then show ?thesis
        using slow same_core_trans [OF t(3)] put_flat(3) by (simp add: mem_write32_def writes_flat_def put32_mem)
    next
      case False
      obtain t where t: "write_bytes [0..<4] a v shift s = Ok () t" "flat t" "same_core s t"
        "m_mem t = fold (poke a v) [0..<4] (m_mem s)"
        using write_bytes_flat [OF assms(1,3), of "[0..<4]" a v] assms(2) by (auto simp: ram_span_def)
      show ?thesis using slow False t(1-3) t(4) [unfolded poke4]
        by (simp add: mem_write32_def writes_flat_def cpu_access_write32_def)
    qed
  qed
qed

section \<open>The abstract byte array\<close>

definition le_load :: "nat \<Rightarrow> u32 \<Rightarrow> (u32 \<Rightarrow> u8) \<Rightarrow> u32" where
  "le_load n a m = fold (\<lambda>i r. r OR push_bit (8 * i) (ucast (m (a + of_nat i)))) [0..<n] 0"

definition le_store :: "nat \<Rightarrow> u32 \<Rightarrow> u32 \<Rightarrow> (u32 \<Rightarrow> u8) \<Rightarrow> u32 \<Rightarrow> u8" where
  "le_store n a v m = fold (poke a v) [0..<n] m"

lemma le_load_get: "le_load 2 a (m_mem s) = ucast (ram_get16 a s)" "le_load 4 a (m_mem s) = ram_get32 a s"
  "le_load 1 a (m_mem s) = ucast (m_mem s a)"
proof -
  show "le_load 2 a (m_mem s) = ucast (ram_get16 a s)"
    using or_bytes16 [of "m_mem s a" "m_mem s (a + 1)"] by (simp add: le_load_def upt_rec ram_get16_def)
  show "le_load 4 a (m_mem s) = ram_get32 a s"
    by (rule bit_eqI) (auto simp: le_load_def upt_rec get32_bytes bit_cat16 cat8 bit_or_iff bit_push_bit_iff
            bit_zext8 dest: bit_imp_le_length)
  show "le_load 1 a (m_mem s) = ucast (m_mem s a)" by (simp add: le_load_def)
qed

text \<open>All sizes and alignments, against the little-endian reading and writing of the array.\<close>

lemma flat_accesses:
  assumes "flat s" "shift \<in> {0, 2, 4, 6}"
  shows "(in_ram a s \<longrightarrow> (\<exists>x. ucast x = le_load 1 a (m_mem s) \<and> reads_flat x s (mem_read8 shift a s)))
    \<and> (ram_span 2 a s \<longrightarrow> (\<exists>x. ucast x = le_load 2 a (m_mem s) \<and> reads_flat x s (mem_read16 shift a s)))
    \<and> (ram_span 4 a s \<longrightarrow> reads_flat (le_load 4 a (m_mem s)) s (mem_read32 shift a s))
    \<and> (in_ram a s \<longrightarrow> writes_flat (le_store 1 a v (m_mem s)) s (mem_write8 shift a v s))
    \<and> (ram_span 2 a s \<longrightarrow> writes_flat (le_store 2 a v (m_mem s)) s (mem_write16 shift a v s))
    \<and> (ram_span 4 a s \<longrightarrow> writes_flat (le_store 4 a v (m_mem s)) s (mem_write32 shift a v s))"
  unfolding le_load_get
  using mem_read8_flat [OF assms(1) _ assms(2)] mem_read16_flat [OF assms(1) _ assms(2)]
    mem_read32_flat [OF assms(1) _ assms(2)] mem_write8_flat [OF assms(1) _ assms(2)]
    mem_write16_flat [OF assms(1) _ assms(2)] mem_write32_flat [OF assms(1) _ assms(2)]
  by (auto simp: le_store_def poke2 poke4) (simp add: poke_def)

lemma booted_flat:
  "\<exists>(io :: unit io_bus) s. booted 0x200000 False io = Some s \<and> flat s \<and> m_memory_size s = 0x200000
    \<and> m_esp_mask s = 0xFFFF \<and> m_seg_base s 2 = 0 \<and> get_reg32 4 s = 0"
proof -
  obtain io :: "unit io_bus" where "bus_total io" using some_bus by blast
  then obtain s where s: "booted 0x200000 False io = Some s" "mem_ok s" "m_tlb s = (\<lambda>_. None)" "m_a20_mask s = - 1"
    "m_memory_size s = 0x200000" "m_cr s 0 = 0x60000010" "m_esp_mask s = 0xFFFF" "m_seg_base s 2 = 0" "get_reg32 4 s = 0"
    using booted_state [of io "0x200000" False] by auto
  have "\<not> bit (0x60000010 :: u32) 31" by simp
  then have "flat s" using s by (simp add: flat_def)
  then show ?thesis using s by blast
qed

lemma span_concrete: "m_memory_size s = 0x200000 \<Longrightarrow> ram_span 4 0xFFFC s" "m_memory_size s = 0x200000 \<Longrightarrow> ram_span 4 0x12345 s"
proof -
  have four: "(\<forall>i < 4. P i) \<longleftrightarrow> P 0 \<and> P 1 \<and> P 2 \<and> P (3 :: nat)" for P
    by (auto simp: less_Suc_eq eval_nat_numeral)
  show "m_memory_size s = 0x200000 \<Longrightarrow> ram_span 4 0xFFFC s" "m_memory_size s = 0x200000 \<Longrightarrow> ram_span 4 0x12345 s"
    by (simp_all only: ram_span_def four) (simp_all add: in_ram_def)
qed

section \<open>The stack\<close>

lemma low16_merge: "(ucast ((x AND 0xFFFF) OR (e AND NOT 0xFFFF)) :: u16) = ucast x" for x e :: u32
proof -
  have m: "(0xFFFF :: u32) = mask 16" by (simp add: mask_eq_exp_minus_1)
  show ?thesis unfolding m
    by (rule bit_eqI) (auto simp: bit_low16 bit_or_iff bit_and_iff bit_not_iff bit_mask_iff)
qed

lemma high16_merge: "((x AND 0xFFFF) OR (e AND NOT 0xFFFF)) AND NOT 0xFFFF = e AND NOT 0xFFFF" for x e :: u32
proof -
  have m: "(0xFFFF :: u32) = mask 16" by (simp add: mask_eq_exp_minus_1)
  show ?thesis unfolding m
    by (rule bit_eqI) (auto simp: bit_or_iff bit_and_iff bit_not_iff bit_mask_iff)
qed

lemma wrap16: "((((e - 4) AND 0xFFFF) OR (e AND NOT 0xFFFF)) + 4) AND 0xFFFF = e AND 0xFFFF" for e :: u32
proof -
  let ?x = "((e - 4) AND 0xFFFF) OR (e AND NOT 0xFFFF)"
  have "(ucast (?x + 4) :: u16) = ucast ?x + ucast (4 :: u32)" by (rule ucast_down_add) simp
  also have "(ucast ?x :: u16) = ucast (e - 4)" by (rule low16_merge)
  also have "(ucast (e - 4) :: u16) = ucast e - ucast (4 :: u32)" by (rule ucast_down_diff) simp
  finally have "(ucast (?x + 4) :: u16) = ucast e" by simp
  then show ?thesis by (simp only: low16_as_cast)
qed

lemma low16_mask: "((x AND 0xFFFF) OR (e AND NOT 0xFFFF)) AND 0xFFFF = x AND 0xFFFF" for x e :: u32
  using low16_merge [of x e] by (simp only: low16_as_cast)

lemma halves_join: "(e AND 0xFFFF) OR (e AND NOT 0xFFFF) = e" for e :: u32
proof -
  have m: "(0xFFFF :: u32) = mask 16" by (simp add: mask_eq_exp_minus_1)
  show ?thesis unfolding m
    by (rule bit_eqI) (auto simp: bit_or_iff bit_and_iff bit_not_iff bit_mask_iff)
qed

lemma reg_flat: "flat s \<Longrightarrow> flat (set_reg32 r v s)"
proof -
  assume s: "flat s"
  have "m_tlb (set_reg32 r v s) = m_tlb s" "m_cr (set_reg32 r v s) = m_cr s"
    "m_a20_mask (set_reg32 r v s) = m_a20_mask s" "m_memory_size (set_reg32 r v s) = m_memory_size s"
    by (simp_all add: set_reg32_def)
  then show ?thesis using s by (simp add: flat_def)
qed

lemma store4_flat:
  assumes "flat s" "ram_span 4 a s" "shift \<in> {0, 2, 4, 6}"
  shows "writes_flat (le_store 4 a v (m_mem s)) s (mem_write32 shift a v s)"
  using mem_write32_flat [OF assms] by (simp add: le_store_def poke4)

text \<open>
  C19. Round trip of the stack, for both stack widths, on the flat machine (paging off, address line 20
  open, the TLB at most filled with identity entries, as it is then): a double word pushed into RAM and popped
  again comes back, every register including the stack pointer is as before, no byte outside the
  slot has changed, and in between the stack pointer is four lower within its width while the
  bits above a 16-bit stack pointer stay.
\<close>

theorem push_pop_round_trip:
  assumes "flat s" "m_esp_mask s = - 1 \<or> m_esp_mask s = 0xFFFF"
    and "a = ((get_reg32 4 s - 4) AND m_esp_mask s) + m_seg_base s 2" "ram_span 4 a s"
  shows "\<exists>t u. cpu_push32 v s = Ok () t \<and> cpu_pop32 t = Ok v u \<and> m_reg32 u = m_reg32 s
    \<and> m_mem t = le_store 4 a v (m_mem s) \<and> m_mem u = m_mem t
    \<and> get_reg32 4 t AND m_esp_mask s = (get_reg32 4 s - 4) AND m_esp_mask s
    \<and> get_reg32 4 t AND NOT (m_esp_mask s) = get_reg32 4 s AND NOT (m_esp_mask s)"
proof -
  define e where "e = get_reg32 4 s"
  define m where "m = m_esp_mask s"
  define e2 where "e2 = ((e - 4) AND m) OR (e AND NOT m)"
  have sh: "m_tlb_shift_read s \<in> {0, 2, 4, 6}" "m_tlb_shift_write s \<in> {0, 2, 4, 6}"
    using shifts_ok [of s] assms(1) by (simp_all add: flat_def)
  obtain t where t: "mem_write32 (m_tlb_shift_write s) a v s = Ok () t" "flat t" "same_core s t"
    "m_mem t = le_store 4 a v (m_mem s)"
    using store4_flat [OF assms(1,4) sh(2)] by (auto simp: writes_flat_def)
  define t2 where "t2 = set_reg32 4 e2 t"
  have p: "cpu_push32 v s = Ok () t2"
    using t assms(3) by (simp add: cpu_push32_def stack_addr_def t2_def e2_def e_def m_def Let_def)
  have c: "m_seg_base t2 = m_seg_base s" "m_esp_mask t2 = m" "m_tlb_shift_read t2 = m_tlb_shift_read s"
    "m_mem t2 = m_mem t" "m_memory_size t2 = m_memory_size s"
    using t(3) by (simp_all add: t2_def set_reg32_def same_core_def m_def)
  have lo: "e2 AND m = (e - 4) AND m" and hi: "e2 AND NOT m = e AND NOT m" and bk: "((e2 + 4) AND m) OR (e2 AND NOT m) = e"
    using assms(2) low16_mask [of "e - 4" e] high16_merge [of "e - 4" e] wrap16 [of e] halves_join [of e]
    by (auto simp: e2_def m_def)
  have f: "flat t2" unfolding t2_def using t(2) by (rule reg_flat)
  have span: "ram_span 4 a t2" using assms(4) c(5) by (simp add: ram_span_def in_ram_def)
  have g: "ram_get32 a t2 = v"
  proof -
    have "ram_get32 a t2 = ram_get32 a (ram_put32 a v s)"
      using c(4) t(4) by (intro get_cong(2)) (simp add: le_store_def poke4 put32_mem)
    then show ?thesis by simp
  qed
  obtain u where u: "mem_read32 (m_tlb_shift_read s) a t2 = Ok v u" "same_core t2 u" "m_mem u = m_mem t2"
    using mem_read32_flat [OF f span sh(1)] g by (auto simp: reads_flat_def)
  have r: "m_reg32 t2 = (m_reg32 s)(4 := e2)" using t(3) by (simp add: t2_def set_reg32_def same_core_def)
  then have e2: "get_reg32 4 t2 = e2" by (simp add: get_reg32_def)
  have "stack_addr (e2 AND m) t2 = a" using assms(3) c(1) lo by (simp add: stack_addr_def e_def m_def)
  then have q: "cpu_pop32 t2 = Ok v (set_reg32 4 e u)"
    using u(1) bk by (simp add: cpu_pop32_def Let_def e2 c(2,3))
  have "m_reg32 (set_reg32 4 e u) = m_reg32 s"
    using u(2) r by (simp add: set_reg32_def same_core_def e_def get_reg32_def)
  then show ?thesis
    using p q t(4) c(4) u(3) lo hi e2
    by (intro exI [of _ t2] exI [of _ "set_reg32 4 e u"]) (simp add: e_def m_def set_reg32_def)
qed

theorem push_pop_round_trip_witness:
  "\<exists>(io :: unit io_bus) s t u. booted 0x200000 False io = Some s \<and> cpu_push32 0xCAFE s = Ok () t
    \<and> cpu_pop32 t = Ok 0xCAFE u \<and> m_reg32 u = m_reg32 s"
proof -
  obtain io :: "unit io_bus" and s where s: "booted 0x200000 False io = Some s" "flat s" "m_memory_size s = 0x200000"
    "m_esp_mask s = 0xFFFF" "m_seg_base s 2 = 0" "get_reg32 4 s = 0" using booted_flat by blast
  have "\<exists>t u. cpu_push32 0xCAFE s = Ok () t \<and> cpu_pop32 t = Ok 0xCAFE u \<and> m_reg32 u = m_reg32 s
    \<and> m_mem t = le_store 4 0xFFFC 0xCAFE (m_mem s) \<and> m_mem u = m_mem t
    \<and> get_reg32 4 t AND m_esp_mask s = (get_reg32 4 s - 4) AND m_esp_mask s
    \<and> get_reg32 4 t AND NOT (m_esp_mask s) = get_reg32 4 s AND NOT (m_esp_mask s)"
    using s span_concrete by (intro push_pop_round_trip) simp_all
  then show ?thesis using s(1) by blast
qed

end
