(* ===== verification/Paging_Laws.thy ===== *)
theory Paging_Laws
  imports Flat_Mem
begin

text \<open>
  What a page table walk does: when it faults and with which error code, which frame it
  puts in the TLB, and the accessed and dirty bits it sets.
\<close>

section \<open>Reading and updating table entries\<close>

lemma and_flag: "x AND push_bit k (of_bool b) \<noteq> 0 \<longleftrightarrow> b \<and> bit x k" for x :: u32
  using and_exp_eq_0_iff_not_bit [of x k] by (cases b) auto

lemma and_flag_lit: "x AND 0x20 = 0 \<longleftrightarrow> \<not> bit x 5" "x AND 0x80 = 0 \<longleftrightarrow> \<not> bit x 7" for x :: u32
  using and_exp_eq_0_iff_not_bit [of x 5] and_exp_eq_0_iff_not_bit [of x 7] by simp_all

lemma or_absorb_bit: "bit x k \<Longrightarrow> x OR 2 ^ k = x" for x :: u32
  by (rule bit_eqI) (auto simp: bit_or_iff bit_exp_iff)

lemma phys_in_ram:
  assumes "mem_ok s" "in_ram a s" "a AND 3 = 0"
  shows "cpu_read_phys a s = Ok (ram_get32 a s) s" "cpu_write_phys a v s = Ok () (ram_put32 a v s)"
proof -
  have "ram_ok 4 a s"
    using operand_below [of 4 a "m_memory_size s"] assms mem_size_4 [OF assms(1)] by (simp add: dvd4 [symmetric] in_ram_def ram_ok_def)
  then show "cpu_read_phys a s = Ok (ram_get32 a s) s" "cpu_write_phys a v s = Ok () (ram_put32 a v s)"
    using in_ram_io [OF assms(2)] by (simp_all add: cpu_read_phys_def cpu_write_phys_def)
qed

definition mark :: "bool \<Rightarrow> u32 \<Rightarrow> u32 \<Rightarrow> 'd cpu_mem \<Rightarrow> 'd cpu_mem" where
  "mark c a v s = (if c then ram_put32 a v s else s)"

lemma mark_core [simp]: "same_core s (mark c a v s)" "m_tlb (mark c a v s) = m_tlb s"
  by (simp_all add: mark_def)

lemma mark_ok [simp]: "mem_ok s \<Longrightarrow> mem_ok (mark c a v s)"
  by (simp add: mark_def)

lemma write_if_mark:
  "mem_ok s \<Longrightarrow> in_ram a s \<Longrightarrow> a AND 3 = 0 \<Longrightarrow> write_if c a v s = Ok () (mark c a v s)"
  by (simp add: write_if_def mark_def phys_in_ram)

lemma mark_get: "(\<not> c \<Longrightarrow> v = ram_get32 a s) \<Longrightarrow> ram_get32 a (mark c a v s) = v"
  by (simp add: mark_def)

lemma mark_get_other:
  "a AND 3 = 0 \<Longrightarrow> b AND 3 = 0 \<Longrightarrow> a \<noteq> b \<Longrightarrow> ram_get32 b (mark c a v s) = ram_get32 b s"
  by (simp add: mark_def get_put_other)

lemma mark_mem_other: "(\<And>i. i < 4 \<Longrightarrow> p \<noteq> a + of_nat i) \<Longrightarrow> m_mem (mark c a v s) p = m_mem s p"
  by (simp add: mark_def put32_other)

section \<open>The two-level walk\<close>

text \<open>
  The protection rule: a write needs both entries writable, unless it is a supervisor's and
  \<open>CR0.WP\<close> is clear; a user access needs both entries to be user pages.
\<close>

definition walk_denies :: "u32 \<Rightarrow> u32 \<Rightarrow> bool \<Rightarrow> bool \<Rightarrow> bool \<Rightarrow> bool" where
  "walk_denies pde pte write user wp \<longleftrightarrow>
     write \<and> \<not> (bit pde 1 \<and> bit pte 1) \<and> (user \<or> wp) \<or> user \<and> \<not> (bit pde 2 \<and> bit pte 2)"

lemma combined_bits: "bit (NOT pte OR NOT pde) k \<longleftrightarrow> k < 32 \<and> \<not> (bit pde k \<and> bit pte k)" for pte pde :: u32
  by (auto simp: bit_or_iff bit_not_iff)

lemma tag_after_fill:
  assumes "shift \<in> {0, 2, 4, 6}"
  shows "\<not> bit (tag_at lin shift (cpu_set_tlb_entry (lin AND NOT 0xFFF) phys (bit shift 2) (bit shift 1) g nx s)) 1"
proof -
  let ?t = "cpu_set_tlb_entry (lin AND NOT 0xFFF) phys (bit shift 2) (bit shift 1) g nx s"
  have "\<exists>a b. m_tlb_tags ?t (drop_bit 12 lin) = tlb_tag a b (bit shift 2) (bit shift 1)"
    unfolding cpu_set_tlb_entry_def Let_def drop_page by auto
  then obtain a b where "m_tlb_tags ?t (drop_bit 12 lin) = tlb_tag a b (bit shift 2) (bit shift 1)" by blast
  moreover have "bit (0 :: nat) 1 = False" "bit (2 :: nat) 1" "\<not> bit (2 :: nat) 2" "\<not> bit (4 :: nat) 1" "bit (4 :: nat) 2"
    "bit (6 :: nat) 1" "bit (6 :: nat) 2" by (simp_all add: bit_iff_odd)
  ultimately show ?thesis using assms by (auto simp: bit_tag_at tlb_tag_bits simp del: One_nat_def)
qed

text \<open>
  C7. The page table walk with 4 KiB pages. It faults with vector 14, \<open>CR2\<close> set to the
  linear address and nothing else changed, exactly when an entry is not present (error code: write
  and user bits) or the protection rule denies the access (the same with bit 0). Otherwise the TLB
  maps the page to the frame of the page table entry, the next access of the same kind needs no
  walk, the accessed bits of both entries and, for a write, the dirty bit of the page are set, and
  no other byte of memory has changed.
\<close>

theorem page_walk_correct:
  fixes s :: "'d cpu_mem" and lin :: u32 and shift :: nat
  defines "write \<equiv> bit shift 1" and "user \<equiv> bit shift 2"
  defines "pde_addr \<equiv> m_cr s 3 + (drop_bit 20 lin AND 0xFFC)"
  defines "pde \<equiv> ram_get32 pde_addr s"
  defines "pte_addr \<equiv> (drop_bit 10 lin AND 0xFFC) + (pde AND NOT 0xFFF)"
  defines "pte \<equiv> ram_get32 pte_addr s"
  defines "code \<equiv> push_bit 1 (of_bool write) OR push_bit 2 (of_bool user) :: u32"
  assumes s: "mem_ok s" and pg: "bit (m_cr s 0) 31" and pae: "\<not> bit (m_cr s 4) 5" and sh: "shift \<in> {0, 2, 4, 6}"
    and d: "in_ram pde_addr s" and small: "\<not> (bit pde 7 \<and> bit (m_cr s 4) 4)"
    and t: "bit pde 0 \<Longrightarrow> in_ram pte_addr s"
  shows "(\<not> (bit pde 0 \<and> bit pte 0) \<longrightarrow>
      cpu_mmu_translate lin shift s = Fault 14 (code OR 0x10000) (s\<lparr>m_cr := (m_cr s)(2 := lin)\<rparr>))
    \<and> (bit pde 0 \<and> bit pte 0 \<and> walk_denies pde pte write user (bit (m_cr s 0) 16) \<longrightarrow>
      cpu_mmu_translate lin shift s = Fault 14 (1 OR code OR 0x10000) (s\<lparr>m_cr := (m_cr s)(2 := lin)\<rparr>))
    \<and> (bit pde 0 \<and> bit pte 0 \<and> \<not> walk_denies pde pte write user (bit (m_cr s 0) 16) \<longrightarrow>
      (\<exists>t. cpu_mmu_translate lin shift s = Ok () t \<and> mem_ok t
        \<and> host_at lin t = Some (gate_phys (pte AND NOT 0xFFF) s + (lin AND 0xFFF))
        \<and> \<not> bit (tag_at lin shift t) 1
        \<and> ram_get32 pte_addr t = pte OR push_bit 6 (of_bool write) OR 0x20
        \<and> (pde_addr \<noteq> pte_addr \<longrightarrow> ram_get32 pde_addr t = pde OR 0x20)
        \<and> (\<forall>p. (\<forall>i < 4. p \<noteq> pde_addr + of_nat i \<and> p \<noteq> pte_addr + of_nat i) \<longrightarrow> m_mem t p = m_mem s p)))"
proof (intro conjI impI)
  have da: "pde_addr AND 3 = 0" and ta: "pte_addr AND 3 = 0"
    using table_addr(1) [OF s, of "drop_bit 20 lin"] table_addr(2) [of "drop_bit 10 lin" pde]
    by (simp_all add: dvd4 pde_addr_def pte_addr_def)
  have rd: "cpu_read_phys pde_addr s = Ok pde s" using phys_in_ram [OF s d da] by (simp add: pde_def)
  have rt: "bit pde 0 \<Longrightarrow> cpu_read_phys pte_addr s = Ok pte s"
    using phys_in_ram [OF s t ta] by (simp add: pte_def)
  have w: "cpu_mmu_translate lin shift s = mmu_walk32 lin write user s"
    using pg pae by (simp add: cpu_mmu_translate_def write_def user_def)
  have sm: "\<not> (pde AND 0x80 \<noteq> 0 \<and> bit (m_cr s 4) 4)" using small by (simp add: and_flag_lit)
  note walk = mmu_walk32_def [of lin "write" user s, folded code_def pde_addr_def, unfolded Let_def, folded code_def]
  show "\<not> (bit pde 0 \<and> bit pte 0) \<Longrightarrow>
      cpu_mmu_translate lin shift s = Fault 14 (code OR 0x10000) (s\<lparr>m_cr := (m_cr s)(2 := lin)\<rparr>)"
  proof (cases "bit pde 0")
    case False
    then show ?thesis unfolding w walk by (simp add: rd page_fault_def raise_code_def)
  next
    case True
    assume "\<not> (bit pde 0 \<and> bit pte 0)"
    then have "\<not> bit pte 0" using True by simp
    then show ?thesis unfolding w walk
      by (simp only: rd seq.simps True sm rt [OF True, unfolded pte_addr_def] page_fault_def raise_code_def
          not_True_eq_False not_False_eq_True if_False if_True)
  qed
  define new where "new = pte OR push_bit 6 (of_bool write) OR 0x20"
  have body: "mmu_walk32 lin write user s = (if walk_denies pde pte write user (bit (m_cr s 0) 16)
      then page_fault lin (1 OR code) s
      else seq (write_if (pde AND 0x20 = 0) pde_addr (pde OR 0x20) s) (\<lambda>_ s1.
        seq (write_if (new \<noteq> pte) pte_addr new s1) (\<lambda>_ s2.
          Ok () (cpu_set_tlb_entry (lin AND NOT 0xFFF) (pte AND NOT 0xFFF) user write (pte AND 0x100 \<noteq> 0) False s2))))"
    if p: "bit pde 0 \<and> bit pte 0"
  proof -
    have c: "(NOT pte OR NOT pde) AND push_bit 1 (of_bool write) \<noteq> 0 \<longleftrightarrow> write \<and> \<not> (bit pde 1 \<and> bit pte 1)"
      "(NOT pte OR NOT pde) AND push_bit 2 (of_bool user) \<noteq> 0 \<longleftrightarrow> user \<and> \<not> (bit pde 2 \<and> bit pte 2)"
      by (simp_all only: and_flag combined_bits) simp_all
    show ?thesis
      unfolding walk walk_denies_def new_def
      using p sm by (simp only: rd rt [unfolded pte_addr_def] seq.simps c pte_addr_def) auto
  qed
  show "bit pde 0 \<and> bit pte 0 \<and> walk_denies pde pte write user (bit (m_cr s 0) 16) \<Longrightarrow>
      cpu_mmu_translate lin shift s = Fault 14 (1 OR code OR 0x10000) (s\<lparr>m_cr := (m_cr s)(2 := lin)\<rparr>)"
    unfolding w by (simp add: body page_fault_def raise_code_def or.assoc)
  assume p: "bit pde 0 \<and> bit pte 0 \<and> \<not> walk_denies pde pte write user (bit (m_cr s 0) 16)"
  define s1 where "s1 = mark (pde AND 0x20 = 0) pde_addr (pde OR 0x20) s"
  define s2 where "s2 = mark (new \<noteq> pte) pte_addr new s1"
  define u where "u = cpu_set_tlb_entry (lin AND NOT 0xFFF) (pte AND NOT 0xFFF) user write (pte AND 0x100 \<noteq> 0) False s2"
  have s1: "mem_ok s1" "same_core s s1" using s by (simp_all add: s1_def)
  have s2: "mem_ok s2" "same_core s s2" using s1 same_core_trans [of s s1] by (simp_all add: s2_def)
  have "in_ram pte_addr s1" using t p s1(2) by (simp add: in_ram_core)
  then have r: "mmu_walk32 lin write user s = Ok () u"
    using p s d s1(1) by (simp add: body write_if_mark da ta s1_def [symmetric] s2_def [symmetric] u_def)
  have um: "m_mem u = m_mem s2" by (simp add: u_def set_entry_core)
  have get: "ram_get32 a u = ram_get32 a s2" for a using um by (intro get_cong(2)) simp
  have g1: "ram_get32 pde_addr s1 = pde OR 0x20"
    unfolding s1_def
  proof (rule mark_get)
    assume "\<not> pde AND 0x20 = 0"
    then have "pde OR 0x20 = pde"
      using or_absorb_bit [of pde 5] by (simp add: and_flag_lit)
    then show "pde OR 0x20 = ram_get32 pde_addr s" by (simp add: pde_def)
  qed
  have e1: "ram_get32 pte_addr s1 = (if pte_addr = pde_addr then pde OR 0x20 else pte)"
    using g1 mark_get_other [OF da ta, of _ _ s] by (simp add: s1_def pte_def)
  have "ram_get32 pte_addr s2 = new"
  proof -
    have "new = ram_get32 pte_addr s1" if "\<not> new \<noteq> pte"
    proof -
      have "pte_addr = pde_addr \<Longrightarrow> pde OR 0x20 = pte"
        using that by (simp add: new_def pte_def pde_def) (metis or.right_idem or.assoc)
      then show ?thesis using that e1 by (auto split: if_splits)
    qed
    then show ?thesis unfolding s2_def by (intro mark_get) blast
  qed
  moreover have "pde_addr \<noteq> pte_addr \<Longrightarrow> ram_get32 pde_addr s2 = pde OR 0x20"
    using g1 mark_get_other [OF ta da, of _ _ s1] by (simp add: s2_def)
  moreover have "m_mem s2 q = m_mem s q" if "\<forall>i < 4. q \<noteq> pde_addr + of_nat i \<and> q \<noteq> pte_addr + of_nat i" for q
  proof -
    have "m_mem s2 q = m_mem s1 q" unfolding s2_def using that by (intro mark_mem_other) blast
    also have "\<dots> = m_mem s q" unfolding s1_def using that by (intro mark_mem_other) blast
    finally show ?thesis .
  qed
  moreover have "mem_ok u" unfolding u_def using s2(1) by (intro set_entry_ok page_masks)
  moreover have "host_at lin u = Some (gate_phys (pte AND NOT 0xFFF) s + (lin AND 0xFFF))"
  proof -
    have g: "gate_phys (pte AND NOT 0xFFF) s2 = gate_phys (pte AND NOT 0xFFF) s"
      using s2(2) by (simp add: gate_phys_def same_core_def)
    have "m_tlb u (drop_bit 12 lin) = Some (gate_phys (pte AND NOT 0xFFF) s - (lin AND NOT 0xFFF))"
      using set_entry_tlb(1) [OF page_masks(1) [of lin], of "pte AND NOT 0xFFF" user "write" "pte AND 0x100 \<noteq> 0" False s2]
      unfolding u_def g drop_page .
    moreover have "lin - (lin AND NOT 0xFFF) = lin AND 0xFFF"
      unfolding page_base using page_split [of lin] by (metis add_diff_cancel_left')
    ultimately show ?thesis by (simp add: host_at_def algebra_simps)
  qed
  moreover have "\<not> bit (tag_at lin shift u) 1"
    using tag_after_fill [OF sh] by (simp add: u_def write_def user_def)
  ultimately show "\<exists>t. cpu_mmu_translate lin shift s = Ok () t \<and> mem_ok t
        \<and> host_at lin t = Some (gate_phys (pte AND NOT 0xFFF) s + (lin AND 0xFFF))
        \<and> \<not> bit (tag_at lin shift t) 1
        \<and> ram_get32 pte_addr t = pte OR push_bit 6 (of_bool write) OR 0x20
        \<and> (pde_addr \<noteq> pte_addr \<longrightarrow> ram_get32 pde_addr t = pde OR 0x20)
        \<and> (\<forall>p. (\<forall>i < 4. p \<noteq> pde_addr + of_nat i \<and> p \<noteq> pte_addr + of_nat i) \<longrightarrow> m_mem t p = m_mem s p)"
    unfolding w using r by (intro exI [of _ u]) (simp add: get um new_def)
qed

text \<open>A machine with a page directory at 0, a page table at 0x1000 and the page 5 mapped to the frame 3.\<close>

definition map_page :: "'d cpu_mem \<Rightarrow> 'd cpu_mem" where
  "map_page s = (ram_put32 0 0x1007 (ram_put32 0x1014 0x3007 s))
     \<lparr>m_cr := (m_cr s)(0 := 0x80000001, 3 := 0, 4 := 0)\<rparr>"

lemma map_page:
  assumes "mem_ok s"
  shows "mem_ok (map_page s)" "ram_get32 0 (map_page s) = 0x1007" "ram_get32 0x1014 (map_page s) = 0x3007"
    "m_cr (map_page s) 0 = 0x80000001" "m_cr (map_page s) 3 = 0" "m_cr (map_page s) 4 = 0"
    "in_ram a (map_page s) = in_ram a s" "gate_phys p (map_page s) = gate_phys p s"
proof -
  let ?t = "ram_put32 0 0x1007 (ram_put32 0x1014 0x3007 s)"
  have t: "mem_ok ?t" using assms by simp
  have e: "entry_ok (?t\<lparr>m_cr := f\<rparr>) x = entry_ok ?t x" for f x by (simp add: entry_ok_def)
  show "mem_ok (map_page s)" using t by (simp add: map_page_def mem_ok_def sys_ok_def e)
  have g: "ram_get32 q (map_page s) = ram_get32 q ?t" for q by (rule get_cong(2)) (simp add: map_page_def)
  show "ram_get32 0 (map_page s) = 0x1007" "ram_get32 0x1014 (map_page s) = 0x3007"
    unfolding g by (simp_all add: get_put_other)
  show "m_cr (map_page s) 0 = 0x80000001" "m_cr (map_page s) 3 = 0" "m_cr (map_page s) 4 = 0"
    "in_ram a (map_page s) = in_ram a s" "gate_phys p (map_page s) = gate_phys p s"
    by (simp_all add: map_page_def in_ram_def gate_phys_def ram_put32_def ram_put16_def ram_put8_def)
qed

theorem page_walk_correct_witness:
  "\<exists>(io :: unit io_bus) s t. booted 0x200000 False io = Some s \<and> cpu_mmu_translate 0x5678 2 (map_page s) = Ok () t
     \<and> host_at 0x5678 t = Some 0x3678 \<and> ram_get32 0x1014 t = 0x3067"
proof -
  obtain io :: "unit io_bus" and s where s: "booted 0x200000 False io = Some s" "flat s" "m_memory_size s = 0x200000"
    using booted_flat by blast
  then have ok: "mem_ok s" and g: "gate_phys 0x3000 s = 0x3000" by (simp_all add: flat_def gate_phys_def)
  have r: "in_ram 0 s" "in_ram 0x1014 s" using s(3) by (simp_all add: in_ram_def)
  have b: "bit (0x80000001 :: u32) 31" "bit (2 :: nat) 1" "\<not> bit (2 :: nat) 2" by (simp_all add: bit_iff_odd)
  note m = map_page [OF ok]
  have "\<exists>t. cpu_mmu_translate 0x5678 2 (map_page s) = Ok () t \<and> mem_ok t
        \<and> host_at 0x5678 t = Some (gate_phys (0x3007 AND NOT 0xFFF) (map_page s) + (0x5678 AND 0xFFF))
        \<and> \<not> bit (tag_at 0x5678 2 t) 1
        \<and> ram_get32 0x1014 t = 0x3007 OR push_bit 6 (of_bool (bit (2 :: nat) 1)) OR 0x20
        \<and> (0 \<noteq> (0x1014 :: u32) \<longrightarrow> ram_get32 0 t = 0x1007 OR 0x20)
        \<and> (\<forall>p. (\<forall>i < 4. p \<noteq> 0 + of_nat i \<and> p \<noteq> 0x1014 + of_nat i) \<longrightarrow> m_mem t p = m_mem (map_page s) p)"
    using page_walk_correct [of "map_page s" 2 "0x5678"] m r b
    by (simp add: walk_denies_def)
  then show ?thesis using s(1) m g b by auto
qed

end
