(* ===== verification/Tlb_Smc_Laws.thy ===== *)
theory Tlb_Smc_Laws
  imports Paging_Laws
begin

text \<open>
  What the maintenance operations promise: a flush of the TLB forgets every entry (all, or all
  but the global ones), and a write to a page with translated code forgets the translations
  that could cover the written byte.
\<close>

section \<open>Large pages\<close>

text \<open>
  C28. A 4 MiB page of the two-level tables: the frame of the TLB entry is the 4 MiB frame
  of the directory entry with the offset bits of the address, and the accessed and dirty bits are
  set. The write and user bits of the directory entry are not looked at, so that the walk succeeds
  for every kind of access, a user write to a read-only supervisor page included.
\<close>

theorem large_page_unprotected:
  fixes s :: "'d cpu_mem" and lin :: u32 and shift :: nat
  defines "pde_addr \<equiv> m_cr s 3 + (drop_bit 20 lin AND 0xFFC)"
  defines "pde \<equiv> ram_get32 pde_addr s"
  assumes s: "mem_ok s" and pg: "bit (m_cr s 0) 31" "\<not> bit (m_cr s 4) 5" and sh: "shift \<in> {0, 2, 4, 6}"
    and d: "in_ram pde_addr s" and p: "bit pde 0" and large: "bit pde 7" "bit (m_cr s 4) 4"
  shows "\<exists>t. cpu_mmu_translate lin shift s = Ok () t \<and> mem_ok t \<and> \<not> bit (tag_at lin shift t) 1
    \<and> host_at lin t = Some (gate_phys ((pde AND 0xFFC00000) OR (lin AND 0x3FF000)) s + (lin AND 0xFFF))
    \<and> ram_get32 pde_addr t = pde OR 0x20 OR push_bit 6 (of_bool (bit shift 1))"
proof -
  define new where "new = pde OR 0x20 OR push_bit 6 (of_bool (bit shift 1))"
  define fr where "fr = (pde AND 0xFFC00000) OR (lin AND 0x3FF000)"
  define s1 where "s1 = mark (new \<noteq> pde) pde_addr new s"
  define u where "u = cpu_set_tlb_entry (lin AND NOT 0xFFF) fr (bit shift 2) (bit shift 1) (pde AND 0x100 \<noteq> 0) False s1"
  have a: "pde_addr AND 3 = 0" using table_addr(1) [OF s, of "drop_bit 20 lin"] by (simp add: dvd4 pde_addr_def)
  have rd: "cpu_read_phys pde_addr s = Ok pde s" using phys_in_ram [OF s d a] by (simp add: pde_def)
  have l: "pde AND 0x80 \<noteq> 0 \<and> bit (m_cr s 4) 4" using large by (simp add: and_flag_lit)
  have "mmu_walk32 lin (bit shift 1) (bit shift 2) s = Ok () u"
    unfolding mmu_walk32_def Let_def pde_addr_def [symmetric]
    by (simp only: rd seq.simps p l not_True_eq_False if_False if_True simp_thms new_def [symmetric] fr_def [symmetric]
        write_if_mark [OF s d a] s1_def [symmetric] u_def [symmetric])
  then have r: "cpu_mmu_translate lin shift s = Ok () u" using pg by (simp add: cpu_mmu_translate_def)
  have ok: "mem_ok s1" using s by (simp add: s1_def)
  have "mem_ok u" unfolding u_def fr_def using ok by (intro set_entry_ok page_masks)
  moreover have "host_at lin u = Some (gate_phys fr s + (lin AND 0xFFF))"
  proof -
    have g: "gate_phys fr s1 = gate_phys fr s" by (simp add: s1_def mark_def gate_phys_def ram_put32_def ram_put16_def ram_put8_def)
    have "m_tlb u (drop_bit 12 lin) = Some (gate_phys fr s - (lin AND NOT 0xFFF))"
      using set_entry_tlb(1) [OF page_masks(1) [of lin], of fr "bit shift 2" "bit shift 1" "pde AND 0x100 \<noteq> 0" False s1]
      unfolding u_def g drop_page .
    moreover have "lin - (lin AND NOT 0xFFF) = lin AND 0xFFF"
      unfolding page_base using page_split [of lin] by (metis add_diff_cancel_left')
    ultimately show ?thesis by (simp add: host_at_def algebra_simps)
  qed
  moreover have "\<not> bit (tag_at lin shift u) 1" unfolding u_def by (rule tag_after_fill [OF sh])
  moreover have "ram_get32 pde_addr u = new"
  proof -
    have "ram_get32 pde_addr u = ram_get32 pde_addr s1" by (intro get_cong(2)) (simp add: u_def set_entry_core)
    also have "\<dots> = new" unfolding s1_def by (rule mark_get) (simp add: pde_def)
    finally show ?thesis .
  qed
  ultimately show ?thesis using r by (intro exI [of _ u]) (simp add: fr_def new_def)
qed

text \<open>The page directory of the example has a large read-only supervisor page.\<close>

definition map_large :: "'d cpu_mem \<Rightarrow> 'd cpu_mem" where
  "map_large s = (ram_put32 0 0x81 s)\<lparr>m_cr := (m_cr s)(0 := 0x80010001, 3 := 0, 4 := 0x10)\<rparr>"

theorem large_page_unprotected_witness:
  "\<exists>(io :: unit io_bus) s t. booted 0x200000 False io = Some s \<and> cpu_mmu_translate 0x5678 6 (map_large s) = Ok () t
     \<and> host_at 0x5678 t = Some 0x5678"
proof -
  obtain io :: "unit io_bus" and s where s: "booted 0x200000 False io = Some s" "flat s" "m_memory_size s = 0x200000"
    using booted_flat by blast
  then have ok: "mem_ok s" and a20: "m_a20_mask s = - 1" by (simp_all add: flat_def)
  let ?t = "ram_put32 0 0x81 s" let ?m = "map_large s"
  have e: "entry_ok (?t\<lparr>m_cr := f\<rparr>) x = entry_ok ?t x" for f x by (simp add: entry_ok_def)
  have "mem_ok ?t" using ok by simp
  then have m: "mem_ok ?m" by (simp add: map_large_def mem_ok_def sys_ok_def e)
  have c: "m_cr ?m 0 = 0x80010001" "m_cr ?m 3 = 0" "m_cr ?m 4 = 0x10" by (simp_all add: map_large_def)
  have g: "ram_get32 0 ?m = 0x81"
    using get_cong(2) [of ?m 0 ?t] by (simp add: map_large_def)
  have o: "in_ram 0 ?m" "gate_phys 0x5000 ?m = 0x5000"
    using s(3) a20 by (simp_all add: map_large_def in_ram_def gate_phys_def ram_put32_def ram_put16_def ram_put8_def)
  have b: "bit (0x80010001 :: u32) 31" "\<not> bit (0x10 :: u32) 5" "bit (0x10 :: u32) 4" "bit (0x81 :: u32) 0" "bit (0x81 :: u32) 7"
    by simp_all
  have "\<exists>t. cpu_mmu_translate 0x5678 6 ?m = Ok () t \<and> mem_ok t \<and> \<not> bit (tag_at 0x5678 6 t) 1
    \<and> host_at 0x5678 t = Some (gate_phys ((0x81 AND 0xFFC00000) OR (0x5678 AND 0x3FF000)) ?m + (0x5678 AND 0xFFF))
    \<and> ram_get32 0 t = 0x81 OR 0x20 OR push_bit 6 (of_bool (bit (6 :: nat) 1))"
    using large_page_unprotected [of ?m 6 "0x5678"] m c g o b by simp
  then show ?thesis using s(1) o by auto
qed

section \<open>Flushing the TLB\<close>

text \<open>Every entry that is filled is in the list of filled entries.\<close>

definition tlb_indexed :: "'d cpu_mem \<Rightarrow> bool" where
  "tlb_indexed s \<longleftrightarrow> (\<forall>e. m_tlb s e \<noteq> None \<longrightarrow> e \<noteq> - 1 \<and> (\<exists>i < m_tlb_entry_count s. m_tlb_entry_indexes s i = e))"

lemma drop_from_other:
  "m_tlb (tlb_drop i s) e = (if e = m_tlb_entry_indexes s i then None else m_tlb s e)"
  "m_tlb_attrs (tlb_drop i s) e = (if e = m_tlb_entry_indexes s i then 0xFF else m_tlb_attrs s e)"
  "m_tlb_entry_indexes (tlb_drop i s) j = (if j = i then - 1 else m_tlb_entry_indexes s j)"
  "m_tlb_entry_count (tlb_drop i s) = m_tlb_entry_count s"
  by (simp_all add: tlb_drop_def Let_def)

lemma flush_from_None:
  "m_tlb s e = None \<Longrightarrow> m_tlb (tlb_flush_from is s) e = None"
  "m_tlb s e = None \<Longrightarrow> m_tlb (tlb_flush_nonglobal_from is s) e = None"
  by (induction "is" arbitrary: s) (auto simp: drop_from_other)

lemma flush_from_indexed:
  "e \<noteq> - 1 \<Longrightarrow> i \<in> set is \<Longrightarrow> m_tlb_entry_indexes s i = e \<Longrightarrow> m_tlb (tlb_flush_from is s) e = None"
proof (induction "is" arbitrary: s)
  case (Cons j "is")
  show ?case
  proof (cases "m_tlb_entry_indexes s j = e")
    case True
    then show ?thesis using Cons.prems by (simp add: flush_from_None drop_from_other)
  next
    case False
    then have "i \<noteq> j" using Cons.prems by auto
    then show ?thesis using Cons by (auto simp: drop_from_other)
  qed
qed simp

lemma nonglobal_from_indexed:
  "e \<noteq> - 1 \<Longrightarrow> i \<in> set is \<Longrightarrow> m_tlb_entry_indexes s i = e \<Longrightarrow> m_tlb_attrs s e AND 2 \<noteq> 0 \<Longrightarrow>
    m_tlb (tlb_flush_nonglobal_from is s) e = None"
proof (induction "is" arbitrary: s)
  case (Cons j "is")
  show ?case
  proof (cases "m_tlb_entry_indexes s j = e")
    case True
    then show ?thesis using Cons.prems by (simp add: flush_from_None drop_from_other)
  next
    case False
    then have "i \<noteq> j" using Cons.prems by auto
    then show ?thesis using Cons False by (auto simp: drop_from_other)
  qed
qed simp

lemma nonglobal_from_keeps:
  "m_tlb_attrs s e AND 2 = 0 \<Longrightarrow> m_tlb (tlb_flush_nonglobal_from is s) e = m_tlb s e"
proof (induction "is" arbitrary: s)
  case (Cons j "is")
  have "e \<noteq> m_tlb_entry_indexes s j" if "m_tlb_attrs s (m_tlb_entry_indexes s j) AND 2 \<noteq> 0"
    using that Cons.prems by auto
  then show ?case using Cons.IH [of s] Cons.IH [of "tlb_drop j s"] Cons.prems by (simp add: drop_from_other)
qed simp

lemma nonglobal_from_count: "m_tlb_entry_count (tlb_flush_nonglobal_from is s) = m_tlb_entry_count s"
  by (induction "is" arbitrary: s) (simp_all add: drop_from_other)

lemma nonglobal_from_indexes:
  "m_tlb (tlb_flush_nonglobal_from is s) e \<noteq> None \<Longrightarrow> m_tlb_entry_indexes s i = e \<Longrightarrow> e \<noteq> - 1 \<Longrightarrow>
     m_tlb_entry_indexes (tlb_flush_nonglobal_from is s) i = e"
proof (induction "is" arbitrary: s)
  case (Cons j "is")
  define r where "r = (if m_tlb_entry_indexes s j = - 1 then s
    else if m_tlb_attrs s (m_tlb_entry_indexes s j) AND 2 = 0 then s else tlb_drop j s)"
  have r: "tlb_flush_nonglobal_from (j # is) s = tlb_flush_nonglobal_from is r" by (simp add: r_def)
  have n: "m_tlb r e \<noteq> None" using Cons.prems(1) flush_from_None(2) [of r e "is"] unfolding r by metis
  then have "m_tlb_entry_indexes r i = e"
    using Cons.prems(2,3) by (auto simp: r_def drop_from_other split: if_splits)
  then show ?case using Cons.prems Cons.IH [of r] unfolding r by blast
qed simp

lemma flush_clears: "tlb_indexed s \<Longrightarrow> m_tlb (cpu_mmu_tlb_flush s) = (\<lambda>_. None)"
proof
  fix e assume s: "tlb_indexed s"
  show "m_tlb (cpu_mmu_tlb_flush s) e = None"
  proof (cases "m_tlb s e")
    case None
    then show ?thesis by (simp add: cpu_mmu_tlb_flush_def flush_from_None)
  next
    case (Some off)
    then obtain i where "e \<noteq> - 1" "i < m_tlb_entry_count s" "m_tlb_entry_indexes s i = e"
      using s by (auto simp: tlb_indexed_def)
    then show ?thesis by (simp add: cpu_mmu_tlb_flush_def flush_from_indexed [of _ i])
  qed
qed

lemma flush_nonglobal_clears:
  assumes s: "tlb_indexed s"
  shows "m_tlb (cpu_mmu_tlb_flush_nonglobal s) e = (if m_tlb_attrs s e AND 2 \<noteq> 0 then None else m_tlb s e)"
proof (cases "m_tlb s e")
  case None
  then show ?thesis by (simp add: cpu_mmu_tlb_flush_nonglobal_def flush_from_None)
next
  case (Some off)
  then obtain i where "e \<noteq> - 1" "i < m_tlb_entry_count s" "m_tlb_entry_indexes s i = e"
    using s by (auto simp: tlb_indexed_def)
  then show ?thesis
    using nonglobal_from_indexed [of e i "[0..<m_tlb_entry_count s]" s] nonglobal_from_keeps [of s e]
    by (simp add: cpu_mmu_tlb_flush_nonglobal_def)
qed

lemma flush_indexed: "tlb_indexed s \<Longrightarrow> tlb_indexed (cpu_mmu_tlb_flush s)"
  by (simp add: tlb_indexed_def [of "cpu_mmu_tlb_flush s"] flush_clears)

lemma flush_nonglobal_indexed:
  assumes s: "tlb_indexed s"
  shows "tlb_indexed (cpu_mmu_tlb_flush_nonglobal s)"
  unfolding tlb_indexed_def
proof (intro allI impI)
  fix e assume e: "m_tlb (cpu_mmu_tlb_flush_nonglobal s) e \<noteq> None"
  then have "m_tlb s e \<noteq> None" using flush_nonglobal_clears [OF s] by (auto split: if_splits)
  then obtain i where i: "e \<noteq> - 1" "i < m_tlb_entry_count s" "m_tlb_entry_indexes s i = e"
    using s unfolding tlb_indexed_def by blast
  then show "e \<noteq> - 1 \<and> (\<exists>i < m_tlb_entry_count (cpu_mmu_tlb_flush_nonglobal s).
      m_tlb_entry_indexes (cpu_mmu_tlb_flush_nonglobal s) i = e)"
    using e nonglobal_from_count [of "[0..<m_tlb_entry_count s]" s]
      nonglobal_from_indexes [of "[0..<m_tlb_entry_count s]" s e i]
    unfolding cpu_mmu_tlb_flush_nonglobal_def by auto
qed

lemma invalidate_indexed: "tlb_indexed s \<Longrightarrow> tlb_indexed (cpu_mmu_tlb_invalidate lin s)"
  by (auto simp: tlb_indexed_def cpu_mmu_tlb_invalidate_def)

lemma page_not_minus: "drop_bit 12 lin \<noteq> - 1" for lin :: u32
proof
  assume "drop_bit 12 lin = - 1"
  then have "bit (drop_bit 12 lin) 31" by simp
  then show False by (simp add: bit_drop_bit_eq) (use bit_imp_le_length [of lin 43] in simp)
qed

lemma set_entry_indexed:
  assumes "tlb_indexed s"
  shows "tlb_indexed (cpu_set_tlb_entry lin phys u w g nx s)"
proof -
  define t where "t = (if 8192 \<le> m_tlb_entry_count s then cpu_mmu_tlb_flush s else s)"
  have t: "tlb_indexed t" using assms flush_indexed [OF assms] by (simp add: t_def)
  have "\<exists>off attrs tags. cpu_set_tlb_entry lin phys u w g nx s = t\<lparr>m_tlb_entry_indexes := (m_tlb_entry_indexes t)(m_tlb_entry_count t := drop_bit 12 lin),
      m_tlb_entry_count := m_tlb_entry_count t + 1, m_tlb_attrs := attrs,
      m_tlb := (m_tlb t)(drop_bit 12 lin := Some off), m_tlb_tags := tags\<rparr>"
    unfolding cpu_set_tlb_entry_def Let_def t_def by blast
  then obtain off attrs tags where e: "cpu_set_tlb_entry lin phys u w g nx s = t\<lparr>m_tlb_entry_indexes := (m_tlb_entry_indexes t)(m_tlb_entry_count t := drop_bit 12 lin),
      m_tlb_entry_count := m_tlb_entry_count t + 1, m_tlb_attrs := attrs,
      m_tlb := (m_tlb t)(drop_bit 12 lin := Some off), m_tlb_tags := tags\<rparr>" by blast
  have "\<exists>i < Suc (m_tlb_entry_count t). (if i = m_tlb_entry_count t then drop_bit 12 lin else m_tlb_entry_indexes t i) = x"
    if x: "m_tlb t x \<noteq> None \<or> x = drop_bit 12 lin" for x
  proof (cases "x = drop_bit 12 lin")
    case True
    then show ?thesis by (intro exI [of _ "m_tlb_entry_count t"]) simp
  next
    case False
    then obtain i where "i < m_tlb_entry_count t" "m_tlb_entry_indexes t i = x" using x t unfolding tlb_indexed_def by blast
    then show ?thesis by (intro exI [of _ i]) simp
  qed
  then show ?thesis using t page_not_minus [of lin] unfolding e tlb_indexed_def by auto
qed

text \<open>
  C15. Loading \<open>CR3\<close>. As long as the TLB was only changed by fills, flushes and
  invalidations (each keeps the list of filled entries complete), a load of \<open>CR3\<close> forgets
  every entry, or, with \<open>CR4.PGE\<close> set, every entry that is not global, and keeps the global
  ones; the low five bits of the value are dropped.
\<close>

theorem cr3_write_flushes:
  assumes "tlb_indexed s"
  shows "m_tlb (cpu_prot_set_cr 3 v s) e =
      (if bit (m_cr s 4) 7 \<and> m_tlb_attrs s e AND 2 = 0 then m_tlb s e else None)
    \<and> m_cr (cpu_prot_set_cr 3 v s) 3 = v AND NOT 31
    \<and> tlb_indexed (cpu_prot_set_cr 3 v s)
    \<and> tlb_indexed (cpu_set_tlb_entry lin phys u w g nx s) \<and> tlb_indexed (cpu_mmu_tlb_invalidate lin s)
    \<and> m_tlb (cpu_mmu_tlb_invalidate lin s) (drop_bit 12 lin) = None"
proof (intro conjI)
  let ?s = "s\<lparr>m_cr := ((m_cr s)(3 := v))(3 := v AND NOT 31)\<rparr>"
  have i: "tlb_indexed ?s" using assms by (simp add: tlb_indexed_def)
  have c: "cpu_prot_set_cr 3 v s = (if bit (m_cr s 4) 7 then cpu_mmu_tlb_flush_nonglobal ?s else cpu_mmu_tlb_flush ?s)"
    by (simp add: cpu_prot_set_cr_def)
  show "m_tlb (cpu_prot_set_cr 3 v s) e =
      (if bit (m_cr s 4) 7 \<and> m_tlb_attrs s e AND 2 = 0 then m_tlb s e else None)"
    unfolding c using flush_clears [OF i] flush_nonglobal_clears [OF i, of e] by simp
  have k: "m_cr (tlb_flush_nonglobal_from is r) = m_cr r" "m_cr (tlb_flush_from is r) = m_cr r" for "is" and r :: "'a cpu_mem"
    by (induction "is" arbitrary: r) (simp_all add: tlb_drop_def Let_def)
  show "m_cr (cpu_prot_set_cr 3 v s) 3 = v AND NOT 31"
    unfolding c by (simp add: cpu_mmu_tlb_flush_nonglobal_def cpu_mmu_tlb_flush_def k)
  show "tlb_indexed (cpu_prot_set_cr 3 v s)"
    unfolding c using flush_indexed [OF i] flush_nonglobal_indexed [OF i] by simp
  show "tlb_indexed (cpu_set_tlb_entry lin phys u w g nx s)" "tlb_indexed (cpu_mmu_tlb_invalidate lin s)"
    using assms by (rule set_entry_indexed, rule invalidate_indexed)
  show "m_tlb (cpu_mmu_tlb_invalidate lin s) (drop_bit 12 lin) = None"
    by (simp add: cpu_mmu_tlb_invalidate_def)
qed

theorem cr3_write_flushes_witness:
  "\<exists>(io :: unit io_bus) s. booted 0x200000 False io = Some s
    \<and> m_tlb (cpu_set_tlb_entry 0x5000 0x5000 True True False False s) 5 = Some 0
    \<and> m_tlb (cpu_prot_set_cr 3 0x1000 (cpu_set_tlb_entry 0x5000 0x5000 True True False False s)) 5 = None"
proof -
  obtain io :: "unit io_bus" where "bus_total io" using some_bus by blast
  then obtain s where s: "booted 0x200000 False io = Some s" "m_tlb s = (\<lambda>_. None)" "m_a20_mask s = - 1"
    using booted_state [of io "0x200000" False] by auto
  let ?t = "cpu_set_tlb_entry 0x5000 0x5000 True True False False s"
  have g: "gate_phys 0x5000 s = 0x5000" using s(3) by (simp add: gate_phys_def)
  have f: "m_tlb ?t 5 = Some 0" "m_tlb_attrs ?t 5 AND 2 \<noteq> 0"
    using set_entry_tlb(1) [of "0x5000" "0x5000" True True False False s] g
    by (simp_all add: cpu_set_tlb_entry_def Let_def)
  have "tlb_indexed s" using s(2) by (simp add: tlb_indexed_def)
  then have "tlb_indexed ?t" by (rule set_entry_indexed)
  then have "m_tlb (cpu_prot_set_cr 3 0x1000 ?t) 5 = None"
    using cr3_write_flushes [of ?t "0x1000" 5] f(2) by simp
  then show ?thesis using s(1) f(1) by blast
qed

section \<open>Self-modifying code\<close>

lemma drop_trace:
  assumes "q \<noteq> - 1" "cpu_trace_get_entry a s = Some info"
  shows "cpu_trace_get_entry q (s\<lparr>m_trace_info := (m_trace_info s)(hash_eip a := info\<lparr>t_phys := - 1\<rparr>)\<rparr>)
      = (if q = a then None else cpu_trace_get_entry q s)"
proof -
  have a: "t_phys (m_trace_info s (hash_eip a)) = a" "info = m_trace_info s (hash_eip a)"
    using assms(2) by (auto simp: cpu_trace_get_entry_def Let_def split: if_splits)
  show ?thesis using assms(1) a by (auto simp: cpu_trace_get_entry_def Let_def)
qed

lemma clear_chunk_traces:
  "q \<noteq> - 1 \<Longrightarrow> cpu_trace_get_entry q (snd (smc_clear_chunk js p b (r, s))) =
     (if \<exists>j \<in> set js. q = b + of_nat j then None else cpu_trace_get_entry q s)"
proof (induction js arbitrary: r s)
  case (Cons j js)
  then show ?case
    using drop_trace [OF Cons.prems, of "b + of_nat j"] by (auto split: option.split)
qed simp

lemma clear_chunks_traces:
  assumes "q \<noteq> - 1"
  shows "cpu_trace_get_entry q (snd (smc_clear_chunks is p b f (r, s))) =
     (if \<exists>i \<in> set is. f AND push_bit i 1 \<noteq> 0 \<and> (\<exists>j < 128. q = b + push_bit 7 (of_nat i) + of_nat j)
      then None else cpu_trace_get_entry q s)"
proof (induction "is" arbitrary: r s)
  case (Cons i "is")
  obtain r1 s1 where c: "smc_clear_chunk [0..<128] p (b + push_bit 7 (of_nat i)) (r, s) = (r1, s1)" by fastforce
  have "cpu_trace_get_entry q s1 =
     (if \<exists>j < 128. q = b + push_bit 7 (of_nat i) + of_nat j then None else cpu_trace_get_entry q s)"
    using clear_chunk_traces [OF assms, of "[0..<128]" p "b + push_bit 7 (of_nat i)" r s]
    by (simp only: c snd_conv) auto
  then show ?case using Cons.IH [of r1 s1] Cons.IH [of r s] by (auto simp: c simp del: smc_clear_chunk.simps)
qed simp

text \<open>The chunk of a byte in its page.\<close>

definition chunk :: "u32 \<Rightarrow> nat" where
  "chunk p = unat (drop_bit 7 p AND 31)"

lemma chunk_address:
  "q = (q AND NOT 0xFFF) + push_bit 7 (of_nat (chunk q)) + of_nat (unat (q AND 127))" "unat (q AND 127) < 128"
  "chunk q < 32"
proof -
  have a: "drop_bit 7 q AND 31 = take_bit 5 (drop_bit 7 q)" and b: "q AND 127 = take_bit 7 q"
    by (simp_all only: and_mask_take_bit)
  have "push_bit 7 (take_bit 5 (drop_bit 7 q)) + take_bit 7 q = take_bit 12 q"
    by (subst disjunctive_add) (auto simp: bit_simps intro!: bit_eqI)
  then show "q = (q AND NOT 0xFFF) + push_bit 7 (of_nat (chunk q)) + of_nat (unat (q AND 127))"
    unfolding page_base chunk_def a b using page_split [of q] by (simp add: and_mask_take_bit add.assoc)
  show "unat (q AND 127) < 128" "chunk q < 32"
    unfolding b a chunk_def unsigned_take_bit_eq by (simp_all add: take_bit_eq_mod)
qed

lemma chunk_unat: "chunk q = unat q div 128 mod 32"
proof -
  have "drop_bit 7 q AND 31 = take_bit 5 (drop_bit 7 q)" by (simp only: and_mask_take_bit)
  then have "chunk q = take_bit 5 (drop_bit 7 (unat q))"
    by (simp only: chunk_def unsigned_take_bit_eq unat_drop_bit_eq)
  then show ?thesis by (simp add: take_bit_eq_mod drop_bit_eq_div)
qed

lemma page_unat: "unat (q AND NOT 0xFFF) = 4096 * (unat q div 4096)" for q :: u32
proof -
  have "unat q = unat (q AND NOT 0xFFF) + unat q mod 4096"
    using page_offset [OF page_masks(1) [of q], of q] page_split [of q] by (simp only: page_base)
  then show ?thesis using mult_div_mod_eq [of 4096 "unat q"] by linarith
qed

lemma chunk_of_sum:
  fixes p :: u32
  assumes "i < 32" "j < 128"
  shows "((p AND NOT 0xFFF) + push_bit 7 (of_nat i) + of_nat j) AND NOT 0xFFF = p AND NOT 0xFFF"
    "chunk ((p AND NOT 0xFFF) + push_bit 7 (of_nat i) + of_nat j) = i"
proof -
  let ?b = "p AND NOT 0xFFF" let ?q = "?b + push_bit 7 (of_nat i) + of_nat j"
  have "push_bit 7 (of_nat i) + of_nat j = (of_nat (128 * i + j) :: u32)" by (simp add: push_bit_eq_mult)
  then have "?q = ?b + of_nat (128 * i + j)" by (simp add: add.assoc)
  moreover have "unat p < 2 ^ 32" using unsigned_less [of p, where ?'a = nat] by simp
  then have "unat p div 4096 < 1048576" by (simp add: div_less_iff_less_mult)
  then have "unat ?b + (128 * i + j) < 4294967296" unfolding page_unat using assms by linarith
  then have "unat ?b + (128 * i + j) < 2 ^ 32" by simp
  ultimately have u: "unat ?q = unat ?b + (128 * i + j)"
    by (simp add: unat_word_ariths unat_of_nat)
  define k where "k = unat p div 4096"
  have r: "128 * i + j < 4096" and e: "4096 * k + (128 * i + j) = 128 * (32 * k + i) + j" using assms by simp_all
  have "(4096 * k + (128 * i + j)) div 4096 = k" using r by simp
  moreover have m: "(128 * m + j) div 128 = m" for m using assms by simp
  have "(128 * (32 * k + i) + j) div 128 mod 32 = i" unfolding m using assms by simp
  ultimately have d: "unat ?q div 4096 = unat p div 4096" "unat ?q div 128 mod 32 = i"
    unfolding u page_unat k_def [symmetric] by (simp_all only: e)
  show "chunk ?q = i" using d(2) by (simp only: chunk_unat)
  have "unat (?q AND NOT 0xFFF) = unat (p AND NOT 0xFFF)" by (simp only: page_unat d(1))
  then show "?q AND NOT 0xFFF = p AND NOT 0xFFF" by (simp only: word_unat_eq_iff)
qed

lemma in_cleared:
  fixes q p f :: u32
  assumes "n \<le> 32"
  shows "(\<exists>i \<in> set [0..<n]. f AND push_bit i 1 \<noteq> 0 \<and> (\<exists>j < 128. q = (p AND NOT 0xFFF) + push_bit 7 (of_nat i) + of_nat j))
    \<longleftrightarrow> q AND NOT 0xFFF = p AND NOT 0xFFF \<and> chunk q < n \<and> bit f (chunk q)"
proof
  assume "\<exists>i \<in> set [0..<n]. f AND push_bit i 1 \<noteq> 0 \<and> (\<exists>j < 128. q = (p AND NOT 0xFFF) + push_bit 7 (of_nat i) + of_nat j)"
  then obtain i j where "i < n" "f AND push_bit i 1 \<noteq> 0" "j < 128" "q = (p AND NOT 0xFFF) + push_bit 7 (of_nat i) + of_nat j" by auto
  then show "q AND NOT 0xFFF = p AND NOT 0xFFF \<and> chunk q < n \<and> bit f (chunk q)"
    using chunk_of_sum [of i j p] assms and_exp_eq_0_iff_not_bit [of f i] by simp
next
  assume a: "q AND NOT 0xFFF = p AND NOT 0xFFF \<and> chunk q < n \<and> bit f (chunk q)"
  then have "f AND push_bit (chunk q) 1 \<noteq> 0" using and_exp_eq_0_iff_not_bit [of f "chunk q"] by simp
  moreover have "q = (p AND NOT 0xFFF) + push_bit 7 (of_nat (chunk q)) + of_nat (unat (q AND 127))"
    using chunk_address(1) [of q] a by argo
  ultimately show "\<exists>i \<in> set [0..<n]. f AND push_bit i 1 \<noteq> 0 \<and> (\<exists>j < 128. q = (p AND NOT 0xFFF) + push_bit 7 (of_nat i) + of_nat j)"
    using a chunk_address(2) [of q] by (intro bexI [of _ "chunk q"] conjI exI [of _ "unat (q AND 127)"]) simp_all
qed


lemma trace_fast_return [simp]: "cpu_trace_get_entry q (cpu_request_fast_return r s) = cpu_trace_get_entry q s"
  "cpu_trace_get_entry q (cpu_mmu_tlb_invalidate lin s) = cpu_trace_get_entry q s"
  "cpu_trace_get_entry q (s\<lparr>m_smc_has_code := f\<rparr>) = cpu_trace_get_entry q s"
  by (simp_all add: cpu_trace_get_entry_def cpu_request_fast_return_def cpu_mmu_tlb_invalidate_def)










text \<open>
  C29. The invalidation of a whole page, for DMA: the translations in the first 31 chunks
  marked as code are forgotten, but a translation in the last 128 bytes of the page stays, so that
  the old code runs on after a DMA has overwritten it.
\<close>

theorem dma_misses_last_chunk:
  assumes "drop_bit 12 p < m_smc_has_code_length s" "q \<noteq> - 1" "q AND NOT 0xFFF = p AND NOT 0xFFF"
    "bit (m_smc_has_code s (drop_bit 12 p)) (chunk q)"
  shows "\<exists>t. cpu_init_dma p s = Some t \<and>
    cpu_trace_get_entry q t = (if chunk q < 31 then None else cpu_trace_get_entry q s)"
proof -
  obtain r t where c: "smc_clear_chunks [0..<31] p (p AND NOT 0xFFF) (m_smc_has_code s (drop_bit 12 p)) (True, s) = (r, t)" by fastforce
  have "cpu_trace_get_entry q t = (if chunk q < 31 then None else cpu_trace_get_entry q s)"
    using clear_chunks_traces [OF assms(2), of "[0..<31]" p "p AND NOT 0xFFF" "m_smc_has_code s (drop_bit 12 p)" True s] assms(3,4)
    by (subst (asm) in_cleared) (simp, simp only: c snd_conv simp_thms)
  then show ?thesis
    using assms(1) c by (auto simp: cpu_init_dma_def cpu_smc_invalidate_page_def Let_def)
qed

text \<open>A machine with a translation at 0x1F80, in the last chunk of the page 1, and one at 0x1000.\<close>

definition translated :: "unit cpu_mem" where
  "translated = (power_on (zero_bus ()))\<lparr>m_smc_has_code_length := 16, m_smc_has_code := (\<lambda>_. 0x80000001),
     m_trace_info := (\<lambda>_. \<lparr>t_phys = 0, t_state_hash = 0, t_flags = 0\<rparr>)
       (0x1F80 := \<lparr>t_phys = 0x1F80, t_state_hash = 3, t_flags = 5\<rparr>,
        0x1000 := \<lparr>t_phys = 0x1000, t_state_hash = 3, t_flags = 5\<rparr>)\<rparr>"

lemma translated:
  "m_smc_has_code_length translated = 16" "m_smc_has_code translated p = 0x80000001"
  "cpu_trace_get_entry 0x1F80 translated = Some \<lparr>t_phys = 0x1F80, t_state_hash = 3, t_flags = 5\<rparr>"
  "cpu_trace_get_entry 0x1000 translated = Some \<lparr>t_phys = 0x1000, t_state_hash = 3, t_flags = 5\<rparr>"
  "chunk 0x1F80 = 31" "chunk 0x1000 = 0" "chunk 0x1010 = 0"
  by (simp_all add: translated_def cpu_trace_get_entry_def hash_eip_def Let_def chunk_def)



theorem dma_misses_last_chunk_witness:
  "\<exists>t. cpu_init_dma 0x1000 translated = Some t
     \<and> cpu_trace_get_entry 0x1F80 t = Some \<lparr>t_phys = 0x1F80, t_state_hash = 3, t_flags = 5\<rparr>"
  using dma_misses_last_chunk [of "0x1000" translated "0x1F80"] by (simp add: translated)

end
