(* ===== verification/Frame_Laws.thy ===== *)
theory Frame_Laws
  imports Paging_Laws
begin

text \<open>
  What an access of memory leaves alone, whether it returns or faults: the registers, the
  flags, the segments, the instruction pointer and the control registers other than
  \<open>CR2\<close>. From this follows that the faults of the memory instructions are precise.
\<close>

section \<open>The architectural state\<close>

definition same_arch :: "'d cpu_mem \<Rightarrow> 'd cpu_mem \<Rightarrow> bool" where
  "same_arch s t \<longleftrightarrow> m_reg32 t = m_reg32 s \<and> m_eflags t = m_eflags s \<and> m_laux t = m_laux s
     \<and> m_lop1 t = m_lop1 s \<and> m_lop2 t = m_lop2 s \<and> m_lr t = m_lr s
     \<and> m_seg t = m_seg s \<and> m_seg_base t = m_seg_base s \<and> m_seg_limit t = m_seg_limit s
     \<and> m_seg_access t = m_seg_access s \<and> m_cpl t = m_cpl s \<and> m_esp_mask t = m_esp_mask s
     \<and> m_state_hash t = m_state_hash s \<and> m_phys_eip t = m_phys_eip s \<and> m_last_phys_eip t = m_last_phys_eip s
     \<and> m_eip_phys_bias t = m_eip_phys_bias s \<and> m_tlb_shift_read t = m_tlb_shift_read s
     \<and> m_tlb_shift_write t = m_tlb_shift_write s \<and> m_dr t = m_dr s \<and> (\<forall>i. i \<noteq> 2 \<longrightarrow> m_cr t i = m_cr s i)"

lemma same_arch_refl [simp]: "same_arch s s"
  by (simp add: same_arch_def)

lemma same_arch_trans: "same_arch s t \<Longrightarrow> same_arch t u \<Longrightarrow> same_arch s u"
  by (simp add: same_arch_def)

fun keeps :: "'d cpu_mem \<Rightarrow> ('a, 'd cpu_mem) outcome \<Rightarrow> bool" where
  "keeps s (Ok x t) \<longleftrightarrow> same_arch s t"
| "keeps s (Fault v c t) \<longleftrightarrow> same_arch s t"
| "keeps s Abort \<longleftrightarrow> True"

fun precise :: "'d cpu_mem \<Rightarrow> ('a, 'd cpu_mem) outcome \<Rightarrow> bool" where
  "precise s (Fault v c t) \<longleftrightarrow> same_arch s t"
| "precise s (Ok x t) \<longleftrightarrow> True"
| "precise s Abort \<longleftrightarrow> True"

lemma keeps_trans: "same_arch s t \<Longrightarrow> keeps t m \<Longrightarrow> keeps s m"
  by (cases m) (auto intro: same_arch_trans)

lemma precise_trans: "same_arch s t \<Longrightarrow> precise t m \<Longrightarrow> precise s m"
  by (cases m) (auto intro: same_arch_trans)

lemma keeps_seq: "keeps s m \<Longrightarrow> (\<And>x t. keeps t (f x t)) \<Longrightarrow> keeps s (seq m f)"
  by (cases m) (auto intro: keeps_trans)

lemma precise_seq: "keeps s m \<Longrightarrow> (\<And>x t. precise t (f x t)) \<Longrightarrow> precise s (seq m f)"
  by (cases m) (auto intro: precise_trans)

lemma keeps_if: "keeps s a \<Longrightarrow> keeps s b \<Longrightarrow> keeps s (if c then a else b)"
  by simp

lemma precise_if: "precise s a \<Longrightarrow> precise s b \<Longrightarrow> precise s (if c then a else b)"
  by simp

lemma keeps_precise: "keeps s m \<Longrightarrow> precise s m"
  by (cases m) auto

lemma keeps_Ok: "same_arch s t \<Longrightarrow> keeps s (Ok x t)"
  by simp

lemma keeps_raise: "keeps s (raise_code v c s)"
  by (simp add: raise_code_def)

section \<open>Updates below the architecture\<close>

lemma arch_simps [simp]:
  "same_arch s (ram_put8 p a s)" "same_arch s (ram_put16 p b s)" "same_arch s (ram_put32 p c s)"
  "same_arch s (set_result c s)" "same_arch s (s\<lparr>m_bus := io\<rparr>)" "same_arch s (tlb_drop i s)"
  "same_arch s (cpu_request_fast_return c s)" "same_arch s (cpu_mmu_tlb_invalidate p s)"
  by (simp_all add: same_arch_def ram_put8_def ram_put16_def ram_put32_def set_result_def tlb_drop_def
      cpu_request_fast_return_def cpu_mmu_tlb_invalidate_def Let_def)

lemma arch_flush_from: "same_arch s (tlb_flush_from is s)"
proof (induction "is" arbitrary: s)
  case (Cons i "is")
  then show ?case using same_arch_trans [OF arch_simps(6) Cons, of s i] by simp
qed simp

lemma arch_flush [simp]: "same_arch s (cpu_mmu_tlb_flush s)"
  using arch_flush_from [of s "[0..<m_tlb_entry_count s]"] by (simp add: cpu_mmu_tlb_flush_def same_arch_def)

lemma arch_set_entry [simp]: "same_arch s (cpu_set_tlb_entry lin phys u w g nx s)"
  using arch_flush [of s] by (simp add: cpu_set_tlb_entry_def Let_def same_arch_def)

lemma arch_clear_chunk: "same_arch s (snd (smc_clear_chunk js p b (q, s)))"
proof (induction js arbitrary: q s)
  case (Cons j js)
  have "same_arch s (s\<lparr>m_trace_info := f\<rparr>)" for f by (simp add: same_arch_def)
  then show ?case using Cons by (auto split: option.split intro: same_arch_trans)
qed simp

lemma arch_clear_chunks: "same_arch s (snd (smc_clear_chunks is p b f (q, s)))"
proof (induction "is" arbitrary: q s)
  case (Cons i "is")
  obtain q1 s1 where c: "smc_clear_chunk [0..<128] p (b + push_bit 7 (of_nat i)) (q, s) = (q1, s1)" by fastforce
  then have "same_arch s s1" using arch_clear_chunk by (metis snd_conv)
  then show ?case using Cons [of s1 q1] Cons [of s q] c same_arch_trans by auto
qed simp

lemma arch_smc [simp]: "same_arch s (cpu_smc_invalidate lin p s)"
proof -
  obtain q s1 where c: "smc_clear_chunks [0..<unat (drop_bit 7 p AND 31) + 1] p (p AND NOT 0xFFF)
      (m_smc_has_code s (drop_bit 12 p)) (False, s) = (q, s1)" by fastforce
  then have "same_arch s s1" using arch_clear_chunks by (metis snd_conv)
  then show ?thesis using c
    by (simp add: cpu_smc_invalidate_def cpu_mmu_tlb_invalidate_def Let_def same_arch_def cpu_request_fast_return_def)
qed

section \<open>Accesses\<close>

lemma keeps_mmio: "keeps s (mmio_read p sz s)" "keeps s (mmio_write p v sz s)"
  by (simp_all add: mmio_read_def mmio_write_def split: option.split)

lemma keeps_page_fault: "keeps s (page_fault lin c s)"
  by (simp add: page_fault_def raise_code_def same_arch_def)

lemma keeps_phys: "keeps s (cpu_read_phys p s)" "keeps s (cpu_write_phys p v s)"
  by (simp_all add: cpu_read_phys_def cpu_write_phys_def keeps_mmio)

lemma keeps_write_if: "keeps s (write_if c p v s)"
  by (simp add: write_if_def keeps_phys)

lemmas keeps_intros = keeps_seq keeps_if keeps_raise keeps_page_fault keeps_phys keeps_write_if keeps_Ok arch_set_entry

lemma keeps_walk: "keeps s (mmu_walk32 lin w u s)" "keeps s (mmu_walk_pae lin ex w u s)"
  unfolding mmu_walk32_def mmu_walk_pae_def Let_def by (intro keeps_intros)+

lemma keeps_translate: "keeps s (cpu_mmu_translate lin shift s)"
  unfolding cpu_mmu_translate_def by (intro keeps_intros keeps_walk)

lemma keeps_walk_if: "keeps s (walk_if tag a shift s)"
  by (simp add: walk_if_def keeps_translate)

lemma keeps_slow_read: "keeps s (slow_read n sz get a s)"
proof -
  have "keeps s (seq (mmio_read p sz s) (\<lambda>v s. Ok () (set_result v s)))" for p
    by (rule keeps_seq) (simp_all add: keeps_mmio)
  then show ?thesis by (simp add: slow_read_def split: option.split)
qed

lemma keeps_slow_write:
  assumes "\<And>p t. same_arch t (put p t)"
  shows "keeps s (slow_write n sz put a v s)"
proof -
  have "same_arch s (put p (cpu_smc_invalidate a p s))" for p
    by (rule same_arch_trans [OF arch_smc assms])
  then show ?thesis using assms by (simp add: slow_write_def keeps_mmio split: option.split)
qed

lemma keeps_access8: "keeps s (cpu_access_read8 a tag shift s)" "keeps s (cpu_access_write8 a v tag shift s)"
  unfolding cpu_access_read8_def cpu_access_write8_def
  by (intro keeps_seq keeps_walk_if keeps_slow_read keeps_slow_write arch_simps)+

lemma keeps_bytes: "keeps s (read_bytes is a shift res s)" "keeps s (write_bytes is a v shift s)"
  by (induction "is" arbitrary: res s) (auto simp: Let_def intro!: keeps_seq keeps_access8)

lemma keeps_access:
  "keeps s (cpu_access_read16 a tag shift s)" "keeps s (cpu_access_read32 a tag shift s)"
  "keeps s (cpu_access_write16 a v tag shift s)" "keeps s (cpu_access_write32 a v tag shift s)"
  unfolding cpu_access_read16_def cpu_access_read32_def cpu_access_write16_def cpu_access_write32_def
  by (intro keeps_if keeps_bytes keeps_seq keeps_walk_if keeps_slow_read keeps_slow_write arch_simps)+

lemma keeps_mem:
  "keeps s (mem_read8 shift a s)" "keeps s (mem_read16_raw shift a s)" "keeps s (mem_read32 shift a s)"
  "keeps s (mem_write8 shift a v s)" "keeps s (mem_write16 shift a v s)" "keeps s (mem_write32 shift a v s)"
  unfolding mem_read8_def mem_read16_raw_def mem_read32_def mem_write8_def mem_write16_def mem_write32_def Let_def
  by (auto intro!: keeps_seq keeps_access keeps_access8 split: option.split)

lemma keeps_mem16: "keeps s (mem_read16 shift a s)"
  unfolding mem_read16_def by (intro keeps_seq keeps_mem keeps_Ok same_arch_refl)

section \<open>Instructions\<close>

lemma precise_Ok: "precise s (Ok x t)"
  by simp

lemmas precise_intros = precise_seq precise_Ok keeps_mem keeps_mem16

lemma precise_push_pop:
  "precise s (cpu_push16 x s)" "precise s (cpu_push32 x s)" "precise s (cpu_pop16 s)" "precise s (cpu_pop16_dest32 s)"
  "precise s (cpu_pop32 s)"
  unfolding cpu_push16_def cpu_push32_def cpu_pop16_def cpu_pop16_dest32_def cpu_pop32_def Let_def
  by (intro precise_intros)+

lemma keeps_all:
  "keeps s (push_all16 is esp s)" "keeps s (push_all32 is esp s)" "keeps s (pop_all16 is esp f s)" "keeps s (pop_all32 is esp g s)"
  by (induction "is" arbitrary: esp f g s) (auto simp: Let_def intro!: keeps_seq keeps_mem keeps_mem16)

lemma precise_all:
  "precise s (cpu_pusha s)" "precise s (cpu_pushad s)" "precise s (cpu_popa s)" "precise s (cpu_popad s)"
  unfolding cpu_pusha_def cpu_pushad_def cpu_popa_def cpu_popad_def Let_def
  by (rule precise_seq, rule keeps_all, simp split: prod.split)+

lemma keeps_descriptor: "keeps s (cpu_seg_load_descriptor2 tbl sel e code s)" "keeps s (cpu_seg_load_descriptor sel e code s)"
  unfolding cpu_seg_load_descriptor_def cpu_seg_load_descriptor2_def Let_def
  by (auto split: option.split intro!: keeps_seq keeps_mem keeps_raise)

lemma precise_ltr: "precise s (ltr sel s)"
  unfolding ltr_def Let_def
  by (auto split: option.split intro!: precise_if precise_seq keeps_descriptor keeps_mem keeps_precise [OF keeps_raise])

lemma precise_lldt: "precise s (lldt sel s)"
  unfolding lldt_def Let_def
  by (auto split: option.split intro!: precise_if precise_seq keeps_descriptor keeps_precise [OF keeps_raise])

lemma keeps_io_check: "keeps s (cpu_io_check_access port n s)"
  unfolding cpu_io_check_access_def Let_def
  by (auto split: option.split intro!: keeps_seq keeps_descriptor keeps_mem keeps_mem16 keeps_raise)

lemma keeps_verify: "keeps s (cpu_access_verify a b shift s)"
  unfolding cpu_access_verify_def Let_def by (intro keeps_if keeps_seq keeps_translate keeps_Ok same_arch_refl)

lemma precise_discard: "precise s m \<Longrightarrow> precise s (discard m)"
  by (cases m) (simp_all add: discard_def)

lemma precise_guest: "precise s (guest_step g s)"
proof (cases g)
  case (Translated len lin)
  then show ?thesis by (auto intro!: precise_seq keeps_mem)
qed (simp_all add: precise_discard keeps_precise keeps_mem keeps_mem16 precise_push_pop precise_all precise_ltr
    precise_lldt keeps_io_check keeps_verify)

lemma precise_pushf: "precise s (pushf s)" "precise s (pushfd s)"
  by (auto simp: pushf_def pushfd_def precise_push_pop keeps_precise [OF keeps_raise] Let_def split: option.split)

lemma precise_pop_then: "(\<And>x t. m = Ok x t \<Longrightarrow> \<exists>y u. f x t = Ok y u) \<Longrightarrow> precise s m \<Longrightarrow> precise s (seq m f)"
  by (cases m) fastforce+

lemma precise_popf: "\<not> v86 s \<Longrightarrow> precise s (popf s)" "precise s (popfd s)"
  unfolding popf_def popfd_def popf_user_def flags_return_def Let_def
  by (auto intro!: precise_pop_then precise_push_pop keeps_precise [OF keeps_raise])

text \<open>
  C18. Precise faults. When a memory access, a stack instruction (PUSHA and POPA in the middle of
  their eight transfers included), LTR, LLDT, a permission check, PUSHF, PUSHFD, POPFD, or POPF outside
  virtual-8086 mode raises an exception, every general register, the flags, the segment registers with
  their cached descriptors, the instruction pointer, the privilege level, the debug registers and the
  control registers other than \<open>CR2\<close> are as before the instruction: it can be restarted.
\<close>

theorem faults_are_precise:
  "(guest_step g s = Fault v c t \<longrightarrow> same_arch s t) \<and> (pushf s = Fault v c t \<longrightarrow> same_arch s t)
   \<and> (pushfd s = Fault v c t \<longrightarrow> same_arch s t) \<and> (popfd s = Fault v c t \<longrightarrow> same_arch s t)
   \<and> (popf s = Fault v c t \<and> \<not> v86 s \<longrightarrow> same_arch s t)"
  using precise_guest [of s g] precise_pushf [of s] precise_popf [of s] by auto

theorem faults_are_precise_witness:
  "\<exists>(io :: unit io_bus) s t. booted 0x200000 False io = Some s
     \<and> guest_step (Write32 0x6000 1) (map_page s) = Fault 14 0x10002 t \<and> same_arch (map_page s) t"
proof -
  obtain io :: "unit io_bus" where b: "bus_total io" using some_bus by blast
  then obtain s where s: "booted 0x200000 False io = Some s" "mem_ok s" "m_tlb s = (\<lambda>_. None)" "m_memory_size s = 0x200000"
    "m_mem s = (\<lambda>p. if 0xC0000 \<le> p \<and> p < 0x100000 then 0xFF else 0)" "m_tlb_tags s = (\<lambda>_. 0xFF)" "m_tlb_shift_write s = 2"
    using booted_state [of io "0x200000" False] by auto
  let ?m = "map_page s"
  note m = map_page [OF s(2)]
  have r: "in_ram 0 s" "in_ram 0x1018 s" using s(4) by (simp_all add: in_ram_def)
  have "ram_get32 0x1018 ?m = 0"
    by (simp add: get32_bytes map_page_def put32_mem s(5))
  moreover have "bit (0x80000001 :: u32) 31" "bit (2 :: nat) 1" "\<not> bit (2 :: nat) 2" by (simp_all add: bit_iff_odd)
  ultimately have w: "cpu_mmu_translate 0x6000 2 ?m = Fault 14 0x10002 (?m\<lparr>m_cr := (m_cr ?m)(2 := 0x6000)\<rparr>)"
    using page_walk_correct [of ?m 2 "0x6000"] m r by simp
  have tags: "m_tlb_tags ?m 6 = 0xFF" "m_tlb_shift_write ?m = 2"
    using s(6,7) by (simp_all add: map_page_def ram_put32_def ram_put16_def ram_put8_def)
  then have "guest_step (Write32 0x6000 1) ?m = Fault 14 0x10002 (?m\<lparr>m_cr := (m_cr ?m)(2 := 0x6000)\<rparr>)"
    using w by (simp add: mem_write32_def tag_at_def cpu_access_write32_def walk_if_def Let_def)
  then show ?thesis using s(1) faults_are_precise [of "Write32 0x6000 1" ?m 14 "0x10002"] by blast
qed

end
