(* ===== verification/Tlb_Inv.thy ===== *)
theory Tlb_Inv
  imports Tlb_Smc_Laws Frame_Laws
begin

text \<open>
  What the TLB can hold. Whatever the guest does, switching paging and the address line on and off included,
  every filled entry is in the list the flushes go through, and while paging is off and the line is open
  every entry is the identity: a flush is missing nowhere. From this follows the refinement of memory by the flat
  array, for every machine a guest can bring about.
\<close>

section \<open>The invariant\<close>

definition identity_tlb :: "'d cpu_mem \<Rightarrow> bool" where
  "identity_tlb s \<longleftrightarrow> (\<forall>e. e < 0xFFF00 \<longrightarrow> m_tlb s e \<in> {None, Some 0})"

definition tlb_good :: "'d cpu_mem \<Rightarrow> bool" where
  "tlb_good s \<longleftrightarrow> tlb_indexed s \<and> m_memory_size s \<le> 0xFFF00000
     \<and> (\<not> bit (m_cr s 0) 31 \<and> m_a20_mask s = - 1 \<longrightarrow> identity_tlb s)"

definition same_tlb :: "'d cpu_mem \<Rightarrow> 'd cpu_mem \<Rightarrow> bool" where
  "same_tlb s t \<longleftrightarrow> m_tlb t = m_tlb s \<and> m_tlb_entry_indexes t = m_tlb_entry_indexes s \<and> m_tlb_entry_count t = m_tlb_entry_count s
     \<and> m_memory_size t = m_memory_size s \<and> m_cr t 0 = m_cr s 0 \<and> m_a20_mask t = m_a20_mask s"

lemma same_tlb_refl [simp]: "same_tlb s s"
  by (simp add: same_tlb_def)

lemma same_tlb_trans: "same_tlb s t \<Longrightarrow> same_tlb t u \<Longrightarrow> same_tlb s u"
  by (simp add: same_tlb_def)

lemma good_frame: "same_tlb s t \<Longrightarrow> tlb_good s \<Longrightarrow> tlb_good t"
  by (simp add: same_tlb_def tlb_good_def tlb_indexed_def identity_tlb_def)

text \<open>An entry may go away.\<close>

lemma good_shrinks:
  assumes "tlb_good s" "tlb_indexed t" "same_core s t" "\<And>e. m_tlb t e \<in> {None, m_tlb s e}"
  shows "tlb_good t"
proof -
  have "identity_tlb t" if i: "identity_tlb s"
    unfolding identity_tlb_def
  proof (intro allI impI)
    fix e :: u32 assume "e < 0xFFF00"
    then have "m_tlb s e \<in> {None, Some 0}" using i by (simp add: identity_tlb_def)
    then show "m_tlb t e \<in> {None, Some 0}" using assms(4) [of e] by auto
  qed
  moreover have "m_memory_size t = m_memory_size s" "m_cr t = m_cr s" "m_a20_mask t = m_a20_mask s"
    using assms(3) by (simp_all add: same_core_def)
  ultimately show ?thesis using assms(1,2) unfolding tlb_good_def by simp
qed

lemma good_flushed: "tlb_indexed t \<Longrightarrow> m_memory_size t \<le> 0xFFF00000 \<Longrightarrow> tlb_good (cpu_mmu_tlb_flush t)"
  using flush_core(1) [of t] by (simp add: tlb_good_def flush_indexed flush_clears identity_tlb_def same_core_def)

lemma good_flush: "tlb_good s \<Longrightarrow> tlb_good (cpu_mmu_tlb_flush s)"
  by (rule good_flushed) (simp_all add: tlb_good_def)

lemma good_invalidate: "tlb_good s \<Longrightarrow> tlb_good (cpu_mmu_tlb_invalidate lin s)"
proof -
  assume s: "tlb_good s"
  then have "tlb_indexed (cpu_mmu_tlb_invalidate lin s)" by (simp add: tlb_good_def invalidate_indexed)
  then show ?thesis by (rule good_shrinks [OF s]) (simp_all add: same_core_def cpu_mmu_tlb_invalidate_def)
qed

lemma good_fill_paging:
  assumes "tlb_good s" "bit (m_cr s 0) 31"
  shows "tlb_good (cpu_set_tlb_entry lin phys u w g nx s) \<and> bit (m_cr (cpu_set_tlb_entry lin phys u w g nx s) 0) 31"
  using assms set_entry_indexed [of s lin phys u w g nx] set_entry_core(1) [of s lin phys u w g nx]
  by (simp add: tlb_good_def same_core_def)

lemma page_below: "drop_bit 12 a < 0xFFF00 \<Longrightarrow> a < 0xFFF00000" for a :: u32
proof -
  assume "drop_bit 12 a < 0xFFF00"
  then have "unat a div 4096 < 0xFFF00" by (simp add: word_less_nat_alt unat_drop_bit_eq drop_bit_eq_div unat_div)
  then have "unat a < 0xFFF00000" by (simp add: div_less_iff_less_mult)
  then show ?thesis by (simp add: word_less_nat_alt)
qed

lemma good_fill_identity:
  assumes s: "tlb_good s" and off: "\<not> bit (m_cr s 0) 31"
  shows "tlb_good (cpu_set_tlb_entry (a AND NOT 0xFFF) (a AND NOT 0xFFF) u w g nx s)"
proof -
  let ?p = "a AND NOT 0xFFF" let ?t = "cpu_set_tlb_entry ?p ?p u w g nx s"
  have c: "same_core s ?t" by (rule set_entry_core)
  have "identity_tlb ?t" if i: "identity_tlb s" "m_a20_mask s = - 1"
    unfolding identity_tlb_def
  proof (intro allI impI)
    fix e :: u32 assume e: "e < 0xFFF00"
    show "m_tlb ?t e \<in> {None, Some 0}"
    proof (cases "e = drop_bit 12 a")
      case True
      have "a < 0xFFF00000" using e unfolding True by (rule page_below)
      then have "\<not> 0xFFF00000 \<le> ?p" using and_le [of a "NOT 0xFFF"] by auto
      then have "gate_phys ?p s = ?p" using i(2) by (simp add: gate_phys_def Let_def)
      then show ?thesis
        using set_entry_tlb(1) [OF page_masks(1) [of a], of ?p u w g nx s] unfolding drop_page True by simp
    next
      case False
      then show ?thesis using set_entry_core(3) [of e ?p ?p u w g nx s] i(1) e
        unfolding drop_page identity_tlb_def by fastforce
    qed
  qed
  then show ?thesis using s off c set_entry_indexed [of s ?p ?p u w g nx] by (auto simp: tlb_good_def same_core_def)
qed

section \<open>Updates that leave the TLB alone\<close>

lemma good_simps [simp]:
  "tlb_good s \<Longrightarrow> tlb_good (ram_put8 p a s)" "tlb_good s \<Longrightarrow> tlb_good (ram_put16 p b s)" "tlb_good s \<Longrightarrow> tlb_good (ram_put32 p c s)"
  "tlb_good s \<Longrightarrow> tlb_good (set_result c s)" "tlb_good s \<Longrightarrow> tlb_good (s\<lparr>m_bus := io\<rparr>)"
  "tlb_good s \<Longrightarrow> tlb_good (cpu_request_fast_return c s)" "tlb_good s \<Longrightarrow> tlb_good (set_reg32 r x s)"
  "tlb_good s \<Longrightarrow> tlb_good (set_reg16 r w s)" "tlb_good s \<Longrightarrow> tlb_good (set_system_segment r x d s)"
  by (erule good_frame [rotated], simp add: same_tlb_def ram_put8_def ram_put16_def ram_put32_def set_result_def
      cpu_request_fast_return_def set_reg32_def set_reg16_def set_system_segment_def)+

lemma same_clear_chunk: "same_tlb s (snd (smc_clear_chunk js p b (q, s)))"
proof (induction js arbitrary: q s)
  case (Cons j js)
  have "same_tlb s (s\<lparr>m_trace_info := f\<rparr>)" for f by (simp add: same_tlb_def)
  then show ?case using Cons by (auto split: option.split intro: same_tlb_trans)
qed simp

lemma same_clear_chunks: "same_tlb s (snd (smc_clear_chunks is p b f (q, s)))"
proof (induction "is" arbitrary: q s)
  case (Cons i "is")
  obtain q1 s1 where c: "smc_clear_chunk [0..<128] p (b + push_bit 7 (of_nat i)) (q, s) = (q1, s1)" by fastforce
  then have "same_tlb s s1" using same_clear_chunk by (metis snd_conv)
  then show ?case using Cons [of s1 q1] Cons [of s q] c same_tlb_trans by auto
qed simp

lemma good_smc: "tlb_good s \<Longrightarrow> tlb_good (cpu_smc_invalidate lin p s)"
proof -
  assume s: "tlb_good s"
  obtain q s1 where c: "smc_clear_chunks [0..<unat (drop_bit 7 p AND 31) + 1] p (p AND NOT 0xFFF)
      (m_smc_has_code s (drop_bit 12 p)) (False, s) = (q, s1)" by fastforce
  then have "same_tlb s s1" using same_clear_chunks by (metis snd_conv)
  then have "tlb_good (s1\<lparr>m_smc_has_code := f\<rparr>)" for f
    using good_frame [OF _ s] by (simp add: same_tlb_def)
  then show ?thesis using c s by (simp add: cpu_smc_invalidate_def Let_def good_invalidate)
qed

section \<open>Outcomes\<close>

fun ends :: "('s \<Rightarrow> bool) \<Rightarrow> ('a, 's) outcome \<Rightarrow> bool" where
  "ends P (Ok x t) \<longleftrightarrow> P t"
| "ends P (Fault v c t) \<longleftrightarrow> P t"
| "ends P Abort \<longleftrightarrow> True"

lemma ends_seq: "ends P m \<Longrightarrow> (\<And>x t. P t \<Longrightarrow> ends P (f x t)) \<Longrightarrow> ends P (seq m f)"
  by (cases m) auto

lemma ends_if: "(c \<Longrightarrow> ends P a) \<Longrightarrow> (\<not> c \<Longrightarrow> ends P b) \<Longrightarrow> ends P (if c then a else b)"
  by simp

lemma ends_mono: "ends P m \<Longrightarrow> (\<And>t. P t \<Longrightarrow> Q t) \<Longrightarrow> ends Q m"
  by (cases m) auto

lemma ends_raise: "P s \<Longrightarrow> ends P (raise_code v c s)"
  by (simp add: raise_code_def)

abbreviation paged :: "'d cpu_mem \<Rightarrow> bool" where
  "paged s \<equiv> tlb_good s \<and> bit (m_cr s 0) 31"

lemma paged_put: "paged s \<Longrightarrow> paged (ram_put32 p v s)" "paged s \<Longrightarrow> paged (s\<lparr>m_bus := io\<rparr>)"
  by (simp_all add: ram_put32_def ram_put16_def ram_put8_def) (auto elim: good_frame [rotated] simp: same_tlb_def)

lemma ends_mmio: "tlb_good s \<Longrightarrow> ends tlb_good (mmio_read p sz s)" "tlb_good s \<Longrightarrow> ends tlb_good (mmio_write p v sz s)"
  by (simp_all add: mmio_read_def mmio_write_def split: option.split)

lemma paged_phys: "paged s \<Longrightarrow> ends paged (cpu_read_phys p s)" "paged s \<Longrightarrow> ends paged (cpu_write_phys p v s)"
  by (auto simp: cpu_read_phys_def cpu_write_phys_def mmio_read_def mmio_write_def paged_put split: option.split)

lemma paged_write_if: "paged s \<Longrightarrow> ends paged (write_if c p v s)"
  by (simp add: write_if_def paged_phys)

lemma paged_fault: "paged s \<Longrightarrow> ends paged (page_fault lin c s)"
  by (auto simp: page_fault_def raise_code_def elim: good_frame [rotated] simp: same_tlb_def)

lemma paged_fill: "paged s \<Longrightarrow> ends paged (Ok x (cpu_set_tlb_entry lin phys u w g nx s))"
  by (simp add: good_fill_paging)

lemmas paged_intros = ends_seq ends_if ends_raise paged_phys paged_write_if paged_fault paged_fill

lemma paged_walk: "paged s \<Longrightarrow> ends paged (mmu_walk32 lin w u s)" "paged s \<Longrightarrow> ends paged (mmu_walk_pae lin ex w u s)"
  unfolding mmu_walk32_def mmu_walk_pae_def Let_def by (intro paged_intros; assumption)+

lemma ends_translate: "tlb_good s \<Longrightarrow> ends tlb_good (cpu_mmu_translate lin shift s)"
  using paged_walk [of s, THEN ends_mono, where Q = tlb_good] good_fill_identity [of s lin]
  unfolding cpu_mmu_translate_def by (intro ends_if) auto

section \<open>Accesses\<close>

lemma ends_walk_if: "tlb_good s \<Longrightarrow> ends tlb_good (walk_if tag a shift s)"
  by (simp add: walk_if_def ends_translate)

lemma ends_slow_read: "tlb_good s \<Longrightarrow> ends tlb_good (slow_read n sz get a s)"
  by (auto simp: slow_read_def split: option.split intro!: ends_seq ends_mmio)

lemma ends_slow_write:
  "(\<And>p t. tlb_good t \<Longrightarrow> tlb_good (put p t)) \<Longrightarrow> tlb_good s \<Longrightarrow> ends tlb_good (slow_write n sz put a v s)"
  by (auto simp: slow_write_def good_smc split: option.split intro!: ends_mmio)

lemma ends_access8: "tlb_good s \<Longrightarrow> ends tlb_good (cpu_access_read8 a tag shift s)"
  "tlb_good s \<Longrightarrow> ends tlb_good (cpu_access_write8 a v tag shift s)"
  unfolding cpu_access_read8_def cpu_access_write8_def
  by (auto intro!: ends_seq ends_walk_if ends_slow_read ends_slow_write)

lemma ends_bytes: "tlb_good s \<Longrightarrow> ends tlb_good (read_bytes is a shift res s)" "tlb_good s \<Longrightarrow> ends tlb_good (write_bytes is a v shift s)"
  by (induction "is" arbitrary: res s) (auto simp: Let_def intro!: ends_seq ends_access8)

lemma ends_access:
  "tlb_good s \<Longrightarrow> ends tlb_good (cpu_access_read16 a tag shift s)" "tlb_good s \<Longrightarrow> ends tlb_good (cpu_access_read32 a tag shift s)"
  "tlb_good s \<Longrightarrow> ends tlb_good (cpu_access_write16 a v tag shift s)" "tlb_good s \<Longrightarrow> ends tlb_good (cpu_access_write32 a v tag shift s)"
  unfolding cpu_access_read16_def cpu_access_read32_def cpu_access_write16_def cpu_access_write32_def
  by (auto intro!: ends_if ends_bytes ends_seq ends_walk_if ends_slow_read ends_slow_write)

lemma ends_mem:
  "tlb_good s \<Longrightarrow> ends tlb_good (mem_read8 shift a s)" "tlb_good s \<Longrightarrow> ends tlb_good (mem_read16_raw shift a s)"
  "tlb_good s \<Longrightarrow> ends tlb_good (mem_read16 shift a s)" "tlb_good s \<Longrightarrow> ends tlb_good (mem_read32 shift a s)"
  "tlb_good s \<Longrightarrow> ends tlb_good (mem_write8 shift a v s)" "tlb_good s \<Longrightarrow> ends tlb_good (mem_write16 shift a v s)"
  "tlb_good s \<Longrightarrow> ends tlb_good (mem_write32 shift a v s)"
  unfolding mem_read8_def mem_read16_raw_def mem_read16_def mem_read32_def mem_write8_def mem_write16_def mem_write32_def Let_def
  by (auto intro!: ends_seq ends_access ends_access8 split: option.split)

lemma ends_push_pop:
  assumes "tlb_good s"
  shows "ends tlb_good (cpu_push16 x s)" "ends tlb_good (cpu_push32 x s)" "ends tlb_good (cpu_pop16 s)" "ends tlb_good (cpu_pop32 s)"
  unfolding cpu_push16_def cpu_push32_def cpu_pop16_def cpu_pop32_def Let_def
  using assms by (auto intro!: ends_seq ends_mem)

lemma ends_all:
  "tlb_good s \<Longrightarrow> ends tlb_good (push_all16 is esp s)" "tlb_good s \<Longrightarrow> ends tlb_good (push_all32 is esp s)"
  "tlb_good s \<Longrightarrow> ends tlb_good (pop_all16 is esp f s)" "tlb_good s \<Longrightarrow> ends tlb_good (pop_all32 is esp g s)"
  by (induction "is" arbitrary: esp f g s) (auto simp: Let_def intro!: ends_seq ends_mem)

lemma good_fold_regs:
  "tlb_good s \<Longrightarrow> tlb_good (fold (\<lambda>i s. if i = 4 then s else set_reg16 (2 * i) (f i) s) is s)"
  "tlb_good s \<Longrightarrow> tlb_good (fold (\<lambda>i s. if i = 4 then s else set_reg32 i (g i) s) is s)"
  by (induction "is" arbitrary: s) auto

lemma ends_push_pop_all:
  assumes "tlb_good s"
  shows "ends tlb_good (cpu_pusha s)" "ends tlb_good (cpu_pushad s)" "ends tlb_good (cpu_popa s)" "ends tlb_good (cpu_popad s)"
  unfolding cpu_pusha_def cpu_pushad_def cpu_popa_def cpu_popad_def Let_def
  using assms by (auto simp del: pop_all16.simps pop_all32.simps push_all16.simps push_all32.simps
      simp: good_fold_regs intro!: ends_seq ends_all)

lemma ends_descriptor:
  "tlb_good s \<Longrightarrow> ends tlb_good (cpu_seg_load_descriptor2 tbl sel e code s)" "tlb_good s \<Longrightarrow> ends tlb_good (cpu_seg_load_descriptor sel e code s)"
  unfolding cpu_seg_load_descriptor_def cpu_seg_load_descriptor2_def Let_def
  by (auto split: option.split intro!: ends_if ends_seq ends_mem ends_raise)

lemma ends_ltr: "tlb_good s \<Longrightarrow> ends tlb_good (ltr sel s)"
  unfolding ltr_def Let_def
  by (auto split: option.split intro!: ends_if ends_seq ends_descriptor ends_mem ends_raise)

lemma good_segments: "tlb_good s \<Longrightarrow> tlb_good (s\<lparr>m_seg_base := f, m_seg_limit := g, m_seg_access := h, m_seg := k\<rparr>)"
  by (erule good_frame [rotated]) (simp add: same_tlb_def)

lemma ends_lldt: "tlb_good s \<Longrightarrow> ends tlb_good (lldt sel s)"
  unfolding lldt_def Let_def
  by (auto split: option.split intro!: ends_if ends_seq ends_descriptor ends_raise good_segments)

lemma ends_io_check: "tlb_good s \<Longrightarrow> ends tlb_good (cpu_io_check_access port n s)"
  unfolding cpu_io_check_access_def Let_def
  by (auto split: option.split intro!: ends_if ends_seq ends_descriptor ends_mem ends_raise)

lemma ends_verify: "tlb_good s \<Longrightarrow> ends tlb_good (cpu_access_verify a b shift s)"
  unfolding cpu_access_verify_def Let_def by (intro ends_if ends_seq ends_translate) auto

section \<open>The operations of the guest\<close>

lemma cr_frame: "same_tlb s t \<Longrightarrow> tlb_good s \<Longrightarrow> tlb_good (if c then cpu_mmu_tlb_flush t else t)"
  using good_frame [of s t] good_flush by auto

lemma good_set_cr: "tlb_good s \<Longrightarrow> tlb_good (cpu_prot_set_cr i v s)"
proof (cases "i = 0")
  case True
  assume s: "tlb_good s"
  let ?t = "s\<lparr>m_cr := (m_cr s)(0 := v)\<rparr>"
  have i: "tlb_indexed ?t" using s by (simp add: tlb_good_def tlb_indexed_def)
  show ?thesis
  proof (cases "(v XOR m_cr s 0) AND 0x80010001 = 0")
    case same: True
    have "bit ((v XOR m_cr s 0) AND 0x80010001) 31 = bit (v XOR m_cr s 0) 31" by (simp add: bit_and_iff)
    then have "bit v 31 = bit (m_cr s 0) 31" unfolding same by (simp add: bit_xor_iff)
    then have "tlb_good ?t" using s i by (simp add: tlb_good_def identity_tlb_def)
    then show ?thesis using True same by (simp add: cpu_prot_set_cr_def)
  next
    case False
    have "tlb_good (cpu_mmu_tlb_flush ?t)" using good_flushed [OF i] s by (simp add: tlb_good_def)
    then show ?thesis using True False by (simp add: cpu_prot_set_cr_def)
  qed
next
  case False
  assume s: "tlb_good s"
  have t: "tlb_good (s\<lparr>m_cr := (m_cr s)(j := w)\<rparr>)" if "j \<noteq> 0" for j w
    using s that by (auto elim!: good_frame [rotated] simp: same_tlb_def)
  have n: "tlb_good (cpu_mmu_tlb_flush_nonglobal u)" if u: "tlb_good u" for u :: "'a cpu_mem"
  proof (rule good_shrinks [OF u])
    have i: "tlb_indexed u" using u by (simp add: tlb_good_def)
    show "tlb_indexed (cpu_mmu_tlb_flush_nonglobal u)" using i by (rule flush_nonglobal_indexed)
    show "same_core u (cpu_mmu_tlb_flush_nonglobal u)"
    proof -
      have "same_core r (tlb_flush_nonglobal_from is r)" for "is" and r :: "'a cpu_mem"
      proof (induction "is" arbitrary: r)
        case (Cons j "is")
        have "same_core r (tlb_drop j r)" by (simp add: same_core_def tlb_drop_def Let_def)
        then show ?case using Cons [of r] Cons [of "tlb_drop j r"] same_core_trans by auto
      qed simp
      then show ?thesis by (simp add: cpu_mmu_tlb_flush_nonglobal_def)
    qed
    show "m_tlb (cpu_mmu_tlb_flush_nonglobal u) e \<in> {None, m_tlb u e}" for e
      using flush_nonglobal_clears [OF i, of e] by simp
  qed
  show ?thesis using False unfolding cpu_prot_set_cr_def Let_def by (simp add: t good_flush n)
qed

lemma good_set_a20: "tlb_good s \<Longrightarrow> tlb_good (cpu_set_a20 b s)"
proof -
  assume s: "tlb_good s"
  let ?t = "s\<lparr>m_a20_mask := - 1 XOR push_bit 20 (of_bool (\<not> b))\<rparr>"
  have i: "tlb_indexed ?t" using s by (simp add: tlb_good_def tlb_indexed_def)
  have "tlb_good (cpu_mmu_tlb_flush ?t)" using good_flushed [OF i] s by (simp add: tlb_good_def)
  moreover have "tlb_good ?t" if "m_a20_mask s = m_a20_mask ?t"
    by (rule good_frame [OF _ s]) (use that in \<open>simp add: same_tlb_def\<close>)
  ultimately show ?thesis by (simp add: cpu_set_a20_def Let_def)
qed

lemma good_set_dr: "tlb_good s \<Longrightarrow> tlb_good (cpu_prot_set_dr i v s)"
proof -
  assume s: "tlb_good s"
  have "tlb_good (s\<lparr>m_dr := f\<rparr>)" for f by (rule good_frame [OF _ s]) (simp add: same_tlb_def)
  then show ?thesis by (simp add: cpu_prot_set_dr_def good_flush good_invalidate)
qed

lemma good_others:
  assumes s: "tlb_good s"
  shows "tlb_good (cpu_prot_update_cpl (s\<lparr>m_cpl := c\<rparr>))" "tlb_good (wrmsr i h l s)" "tlb_good (cpu_seg_load_real j sel s)"
    "tlb_good (set_smc len lin s)"
proof -
  show "tlb_good (cpu_prot_update_cpl (s\<lparr>m_cpl := c\<rparr>))" "tlb_good (cpu_seg_load_real j sel s)"
    by (rule good_frame [OF _ s]; simp add: same_tlb_def cpu_prot_update_cpl_def cpu_seg_load_real_def real_segment_def Let_def)+
  show "tlb_good (wrmsr i h l s)"
    by (rule good_frame [OF _ s]) (simp add: same_tlb_def wrmsr_def Let_def)
  have "same_tlb r (fold (\<lambda>i s. cpu_smc_set_code (m_phys_eip s + push_bit 7 (of_nat i)) s) is r)" for "is" and r :: "'a cpu_mem"
  proof (induction "is" arbitrary: r)
    case (Cons k "is")
    have "same_tlb r (cpu_smc_set_code p r)" for p by (simp add: cpu_smc_set_code_def same_tlb_def Let_def)
    then show ?case using Cons same_tlb_trans by simp blast
  qed simp
  moreover have "same_tlb s (s\<lparr>m_tlb_tags := f\<rparr>)" for f by (simp add: same_tlb_def)
  ultimately have "same_tlb s (set_smc len lin s)" unfolding set_smc_def Let_def by (blast intro: same_tlb_trans)
  then show "tlb_good (set_smc len lin s)" using s by (rule good_frame)
qed

lemma ends_discard: "ends P m \<Longrightarrow> ends P (discard m)"
  by (cases m) (simp_all add: discard_def)

lemma ends_Ok: "P t \<Longrightarrow> ends P (Ok x t)"
  by simp

lemma guest_step_good:
  assumes "tlb_good s"
  shows "ends tlb_good (guest_step g s)"
proof (cases g)
  case (Translated len lin)
  then show ?thesis using assms by (auto intro!: ends_seq ends_mem good_others(4))
qed (use assms in \<open>simp_all only: guest_step.simps\<close>,
    (intro ends_discard ends_Ok ends_mem ends_push_pop ends_push_pop_all ends_ltr ends_lldt ends_io_check ends_verify
      good_set_cr good_set_dr good_set_a20 good_others good_invalidate; assumption)+)

lemma guest_run_good: "tlb_good s \<Longrightarrow> guest_run gs s = Some t \<Longrightarrow> tlb_good t"
proof (induction gs arbitrary: s)
  case (Cons g gs)
  then show ?case using guest_step_good [of s g] by (cases "guest_step g s") auto
qed simp

section \<open>Memory is a flat array\<close>

lemma guest_flat:
  assumes "bus_total io" "0x100000 \<le> n" "n \<le> 0x7FFFF000" "n AND 0xFFF = 0"
    and "booted n a io = Some r" "guest_run gs r = Some s" "\<not> bit (m_cr s 0) 31" "m_a20_mask s = - 1"
  shows "flat s"
proof -
  obtain r' where "booted n a io = Some r'" "mem_ok r'" "m_tlb r' = (\<lambda>_. None)" "m_memory_size r' = n"
    using booted_state [OF assms(1-4), of a] by blast
  then have r: "mem_ok r" "m_tlb r = (\<lambda>_. None)" "m_memory_size r = n" using assms(5) by auto
  have "n \<le> 0xFFF00000" using assms(3) by (rule order_trans) simp
  then have "tlb_good r" using r by (simp add: tlb_good_def tlb_indexed_def identity_tlb_def)
  then have "tlb_good s" using assms(6) by (rule guest_run_good)
  moreover have "mem_ok s" using guest_run_ok [OF r(1), of gs] assms(6) by auto
  ultimately show ?thesis using assms(7,8) by (simp add: tlb_good_def flat_def identity_tlb_def)
qed

text \<open>
  C2. Refinement. Take the machine after its start-up with 1 MiB to 2 GiB of RAM in whole pages, and after any
  sequence of the operations of \<open>guest_step\<close>: accesses, stack operations, control register writes (paging switched on and
  off), changes of the address line 20, segment loads and so on, completed or faulted.
  If paging is off and the line open at the end, every access of 1, 2 or 4 bytes of RAM outside the hole
  A0000-FFFFF, at any alignment, whatever the
  TLB has been filled with and whichever privilege the access is made with, does what the flat array of bytes does: a
  read gives the little-endian value of the bytes and leaves RAM, registers and devices alone; a write changes exactly
  the bytes of its operand. No fault, no device access.
\<close>

theorem flat_memory_refinement:
  assumes "bus_total io" "0x100000 \<le> n" "n \<le> 0x7FFFF000" "n AND 0xFFF = 0"
    and "booted n a20 io = Some r" "guest_run gs r = Some s" "\<not> bit (m_cr s 0) 31" "m_a20_mask s = - 1"
    and "shift \<in> {0, 2, 4, 6}"
  shows "(in_ram a s \<longrightarrow> (\<exists>x. ucast x = le_load 1 a (m_mem s) \<and> reads_flat x s (mem_read8 shift a s)))
    \<and> (ram_span 2 a s \<longrightarrow> (\<exists>x. ucast x = le_load 2 a (m_mem s) \<and> reads_flat x s (mem_read16 shift a s)))
    \<and> (ram_span 4 a s \<longrightarrow> reads_flat (le_load 4 a (m_mem s)) s (mem_read32 shift a s))
    \<and> (in_ram a s \<longrightarrow> writes_flat (le_store 1 a v (m_mem s)) s (mem_write8 shift a v s))
    \<and> (ram_span 2 a s \<longrightarrow> writes_flat (le_store 2 a v (m_mem s)) s (mem_write16 shift a v s))
    \<and> (ram_span 4 a s \<longrightarrow> writes_flat (le_store 4 a v (m_mem s)) s (mem_write32 shift a v s))"
  using guest_flat [OF assms(1-8)] assms(9) by (rule flat_accesses)

theorem flat_memory_refinement_witness:
  "\<exists>(io :: unit io_bus) r s. booted 0x200000 False io = Some r
    \<and> guest_run [Set_cr 0 0x80000011, Set_cr 0 0x11] r = Some s
    \<and> writes_flat (le_store 4 0x12345 0xDEADBEEF (m_mem s)) s (mem_write32 2 0x12345 0xDEADBEEF s)"
proof -
  obtain io :: "unit io_bus" where b: "bus_total io" using some_bus by blast
  then obtain r where r: "booted 0x200000 False io = Some r" "m_a20_mask r = - 1" "m_memory_size r = 0x200000"
    using booted_state [of io "0x200000" False] by auto
  define s where "s = cpu_prot_set_cr 0 0x11 (cpu_prot_set_cr 0 0x80000011 r)"
  have g: "guest_run [Set_cr 0 0x80000011, Set_cr 0 0x11] r = Some s" by (simp add: s_def)
  have c: "m_cr (cpu_prot_set_cr 0 v t) 0 = v" "m_a20_mask (cpu_prot_set_cr 0 v t) = m_a20_mask t"
    "m_memory_size (cpu_prot_set_cr 0 v t) = m_memory_size t" for v and t :: "unit cpu_mem"
    using flush_core(1) [of "t\<lparr>m_cr := (m_cr t)(0 := v)\<rparr>"] by (simp_all add: cpu_prot_set_cr_def same_core_def Let_def)
  have s: "m_cr s 0 = 0x11" "m_a20_mask s = - 1" "m_memory_size s = 0x200000" using r by (simp_all add: s_def c)
  have off: "\<not> bit (m_cr s 0) 31" by (simp add: s(1))
  have "writes_flat (le_store 4 0x12345 0xDEADBEEF (m_mem s)) s (mem_write32 2 0x12345 0xDEADBEEF s)"
    using flat_memory_refinement [OF b _ _ _ r(1) g off s(2), of 2 "0x12345" "0xDEADBEEF"] by (simp add: span_concrete s(3))
  then show ?thesis using r(1) g by blast
qed

end
