(* ===== verification/Ctrl_Base.thy ===== *)
theory Ctrl_Base
  imports Misc
begin

text \<open>
  Model of src/src/cpu/ctrlflow.cpp, part one: the macros its routines share (the stack
  frame under construction, guards that raise), the reads of the task state segment, and the
  task switch.
\<close>

section \<open>Guards and descriptors\<close>

text \<open>\<open>check c v code\<close> stands for \<open>if (!c) EXCEPTION(v, code)\<close> with its return.\<close>

definition check :: "bool \<Rightarrow> u32 \<Rightarrow> u32 \<Rightarrow> 'd cpu_mem \<Rightarrow> (unit, 'd cpu_mem) outcome" where
  "check c v code s = (if c then Ok () s else raise_code v code s)"

definition desc_type :: "seg_desc \<Rightarrow> u32" where
  "desc_type info = desc_access info AND 0x1F"

definition desc_dpl :: "seg_desc \<Rightarrow> u32" where
  "desc_dpl info = drop_bit 5 (desc_access info) AND 3"

definition desc_present :: "seg_desc \<Rightarrow> bool" where
  "desc_present info \<longleftrightarrow> desc_access info AND 0x80 \<noteq> 0"

definition writable_data :: "seg_desc \<Rightarrow> bool" where
  "writable_data info \<longleftrightarrow> desc_type info \<in> {0x12, 0x13, 0x16, 0x17}"

definition desc_esp_mask :: "seg_desc \<Rightarrow> u32" where
  "desc_esp_mask info = (if desc_access info AND 0x4000 \<noteq> 0 then - 1 else 0xFFFF)"

text \<open>The loads with an exception vector: they return only with a descriptor.\<close>

definition got_descriptor :: "seg_desc option \<Rightarrow> 'd cpu_mem \<Rightarrow> (seg_desc, 'd cpu_mem) outcome" where
  "got_descriptor d s = (case d of None \<Rightarrow> Abort | Some info \<Rightarrow> Ok info s)"

definition fetch_descriptor2 :: "nat \<Rightarrow> u32 \<Rightarrow> u32 \<Rightarrow> u32 \<Rightarrow> 'd cpu_mem \<Rightarrow> (seg_desc, 'd cpu_mem) outcome" where
  "fetch_descriptor2 table sel v code s = seq (cpu_seg_load_descriptor2 table sel (Some v) code s) got_descriptor"

definition fetch_descriptor :: "u32 \<Rightarrow> u32 \<Rightarrow> u32 \<Rightarrow> 'd cpu_mem \<Rightarrow> (seg_desc, 'd cpu_mem) outcome" where
  "fetch_descriptor sel v code s = seq (cpu_seg_load_descriptor sel (Some v) code s) got_descriptor"

definition load_segment :: "nat \<Rightarrow> u32 \<Rightarrow> seg_desc \<Rightarrow> 'd cpu_mem \<Rightarrow> (unit, 'd cpu_mem) outcome" where
  "load_segment i sel info s = seq (cpu_seg_load_protected i (ucast sel) info s) (\<lambda>_ s. Ok () s)"

text \<open>The lazy flags, where they are defined.\<close>

definition with_flags :: "'d cpu_mem \<Rightarrow> (u32 \<Rightarrow> 'd cpu_mem \<Rightarrow> ('a, 'd cpu_mem) outcome) \<Rightarrow> ('a, 'd cpu_mem) outcome" where
  "with_flags s f = (case cpu_get_eflags s of None \<Rightarrow> Abort | Some fl \<Rightarrow> f fl s)"

section \<open>The stack frame under construction\<close>

text \<open>
  The five local variables \<open>STACK_esp\<close>, \<open>STACK_ss_base\<close>, \<open>STACK_esp_mask\<close>,
  \<open>STACK_mask\<close> and \<open>STACK_original_esp\<close>: pushes and pops go through them, and
  ESP changes only when the frame is complete.
\<close>

record frame =
  fr_esp :: u32
  fr_base :: u32
  fr_mask :: u32
  fr_shift :: nat
  fr_orig :: u32

definition frame_at :: "u32 \<Rightarrow> u32 \<Rightarrow> u32 \<Rightarrow> nat \<Rightarrow> frame" where
  "frame_at esp base emask shift = \<lparr>fr_esp = esp AND emask, fr_base = base, fr_mask = emask, fr_shift = shift, fr_orig = esp\<rparr>"

definition frame_here :: "nat \<Rightarrow> 'd cpu_mem \<Rightarrow> frame" where
  "frame_here shift s = frame_at (get_reg32 4 s) (m_seg_base s 2) (m_esp_mask s) shift"

definition frame_push :: "bool \<Rightarrow> u32 \<Rightarrow> frame \<Rightarrow> 'd cpu_mem \<Rightarrow> (frame, 'd cpu_mem) outcome" where
  "frame_push wide v fr s =
     (let esp = (fr_esp fr - (if wide then 4 else 2)) AND fr_mask fr; a = esp + fr_base fr in
      seq (if wide then mem_write32 (fr_shift fr) a v s else mem_write16 (fr_shift fr) a v s)
        (\<lambda>_ s. Ok (fr\<lparr>fr_esp := esp\<rparr>) s))"

fun frame_push_all :: "bool \<Rightarrow> u32 list \<Rightarrow> frame \<Rightarrow> 'd cpu_mem \<Rightarrow> (frame, 'd cpu_mem) outcome" where
  "frame_push_all wide [] fr s = Ok fr s"
| "frame_push_all wide (v # vs) fr s = seq (frame_push wide v fr s) (\<lambda>fr s. frame_push_all wide vs fr s)"

definition frame_pop :: "bool \<Rightarrow> frame \<Rightarrow> 'd cpu_mem \<Rightarrow> (u32 \<times> frame, 'd cpu_mem) outcome" where
  "frame_pop wide fr s =
     (let a = fr_esp fr + fr_base fr in
      seq (if wide then mem_read32 (fr_shift fr) a s else mem_read16_raw (fr_shift fr) a s)
        (\<lambda>v s. Ok (v, fr\<lparr>fr_esp := (fr_esp fr + (if wide then 4 else 2)) AND fr_mask fr\<rparr>) s))"

definition frame_commit :: "frame \<Rightarrow> 'd cpu_mem \<Rightarrow> 'd cpu_mem" where
  "frame_commit fr s = set_reg32 4 ((fr_mask fr AND fr_esp fr) OR (fr_orig fr AND NOT (fr_mask fr))) s"

definition cpl_to_TLB_write :: "u32 \<Rightarrow> nat" where
  "cpl_to_TLB_write cpl = (if cpl = 3 then 6 else 2)"

section \<open>The task state segment\<close>

definition tss_is_16 :: "u32 \<Rightarrow> bool" where
  "tss_is_16 ty \<longleftrightarrow> ty = 3 \<or> ty = 1"

definition tss_is_386 :: "u32 \<Rightarrow> bool" where
  "tss_is_386 ty \<longleftrightarrow> ty = 9 \<or> ty = 11"

definition load_tss_from_task_gate :: "seg_desc \<Rightarrow> 'd cpu_mem \<Rightarrow> (u32 \<times> seg_desc, 'd cpu_mem) outcome" where
  "load_tss_from_task_gate info s =
     (let new_seg = cpu_seg_gate_target_segment info; offset = new_seg AND 0xFFFC in
      seq (check (new_seg AND 4 = 0) 10 offset s) (\<lambda>_ s.
      seq (fetch_descriptor2 7 new_seg 13 offset s) (\<lambda>info s.
      seq (check (desc_type info = 1 \<or> desc_type info = 9) 13 offset s) (\<lambda>_ s.
      seq (check (desc_present info) 11 offset s) (\<lambda>_ s. Ok (new_seg, info) s)))))"

definition get_tss_esp :: "u32 \<Rightarrow> 'd cpu_mem \<Rightarrow> (u32, 'd cpu_mem) outcome" where
  "get_tss_esp level s =
     (if tss_is_16 (m_seg_access s 6 AND 0x1F) then
        let addr = 2 + level * 4 in
        seq (check (addr + 2 < m_seg_limit s 6) 10 (ucast (m_seg s 6 AND 0xFFFC)) s) (\<lambda>_ s.
          mem_read16_raw 0 (addr + m_seg_base s 6) s)
      else
        let addr = 4 + level * 8 in
        seq (check (addr + 4 < m_seg_limit s 6) 10 (ucast (m_seg s 6 AND 0xFFFC)) s) (\<lambda>_ s.
          mem_read32 0 (addr + m_seg_base s 6) s))"

definition get_tss_ss :: "u32 \<Rightarrow> 'd cpu_mem \<Rightarrow> (u32, 'd cpu_mem) outcome" where
  "get_tss_ss level s =
     seq (if tss_is_16 (m_seg_access s 6 AND 0x1F) then
            let addr = 2 + level * 4 + 2 in
            seq (check (addr + 2 < m_seg_limit s 6) 10 (ucast (m_seg s 6 AND 0xFFFC)) s) (\<lambda>_ s.
              mem_read16_raw 0 (addr + m_seg_base s 6) s)
          else
            let addr = 4 + level * 8 + 4 in
            seq (check (addr + 4 < m_seg_limit s 6) 10 (ucast (m_seg s 6 AND 0xFFFC)) s) (\<lambda>_ s.
              mem_read32 0 (addr + m_seg_base s 6) s))
       (\<lambda>temp s. Ok (temp AND 0xFFFF) s)"

section \<open>Task switch\<close>

datatype task_type = Task_jmp | Task_call | Task_int | Task_iret

fun task_code :: "task_type \<Rightarrow> u32" where
  "task_code Task_jmp = 0"
| "task_code Task_call = 1"
| "task_code Task_int = 2"
| "task_code Task_iret = 3"

text \<open>The table of the smallest limits, indexed by bit 3 of a number.\<close>

definition tss_limits :: "u32 \<Rightarrow> u32" where
  "tss_limits ty = (if bit ty 3 then 103 else 43)"

fun each_write :: "(nat \<Rightarrow> 'd cpu_mem \<Rightarrow> (unit, 'd cpu_mem) outcome) \<Rightarrow> nat list \<Rightarrow> 'd cpu_mem \<Rightarrow> (unit, 'd cpu_mem) outcome" where
  "each_write f [] s = Ok () s"
| "each_write f (i # is) s = seq (f i s) (\<lambda>_ s. each_write f is s)"

fun each_read ::
  "(nat \<Rightarrow> 'd cpu_mem \<Rightarrow> (u32, 'd cpu_mem) outcome) \<Rightarrow> nat list \<Rightarrow> (nat \<Rightarrow> u32) \<Rightarrow> 'd cpu_mem
    \<Rightarrow> (nat \<Rightarrow> u32, 'd cpu_mem) outcome" where
  "each_read f [] a s = Ok a s"
| "each_read f (i # is) a s = seq (f i s) (\<lambda>v s. each_read f is (a(i := v)) s)"

text \<open>The 32-bit variable that an 8-bit read fills.\<close>

definition mem_read8_raw :: "nat \<Rightarrow> u32 \<Rightarrow> 'd cpu_mem \<Rightarrow> (u32, 'd cpu_mem) outcome" where
  "mem_read8_raw shift addr s =
     (let tag = tag_at addr shift s in
      if bit tag 0 then seq (cpu_access_read8 addr tag shift s) (\<lambda>_ s. Ok (m_read_result s) s)
      else case host_at addr s of
        None \<Rightarrow> Abort
      | Some p \<Rightarrow> if ram_ok 1 p s then Ok (ucast (m_mem s p)) s else Abort)"

definition tss_mark :: "u32 \<Rightarrow> (u32 \<Rightarrow> u32) \<Rightarrow> 'd cpu_mem \<Rightarrow> (unit, 'd cpu_mem) outcome" where
  "tss_mark addr f s = seq (mem_read8_raw 0 addr s) (\<lambda>v s. mem_write8 2 addr (f v) s)"

definition tss_save :: "bool \<Rightarrow> u32 \<Rightarrow> u32 \<Rightarrow> u32 \<Rightarrow> 'd cpu_mem \<Rightarrow> (unit, 'd cpu_mem) outcome" where
  "tss_save is_386 tr_base eip old_eflags s =
     (if is_386 then
        seq (mem_write32 2 (tr_base + 0x20) eip s) (\<lambda>_ s.
        seq (mem_write32 2 (tr_base + 0x24) old_eflags s) (\<lambda>_ s.
        seq (each_write (\<lambda>i s. mem_write32 2 (tr_base + 0x28 + of_nat (i * 4)) (get_reg32 i s) s) [0..<8] s) (\<lambda>_ s.
        each_write (\<lambda>i s. mem_write32 2 (tr_base + 0x48 + of_nat (i * 4)) (ucast (m_seg s i)) s) [0..<6] s)))
      else
        seq (mem_write16 2 (tr_base + 0x0E) eip s) (\<lambda>_ s.
        seq (mem_write16 2 (tr_base + 0x10) old_eflags s) (\<lambda>_ s.
        seq (each_write (\<lambda>i s. mem_write16 2 (tr_base + 0x12 + of_nat (i * 2)) (get_reg32 i s) s) [0..<8] s) (\<lambda>_ s.
        each_write (\<lambda>i s. mem_write16 2 (tr_base + 0x22 + of_nat (i * 2)) (ucast (m_seg s i)) s) [0..<4] s))))"

record task_context =
  tc_cr3 :: u32
  tc_eip :: u32
  tc_eflags :: u32
  tc_reg32 :: "nat \<Rightarrow> u32"
  tc_seg :: "nat \<Rightarrow> u32"
  tc_ldt :: u32

definition tss_fetch :: "bool \<Rightarrow> u32 \<Rightarrow> 'd cpu_mem \<Rightarrow> (task_context, 'd cpu_mem) outcome" where
  "tss_fetch is_386 base s =
     (if is_386 then
        seq (mem_read32 0 (base + 0x1C) s) (\<lambda>cr3 s.
        seq (mem_read32 0 (base + 0x20) s) (\<lambda>eip s.
        seq (mem_read32 0 (base + 0x24) s) (\<lambda>eflags s.
        seq (each_read (\<lambda>i. mem_read32 0 (base + 0x28 + of_nat (i * 4))) [0..<8] (\<lambda>_. 0) s) (\<lambda>reg32 s.
        seq (each_read (\<lambda>i. mem_read16_raw 0 (base + 0x48 + of_nat (i * 4))) [0..<6] (\<lambda>_. 0) s) (\<lambda>seg s.
        seq (mem_read32 0 (base + 0x60) s) (\<lambda>ldt s.
          Ok \<lparr>tc_cr3 = cr3, tc_eip = eip, tc_eflags = eflags, tc_reg32 = reg32, tc_seg = seg, tc_ldt = ldt\<rparr> s))))))
      else
        seq (mem_read16_raw 0 (base + 0x0E) s) (\<lambda>eip s.
        seq (mem_read16_raw 0 (base + 0x10) s) (\<lambda>eflags s.
        seq (each_read (\<lambda>i s. seq (mem_read16_raw 0 (base + 0x12 + of_nat (i * 2)) s) (\<lambda>v s. Ok (v OR 0xFFFF0000) s))
               [0..<8] (\<lambda>_. 0) s) (\<lambda>reg32 s.
        seq (each_read (\<lambda>i. mem_read16_raw 0 (base + 0x22 + of_nat (i * 2))) [0..<4] (\<lambda>_. 0) s) (\<lambda>seg s.
        seq (mem_read16_raw 0 (base + 0x2A) s) (\<lambda>ldt s.
          Ok \<lparr>tc_cr3 = 0, tc_eip = eip, tc_eflags = eflags, tc_reg32 = reg32, tc_seg = seg(4 := 0, 5 := 0), tc_ldt = ldt\<rparr> s))))))"

text \<open>
  The busy bit of a descriptor of the GDT: it is cleared in the descriptor of the old task
  and set in that of the new one, on a jump or a return only.
\<close>

definition task_switch_checks :: "u32 \<Rightarrow> seg_desc \<Rightarrow> task_type \<Rightarrow> 'd cpu_mem \<Rightarrow> (u32, 'd cpu_mem) outcome" where
  "task_switch_checks sel info ty s =
     (let offset = sel AND 0xFFFC; tr_base = m_seg_base s 6;
          old_tr_limit = tss_limits (m_seg_access s 6 AND 0x1F) in
      seq (check (sel AND 4 = 0) 10 offset s) (\<lambda>_ s.
      seq (check (\<not> sint (cpu_seg_get_limit info) \<le> sint (tss_limits (task_code ty))) 10 offset s) (\<lambda>_ s.
      with_flags s (\<lambda>old_eflags s.
      seq (cpu_access_verify tr_base (tr_base + old_tr_limit) 0 s) (\<lambda>_ s.
      seq (cpu_access_verify tr_base (tr_base + old_tr_limit) 2 s) (\<lambda>_ s. Ok old_eflags s))))))"

definition task_leave :: "u32 \<Rightarrow> seg_desc \<Rightarrow> task_type \<Rightarrow> u32 \<Rightarrow> u32 \<Rightarrow> 'd cpu_mem \<Rightarrow> (unit, 'd cpu_mem) outcome" where
  "task_leave sel info ty eip old_eflags s =
     (let tr_base = m_seg_base s 6; segid = (if sel AND 4 \<noteq> 0 then 8 else 7); back = ty \<in> {Task_jmp, Task_iret} in
      seq (if back then
             if tr_base = - 1 then Abort
             else tss_mark (m_seg_base s segid + (ucast (m_seg s 6) AND NOT 7) + 5) (\<lambda>v. v AND NOT 2) s
           else Ok () s) (\<lambda>_ s.
      seq (tss_save (tss_is_386 (desc_type info)) tr_base eip
             (if ty = Task_iret then old_eflags AND NOT 0x4000 else old_eflags) s) (\<lambda>_ s.
      if \<not> back then mem_write16 2 tr_base (ucast (m_seg s 6)) s else Ok () s)))"

definition task_mark_busy :: "u32 \<Rightarrow> task_type \<Rightarrow> 'd cpu_mem \<Rightarrow> (unit, 'd cpu_mem) outcome" where
  "task_mark_busy sel ty s =
     (if ty \<in> {Task_jmp, Task_iret} then
        let segid = (if sel AND 4 \<noteq> 0 then 8 else 7) in
        if cpu_seg_descriptor_address (Some 7) (ucast sel) s = - 1 then Abort
        else tss_mark (m_seg_base s segid + (sel AND NOT 7) + 5) (\<lambda>v. v OR 2) s
      else Ok () s)"

text \<open>The register state of the new task; in virtual-8086 mode the segments are paragraphs.\<close>

definition task_enter :: "u32 \<Rightarrow> seg_desc \<Rightarrow> task_context \<Rightarrow> 'd cpu_mem \<Rightarrow> 'd cpu_mem" where
  "task_enter sel info tc s =
     (let is_386 = tss_is_386 (desc_type info);
          s = s\<lparr>m_cr := (m_cr s)(0 := m_cr s 0 OR 8),
                m_seg := (m_seg s)(6 := ucast sel),
                m_seg_base := (m_seg_base s)(6 := cpu_seg_get_base info),
                m_seg_limit := (m_seg_limit s)(6 := cpu_seg_get_limit info),
                m_seg_access := (m_seg_access s)(6 := desc_access info AND NOT 2)\<rparr>;
          s = (if is_386 \<and> tc_cr3 tc \<noteq> m_cr s 3 then cpu_prot_set_cr 3 (tc_cr3 tc) s else s);
          s = set_virt_eip (tc_eip tc) s;
          eflags_mask = (if is_386 then - 1 else 0xFFFF);
          s = cpu_set_eflags ((tc_eflags tc AND eflags_mask) OR (m_eflags s AND NOT eflags_mask)) s;
          s = fold (\<lambda>i s. set_reg32 i (tc_reg32 tc i) s) [0..<8] s;
          s = (if tc_eflags tc AND 0x20000 \<noteq> 0
               then (fold (\<lambda>i s. cpu_seg_load_virtual i (ucast (tc_seg tc i)) s) [0..<6] s)\<lparr>m_cpl := 3\<rparr>
               else (fold (\<lambda>i s. s\<lparr>m_seg := (m_seg s)(i := ucast (tc_seg tc i))\<rparr>) [0..<6] s)
                      \<lparr>m_cpl := tc_seg tc 1 AND 3\<rparr>)
      in fold (\<lambda>i s. set_reg32 i (tc_reg32 tc i) s) [0..<8] s)"

definition task_load_ldt :: "u32 \<Rightarrow> u32 \<Rightarrow> 'd cpu_mem \<Rightarrow> (unit, 'd cpu_mem) outcome" where
  "task_load_ldt sel ldt s =
     (let ldt_offset = ldt AND 0xFFFC in
      seq (check (ldt AND 4 = 0) 10 (sel AND 0xFFFC) s) (\<lambda>_ s.
      if ldt_offset = 0 then Ok () s
      else seq (fetch_descriptor2 7 ldt 10 ldt_offset s) (\<lambda>info s.
           seq (check (desc_type info = 2) 10 ldt_offset s) (\<lambda>_ s.
           seq (check (desc_present info) 10 ldt_offset s) (\<lambda>_ s.
             Ok () (s\<lparr>m_seg := (m_seg s)(8 := ucast ldt),
                     m_seg_base := (m_seg_base s)(8 := cpu_seg_get_base info),
                     m_seg_limit := (m_seg_limit s)(8 := cpu_seg_get_limit info),
                     m_seg_access := (m_seg_access s)(8 := desc_access info)\<rparr>))))))"

text \<open>The checks of a segment register of the new task, by register and descriptor type.\<close>

definition task_segment_ok :: "nat \<Rightarrow> u32 \<Rightarrow> seg_desc \<Rightarrow> 'd cpu_mem \<Rightarrow> bool" where
  "task_segment_ok i sel info s \<longleftrightarrow>
     (let ty = desc_type info; dpl = desc_dpl info; rpl = sel AND 3 in
      if i = 1 then 0x18 \<le> ty \<and> ty \<le> 0x1B \<and> dpl = rpl \<or> 0x1C \<le> ty \<and> \<not> rpl < dpl
      else if i = 2 then writable_data info \<and> (m_cpl s = rpl \<or> m_cpl s = dpl)
      else 0x10 \<le> ty \<and> ty \<le> 0x17 \<and> \<not> (dpl < rpl \<or> dpl < m_cpl s)
           \<or> (ty = 0x1A \<or> ty = 0x1B) \<and> \<not> (dpl < rpl \<or> dpl < m_cpl s)
           \<or> ty = 0x1E \<or> ty = 0x1F)"

definition task_load_segment :: "nat \<Rightarrow> u32 \<Rightarrow> 'd cpu_mem \<Rightarrow> (unit, 'd cpu_mem) outcome" where
  "task_load_segment i sel s =
     (let sel_offs = sel AND 0xFFFC in
      if sel_offs = 0 then
        if i = 1 \<or> i = 2 then raise_code 10 0 s
        else Ok () (s\<lparr>m_seg_base := (m_seg_base s)(i := 0), m_seg_limit := (m_seg_limit s)(i := 0),
                     m_seg_access := (m_seg_access s)(i := 0)\<rparr>)
      else seq (fetch_descriptor sel 10 sel_offs s) (\<lambda>info s.
           seq (check (desc_present info) 10 sel_offs s) (\<lambda>_ s.
           seq (check (task_segment_ok i sel info s) 10 sel_offs s) (\<lambda>_ s.
           load_segment i sel info s))))"

definition do_task_switch :: "u32 \<Rightarrow> seg_desc \<Rightarrow> task_type \<Rightarrow> u32 \<Rightarrow> 'd cpu_mem \<Rightarrow> (unit, 'd cpu_mem) outcome" where
  "do_task_switch sel info ty eip s =
     seq (task_switch_checks sel info ty s) (\<lambda>old_eflags s.
     seq (task_leave sel info ty eip old_eflags s) (\<lambda>_ s.
     seq (tss_fetch (tss_is_386 (desc_type info)) (cpu_seg_get_base info) s) (\<lambda>tc s.
     seq (task_mark_busy sel ty s) (\<lambda>_ s.
     seq (task_load_ldt sel (tc_ldt tc) (task_enter sel info tc s)) (\<lambda>_ s.
     each_write (\<lambda>i s. task_load_segment i (tc_seg tc i) s) [0..<6] s)))))"

end
