(* ===== verification/Ctrl_Int.thy ===== *)
theory Ctrl_Int
  imports Ctrl_Base
begin

text \<open>
  Model of src/src/cpu/ctrlflow.cpp, part two: the delivery of an interrupt or exception
  (\<open>cpu_interrupt\<close>: redirection in virtual-8086 mode, task, interrupt and trap gates,
  the vector table of real mode) and the loop around it that turns a fault of the delivery
  into a double fault (\<open>cpu_exception\<close>).
\<close>

section \<open>Virtual-8086 redirection\<close>

datatype intr_type = Intr_exception | Intr_software | Intr_hardware

definition ext_bits :: "u32 \<Rightarrow> bool \<Rightarrow> intr_type \<Rightarrow> u32" where
  "ext_bits sel idt ty = sel OR (if idt then 2 else 0) OR of_bool (ty = Intr_hardware)"

definition redirected_flags :: "u32 \<Rightarrow> 'd cpu_mem \<Rightarrow> u32" where
  "redirected_flags flags s =
     (if iopl s < 3 then
        let flags = flags AND NOT 0x200; flags = flags OR (if flags AND 0x80000 \<noteq> 0 then 0x200 else 0)
        in flags OR 0x3000
      else flags)"

text \<open>The byte of the redirection bitmap; a clear bit sends the interrupt to the real-mode handler.\<close>

definition v86_redirection :: "u32 \<Rightarrow> 'd cpu_mem \<Rightarrow> (u8, 'd cpu_mem) outcome" where
  "v86_redirection vector s =
     seq (check (\<not> m_seg_limit s 6 < 0x67) 13 0 s) (\<lambda>_ s.
     seq (mem_read16 0 (m_seg_base s 6 + 0x66) s) (\<lambda>index s.
     mem_read8 0 (ucast index - 1 - drop_bit 3 (NOT vector AND 0xFF) + m_seg_base s 6) s))"

definition v86_interrupt :: "u32 \<Rightarrow> u32 \<Rightarrow> 'd cpu_mem \<Rightarrow> (unit, 'd cpu_mem) outcome" where
  "v86_interrupt vector eip_to_push s =
     with_flags s (\<lambda>fl s.
       let flags_image = redirected_flags fl s in
       seq (mem_read32 0 (push_bit 2 vector) s) (\<lambda>idt_entry s.
       let new_eip = idt_entry AND 0xFFFF; new_cs = drop_bit 16 idt_entry AND 0xFFFF in
       seq (frame_push_all False [flags_image, ucast (m_seg s 1), eip_to_push] (frame_here 6 s) s) (\<lambda>fr s.
       let bit_to_mask_out = (if iopl s = 3 then 0x200 else 0x80000);
           s = s\<lparr>m_eflags := m_eflags s AND NOT (bit_to_mask_out OR 0x100)\<rparr> in
       seq (cpu_load_csip_virtual (ucast new_cs) new_eip s) (\<lambda>_ s.
       Ok () (frame_commit fr s)))))"

section \<open>Task gates\<close>

text \<open>
  The error code goes to the stack of the new task; the stack pointer is not moved, since
  the frame is dropped.
\<close>

definition task_gate_interrupt ::
  "seg_desc \<Rightarrow> u32 \<Rightarrow> u32 \<Rightarrow> intr_type \<Rightarrow> u32 \<Rightarrow> 'd cpu_mem \<Rightarrow> (unit, 'd cpu_mem) outcome" where
  "task_gate_interrupt idt_entry offset error_code ty eip_to_push s =
     (let tss_selector = cpu_seg_gate_target_segment idt_entry; tss_offset = tss_selector AND 0xFFFC;
          code = ext_bits tss_offset False ty in
      seq (check (desc_present idt_entry) 11 (ext_bits offset True ty) s) (\<lambda>_ s.
      seq (check (tss_selector AND 4 = 0) 10 code s) (\<lambda>_ s.
      seq (fetch_descriptor tss_selector 13 code s) (\<lambda>tss_entry s.
      seq (check (desc_type tss_entry AND 0x10 = 0) 13 code s) (\<lambda>_ s.
      seq (check (desc_present tss_entry) 11 code s) (\<lambda>_ s.
      seq (do_task_switch tss_selector tss_entry Task_int eip_to_push s) (\<lambda>_ s.
      if error_code AND 0x10000 \<noteq> 0
      then seq (frame_push False (error_code AND 0xFFFF) (frame_here 2 s) s) (\<lambda>_ s. Ok () s)
      else Ok () s)))))))"

section \<open>Interrupt and trap gates\<close>

definition is_386_gate :: "seg_desc \<Rightarrow> bool" where
  "is_386_gate gate \<longleftrightarrow> desc_type gate AND 8 \<noteq> 0"

definition null_segment :: "nat \<Rightarrow> 'd cpu_mem \<Rightarrow> 'd cpu_mem" where
  "null_segment i s =
     s\<lparr>m_seg := (m_seg s)(i := 0), m_seg_limit := (m_seg_limit s)(i := 0),
       m_seg_base := (m_seg_base s)(i := 0), m_seg_access := (m_seg_access s)(i := 0)\<rparr>"

text \<open>The frame on the inner stack: the data segments when virtual-8086 mode is left, then SS:ESP.\<close>

definition push_outer_stack :: "bool \<Rightarrow> frame \<Rightarrow> 'd cpu_mem \<Rightarrow> (frame, 'd cpu_mem) outcome" where
  "push_outer_stack wide fr s =
     (let old_esp = get_reg32 4 s; old_ss = ucast (m_seg s 2) in
      seq (if v86 s then
             seq (frame_push_all wide [ucast (m_seg s 5), ucast (m_seg s 4), ucast (m_seg s 3), ucast (m_seg s 0)] fr s)
               (\<lambda>fr s. Ok fr (null_segment 0 (null_segment 3 (null_segment 4 (null_segment 5 s)))))
           else Ok fr s)
        (\<lambda>fr s. frame_push_all wide [old_ss, old_esp] fr s))"

definition inner_stack_ok :: "u32 \<Rightarrow> u32 \<Rightarrow> seg_desc \<Rightarrow> bool" where
  "inner_stack_ok dpl ss info \<longleftrightarrow> ss AND 3 = dpl \<and> desc_dpl info = dpl"

text \<open>Entering a more privileged level: the stack of that level comes from the task state segment.\<close>

definition gate_inner_stack ::
  "bool \<Rightarrow> u32 \<Rightarrow> u32 \<Rightarrow> intr_type \<Rightarrow> 'd cpu_mem \<Rightarrow> (frame \<times> u32 \<times> seg_desc, 'd cpu_mem) outcome" where
  "gate_inner_stack wide dpl cs_code ty s =
     seq (check (dpl = 0 \<or> \<not> v86 s) 13 cs_code s) (\<lambda>_ s.
     seq (get_tss_esp dpl s) (\<lambda>esp s.
     seq (get_tss_ss dpl s) (\<lambda>ss s.
     let ss_offset = ss AND 0xFFFC; code = ext_bits ss_offset False ty in
     seq (check (ss_offset \<noteq> 0) 10 code s) (\<lambda>_ s.
     seq (fetch_descriptor ss 10 code s) (\<lambda>ss_info s.
     seq (check (inner_stack_ok dpl ss ss_info) 10 code s) (\<lambda>_ s.
     seq (check (writable_data ss_info) 10 code s) (\<lambda>_ s.
     seq (check (desc_present ss_info) 12 code s) (\<lambda>_ s.
     let esp_mask = desc_esp_mask ss_info;
         esp = (esp AND esp_mask) OR (get_reg32 4 s AND NOT esp_mask);
         fr = frame_at esp (cpu_seg_get_base ss_info) esp_mask (cpl_to_TLB_write dpl) in
     seq (push_outer_stack wide fr s) (\<lambda>fr s. Ok (fr, ss, ss_info) s)))))))))"

definition gate_same_stack :: "u32 \<Rightarrow> u32 \<Rightarrow> 'd cpu_mem \<Rightarrow> (frame, 'd cpu_mem) outcome" where
  "gate_same_stack dpl cs_code s =
     seq (check (dpl = m_cpl s \<or> \<not> v86 s) 13 cs_code s) (\<lambda>_ s. Ok (frame_here (cpl_to_TLB_write dpl) s) s)"

text \<open>The frame of the interrupted code, with the error code if there is one.\<close>

definition push_interrupted :: "bool \<Rightarrow> u32 \<Rightarrow> u32 \<Rightarrow> frame \<Rightarrow> 'd cpu_mem \<Rightarrow> (frame, 'd cpu_mem) outcome" where
  "push_interrupted wide error_code eip_to_push fr s =
     with_flags s (\<lambda>fl s.
       frame_push_all wide
         ([fl, ucast (m_seg s 1), eip_to_push] @ (if error_code AND 0x10000 \<noteq> 0 then [error_code AND 0xFFFF] else []))
         fr s)"

text \<open>The checks of the gate and of the code segment it names.\<close>

definition gate_code_segment ::
  "seg_desc \<Rightarrow> u32 \<Rightarrow> intr_type \<Rightarrow> 'd cpu_mem \<Rightarrow> (seg_desc, 'd cpu_mem) outcome" where
  "gate_code_segment idt_entry offset ty s =
     (let cs = cpu_seg_gate_target_segment idt_entry; cs_offset = cs AND 0xFFFC;
          code = ext_bits cs_offset False ty in
      seq (check (ty \<noteq> Intr_software \<or> \<not> desc_dpl idt_entry < m_cpl s) 13 (ext_bits offset True ty) s) (\<lambda>_ s.
      seq (check (desc_present idt_entry) 11 (ext_bits offset False ty) s) (\<lambda>_ s.
      seq (check (cs_offset \<noteq> 0) 13 (ext_bits 0 False ty) s) (\<lambda>_ s.
      seq (fetch_descriptor cs 13 code s) (\<lambda>cs_info s.
      seq (check (0x18 \<le> desc_type cs_info) 13 code s) (\<lambda>_ s.
      seq (check (\<not> m_cpl s < desc_dpl cs_info) 13 code s) (\<lambda>_ s.
      seq (check (desc_present idt_entry) 11 code s) (\<lambda>_ s.
      Ok cs_info s))))))))"

definition enter_handler :: "seg_desc \<Rightarrow> 'd cpu_mem \<Rightarrow> 'd cpu_mem" where
  "enter_handler idt_entry s =
     (let s = cpu_prot_update_cpl (s\<lparr>m_eflags := m_eflags s AND NOT (0x100 OR 0x20000 OR 0x10000 OR 0x4000)\<rparr>) in
      if desc_type idt_entry AND 1 = 0 then s\<lparr>m_eflags := m_eflags s AND NOT 0x200\<rparr> else s)"

definition gate_interrupt ::
  "seg_desc \<Rightarrow> u32 \<Rightarrow> u32 \<Rightarrow> intr_type \<Rightarrow> u32 \<Rightarrow> 'd cpu_mem \<Rightarrow> (unit, 'd cpu_mem) outcome" where
  "gate_interrupt idt_entry offset error_code ty eip_to_push s =
     (let cs = cpu_seg_gate_target_segment idt_entry; eip = cpu_seg_gate_target_offset idt_entry;
          code = ext_bits (cs AND 0xFFFC) False ty; wide = is_386_gate idt_entry in
      seq (gate_code_segment idt_entry offset ty s) (\<lambda>cs_info s.
      let dpl = desc_dpl cs_info in
      if desc_type cs_info \<le> 0x1B \<and> dpl \<noteq> m_cpl s then
        seq (gate_inner_stack wide dpl code ty s) (\<lambda>(fr, ss, ss_info) s.
        seq (push_interrupted wide error_code eip_to_push fr s) (\<lambda>fr s.
        seq (load_segment 2 ((ss AND NOT 3) OR dpl) ss_info (frame_commit fr s)) (\<lambda>_ s.
        seq (cpu_load_csip_protected (ucast ((cs AND NOT 3) OR dpl)) cs_info eip s) (\<lambda>_ s.
        Ok () (enter_handler idt_entry s)))))
      else
        seq (gate_same_stack dpl code s) (\<lambda>fr s.
        seq (push_interrupted wide error_code eip_to_push fr s) (\<lambda>fr s.
        let s = frame_commit fr s in
        seq (cpu_load_csip_protected (ucast ((cs AND NOT 3) OR m_cpl s)) cs_info eip s) (\<lambda>_ s.
        Ok () (enter_handler idt_entry s))))))"

definition protected_interrupt ::
  "u32 \<Rightarrow> u32 \<Rightarrow> intr_type \<Rightarrow> u32 \<Rightarrow> 'd cpu_mem \<Rightarrow> (unit, 'd cpu_mem) outcome" where
  "protected_interrupt vector error_code ty eip_to_push s =
     (let offset = push_bit 3 vector; code = ext_bits offset True ty in
      seq (fetch_descriptor2 9 offset 13 code s) (\<lambda>idt_entry s.
      if desc_type idt_entry = 5 then task_gate_interrupt idt_entry offset error_code ty eip_to_push s
      else if desc_type idt_entry \<in> {6, 14, 7, 15} then gate_interrupt idt_entry offset error_code ty eip_to_push s
      else raise_code 13 code s))"

section \<open>Real mode\<close>

definition vector_entry :: "u32 \<Rightarrow> 'd cpu_mem \<Rightarrow> u16 \<times> u16" where
  "vector_entry vector s = (ram_get16 (push_bit 2 vector + 2) s, ram_get16 (push_bit 2 vector) s)"

definition real_interrupt :: "u32 \<Rightarrow> u32 \<Rightarrow> 'd cpu_mem \<Rightarrow> (unit, 'd cpu_mem) outcome" where
  "real_interrupt vector eip_to_push s =
     with_flags s (\<lambda>fl s.
       seq (frame_push_all False [fl AND 0xFFFF, ucast (m_seg s 1), eip_to_push] (frame_here 2 s) s) (\<lambda>fr s.
       let s = frame_commit fr s in
       if \<not> ram_ok 4 (push_bit 2 vector) s then Abort
       else
         let (cs, eip) = vector_entry vector s in
         seq (cpu_load_csip_real cs (ucast eip) s) (\<lambda>_ s.
         Ok () (s\<lparr>m_eflags := m_eflags s AND NOT (0x200 OR 0x100 OR 0x40000)\<rparr>))))"

section \<open>Delivery\<close>

definition cpu_interrupt ::
  "u32 \<Rightarrow> u32 \<Rightarrow> intr_type \<Rightarrow> u32 \<Rightarrow> 'd cpu_mem \<Rightarrow> (unit, 'd cpu_mem) outcome" where
  "cpu_interrupt vector error_code ty eip_to_push s =
     (if \<not> bit (m_cr s 0) 0 then real_interrupt vector eip_to_push s
      else if v86 s \<and> ty = Intr_software then
        if bit (m_cr s 4) 0 then
          seq (v86_redirection vector s) (\<lambda>entry s.
            if \<not> bit entry (unat (vector AND 7)) then v86_interrupt vector eip_to_push s
            else protected_interrupt vector error_code ty eip_to_push s)
        else if iopl s < 3 then raise_code 13 0 s
        else protected_interrupt vector error_code ty eip_to_push s
      else protected_interrupt vector error_code ty eip_to_push s)"

text \<open>
  \<open>cpu_exception\<close>, with \<open>m_current_exception\<close> as the first argument (\<open>None\<close> for -1).
  A fault of the delivery calls the function again, from inside, with the exception marked as
  current; when that call has returned, the loop goes round. Each call and each round moves
  the mark towards the double fault, and a double fault that faults stops the emulator.
\<close>

function exception_run :: "u32 option \<Rightarrow> u32 \<Rightarrow> u32 \<Rightarrow> 'd cpu_mem \<Rightarrow> 'd cpu_mem option" where
  "exception_run current vec code s =
     (if current = Some 8 then None
      else
        let vec = (if current = None then vec else 8); code = (if current = None then code else 0x10000) in
        case cpu_interrupt vec code Intr_exception (virt_eip s) s of
          Ok _ s \<Rightarrow> Some s
        | Abort \<Rightarrow> None
        | Fault v c s \<Rightarrow>
            (case exception_run (Some vec) v c s of
               None \<Rightarrow> None
             | Some s \<Rightarrow> exception_run (Some vec) vec code s))"
  by pat_completeness auto

termination
  by (relation "measure (\<lambda>(current, _). case current of None \<Rightarrow> 2 | Some v \<Rightarrow> if v = 8 then 0 else 1)")
    (auto split: option.splits if_splits)

declare exception_run.simps [simp del]

definition cpu_exception :: "u32 \<Rightarrow> u32 \<Rightarrow> 'd cpu_mem \<Rightarrow> 'd cpu_mem option" where
  "cpu_exception vec code s = exception_run None vec code s"

end
