(* ===== verification/Ctrl_Far.thy ===== *)
theory Ctrl_Far
  imports Ctrl_Int
begin

text \<open>
  Model of src/src/cpu/ctrlflow.cpp, part three: the far transfers, \<open>jmpf\<close>,
  \<open>callf\<close>, \<open>retf\<close>, \<open>iret\<close>, and the fast system calls.
\<close>

section \<open>Far jumps\<close>

definition real_or_v86 :: "'d cpu_mem \<Rightarrow> bool" where
  "real_or_v86 s \<longleftrightarrow> \<not> bit (m_cr s 0) 0 \<or> v86 s"

definition is_code :: "u32 \<Rightarrow> bool" where
  "is_code ty \<longleftrightarrow> 0x18 \<le> ty \<and> ty \<le> 0x1B"

definition is_conforming :: "u32 \<Rightarrow> bool" where
  "is_conforming ty \<longleftrightarrow> 0x1C \<le> ty \<and> ty \<le> 0x1F"

definition gate_accessible :: "u32 \<Rightarrow> u32 \<Rightarrow> 'd cpu_mem \<Rightarrow> bool" where
  "gate_accessible dpl rpl s \<longleftrightarrow> \<not> (dpl < m_cpl s \<or> dpl < rpl)"

text \<open>A jump through a call gate stays at its privilege level.\<close>

definition jmpf_gate :: "seg_desc \<Rightarrow> 'd cpu_mem \<Rightarrow> (unit, 'd cpu_mem) outcome" where
  "jmpf_gate info s =
     (let gate_cs = cpu_seg_gate_target_segment info; gate_eip = cpu_seg_gate_target_offset info;
          gate_cs_offset = gate_cs AND NOT 3 in
      seq (fetch_descriptor gate_cs 13 gate_cs_offset s) (\<lambda>gate_info s.
      let dpl = desc_dpl gate_info; ty = desc_type gate_info in
      seq (check (is_conforming ty \<and> \<not> m_cpl s < dpl \<or> is_code ty \<and> dpl = m_cpl s) 13 gate_cs_offset s) (\<lambda>_ s.
      seq (check (desc_present gate_info) 11 gate_cs_offset s) (\<lambda>_ s.
      cpu_load_csip_protected (ucast (gate_cs_offset OR m_cpl s)) gate_info
        (gate_eip AND (if desc_type info = 12 then - 1 else 0xFFFF)) s))))"

text \<open>A descriptor of another type falls through the switch: the jump does nothing.\<close>

definition jmpf :: "u32 \<Rightarrow> u32 \<Rightarrow> u32 \<Rightarrow> 'd cpu_mem \<Rightarrow> (unit, 'd cpu_mem) outcome" where
  "jmpf eip cs eip_after s =
     (if real_or_v86 s then cpu_load_csip_real (ucast cs) eip s
      else
        let offset = cs AND NOT 3; rpl = cs AND 3 in
        seq (check (offset \<noteq> 0) 13 0 s) (\<lambda>_ s.
        seq (fetch_descriptor cs 13 offset s) (\<lambda>info s.
        seq (check (desc_present info) 11 offset s) (\<lambda>_ s.
        let dpl = desc_dpl info; ty = desc_type info in
        if is_code ty then
          seq (check (\<not> (m_cpl s < rpl \<or> dpl \<noteq> m_cpl s)) 13 offset s) (\<lambda>_ s.
          cpu_load_csip_protected (ucast (offset OR m_cpl s)) info eip s)
        else if is_conforming ty then
          seq (check (\<not> m_cpl s < dpl) 13 offset s) (\<lambda>_ s.
          cpu_load_csip_protected (ucast (offset OR m_cpl s)) info eip s)
        else if ty = 4 \<or> ty = 12 then
          seq (check (gate_accessible dpl rpl s) 13 offset s) (\<lambda>_ s. jmpf_gate info s)
        else if ty = 1 \<or> ty = 9 then
          seq (check (gate_accessible dpl rpl s) 13 offset s) (\<lambda>_ s. do_task_switch cs info Task_jmp eip_after s)
        else if ty = 5 then
          seq (check (gate_accessible dpl rpl s) 13 offset s) (\<lambda>_ s.
          seq (load_tss_from_task_gate info s) (\<lambda>(cs, info) s.
          do_task_switch cs info Task_jmp eip_after s))
        else Ok () s))))"

section \<open>Far calls\<close>

definition call_gate_read_param :: "bool \<Rightarrow> u32 \<Rightarrow> nat \<Rightarrow> 'd cpu_mem \<Rightarrow> (u32, 'd cpu_mem) outcome" where
  "call_gate_read_param wide addr shift s =
     (if wide then
        seq (check (\<not> m_seg_limit s 2 < addr + 3) 12 0 s) (\<lambda>_ s. mem_read32 shift (addr + m_seg_base s 2) s)
      else
        seq (check (\<not> m_seg_limit s 2 < addr + 1) 12 0 s) (\<lambda>_ s. mem_read16_raw shift (addr + m_seg_base s 2) s))"

text \<open>
  The parameters of a call gate are read from the outer stack, the last one first; the
  access kind is the privilege level of the gate's code segment, a number below 3.
\<close>

fun read_params :: "bool \<Rightarrow> u32 \<Rightarrow> nat \<Rightarrow> nat list \<Rightarrow> 'd cpu_mem \<Rightarrow> (u32 list, 'd cpu_mem) outcome" where
  "read_params wide old_esp shift [] s = Ok [] s"
| "read_params wide old_esp shift (i # is) s =
     seq (call_gate_read_param wide ((old_esp + push_bit (if wide then 2 else 1) (of_nat i)) AND m_esp_mask s) shift s)
       (\<lambda>v s. seq (read_params wide old_esp shift is s) (\<lambda>vs s. Ok (v # vs) s))"

definition callf_inner ::
  "seg_desc \<Rightarrow> u32 \<Rightarrow> seg_desc \<Rightarrow> u32 \<Rightarrow> 'd cpu_mem \<Rightarrow> (unit, 'd cpu_mem) outcome" where
  "callf_inner info gate_cs gate_info oldeip s =
     (let gate_dpl = desc_dpl gate_info; wide = (desc_type info = 12) in
      seq (get_tss_ss gate_dpl s) (\<lambda>ss s.
      seq (get_tss_esp gate_dpl s) (\<lambda>esp s.
      let ss_offset = ss AND 0xFFFC in
      seq (check (ss_offset \<noteq> 0) 10 0 s) (\<lambda>_ s.
      seq (fetch_descriptor ss 10 ss_offset s) (\<lambda>ss_info s.
      seq (check (gate_dpl = desc_dpl ss_info) 10 ss_offset s) (\<lambda>_ s.
      seq (check (writable_data ss_info) 10 ss_offset s) (\<lambda>_ s.
      seq (check (desc_present ss_info) 10 ss_offset s) (\<lambda>_ s.
      let ss_mask = desc_esp_mask ss_info; old_esp = get_reg32 4 s AND m_esp_mask s in
      seq (read_params wide old_esp (unat gate_dpl) (rev [0..<unat (cpu_seg_gate_parameter_count info)]) s) (\<lambda>params s.
      let esp = (esp AND ss_mask) OR (get_reg32 4 s AND NOT ss_mask);
          fr = frame_at esp (cpu_seg_get_base ss_info) ss_mask (cpl_to_TLB_write gate_dpl) in
      seq (frame_push_all wide ([ucast (m_seg s 2), old_esp] @ params @ [ucast (m_seg s 1), oldeip]) fr s) (\<lambda>fr s.
      seq (load_segment 2 ((ss AND NOT 3) OR gate_dpl) ss_info s) (\<lambda>_ s.
      cpu_load_csip_protected (ucast ((gate_cs AND NOT 3) OR gate_dpl)) gate_info
        (cpu_seg_gate_target_offset info) (frame_commit fr s))))))))))))"

definition callf_same ::
  "bool \<Rightarrow> u32 \<Rightarrow> seg_desc \<Rightarrow> u32 \<Rightarrow> u32 \<Rightarrow> 'd cpu_mem \<Rightarrow> (unit, 'd cpu_mem) outcome" where
  "callf_same wide cs info eip oldeip s =
     seq (frame_push_all wide [ucast (m_seg s 1), oldeip] (frame_here (m_tlb_shift_write s) s) s) (\<lambda>fr s.
     seq (cpu_load_csip_protected (ucast ((cs AND NOT 3) OR m_cpl s)) info eip s) (\<lambda>_ s.
     Ok () (frame_commit fr s)))"

definition callf_gate :: "seg_desc \<Rightarrow> u32 \<Rightarrow> 'd cpu_mem \<Rightarrow> (unit, 'd cpu_mem) outcome" where
  "callf_gate info oldeip s =
     (let gate_cs = cpu_seg_gate_target_segment info; gate_cs_offset = gate_cs AND 0xFFFC in
      seq (check (gate_cs_offset \<noteq> 0) 13 0 s) (\<lambda>_ s.
      seq (fetch_descriptor gate_cs 13 gate_cs_offset s) (\<lambda>gate_info s.
      let ty = desc_type gate_info; dpl = desc_dpl gate_info in
      if is_code ty \<and> dpl < m_cpl s then callf_inner info gate_cs gate_info oldeip s
      else if is_code ty \<and> m_cpl s < dpl then raise_code 13 gate_cs_offset s
      else if is_code ty \<or> is_conforming ty then
        callf_same (desc_type info = 12) gate_cs gate_info (cpu_seg_gate_target_offset info) oldeip s
      else raise_code 13 gate_cs_offset s)))"

text \<open>
  A call of a task state segment passes the target offset where the return address belongs,
  and drops the result of the task switch; a call through a task gate is done as a jump.
\<close>

definition callf :: "u32 \<Rightarrow> u32 \<Rightarrow> u32 \<Rightarrow> bool \<Rightarrow> 'd cpu_mem \<Rightarrow> (unit, 'd cpu_mem) outcome" where
  "callf eip cs oldeip is32 s =
     (if \<not> real_or_v86 s then
        let cs = cs AND 0xFFFF; cs_offset = cs AND 0xFFFC; rpl = cs AND 3 in
        seq (check (cs_offset \<noteq> 0) 13 0 s) (\<lambda>_ s.
        seq (fetch_descriptor cs 13 cs_offset s) (\<lambda>info s.
        seq (check (desc_present info) 11 cs_offset s) (\<lambda>_ s.
        let dpl = desc_dpl info; ty = desc_type info in
        if is_conforming ty then
          seq (check (\<not> m_cpl s < dpl) 13 cs_offset s) (\<lambda>_ s. callf_same is32 cs info eip oldeip s)
        else if is_code ty then
          seq (check (\<not> (m_cpl s < rpl \<or> dpl \<noteq> m_cpl s)) 13 cs_offset s) (\<lambda>_ s. callf_same is32 cs info eip oldeip s)
        else if ty = 4 \<or> ty = 12 then
          seq (check (gate_accessible dpl rpl s) 13 cs_offset s) (\<lambda>_ s. callf_gate info oldeip s)
        else if ty = 1 \<or> ty = 9 then
          seq (check (gate_accessible dpl rpl s) 13 cs_offset s) (\<lambda>_ s. do_task_switch cs info Task_call eip s)
        else if ty = 5 then
          seq (check (gate_accessible dpl rpl s) 13 cs_offset s) (\<lambda>_ s.
          seq (load_tss_from_task_gate info s) (\<lambda>(cs, info) s. do_task_switch cs info Task_jmp eip s))
        else raise_code 13 cs_offset s)))
      else
        seq (frame_push_all is32 [ucast (m_seg s 1), oldeip] (frame_here (m_tlb_shift_write s) s) s) (\<lambda>fr s.
        let s = frame_commit fr s in
        if bit (m_cr s 0) 0 then cpu_load_csip_virtual (ucast cs) eip s else cpu_load_csip_real (ucast cs) eip s))"

section \<open>Returns\<close>

fun frame_pop_all :: "bool \<Rightarrow> nat \<Rightarrow> frame \<Rightarrow> 'd cpu_mem \<Rightarrow> (u32 list \<times> frame, 'd cpu_mem) outcome" where
  "frame_pop_all wide 0 fr s = Ok ([], fr) s"
| "frame_pop_all wide (Suc n) fr s =
     seq (frame_pop wide fr s) (\<lambda>(v, fr) s. seq (frame_pop_all wide n fr s) (\<lambda>(vs, fr) s. Ok (v # vs, fr) s))"

definition frame_skip :: "u32 \<Rightarrow> frame \<Rightarrow> frame" where
  "frame_skip n fr = fr\<lparr>fr_esp := (fr_esp fr + n) AND fr_mask fr\<rparr>"

text \<open>The code segment that a return names: never more privileged than the current level.\<close>

definition return_code_segment :: "u32 \<Rightarrow> 'd cpu_mem \<Rightarrow> (seg_desc, 'd cpu_mem) outcome" where
  "return_code_segment cs s =
     (let cs_offset = cs AND 0xFFFC; rpl = cs AND 3 in
      seq (check (cs_offset \<noteq> 0) 13 0 s) (\<lambda>_ s.
      seq (fetch_descriptor cs 13 cs_offset s) (\<lambda>info s.
      let dpl = desc_dpl info; ty = desc_type info in
      seq (check (\<not> rpl < m_cpl s) 13 cs_offset s) (\<lambda>_ s.
      seq (check (is_code ty \<and> dpl = rpl \<or> is_conforming ty \<and> \<not> rpl < dpl) 13 cs_offset s) (\<lambda>_ s.
      seq (check (desc_present info) 11 cs_offset s) (\<lambda>_ s.
      Ok info s))))))"

text \<open>
  The stack segment of an outer return; a segment that is not present is reported with the
  selector passed in last, which \<open>iret\<close> and \<open>retf\<close> choose differently.
\<close>

definition iret_stack_segment :: "u32 \<Rightarrow> u32 \<Rightarrow> u32 \<Rightarrow> 'd cpu_mem \<Rightarrow> (seg_desc, 'd cpu_mem) outcome" where
  "iret_stack_segment ss rpl absent s =
     (let ss_offset = ss AND 0xFFFC in
      seq (check (ss_offset \<noteq> 0) 13 0 s) (\<lambda>_ s.
      seq (fetch_descriptor ss 13 ss_offset s) (\<lambda>info s.
      seq (check (ss AND 3 = rpl) 13 ss_offset s) (\<lambda>_ s.
      seq (check (writable_data info) 13 ss_offset s) (\<lambda>_ s.
      seq (check (desc_dpl info = rpl) 13 ss_offset s) (\<lambda>_ s.
      seq (check (desc_present info) 11 absent s) (\<lambda>_ s.
      Ok info s)))))))"

definition retf_real :: "u32 \<Rightarrow> bool \<Rightarrow> 'd cpu_mem \<Rightarrow> (unit, 'd cpu_mem) outcome" where
  "retf_real adjust is32 s =
     seq (frame_pop_all is32 2 (frame_here (m_tlb_shift_write s) s) s) (\<lambda>(vs, fr) s.
     seq (check (virt_eip s < m_seg_limit s 1) 13 0 s) (\<lambda>_ s.
     let s = frame_commit (frame_skip adjust fr) s in
     if bit (m_cr s 0) 0 then cpu_load_csip_virtual (ucast (vs ! 1)) (vs ! 0) s
     else cpu_load_csip_real (ucast (vs ! 1)) (vs ! 0) s))"

definition retf_outer ::
  "u32 \<Rightarrow> u32 \<Rightarrow> u32 \<Rightarrow> seg_desc \<Rightarrow> bool \<Rightarrow> frame \<Rightarrow> 'd cpu_mem \<Rightarrow> (unit, 'd cpu_mem) outcome" where
  "retf_outer adjust eip cs cs_info is32 fr s =
     seq (frame_pop_all is32 2 (frame_skip adjust fr) s) (\<lambda>(ws, fr) s.
     let new_esp = ws ! 0; new_ss = (if is32 then ws ! 1 AND 0xFFFF else ws ! 1) in
     seq (iret_stack_segment new_ss (cs AND 3) (new_ss AND 0xFFFC) s) (\<lambda>ss_info s.
     seq (load_segment 2 new_ss ss_info s) (\<lambda>_ s.
     seq (cpu_load_csip_protected (ucast cs) cs_info eip s) (\<lambda>_ s.
     let esp_mask = desc_esp_mask ss_info in
     Ok () (set_reg32 4 (((new_esp + adjust) AND esp_mask) OR (get_reg32 4 s AND NOT esp_mask)) s)))))"

definition retf :: "u32 \<Rightarrow> bool \<Rightarrow> 'd cpu_mem \<Rightarrow> (unit, 'd cpu_mem) outcome" where
  "retf adjust is32 s =
     (if real_or_v86 s then retf_real adjust is32 s
      else
        seq (frame_pop_all is32 2 (frame_here (m_tlb_shift_write s) s) s) (\<lambda>(vs, fr) s.
        let eip = vs ! 0; cs = vs ! 1 AND 0xFFFF in
        seq (return_code_segment cs s) (\<lambda>cs_info s.
        if m_cpl s < cs AND 3 then retf_outer adjust eip cs cs_info is32 fr s
        else
          seq (cpu_load_csip_protected (ucast cs) cs_info eip s) (\<lambda>_ s.
          Ok () (frame_commit (frame_skip adjust fr) s)))))"

definition iret_handle_seg :: "nat \<Rightarrow> 'd cpu_mem \<Rightarrow> 'd cpu_mem" where
  "iret_handle_seg x s =
     (let access = m_seg_access s x AND 0xFFFF; ty = access AND 0x1F in
      if m_seg s x AND 0xFFFC = 0
         \<or> drop_bit 5 access AND 3 < m_cpl s \<and> (is_conforming ty \<or> 0x10 \<le> ty \<and> ty \<le> 0x17)
      then null_segment x s else s)"

text \<open>IRET in virtual-8086 mode, with full I/O privilege and with the virtual interrupt flag.\<close>

definition iret_v86 :: "bool \<Rightarrow> 'd cpu_mem \<Rightarrow> (unit, 'd cpu_mem) outcome" where
  "iret_v86 is32 s =
     (let fr = frame_here (m_tlb_shift_write s) s in
      if iopl s = 3 then
        seq (frame_pop_all is32 3 fr s) (\<lambda>(vs, fr) s.
        let eflags = vs ! 2; keep = (if is32 then 0x20000 OR 0x3000 OR 0x100000 OR 0x80000 else 0x3000 OR 0xFFFF0000) in
        seq (cpu_load_csip_virtual (ucast (vs ! 1)) (vs ! 0) (frame_commit fr s)) (\<lambda>_ s.
        Ok () (cpu_set_eflags ((eflags AND NOT keep) OR (m_eflags s AND keep)) s)))
      else if bit (m_cr s 4) 0 then
        if is32 then Abort
        else
          seq (frame_pop_all False 3 fr s) (\<lambda>(vs, fr) s.
          let eflags = vs ! 2; m = 0xFFFF XOR (0x3000 OR 0x200) in
          seq (check (\<not> (m_eflags s AND 0x100000 \<noteq> 0 \<and> eflags AND 0x200 \<noteq> 0 \<or> eflags AND 0x100 \<noteq> 0)) 13 0 s) (\<lambda>_ s.
          seq (cpu_load_csip_virtual (ucast (vs ! 1)) (vs ! 0) (frame_commit fr s)) (\<lambda>_ s.
          let s = s\<lparr>m_eflags := (if eflags AND 0x200 \<noteq> 0 then m_eflags s OR 0x80000 else m_eflags s AND NOT 0x80000)\<rparr> in
          Ok () (cpu_set_eflags ((eflags AND m) OR (m_eflags s AND NOT m)) s))))
      else raise_code 13 0 s)"

text \<open>The return from a nested task refuses a task whose descriptor is marked busy.\<close>

definition iret_task :: "u32 \<Rightarrow> 'd cpu_mem \<Rightarrow> (unit, 'd cpu_mem) outcome" where
  "iret_task tss_eip s =
     seq (mem_read16 0 (m_seg_base s 6) s) (\<lambda>link s.
     let back_link = ucast link; offset = back_link AND 0xFFFC in
     seq (check (back_link AND 4 = 0) 10 back_link s) (\<lambda>_ s.
     seq (fetch_descriptor2 7 back_link 10 offset s) (\<lambda>info s.
     seq (check (\<not> (desc_type info = 3 \<or> desc_type info = 11)) 10 offset s) (\<lambda>_ s.
     do_task_switch offset info Task_iret tss_eip s))))"

definition iret_to_v86 :: "u32 \<Rightarrow> u32 \<Rightarrow> u32 \<Rightarrow> frame \<Rightarrow> 'd cpu_mem \<Rightarrow> (unit, 'd cpu_mem) outcome" where
  "iret_to_v86 eip cs eflags fr s =
     seq (frame_pop_all True 6 fr s) (\<lambda>(vs, fr) s.
     let s = cpu_seg_load_virtual 0 (ucast (vs ! 2)) s; s = cpu_seg_load_virtual 3 (ucast (vs ! 3)) s;
         s = cpu_seg_load_virtual 4 (ucast (vs ! 4)) s; s = cpu_seg_load_virtual 5 (ucast (vs ! 5)) s;
         s = cpu_seg_load_virtual 2 (ucast (vs ! 1)) s in
     seq (cpu_load_csip_virtual (ucast cs) (eip AND 0xFFFF) s) (\<lambda>_ s.
     let s = set_reg32 4 (vs ! 0) s; s = cpu_set_eflags eflags s in
     Ok () (cpu_prot_update_cpl (s\<lparr>m_cpl := 3\<rparr>))))"

definition iret_flag_mask :: "u32 \<Rightarrow> bool \<Rightarrow> 'd cpu_mem \<Rightarrow> u32" where
  "iret_flag_mask old_cpl is32 s =
     (let flag_mask = 0x01 OR 0x04 OR 0x10 OR 0x40 OR 0x80 OR 0x100 OR 0x400 OR 0x800 OR 0x4000 OR 0x10000 OR 0x40000
            OR 0x200000;
          flag_mask = (if old_cpl \<le> iopl s then flag_mask OR 0x200 else flag_mask);
          flag_mask = (if old_cpl = 0 then flag_mask OR (0x3000 OR 0x80000 OR 0x100000) else flag_mask)
      in if is32 then flag_mask else flag_mask AND 0xFFFF)"

definition iret_flags :: "u32 \<Rightarrow> u32 \<Rightarrow> bool \<Rightarrow> 'd cpu_mem \<Rightarrow> 'd cpu_mem" where
  "iret_flags eflags old_cpl is32 s =
     (let flag_mask = iret_flag_mask old_cpl is32 s in
      cpu_set_eflags ((eflags AND flag_mask) OR (m_eflags s AND NOT flag_mask)) s)"

definition iret_outer :: "u32 \<Rightarrow> u32 \<Rightarrow> seg_desc \<Rightarrow> bool \<Rightarrow> frame \<Rightarrow> 'd cpu_mem \<Rightarrow> (unit, 'd cpu_mem) outcome" where
  "iret_outer eip cs cs_info is32 fr s =
     seq (frame_pop_all is32 2 fr s) (\<lambda>(vs, fr) s.
     let esp = vs ! 0; ss = (if is32 then vs ! 1 AND 0xFFFF else vs ! 1) in
     seq (iret_stack_segment ss (cs AND 3) (cs AND 0xFFFC) s) (\<lambda>ss_info s.
     let esp_mask = desc_esp_mask ss_info in
     seq (load_segment 2 ss ss_info s) (\<lambda>_ s.
     seq (cpu_load_csip_protected (ucast cs) cs_info eip s) (\<lambda>_ s.
     let s = set_reg32 4 ((esp AND esp_mask) OR (get_reg32 4 s AND NOT esp_mask)) s in
     Ok () (iret_handle_seg 3 (iret_handle_seg 5 (iret_handle_seg 4 (iret_handle_seg 0 s))))))))"

definition iret_protected :: "bool \<Rightarrow> 'd cpu_mem \<Rightarrow> (unit, 'd cpu_mem) outcome" where
  "iret_protected is32 s =
     (let old_cpl = m_cpl s in
      seq (frame_pop_all is32 3 (frame_here (m_tlb_shift_write s) s) s) (\<lambda>(vs, fr) s.
      let eip = vs ! 0; cs = (if is32 then vs ! 1 AND 0xFFFF else vs ! 1); eflags = vs ! 2 in
      if is32 \<and> eflags AND 0x20000 \<noteq> 0 \<and> m_cpl s = 0 then iret_to_v86 eip cs eflags fr s
      else
        seq (return_code_segment cs s) (\<lambda>cs_info s.
        if cs AND 3 \<noteq> m_cpl s then
          seq (iret_outer eip cs cs_info is32 fr s) (\<lambda>_ s. Ok () (iret_flags eflags old_cpl is32 s))
        else
          seq (cpu_load_csip_protected (ucast cs) cs_info eip s) (\<lambda>_ s.
          Ok () (iret_flags eflags old_cpl is32 (frame_commit fr s))))))"

definition iret_real :: "bool \<Rightarrow> 'd cpu_mem \<Rightarrow> (unit, 'd cpu_mem) outcome" where
  "iret_real is32 s =
     seq (frame_pop_all is32 3 (frame_here (m_tlb_shift_write s) s) s) (\<lambda>(vs, fr) s.
     let eflags = vs ! 2 in
     seq (cpu_load_csip_real (ucast (vs ! 1)) (vs ! 0) (frame_commit fr s)) (\<lambda>_ s.
     Ok () (cpu_set_eflags
       (if is32 then (eflags AND 0x257FD5) OR (m_eflags s AND 0x1A0000)
        else eflags OR (m_eflags s AND NOT 0xFFFF)) s)))"

definition iret :: "u32 \<Rightarrow> bool \<Rightarrow> 'd cpu_mem \<Rightarrow> (unit, 'd cpu_mem) outcome" where
  "iret tss_eip is32 s =
     (if \<not> bit (m_cr s 0) 0 then iret_real is32 s
      else if v86 s then iret_v86 is32 s
      else if m_eflags s AND 0x4000 \<noteq> 0 then iret_task tss_eip s
      else iret_protected is32 s)"

section \<open>Fast system calls\<close>

text \<open>The instruction pointer is reloaded as if the base of CS were zero.\<close>

definition f_reload_cs_base :: "'d cpu_mem \<Rightarrow> (unit, 'd cpu_mem) outcome" where
  "f_reload_cs_base s =
     (let eip = virt_eip s; tag = tag_at eip (m_tlb_shift_read s) s in
      if tag AND 2 \<noteq> 0 then Ok () (s\<lparr>m_last_phys_eip := m_phys_eip s + 0x1000\<rparr>)
      else case host_at eip s of
        None \<Rightarrow> Abort
      | Some p \<Rightarrow> Ok () (s\<lparr>m_phys_eip := p, m_last_phys_eip := p AND NOT 0xFFF, m_eip_phys_bias := eip - p\<rparr>))"

definition flat_segment :: "nat \<Rightarrow> u32 \<Rightarrow> u32 \<Rightarrow> 'd cpu_mem \<Rightarrow> 'd cpu_mem" where
  "flat_segment i sel access s =
     s\<lparr>m_seg := (m_seg s)(i := ucast sel), m_seg_base := (m_seg_base s)(i := 0),
       m_seg_limit := (m_seg_limit s)(i := - 1), m_seg_access := (m_seg_access s)(i := access)\<rparr>"

definition sys_transfer :: "u32 \<Rightarrow> u32 \<Rightarrow> u32 \<Rightarrow> u32 \<Rightarrow> u32 \<Rightarrow> u32 \<Rightarrow> u32 \<Rightarrow> 'd cpu_mem \<Rightarrow> (unit, 'd cpu_mem) outcome" where
  "sys_transfer eip esp cs cs_access ss ss_access cpl s =
     (let s = set_reg32 4 esp (set_virt_eip eip s);
          s = cpu_prot_update_cpl ((flat_segment 1 cs cs_access s)\<lparr>m_cpl := cpl\<rparr>);
          s = flat_segment 2 ss ss_access (s\<lparr>m_state_hash := 0\<rparr>)
      in f_reload_cs_base (s\<lparr>m_esp_mask := - 1\<rparr>))"

definition f_sysenter :: "'d cpu_mem \<Rightarrow> (unit, 'd cpu_mem) outcome" where
  "f_sysenter s =
     (let cs_offset = m_sysenter s 0 AND 0xFFFC in
      if \<not> bit (m_cr s 0) 0 \<or> cs_offset = 0 then raise_code 13 0 s
      else
        sys_transfer (m_sysenter s 2) (m_sysenter s 1) cs_offset (0x10 OR 0x0B OR 0x80 OR 0x8000)
          ((cs_offset + 8) AND 0xFFFC) (0x10 OR 0x03 OR 0x80 OR 0x8000 OR 0x4000) 0
          (s\<lparr>m_eflags := m_eflags s AND NOT (0x200 OR 0x20000)\<rparr>))"

definition sysexit :: "'d cpu_mem \<Rightarrow> (unit, 'd cpu_mem) outcome" where
  "sysexit s =
     (if \<not> bit (m_cr s 0) 0 \<or> m_sysenter s 0 AND 0xFFFC = 0 \<or> m_cpl s \<noteq> 0 then raise_code 13 0 s
      else
        sys_transfer (get_reg32 2 s) (get_reg32 1 s) ((m_sysenter s 0 OR 3) + 16) (0x10 OR 0x0B OR 0x80 OR 0x8000 OR 0x60)
          ((m_sysenter s 0 OR 3) + 24) (0x10 OR 0x03 OR 0x80 OR 0x8000 OR 0x4000 OR 0x60) 3 s)"

end
