(* ===== verification/Ctrl_Laws.thy ===== *)
theory Ctrl_Laws
  imports Ctrl_Far Frame_Laws
begin

text \<open>
  What holds of every control transfer that completes: the processor mode stays well-formed,
  a return never gains privilege, and the delivery of an exception ends.
\<close>

section \<open>Postconditions\<close>

definition post :: "('a, 'd cpu_mem) outcome \<Rightarrow> ('a \<Rightarrow> 'd cpu_mem \<Rightarrow> bool) \<Rightarrow> bool" where
  "post m Q \<longleftrightarrow> (\<forall>x t. m = Ok x t \<longrightarrow> Q x t)"

lemma post_simps [simp]: "post (Ok x t) Q = Q x t" "post Abort Q" "post (Fault v c t) Q" "post (raise_code v c t) Q"
  by (simp_all add: post_def raise_code_def)

lemma post_seq: "post m Q \<Longrightarrow> (\<And>x t. Q x t \<Longrightarrow> post (f x t) R) \<Longrightarrow> post (seq m f) R"
  by (cases m) auto

lemma post_if: "(c \<Longrightarrow> post a Q) \<Longrightarrow> (\<not> c \<Longrightarrow> post b Q) \<Longrightarrow> post (if c then a else b) Q"
  by simp

lemma post_mono: "post m Q \<Longrightarrow> (\<And>x t. Q x t \<Longrightarrow> R x t) \<Longrightarrow> post m R"
  by (simp add: post_def)

lemma post_keeps: "keeps s m \<Longrightarrow> (\<And>x t. same_arch s t \<Longrightarrow> R x t) \<Longrightarrow> post m R"
  by (cases m) auto

lemma post_keeps_seq: "keeps s m \<Longrightarrow> (\<And>x t. same_arch s t \<Longrightarrow> post (f x t) R) \<Longrightarrow> post (seq m f) R"
  by (cases m) auto

lemma post_check: "post (check c v code s) (\<lambda>_ t. t = s \<and> c)"
  by (simp add: check_def)

lemma keeps_check: "keeps s (check c v code s)"
  by (simp add: check_def keeps_raise)

lemma keeps_got: "keeps s (got_descriptor d s)"
  by (simp add: got_descriptor_def split: option.split)

lemma keeps_fetch: "keeps s (fetch_descriptor2 tbl sel v code s)" "keeps s (fetch_descriptor sel v code s)"
  unfolding fetch_descriptor2_def fetch_descriptor_def by (intro keeps_seq keeps_descriptor keeps_got)+

lemma keeps_frame_push: "keeps s (frame_push wide v fr s)"
  unfolding frame_push_def Let_def by (intro keeps_seq keeps_if keeps_mem) simp

lemma keeps_push_all: "keeps s (frame_push_all wide vs fr s)"
  by (induction vs arbitrary: fr s) (auto intro!: keeps_seq keeps_frame_push)

lemma keeps_frame_pop: "keeps s (frame_pop wide fr s)"
  unfolding frame_pop_def Let_def by (intro keeps_seq keeps_if keeps_mem) simp

lemma keeps_pop_all: "keeps s (frame_pop_all wide n fr s)"
  by (induction n arbitrary: fr s) (auto intro!: keeps_seq keeps_frame_pop)

lemma keeps_tss: "keeps s (get_tss_esp level s)" "keeps s (get_tss_ss level s)"
  unfolding get_tss_esp_def get_tss_ss_def Let_def by (intro keeps_seq keeps_if keeps_mem keeps_check keeps_Ok same_arch_refl)+

lemma keeps_params: "keeps s (read_params wide esp shift is s)"
  unfolding call_gate_read_param_def
  by (induction "is" arbitrary: s) (auto simp: call_gate_read_param_def intro!: keeps_seq keeps_mem keeps_check)

lemma keeps_return_segment: "keeps s (return_code_segment cs s)" "keeps s (iret_stack_segment ss rpl absent s)"
  unfolding return_code_segment_def iret_stack_segment_def Let_def
  by (intro keeps_seq keeps_check keeps_fetch keeps_Ok same_arch_refl)+

lemma keeps_gate_code: "keeps s (gate_code_segment g off ty s)"
  unfolding gate_code_segment_def Let_def by (intro keeps_seq keeps_check keeps_fetch keeps_Ok same_arch_refl)

lemma keeps_gate_tss: "keeps s (load_tss_from_task_gate info s)"
  unfolding load_tss_from_task_gate_def Let_def by (intro keeps_seq keeps_check keeps_fetch keeps_Ok same_arch_refl)

lemma keeps_with_flags: "(\<And>fl. keeps s (f fl s)) \<Longrightarrow> keeps s (with_flags s f)"
  by (simp add: with_flags_def split: option.split)

lemma keeps_interrupted: "keeps s (push_interrupted wide e ip fr s)"
  unfolding push_interrupted_def by (intro keeps_with_flags keeps_push_all)

lemma keeps_v86_redirection: "keeps s (v86_redirection v s)"
  unfolding v86_redirection_def by (intro keeps_seq keeps_check keeps_mem keeps_mem16)

lemma keeps_raw8: "keeps s (mem_read8_raw shift a s)"
  unfolding mem_read8_raw_def Let_def by (auto intro!: keeps_seq keeps_access8 split: option.split)

lemma keeps_mark: "keeps s (tss_mark a f s)"
  unfolding tss_mark_def by (intro keeps_seq keeps_raw8 keeps_mem)

lemma keeps_each_write: "(\<And>i t. keeps t (f i t)) \<Longrightarrow> keeps s (each_write f is s)"
  by (induction "is" arbitrary: s) (auto intro!: keeps_seq)

lemma keeps_each_read: "(\<And>i t. keeps t (f i t)) \<Longrightarrow> keeps s (each_read f is a s)"
  by (induction "is" arbitrary: s a) (auto intro!: keeps_seq)

lemma keeps_task_parts:
  "keeps s (task_switch_checks sel info ty s)" "keeps s (task_leave sel info ty ip fl s)" "keeps s (task_mark_busy sel ty s)"
  "keeps s (tss_fetch wide base s)"
  unfolding task_switch_checks_def task_leave_def task_mark_busy_def tss_fetch_def tss_save_def Let_def
  by (auto intro!: keeps_seq keeps_check keeps_with_flags keeps_verify keeps_mark keeps_mem keeps_each_write keeps_each_read)

section \<open>The processor mode\<close>

text \<open>
  The privilege level is a number of two bits, memory is accessed with the rights of that
  level, and the width of the stack pointer is the one the cached descriptor of SS says.
\<close>

definition level_ok :: "'d cpu_mem \<Rightarrow> bool" where
  "level_ok s \<longleftrightarrow> m_cpl s \<le> 3 \<and> m_tlb_shift_read s = (if m_cpl s = 3 then 4 else 0)
     \<and> m_tlb_shift_write s = (if m_cpl s = 3 then 6 else 2)"

definition stack_ok :: "'d cpu_mem \<Rightarrow> bool" where
  "stack_ok s \<longleftrightarrow> m_esp_mask s = (if m_seg_access s 2 AND 0x4000 \<noteq> 0 then - 1 else 0xFFFF)"

definition mode_ok :: "'d cpu_mem \<Rightarrow> bool" where
  "mode_ok s \<longleftrightarrow> level_ok s \<and> stack_ok s"

lemma mode_arch: "same_arch s t \<Longrightarrow> level_ok t = level_ok s \<and> stack_ok t = stack_ok s"
  by (simp add: level_ok_def stack_ok_def same_arch_def)

definition modes :: "('a, 'd cpu_mem) outcome \<Rightarrow> bool" where
  "modes m \<longleftrightarrow> post m (\<lambda>_ t. mode_ok t)"

lemma modes_seq: "modes m \<Longrightarrow> (\<And>x t. mode_ok t \<Longrightarrow> modes (f x t)) \<Longrightarrow> modes (seq m f)"
  unfolding modes_def by (rule post_seq)

lemma modes_if: "(c \<Longrightarrow> modes a) \<Longrightarrow> (\<not> c \<Longrightarrow> modes b) \<Longrightarrow> modes (if c then a else b)"
  by simp

lemma modes_Ok: "mode_ok t \<Longrightarrow> modes (Ok x t)"
  by (simp add: modes_def)

lemma modes_raise: "modes (raise_code v c t)" "modes Abort"
  by (simp_all add: modes_def)

lemma modes_keeps: "mode_ok s \<Longrightarrow> keeps s m \<Longrightarrow> modes m"
  unfolding modes_def by (erule post_keeps) (simp add: mode_ok_def mode_arch)

lemma modes_with_flags: "(\<And>fl. modes (f fl s)) \<Longrightarrow> modes (with_flags s f)"
  by (simp add: with_flags_def modes_raise split: option.split)

lemma level_update: "level_ok (cpu_prot_update_cpl s) = (m_cpl s \<le> 3)" "stack_ok (cpu_prot_update_cpl s) = stack_ok s"
  by (auto simp: level_ok_def stack_ok_def cpu_prot_update_cpl_def)

lemma two_bits: "x AND 3 \<le> 3" for x :: u32
  using and_le [of 3 x] by (simp add: and.commute)

lemma two_bits16: "(ucast (x AND 3 :: u16) :: u32) \<le> 3"
proof -
  have "(ucast (x AND 3 :: u16) :: u32) = ucast x AND 3" by (rule bit_eqI) (auto simp: bit_zext16 bit_and_iff dest: bit_imp_le_length [of x])
  then show ?thesis using two_bits by simp
qed

lemma load_protected_mode:
  "post (cpu_seg_load_protected i sel info s)
     (\<lambda>_ t. (level_ok s \<or> i = 1 \<longrightarrow> level_ok t) \<and> (stack_ok s \<or> i = 2 \<longrightarrow> stack_ok t))"
proof -
  let ?s = "s\<lparr>m_seg := (m_seg s)(i := sel), m_seg_base := (m_seg_base s)(i := cpu_seg_get_base info),
               m_seg_limit := (m_seg_limit s)(i := cpu_seg_get_limit info),
               m_seg_access := (m_seg_access s)(i := desc_access info)\<rparr>"
  have "level_ok ?s = level_ok s" "i \<noteq> 2 \<Longrightarrow> stack_ok ?s = stack_ok s" by (simp_all add: level_ok_def stack_ok_def)
  then show ?thesis
    unfolding cpu_seg_load_protected_def Let_def
    by (intro post_if post_keeps_seq [OF keeps_mem(4)])
      (auto simp: mode_arch level_update two_bits16 stack_ok_def level_ok_def cpu_prot_update_cpl_def same_arch_def)
qed

lemma modes_load: "mode_ok s \<Longrightarrow> modes (cpu_seg_load_protected i sel info s)" "mode_ok s \<Longrightarrow> modes (load_segment i w info s)"
  using load_protected_mode [of i sel info s] load_protected_mode [of i "ucast w" info s]
  by (auto simp: modes_def mode_ok_def post_def load_segment_def seq_Ok_iff)

lemma mode_simps [simp]:
  "level_ok (set_virt_eip eip s) = level_ok s" "stack_ok (set_virt_eip eip s) = stack_ok s"
  "level_ok (set_reg32 i v s) = level_ok s" "stack_ok (set_reg32 i v s) = stack_ok s"
  "level_ok (cpu_set_eflags fl s) = level_ok s" "stack_ok (cpu_set_eflags fl s) = stack_ok s"
  "level_ok (frame_commit fr s) = level_ok s" "stack_ok (frame_commit fr s) = stack_ok s"
  "level_ok (s\<lparr>m_eflags := e\<rparr>) = level_ok s" "stack_ok (s\<lparr>m_eflags := e\<rparr>) = stack_ok s"
  by (simp_all add: level_ok_def stack_ok_def set_virt_eip_def set_reg32_def cpu_set_eflags_def frame_commit_def Let_def)

lemma mode_real: "level_ok (real_segment i sel s) = level_ok s" "stack_ok s \<or> i = 2 \<Longrightarrow> stack_ok (real_segment i sel s)"
proof -
  have "(x AND NOT (0x60 OR 0x4000)) AND 0x4000 = 0" for x :: u32
    by (simp only: and.assoc) simp
  then show "stack_ok s \<or> i = 2 \<Longrightarrow> stack_ok (real_segment i sel s)"
    by (auto simp: real_segment_def stack_ok_def Let_def)
qed (simp add: real_segment_def level_ok_def Let_def)

lemma modes_reload: "mode_ok s \<Longrightarrow> modes (reload_cs_base s)"
  by (auto simp: reload_cs_base_def Let_def modes_def mode_ok_def level_ok_def stack_ok_def split: option.split)

lemma modes_csip:
  "mode_ok s \<Longrightarrow> modes (cpu_load_csip_real cs eip s)" "mode_ok s \<Longrightarrow> modes (cpu_load_csip_virtual cs eip s)"
  "mode_ok s \<Longrightarrow> modes (cpu_load_csip_protected cs info eip s)"
  unfolding cpu_load_csip_real_def cpu_load_csip_virtual_def cpu_load_csip_protected_def cpu_seg_load_real_def
    cpu_seg_load_virtual_def
  by (auto simp: mode_ok_def mode_real intro!: modes_reload modes_seq modes_load)

section \<open>Task switches\<close>

lemma task_cpl: "m_cpl (task_enter sel info tc s) \<le> 3"
  by (simp add: task_enter_def Let_def upt_rec set_reg32_def two_bits)

lemma task_segment_mode:
  "post (task_load_segment i sel s) (\<lambda>_ t. (level_ok s \<or> i = 1 \<longrightarrow> level_ok t) \<and> (stack_ok s \<or> i = 2 \<longrightarrow> stack_ok t))"
proof -
  have l: "post (load_segment i sel info t) (\<lambda>_ u. (level_ok s \<or> i = 1 \<longrightarrow> level_ok u) \<and> (stack_ok s \<or> i = 2 \<longrightarrow> stack_ok u))"
    if "same_arch s t" for info t
    using load_protected_mode [of i "ucast sel" info t] mode_arch [OF that]
    by (auto simp: load_segment_def post_def seq_Ok_iff)
  then show ?thesis
    unfolding task_load_segment_def Let_def
    by (intro post_if post_keeps_seq [OF keeps_fetch(2)] post_keeps_seq [OF keeps_check] l)
      (auto simp: level_ok_def stack_ok_def intro: same_arch_trans)
qed

lemma six: "[0..<6] = [0, 1, 2, 3, 4, 5 :: nat]"
  by (simp add: upt_rec)

lemma modes_task_segments: "modes (each_write (\<lambda>i s. task_load_segment i (f i) s) [0..<6] s)"
proof -
  let ?m = "\<lambda>i s. task_load_segment i (f i) s"
  note go = post_mono [OF task_segment_mode]
  have l: "post (?m 1 t) (\<lambda>_ u. level_ok u)" for t by (rule go) simp
  have k: "level_ok t \<Longrightarrow> post (?m 2 t) (\<lambda>_ u. mode_ok u)" for t by (rule go) (simp add: mode_ok_def)
  have m: "mode_ok t \<Longrightarrow> modes (?m i t)" for i t unfolding modes_def by (rule go) (simp add: mode_ok_def)
  have rest: "mode_ok t \<Longrightarrow> modes (each_write ?m is t)" for "is" t
    by (induction "is" arbitrary: t) (auto simp: modes_Ok intro!: modes_seq m)
  have "post (each_write ?m (1 # 2 # [3, 4, 5]) t) (\<lambda>_ u. mode_ok u)" for t
    using rest unfolding modes_def each_write.simps(2) [of _ 1] each_write.simps(2) [of _ 2]
    by (intro post_seq [OF l] post_seq [OF k])
  then show ?thesis unfolding six modes_def each_write.simps(2) [of _ 0]
    by (cases "?m 0 s") auto
qed

lemma modes_any: "(\<And>x t. modes (f x t)) \<Longrightarrow> modes (seq m f)"
  by (cases m) (auto simp: modes_def)

lemma modes_task_switch: "modes (do_task_switch sel info ty eip s)"
  unfolding do_task_switch_def
  by (intro modes_any modes_task_segments)

section \<open>All transfers\<close>

lemma null_mode: "i \<noteq> 2 \<Longrightarrow> mode_ok (null_segment i s) = mode_ok s"
  by (simp add: null_segment_def mode_ok_def level_ok_def stack_ok_def)

lemma mode_more [simp]:
  "mode_ok (set_virt_eip eip s) = mode_ok s" "mode_ok (set_reg32 i v s) = mode_ok s" "mode_ok (cpu_set_eflags fl s) = mode_ok s"
  "mode_ok (frame_commit fr s) = mode_ok s" "mode_ok (s\<lparr>m_eflags := e\<rparr>) = mode_ok s"
  by (simp_all add: mode_ok_def)

lemma mode_iret: "x \<noteq> 2 \<Longrightarrow> mode_ok (iret_handle_seg x s) = mode_ok s" "mode_ok (iret_flags fl c w s) = mode_ok s"
  by (simp_all add: iret_handle_seg_def null_mode iret_flags_def Let_def)

lemma mode_handler: "mode_ok s \<Longrightarrow> mode_ok (enter_handler g s)"
  by (auto simp: enter_handler_def Let_def mode_ok_def level_update) (simp_all add: level_ok_def)

lemma modes_keeps_seq: "mode_ok s \<Longrightarrow> keeps s m \<Longrightarrow> (\<And>x t. mode_ok t \<Longrightarrow> modes (f x t)) \<Longrightarrow> modes (seq m f)"
  by (rule modes_seq) (rule modes_keeps)

lemma modes_outer_stack: "mode_ok s \<Longrightarrow> modes (push_outer_stack wide fr s)"
  unfolding push_outer_stack_def Let_def
  by (intro modes_seq modes_if modes_keeps [OF _ keeps_push_all] modes_Ok) (simp_all add: null_mode)

lemmas transfer_keeps = keeps_check keeps_fetch keeps_frame_push keeps_push_all keeps_frame_pop keeps_pop_all keeps_tss keeps_params
  keeps_return_segment keeps_gate_code keeps_gate_tss keeps_interrupted keeps_v86_redirection keeps_mem keeps_mem16

lemmas transfer_modes = modes_if modes_raise modes_with_flags modes_csip modes_load modes_task_switch modes_outer_stack
  modes_Ok mode_handler transfer_keeps [THEN modes_keeps_seq [rotated]] modes_seq [OF modes_load(2)]
  modes_seq [OF modes_csip(1)] modes_seq [OF modes_csip(2)] modes_seq [OF modes_csip(3)] modes_seq [OF modes_task_switch]

lemma modes_v86_interrupt: "mode_ok s \<Longrightarrow> modes (v86_interrupt v ip s)"
  unfolding v86_interrupt_def Let_def by (intro transfer_modes) simp_all

lemma modes_task_gate: "mode_ok s \<Longrightarrow> modes (task_gate_interrupt g off e ty ip s)"
  unfolding task_gate_interrupt_def Let_def by (intro transfer_modes) simp_all

lemma modes_inner: "mode_ok s \<Longrightarrow> modes (gate_inner_stack wide dpl code ty s)"
  unfolding gate_inner_stack_def Let_def by (intro transfer_modes modes_seq [OF modes_outer_stack])

lemma modes_same: "mode_ok s \<Longrightarrow> modes (gate_same_stack dpl code s)"
  unfolding gate_same_stack_def by (intro transfer_modes)

lemma modes_gate: "mode_ok s \<Longrightarrow> modes (gate_interrupt g off e ty ip s)"
  unfolding gate_interrupt_def Let_def
  by (intro transfer_modes modes_seq [OF modes_inner] modes_seq [OF modes_same])
    (auto intro!: transfer_modes simp: case_prod_beta)

lemma modes_interrupt: "mode_ok s \<Longrightarrow> modes (cpu_interrupt v e ty ip s)"
  unfolding cpu_interrupt_def protected_interrupt_def real_interrupt_def Let_def
  by (intro transfer_modes modes_v86_interrupt modes_task_gate modes_gate)
    (auto intro!: transfer_modes simp: case_prod_beta)

lemma modes_jmpf: "mode_ok s \<Longrightarrow> modes (jmpf ip cs after s)"
  unfolding jmpf_def jmpf_gate_def Let_def
  by (intro transfer_modes) (auto intro!: transfer_modes simp: case_prod_beta)

lemma modes_callf_same: "mode_ok s \<Longrightarrow> modes (callf_same wide cs info ip oldip s)"
  unfolding callf_same_def by (intro transfer_modes) simp_all

lemma modes_callf_inner: "mode_ok s \<Longrightarrow> modes (callf_inner info cs ginfo oldip s)"
  unfolding callf_inner_def Let_def by (intro transfer_modes) simp_all

lemma modes_callf: "mode_ok s \<Longrightarrow> modes (callf ip cs oldip is32 s)"
  unfolding callf_def callf_gate_def Let_def
  by (intro transfer_modes modes_callf_same modes_callf_inner) (auto intro!: transfer_modes simp: case_prod_beta)

lemma modes_retf: "mode_ok s \<Longrightarrow> modes (retf adjust is32 s)"
  unfolding retf_def retf_real_def retf_outer_def Let_def
  by (intro transfer_modes) (auto intro!: transfer_modes simp: case_prod_beta)

lemma modes_iret_outer: "mode_ok s \<Longrightarrow> modes (iret_outer ip cs info is32 fr s)"
  unfolding iret_outer_def Let_def
  by (intro transfer_modes) (auto intro!: transfer_modes simp: case_prod_beta mode_iret)

lemma mode_user: "level_ok (cpu_prot_update_cpl (s\<lparr>m_cpl := 3\<rparr>))" "stack_ok (cpu_prot_update_cpl (s\<lparr>m_cpl := 3\<rparr>)) = stack_ok s"
  by (simp_all add: level_update) (simp add: stack_ok_def)

lemma modes_to_v86: "mode_ok s \<Longrightarrow> modes (iret_to_v86 ip cs fl fr s)"
  unfolding iret_to_v86_def Let_def cpu_seg_load_virtual_def
  by (intro transfer_modes)
    (auto intro!: transfer_modes simp: case_prod_beta mode_user mode_ok_def mode_real)

lemma modes_iret: "mode_ok s \<Longrightarrow> modes (iret ip is32 s)"
  unfolding iret_def iret_real_def iret_v86_def iret_task_def iret_protected_def Let_def
  by (intro transfer_modes)
    (auto intro!: transfer_modes modes_seq [OF modes_iret_outer] modes_to_v86 simp: case_prod_beta mode_iret)

lemma modes_sys: "cpl \<le> 3 \<Longrightarrow> ssa AND 0x4000 \<noteq> 0 \<Longrightarrow> modes (sys_transfer eip esp cs csa ss ssa cpl s)"
  by (auto simp: sys_transfer_def f_reload_cs_base_def Let_def modes_def mode_ok_def level_ok_def stack_ok_def flat_segment_def
      cpu_prot_update_cpl_def set_reg32_def set_virt_eip_def split: option.split)

datatype transfer =
    Interrupt u32 u32 intr_type u32 | Jump u32 u32 u32 | Call u32 u32 u32 bool | Far_return u32 bool
  | Interrupt_return u32 bool | Sysenter | Sysexit

fun transfer_step :: "transfer \<Rightarrow> 'd cpu_mem \<Rightarrow> (unit, 'd cpu_mem) outcome" where
  "transfer_step (Interrupt v e ty ip) s = cpu_interrupt v e ty ip s"
| "transfer_step (Jump ip cs after) s = jmpf ip cs after s"
| "transfer_step (Call ip cs oldip is32) s = callf ip cs oldip is32 s"
| "transfer_step (Far_return adjust is32) s = retf adjust is32 s"
| "transfer_step (Interrupt_return ip is32) s = iret ip is32 s"
| "transfer_step Sysenter s = f_sysenter s"
| "transfer_step Sysexit s = sysexit s"

lemma transfer_modes_all: "mode_ok s \<Longrightarrow> modes (transfer_step x s)"
proof (cases x)
  case Sysenter
  then show ?thesis by (auto simp: f_sysenter_def Let_def modes_raise intro!: modes_sys)
next
  case Sysexit
  then show ?thesis by (auto simp: sysexit_def Let_def modes_raise intro!: modes_sys)
qed (simp_all add: modes_interrupt modes_jmpf modes_callf modes_retf modes_iret)

end
