(* ===== verification/Ctrl_Mode.thy ===== *)
theory Ctrl_Mode
  imports Ctrl_Laws
begin

text \<open>
  The properties of the control transfers: the well-formed processor mode, the privilege of
  returns, and the delivery of exceptions.
\<close>

section \<open>Returns\<close>

lemma rpl_cast: "(ucast ((ucast x :: u16) AND 3) :: u32) = x AND 3" for x :: u32
proof -
  have m: "(3 :: u32) = mask 2" "(3 :: u16) = mask 2" by (simp_all add: mask_eq_exp_minus_1)
  show ?thesis unfolding m by (intro bit_eqI) (auto simp: bit_zext16 bit_and_iff bit_low16 bit_mask_iff)
qed

text \<open>The level and the flags word, which the loads of a segment leave alone unless it is CS.\<close>

lemma arch_level: "same_arch s t \<Longrightarrow> m_cpl t = m_cpl s \<and> m_eflags t = m_eflags s"
  by (simp add: same_arch_def)

lemma load_level: "post (cpu_seg_load_protected i sel info s)
    (\<lambda>_ t. m_cpl t = (if i = 1 then ucast (sel AND 3) else m_cpl s) \<and> m_eflags t = m_eflags s)"
  unfolding cpu_seg_load_protected_def Let_def
  by (intro post_if post_keeps_seq [OF keeps_mem(4)]) (auto simp: cpu_prot_update_cpl_def same_arch_def)

lemma reload_level: "post (reload_cs_base s) (\<lambda>_ t. m_cpl t = m_cpl s \<and> m_eflags t = m_eflags s
    \<and> m_seg t = m_seg s \<and> m_seg_access t = m_seg_access s)"
  by (auto simp: reload_cs_base_def Let_def split: option.split)

lemma csip_level: "post (cpu_load_csip_protected (ucast cs) info ip s) (\<lambda>_ t. m_cpl t = cs AND 3 \<and> m_eflags t = m_eflags s)"
  unfolding cpu_load_csip_protected_def
  by (rule post_seq [OF load_level], rule post_mono [OF reload_level]) (simp add: set_virt_eip_def rpl_cast)

lemma segment_level: "i \<noteq> 1 \<Longrightarrow> post (load_segment i sel info s) (\<lambda>_ t. m_cpl t = m_cpl s \<and> m_eflags t = m_eflags s)"
  unfolding load_segment_def by (rule post_seq [OF load_level]) simp

lemma return_segment_level: "post (return_code_segment cs s) (\<lambda>_ t. same_arch s t \<and> m_cpl s \<le> cs AND 3)"
proof -
  have "post (return_code_segment cs s) (\<lambda>_ t. m_cpl s \<le> cs AND 3)"
    unfolding return_code_segment_def Let_def
    by (rule post_keeps_seq [OF keeps_check], rule post_keeps_seq [OF keeps_fetch(2)], rule post_seq [OF post_check])
      (auto simp: post_def same_arch_def not_less)
  then show ?thesis using keeps_return_segment(1) [of s cs] by (fastforce simp: post_def)
qed

text \<open>
  The rule of the architecture: a level may use a null selector, a conforming code segment, and any other segment
  whose privilege level is not below it.
\<close>

definition usable :: "nat \<Rightarrow> 'd cpu_mem \<Rightarrow> bool" where
  "usable x s \<longleftrightarrow> m_seg s x AND 0xFFFC = 0 \<or> m_seg_access s x AND 0x1F \<in> {0x1C, 0x1D, 0x1E, 0x1F}
     \<or> m_cpl s \<le> drop_bit 5 (m_seg_access s x) AND 3"

definition data_segment :: "nat \<Rightarrow> 'd cpu_mem \<Rightarrow> bool" where
  "data_segment x s \<longleftrightarrow> 0x10 \<le> m_seg_access s x AND 0x1F \<and> m_seg_access s x AND 0x1F \<le> 0x17"

definition inner_code :: "nat \<Rightarrow> 'd cpu_mem \<Rightarrow> bool" where
  "inner_code x s \<longleftrightarrow> m_seg_access s x AND 0x1F \<in> {0x18, 0x19, 0x1A, 0x1B} \<and> drop_bit 5 (m_seg_access s x) AND 3 < m_cpl s"

lemma low_fields: "(x AND 0xFFFF) AND 0x1F = x AND 0x1F" "(x AND 0x7FF) AND 3 = x AND 3" for x :: u32
  by (simp_all add: and.assoc)

text \<open>
  What the source does with one register: a data segment is usable afterwards; an inner code segment that is not
  conforming, which is no more usable, is kept.
\<close>

lemma handled_usable: "data_segment x (iret_handle_seg x s) \<Longrightarrow> usable x (iret_handle_seg x s)"
  by (auto simp: iret_handle_seg_def usable_def data_segment_def null_segment_def Let_def low_fields not_less split: if_splits)

lemma handled_code: "m_seg s x AND 0xFFFC \<noteq> 0 \<Longrightarrow> inner_code x s \<Longrightarrow> iret_handle_seg x s = s \<and> \<not> usable x s"
  by (auto simp: iret_handle_seg_def usable_def inner_code_def is_conforming_def Let_def low_fields)

lemma handled_other: "y \<noteq> x \<Longrightarrow> usable y (iret_handle_seg x s) = usable y s"
  "y \<noteq> x \<Longrightarrow> data_segment y (iret_handle_seg x s) = data_segment y s"
  "m_cpl (iret_handle_seg x s) = m_cpl s" "m_eflags (iret_handle_seg x s) = m_eflags s"
  by (auto simp: iret_handle_seg_def usable_def data_segment_def null_segment_def Let_def)


text \<open>Rules for a step whose value is a pair, and for steps whose effect does not matter.\<close>

lemma post_any: "(\<And>x t. post (f x t) R) \<Longrightarrow> post (seq m f) R"
  by (cases m) auto

lemma post_any_pair: "(\<And>a b t. post (f a b t) R) \<Longrightarrow> post (seq m (\<lambda>(a, b). f a b)) R"
  by (cases m) auto

lemma post_keeps_pair: "keeps s m \<Longrightarrow> (\<And>a b t. same_arch s t \<Longrightarrow> post (f a b t) R) \<Longrightarrow> post (seq m (\<lambda>(a, b). f a b)) R"
  by (cases m) auto

lemma csip_then:
  assumes "c \<le> cs AND 3" "\<And>t. m_cpl (g t) = m_cpl t"
  shows "post (seq (cpu_load_csip_protected (ucast cs) info ip s) (\<lambda>_ t. Ok () (g t))) (\<lambda>_ t. c \<le> m_cpl t)"
  using assms by (intro post_seq [OF csip_level]) simp

lemma cpl_more [simp]: "m_cpl (set_reg32 i v s) = m_cpl s" "m_cpl (frame_commit fr s) = m_cpl s" "m_cpl (cpu_set_eflags fl s) = m_cpl s"
  "m_eflags (set_reg32 i v s) = m_eflags s" "m_eflags (frame_commit fr s) = m_eflags s"
  by (simp_all add: set_reg32_def frame_commit_def cpu_set_eflags_def Let_def)

lemma retf_level:
  assumes "\<not> real_or_v86 s"
  shows "post (retf adjust is32 s) (\<lambda>_ t. m_cpl s \<le> m_cpl t)"
  unfolding retf_def retf_outer_def Let_def if_not_P [OF assms]
  by (rule post_keeps_pair [OF keeps_pop_all], rule post_seq [OF return_segment_level])
    (intro csip_then post_if post_any_pair post_any; auto dest!: arch_level)

section \<open>IRET\<close>

definition flags_from :: "u32 \<Rightarrow> 'd cpu_mem \<Rightarrow> u32 \<Rightarrow> bool" where
  "flags_from c s e \<longleftrightarrow> (c \<noteq> 0 \<longrightarrow> e AND 0x3000 = m_eflags s AND 0x3000)
     \<and> (iopl s < c \<longrightarrow> e AND 0x200 = m_eflags s AND 0x200)"

lemma masked_bits:
  fixes a e m n k :: u32
  assumes "m AND k = 0"
  shows "((a AND NOT n) OR (((e AND m) OR (a AND NOT m)) AND n)) AND k = a AND k"
proof -
  have "\<not> (bit m i \<and> bit k i)" for i using assms by (metis bit_0_eq bit_and_iff bot_apply bot_bool_def)
  then show ?thesis by (intro bit_eqI) (auto simp: bit_and_iff bit_or_iff bit_not_iff)
qed

lemma iret_flags_from: "m_eflags t = m_eflags s \<Longrightarrow> flags_from c s (m_eflags (iret_flags e c is32 t))"
proof -
  assume e: "m_eflags t = m_eflags s"
  have i: "iopl t = iopl s" by (simp add: iopl_def e)
  have f: "m_eflags (cpu_set_eflags v t) = (m_eflags s AND NOT eflags_mask) OR (v AND eflags_mask)" for v
    by (simp add: cpu_set_eflags_def Let_def e)
  have "c \<noteq> 0 \<Longrightarrow> iret_flag_mask c is32 t AND 0x3000 = 0" "iopl s < c \<Longrightarrow> iret_flag_mask c is32 t AND 0x200 = 0"
    by (auto simp: iret_flag_mask_def Let_def i not_le)
  then show ?thesis
    unfolding iret_flags_def flags_from_def Let_def f e by (simp add: masked_bits)
qed

text \<open>What a return by IRET in protected mode establishes, with its own level and flags word.\<close>

definition iret_post :: "'d cpu_mem \<Rightarrow> 'd cpu_mem \<Rightarrow> bool" where
  "iret_post s t \<longleftrightarrow> m_cpl s \<le> m_cpl t \<and> flags_from (m_cpl s) s (m_eflags t)
     \<and> (m_cpl t \<noteq> m_cpl s \<and> \<not> v86 t \<longrightarrow> (\<forall>x \<in> {0, 3, 4, 5}. data_segment x t \<longrightarrow> usable x t))"

lemma usable_flags: "usable x (iret_flags e c is32 t) = usable x t" "data_segment x (iret_flags e c is32 t) = data_segment x t" "m_cpl (iret_flags e c is32 t) = m_cpl t"
  by (simp_all add: iret_flags_def usable_def data_segment_def cpu_set_eflags_def Let_def)

lemma iret_outer_post:
  assumes "cs AND 3 = c"
  shows "post (iret_outer ip cs info is32 fr s) (\<lambda>_ t. m_cpl t = c \<and> m_eflags t = m_eflags s \<and> (\<forall>x \<in> {0, 3, 4, 5}. data_segment x t \<longrightarrow> usable x t))"
  unfolding iret_outer_def Let_def
  by (rule post_keeps_pair [OF keeps_pop_all], rule post_keeps_seq [OF keeps_return_segment(2)],
      rule post_seq [OF segment_level], simp, rule post_seq [OF csip_level])
    (simp add: handled_usable handled_other assms arch_level)

text \<open>The return to virtual-8086 mode happens at level 0 only and ends at level 3.\<close>

lemma to_v86_post: "eflags AND 0x20000 \<noteq> 0 \<Longrightarrow> post (iret_to_v86 ip cs eflags fr s) (\<lambda>_ t. m_cpl t = 3 \<and> v86 t)"
proof -
  assume v: "eflags AND 0x20000 \<noteq> 0"
  have "((a AND NOT eflags_mask) OR (eflags AND eflags_mask)) AND 0x20000 = eflags AND 0x20000" for a
  proof -
    have "eflags_mask AND 0x20000 = 0x20000" "(NOT eflags_mask) AND 0x20000 = 0" by (simp_all add: eflags_mask_def)
    then show ?thesis by (simp only: bit.conj_disj_distrib2 and.assoc) simp
  qed
  then have "v86 (cpu_prot_update_cpl (cpu_set_eflags eflags t\<lparr>m_cpl := 3\<rparr>))" for t :: "'a cpu_mem"
    using v by (simp add: v86_def cpu_prot_update_cpl_def cpu_set_eflags_def Let_def)
  then show ?thesis
    unfolding iret_to_v86_def Let_def
    by (intro post_any_pair post_any) (simp add: cpu_prot_update_cpl_def)
qed

lemma iret_level:
  assumes "\<not> real_or_v86 s" "m_eflags s AND 0x4000 = 0" "m_cpl s \<le> 3"
  shows "post (iret ip is32 s) (\<lambda>_ t. iret_post s t)"
proof -
  have i: "iret ip is32 s = iret_protected is32 s" using assms by (simp add: iret_def real_or_v86_def)
  have main: "post (seq (return_code_segment cs t) (\<lambda>info u.
        if cs AND 3 \<noteq> m_cpl u then
          seq (iret_outer eip cs info is32 fr u) (\<lambda>_ v. Ok () (iret_flags e (m_cpl s) is32 v))
        else
          seq (cpu_load_csip_protected (ucast cs) info eip u) (\<lambda>_ v.
          Ok () (iret_flags e (m_cpl s) is32 (frame_commit fr v))))) (\<lambda>_ t. iret_post s t)"
    if a: "same_arch s t" for t cs eip e fr
  proof (rule post_seq [OF return_segment_level], rule post_if)
    fix info u assume u: "same_arch t u \<and> m_cpl t \<le> cs AND 3"
    then have l: "m_cpl s \<le> cs AND 3" "m_eflags u = m_eflags s" "m_cpl u = m_cpl s" using arch_level [OF a] by (auto dest: arch_level)
    show "post (seq (iret_outer eip cs info is32 fr u) (\<lambda>_ v. Ok () (iret_flags e (m_cpl s) is32 v))) (\<lambda>_ t. iret_post s t)"
      by (rule post_seq [OF iret_outer_post [OF refl]]) (auto simp: l iret_post_def usable_flags iret_flags_from)
    assume "\<not> cs AND 3 \<noteq> m_cpl u"
    then show "post (seq (cpu_load_csip_protected (ucast cs) info eip u) (\<lambda>_ v.
        Ok () (iret_flags e (m_cpl s) is32 (frame_commit fr v)))) (\<lambda>_ t. iret_post s t)"
      by (intro post_seq [OF csip_level]) (simp add: l iret_post_def usable_flags iret_flags_from)
  qed
  have v: "post (iret_to_v86 eip cs e fr t) (\<lambda>_ t. iret_post s t)" if "e AND 0x20000 \<noteq> 0" "m_cpl s = 0" for eip cs e fr t
    by (rule post_mono [OF to_v86_post [OF that(1)]]) (simp add: iret_post_def flags_from_def that(2))
  show ?thesis
    unfolding i iret_protected_def Let_def
    by (rule post_keeps_pair [OF keeps_pop_all], rule post_if)
      (rule v, blast, use arch_level in metis, rule main)
qed

end
