(* ===== verification/Seg_Laws.thy ===== *)
theory Seg_Laws
  imports Frame_Laws
begin

text \<open>
  Properties of src/src/cpu/seg.cpp: the layout of descriptors, and what a successful move to a
  segment register guarantees.
\<close>

section \<open>The layout of a descriptor\<close>

text \<open>
  The eight bytes of a descriptor from a base, a limit of twenty bits, the access byte and the four flags
  (granularity, size, reserved, available).
\<close>

definition make_desc :: "u32 \<Rightarrow> u32 \<Rightarrow> u8 \<Rightarrow> u8 \<Rightarrow> seg_desc" where
  "make_desc base limit access flags =
     \<lparr>raw0 = word_cat (ucast base :: u16) (ucast limit :: u16),
      raw1 = word_cat (word_cat (ucast (drop_bit 24 base) :: u8)
                         (((ucast (drop_bit 16 limit) :: u8) AND 15) OR push_bit 4 flags) :: u16)
                      (word_cat access (ucast (drop_bit 16 base) :: u8) :: u16)\<rparr>"

lemma bits_or: "x = y OR z \<longleftrightarrow> (\<forall>i < 32. bit x i \<longleftrightarrow> bit y i \<or> bit z i)" for x y z :: u32
  by (auto simp: bit_eq_iff bit_or_iff dest: bit_imp_le_length)

lemma bit_hex: "bit (0xFFFF :: u32) i \<longleftrightarrow> i < 16" "bit (0xFF0000 :: u32) i \<longleftrightarrow> 16 \<le> i \<and> i < 24"
  "bit (0xFF000000 :: u32) i \<longleftrightarrow> 24 \<le> i \<and> i < 32" "bit (0xF0000 :: u32) i \<longleftrightarrow> 16 \<le> i \<and> i < 20"
  "bit (0xFF :: u32) i \<longleftrightarrow> i < 8" "bit (15 :: u8) i \<longleftrightarrow> i < 4"
proof -
  have m: "(0xFFFF :: u32) = mask 16" "(0xFF0000 :: u32) = push_bit 16 (mask 8)" "(0xFF000000 :: u32) = push_bit 24 (mask 8)"
    "(0xF0000 :: u32) = push_bit 16 (mask 4)" "(0xFF :: u32) = mask 8" "(15 :: u8) = mask 4"
    by (simp_all add: mask_eq_exp_minus_1 push_bit_eq_mult)
  show "bit (0xFFFF :: u32) i \<longleftrightarrow> i < 16" "bit (0xFF0000 :: u32) i \<longleftrightarrow> 16 \<le> i \<and> i < 24"
    "bit (0xFF000000 :: u32) i \<longleftrightarrow> 24 \<le> i \<and> i < 32" "bit (0xF0000 :: u32) i \<longleftrightarrow> 16 \<le> i \<and> i < 20"
    "bit (0xFF :: u32) i \<longleftrightarrow> i < 8" "bit (15 :: u8) i \<longleftrightarrow> i < 4"
    unfolding m by (auto simp: bit_mask_iff bit_push_bit_iff)
qed

lemma bit_cat8: "bit (word_cat (a :: u8) (b :: u8) :: u16) i \<longleftrightarrow> i < 16 \<and> (if i < 8 then bit b i else bit a (i - 8))"
  by (rule cat8)

lemmas desc_bits = bit_cat16 bit_cat8 bit_or_iff bit_and_iff bit_push_bit_iff bit_drop_bit_eq bit_hex bit_ucast_iff

lemma desc_base: "cpu_seg_get_base (make_desc base limit access flags) = base"
proof (rule bit_word_eqI)
  fix i assume "i < LENGTH(32)"
  then show "bit (cpu_seg_get_base (make_desc base limit access flags)) i = bit base i"
    by (auto simp: cpu_seg_get_base_def make_desc_def desc_bits simp del: bit_numeral_word_iff)
qed

lemma desc_limit20: "(raw0 (make_desc base limit access flags) AND 0xFFFF) OR (raw1 (make_desc base limit access flags) AND 0xF0000)
    = limit AND 0xFFFFF"
proof (rule bit_word_eqI)
  fix i assume "i < LENGTH(32)"
  have m: "(0xFFFFF :: u32) = mask 20" by (simp add: mask_eq_exp_minus_1)
  show "bit ((raw0 (make_desc base limit access flags) AND 0xFFFF) OR (raw1 (make_desc base limit access flags) AND 0xF0000)) i
    = bit (limit AND 0xFFFFF) i" unfolding m
    by (auto simp: make_desc_def desc_bits bit_mask_iff simp del: bit_numeral_word_iff)
qed

lemma desc_access_bits: "i < 32 \<Longrightarrow> bit (desc_access (make_desc base limit access flags)) i
   \<longleftrightarrow> (if i < 8 then bit access i else if i < 12 then bit limit (i + 8) else i < 16 \<and> bit flags (i - 12))"
  by (auto simp: desc_access_def make_desc_def desc_bits add.commute simp del: bit_numeral_word_iff)

lemma desc_granular: "desc_access (make_desc base limit access flags) AND 0x8000 \<noteq> 0 \<longleftrightarrow> bit flags 3"
proof -
  have "desc_access (make_desc base limit access flags) AND 0x8000 \<noteq> 0 \<longleftrightarrow> bit (desc_access (make_desc base limit access flags)) 15"
    by (simp add: bit_iff_and_push_bit_not_eq_0)
  then show ?thesis by (simp add: desc_access_bits)
qed

section \<open>Descriptors in memory\<close>

definition store_desc :: "u32 \<Rightarrow> seg_desc \<Rightarrow> 'd cpu_mem \<Rightarrow> (unit, 'd cpu_mem) outcome" where
  "store_desc a d s = seq (mem_write32 2 a (raw0 d) s) (\<lambda>_ s. mem_write32 2 (a + 4) (raw1 d) s)"

lemma ram_span_split: "ram_span 8 a s \<Longrightarrow> ram_span 4 a s \<and> ram_span 4 (a + 4) s"
proof -
  assume h: "ram_span 8 a s"
  have "in_ram (a + 4 + of_nat i) s" if "i < 4" for i
  proof -
    have "in_ram (a + of_nat (4 + i)) s" using h that by (simp add: ram_span_def del: of_nat_add)
    then show ?thesis by (simp add: add.assoc)
  qed
  then show ?thesis using h by (simp add: ram_span_def)
qed

lemma ram_span_core: "same_core s t \<Longrightarrow> ram_span n a t = ram_span n a s"
  by (simp add: ram_span_def in_ram_core)

lemma Ok_keeps: "keeps s m \<Longrightarrow> m = Ok x t \<Longrightarrow> same_arch s t"
  by simp

lemma le_store_get:
  assumes "m_mem t = le_store 4 a v (m_mem s)"
  shows "ram_get32 a t = v" and "ram_get32 (a + 4) t = ram_get32 (a + 4) s" and "ram_get32 (a - 4) t = ram_get32 (a - 4) s"
proof -
  have m: "m_mem t = m_mem (ram_put32 a v s)" using assms by (simp add: le_store_def poke4 put32_mem)
  then show "ram_get32 a t = v" using get_cong(2) [of t a "ram_put32 a v s"] by simp
  show "ram_get32 (a + 4) t = ram_get32 (a + 4) s" "ram_get32 (a - 4) t = ram_get32 (a - 4) s"
    using m by (simp_all add: get32_bytes put32_mem)
qed

lemma store_desc_flat:
  assumes "flat s" "ram_span 8 a s"
  shows "\<exists>t. store_desc a d s = Ok () t \<and> flat t \<and> same_core s t \<and> same_arch s t
    \<and> ram_get32 a t = raw0 d \<and> ram_get32 (a + 4) t = raw1 d"
proof -
  note sp = ram_span_split [OF assms(2)]
  obtain t where t: "mem_write32 2 a (raw0 d) s = Ok () t" "flat t" "same_core s t"
    "m_mem t = le_store 4 a (raw0 d) (m_mem s)"
    using store4_flat [OF assms(1) conjunct1 [OF sp], of 2 "raw0 d"] by (auto simp: writes_flat_def)
  obtain u where u: "mem_write32 2 (a + 4) (raw1 d) t = Ok () u" "flat u" "same_core t u"
    "m_mem u = le_store 4 (a + 4) (raw1 d) (m_mem t)"
    using store4_flat [OF t(2), of "a + 4" 2 "raw1 d"] sp ram_span_core [OF t(3)] by (auto simp: writes_flat_def)
  have "same_arch s t" "same_arch t u"
    using t(1) u(1) by (auto intro: Ok_keeps [OF keeps_mem(6)])
  then have "same_arch s u" by (rule same_arch_trans)
  moreover have "ram_get32 a u = raw0 d" using le_store_get(3) [OF u(4)] le_store_get(1) [OF t(4)] by simp
  ultimately show ?thesis
    using t u le_store_get(1) [OF u(4)] same_core_trans [OF t(3) u(3)] by (auto simp: store_desc_def)
qed

lemma load_desc_flat:
  assumes "flat s" "a = (sel AND NOT 7) + m_seg_base s (if sel AND 4 \<noteq> 0 then 8 else 7)" "ram_span 8 a s"
    "\<not> m_seg_limit s (if sel AND 4 \<noteq> 0 then 8 else 7) < sel OR 7"
  shows "\<exists>t. cpu_seg_load_descriptor sel e c s = Ok (Some \<lparr>raw0 = ram_get32 a s, raw1 = ram_get32 (a + 4) s\<rparr>) t
    \<and> flat t \<and> same_core s t \<and> m_mem t = m_mem s"
proof -
  note sp = ram_span_split [OF assms(3)]
  obtain t where t: "mem_read32 0 a s = Ok (ram_get32 a s) t" "flat t" "same_core s t" "m_mem t = m_mem s"
    using mem_read32_flat [OF assms(1) conjunct1 [OF sp], of 0] by (auto simp: reads_flat_def)
  have g: "ram_get32 (a + 4) t = ram_get32 (a + 4) s" using t(4) by (simp add: get32_bytes)
  obtain u where u: "mem_read32 0 (a + 4) t = Ok (ram_get32 (a + 4) s) u" "flat u" "same_core t u" "m_mem u = m_mem t"
    using mem_read32_flat [OF t(2), of "a + 4" 0] sp ram_span_core [OF t(3)] g by (auto simp: reads_flat_def)
  have "cpu_seg_load_descriptor sel e c s = Ok (Some \<lparr>raw0 = ram_get32 a s, raw1 = ram_get32 (a + 4) s\<rparr>) u"
    using assms(4) t(1) u(1)
    unfolding cpu_seg_load_descriptor_def cpu_seg_load_descriptor2_def Let_def assms(2) [symmetric] by (simp split del: if_split)
  then show ?thesis using u t same_core_trans [OF t(3) u(3)] by auto
qed

text \<open>
  C37. Round trip of segment descriptors on the flat machine (paging off, address line 20 open, the
  TLB at most filled with identity entries, as it is then): for every base, limit of twenty bits, access byte and
  flags, the eight bytes of the architecture's layout, stored by the guest into its descriptor table in
  RAM, are what a load by a selector within the limit of the table returns; from them the base is read back
  exactly, the limit exactly or, with the granularity flag, in units of 4 KiB with the low bits set, and the
  access byte and the flags.
\<close>

theorem descriptor_round_trip:
  assumes "flat s" "a = (sel AND NOT 7) + m_seg_base s (if sel AND 4 \<noteq> 0 then 8 else 7)" "ram_span 8 a s"
    "\<not> m_seg_limit s (if sel AND 4 \<noteq> 0 then 8 else 7) < sel OR 7" "limit AND 0xFFFFF = limit"
  shows "\<exists>d t u. store_desc a (make_desc base limit access flags) s = Ok () t
    \<and> cpu_seg_load_descriptor sel e c t = Ok (Some d) u
    \<and> cpu_seg_get_base d = base
    \<and> cpu_seg_get_limit d = (if bit flags 3 then push_bit 12 limit OR 0xFFF else limit)
    \<and> (\<forall>i < 8. bit (desc_access d) i = bit access i) \<and> (\<forall>i < 4. bit (desc_access d) (12 + i) = bit flags i)"
proof -
  let ?d = "make_desc base limit access flags"
  obtain t where t: "store_desc a ?d s = Ok () t" "flat t" "same_core s t" "same_arch s t"
    "ram_get32 a t = raw0 ?d" "ram_get32 (a + 4) t = raw1 ?d" using store_desc_flat [OF assms(1,3)] by blast
  have k: "m_seg_base t = m_seg_base s" "m_seg_limit t = m_seg_limit s" using t(4) by (simp_all add: same_arch_def)
  obtain u where u: "cpu_seg_load_descriptor sel e c t = Ok (Some ?d) u"
    using load_desc_flat [OF t(2), of a sel e c] assms(2-4) k t(3,5,6) ram_span_core [OF t(3)] by auto
  have "cpu_seg_get_limit ?d = (if bit flags 3 then push_bit 12 limit OR 0xFFF else limit)"
    using desc_limit20 [of base limit access flags] desc_granular [of base limit access flags] assms(5)
    by (simp add: cpu_seg_get_limit_def Let_def)
  then show ?thesis using t(1) u desc_base [of base limit access flags] desc_access_bits [of _ base limit access flags]
    by (intro exI [of _ ?d] exI [of _ t] exI [of _ u]) simp
qed

text \<open>A machine for the examples: protected mode at level 0 with all segments flat, tables included.\<close>

definition flat_segments :: "'d cpu_mem \<Rightarrow> 'd cpu_mem" where
  "flat_segments s = s\<lparr>m_seg_base := (\<lambda>_. 0), m_seg_limit := (\<lambda>_. 0xFFFF), m_cpl := 0, m_cr := (m_cr s)(0 := 0x11), m_eflags := 2\<rparr>"

lemma flat_segments [simp]:
  "flat s \<Longrightarrow> flat (flat_segments s)" "m_seg_base (flat_segments s) i = 0" "m_seg_limit (flat_segments s) i = 0xFFFF"
  "m_memory_size (flat_segments s) = m_memory_size s" "m_cpl (flat_segments s) = 0" "protected_mode (flat_segments s)"
  by (simp_all add: flat_segments_def flat_def mem_ok_def entry_ok_def sys_ok_def protected_mode_def)

lemma span_low:
  assumes "m_memory_size s = 0x200000" "unat a + n \<le> 0xA0000"
  shows "ram_span n a s"
  unfolding ram_span_def in_ram_def assms(1)
proof (intro allI impI)
  fix i assume i: "i < n"
  have "unat (a + of_nat i) = unat a + i"
    using i assms(2) by (subst unat_add_lem [THEN iffD1]) (simp_all add: unat_of_nat)
  then have "a + of_nat i < 0xA0000" using i assms(2) by (simp add: word_less_nat_alt)
  then show "a + of_nat i < 0x200000 \<and> \<not> (0xA0000 \<le> a + of_nat i \<and> a + of_nat i < 0x100000)"
    using less_trans [of "a + of_nat i" "0xA0000" "0x200000"] by (simp add: not_le)
qed

theorem descriptor_round_trip_witness:
  "\<exists>(io :: unit io_bus) s d t u. booted 0x200000 False io = Some s
    \<and> store_desc 0x10 (make_desc 0xC0DE1234 0x54321 0x92 0xC) (flat_segments s) = Ok () t
    \<and> cpu_seg_load_descriptor 0x10 None 0 t = Ok (Some d) u
    \<and> cpu_seg_get_base d = 0xC0DE1234 \<and> cpu_seg_get_limit d = 0x54321FFF"
proof -
  obtain io :: "unit io_bus" and s where s: "booted 0x200000 False io = Some s" "flat s" "m_memory_size s = 0x200000"
    using booted_flat by blast
  have "ram_span 8 0x10 (flat_segments s)" using s(3) by (intro span_low) simp_all
  moreover have "bit (0xC :: u8) 3" by simp
  ultimately show ?thesis
    using descriptor_round_trip [of "flat_segments s" "0x10" "0x10" "0x54321" "0xC0DE1234" "0x92" "0xC" None 0] s(1,2)
    by simp blast
qed

section \<open>Moves to a segment register\<close>

definition segment_fields :: "nat \<Rightarrow> u16 \<Rightarrow> seg_desc \<Rightarrow> 'd cpu_mem \<Rightarrow> 'd cpu_mem \<Rightarrow> bool" where
  "segment_fields i sel d s t \<longleftrightarrow> m_seg t = (m_seg s)(i := sel) \<and> m_seg_base t = (m_seg_base s)(i := cpu_seg_get_base d)
     \<and> m_seg_limit t = (m_seg_limit s)(i := cpu_seg_get_limit d) \<and> m_seg_access t = (m_seg_access s)(i := desc_access d)
     \<and> m_cpl t = m_cpl s \<and> m_reg32 t = m_reg32 s \<and> m_eflags t = m_eflags s
     \<and> m_esp_mask t = (if i = 2 then if bit (desc_access d) 14 then - 1 else 0xFFFF else m_esp_mask s)"

lemma and_0x4000: "x AND 0x4000 \<noteq> 0 \<longleftrightarrow> bit x 14" for x :: u32
  by (simp add: bit_iff_and_push_bit_not_eq_0)

lemma and_0x80: "x AND 0x80 \<noteq> 0 \<longleftrightarrow> bit x 7" for x :: u32
  by (simp add: bit_iff_and_push_bit_not_eq_0)

lemma load_done_fields:
  assumes "load_done i sel d s = Ok () t" "i \<noteq> 1"
  shows "segment_fields i sel d s t"
proof -
  define r where "r = s\<lparr>m_seg := (m_seg s)(i := sel), m_seg_base := (m_seg_base s)(i := cpu_seg_get_base d),
      m_seg_limit := (m_seg_limit s)(i := cpu_seg_get_limit d), m_seg_access := (m_seg_access s)(i := desc_access d)\<rparr>"
  define a where "a = cpu_seg_descriptor_address None sel r"
  define w where "w = mem_write8 2 (a + 5) (drop_bit 8 (raw1 (d\<lparr>raw1 := raw1 d OR 0x100\<rparr>)) AND 0xFF) r"
  have e: "seq (if a = - 1 then Abort else seq w (\<lambda>_ s. if i = 2
        then Ok (d\<lparr>raw1 := raw1 d OR 0x100\<rparr>) (s\<lparr>m_esp_mask := (if m_seg_access s 2 AND 0x4000 \<noteq> 0 then - 1 else 0xFFFF)\<rparr>)
        else Ok (d\<lparr>raw1 := raw1 d OR 0x100\<rparr>) s)) (\<lambda>_ s. Ok () s) = Ok () t"
    using assms(1) unfolding load_done_def cpu_seg_load_protected_def Let_def r_def [symmetric] a_def [symmetric]
    by (simp only: if_not_P [OF assms(2)] w_def)
  have "a \<noteq> - 1" using e by auto
  then obtain u where u: "w = Ok () u"
    and t: "t = (if i = 2 then u\<lparr>m_esp_mask := (if m_seg_access u 2 AND 0x4000 \<noteq> 0 then - 1 else 0xFFFF)\<rparr> else u)"
    using e by (cases w) (auto split: if_splits)
  have "same_arch r u" using u unfolding w_def by (rule Ok_keeps [OF keeps_mem(4)])
  then show ?thesis unfolding segment_fields_def t by (simp add: r_def same_arch_def and_0x4000)
qed

lemma loaded_ok:
  assumes "seq (cpu_seg_load_descriptor sel (Some v) c s) f = Ok () t"
  obtains d u where "cpu_seg_load_descriptor sel (Some v) c s = Ok (Some d) u" "same_arch s u" "f (Some d) u = Ok () t"
    "\<not> m_seg_limit s (if sel AND 4 \<noteq> 0 then 8 else 7) < sel OR 7"
proof -
  obtain x u where u: "cpu_seg_load_descriptor sel (Some v) c s = Ok x u" "f x u = Ok () t"
    using assms by (auto simp: seq_Ok_iff)
  have k: "same_arch s u" using u(1) by (rule Ok_keeps [OF keeps_descriptor(2)])
  have lim: "\<not> m_seg_limit s (if sel AND 4 \<noteq> 0 then 8 else 7) < sel OR 7"
    using u(1) unfolding cpu_seg_load_descriptor_def cpu_seg_load_descriptor2_def raise_code_def by (auto split del: if_split)
  obtain d where "x = Some d"
    using u(1) lim unfolding cpu_seg_load_descriptor_def cpu_seg_load_descriptor2_def Let_def
    by (auto simp: seq_Ok_iff split del: if_split)
  then show ?thesis using that u k lim by simp
qed

lemma segment_fields_arch: "same_arch s u \<Longrightarrow> segment_fields i sel d u t \<Longrightarrow> segment_fields i sel d s t"
  by (auto simp: segment_fields_def same_arch_def)

lemma zext16_0: "(ucast x :: u32) = 0 \<longleftrightarrow> x = 0" for x :: u16
  using zext16_inj [of x 0] by simp

lemma stack_load_ok:
  assumes "load_stack_segment sel s = Ok () t"
  obtains d u where "cpu_seg_load_descriptor (ucast sel) (Some 13) (ucast (sel AND 0xFFFC)) s = Ok (Some d) u" "same_arch s u"
    "\<not> m_seg_limit s (if (ucast sel :: u32) AND 4 \<noteq> 0 then 8 else 7) < ucast sel OR 7"
    "m_cpl u = ucast (sel AND 3)" "m_cpl u = drop_bit 5 (desc_access d) AND 3"
    "desc_access d AND 0x1F \<in> {0x12, 0x13, 0x16, 0x17}" "desc_access d AND 0x80 \<noteq> 0" "load_done 2 sel d u = Ok () t"
proof -
  have z: "((ucast (sel AND 0xFFFC) :: u32) = 0) = False"
    using assms by (auto simp: load_stack_segment_def raise_code_def)
  show ?thesis
    by (rule loaded_ok [OF assms [unfolded load_stack_segment_def Let_def z if_False]])
      (auto simp: raise_code_def intro: that split: if_splits)
qed

lemma data_load_ok:
  assumes "load_data_segment i sel s = Ok () t" "sel AND 0xFFFC \<noteq> 0"
  obtains d u where "cpu_seg_load_descriptor (ucast sel) (Some 13) (ucast (sel AND 0xFFFC)) s = Ok (Some d) u" "same_arch s u"
    "\<not> m_seg_limit s (if (ucast sel :: u32) AND 4 \<noteq> 0 then 8 else 7) < ucast sel OR 7"
    "desc_access d AND 0x1F \<in> {0x1A, 0x1B, 0x1E, 0x1F} \<or> 0x10 \<le> desc_access d AND 0x1F
      \<and> desc_access d AND 0x1F \<le> 0x19 \<and> \<not> (drop_bit 5 (desc_access d) AND 3 < m_cpl u \<or> drop_bit 5 (desc_access d) AND 3 < ucast (sel AND 3))"
    "desc_access d AND 0x80 \<noteq> 0" "load_done i sel d u = Ok () t"
proof -
  have z: "((ucast (sel AND 0xFFFC) :: u32) \<noteq> 0) = True" using assms(2) by (simp add: zext16_0)
  show ?thesis
    by (rule loaded_ok [OF assms(1) [unfolded load_data_segment_def Let_def z if_True]])
      (auto simp: raise_code_def intro: that split: if_splits)
qed

lemma code_types: "ty \<le> 0x19 \<Longrightarrow> ty \<le> 0x17 \<or> ty \<in> {0x18, 0x19}" for ty :: u32
proof -
  assume "ty \<le> 0x19"
  then have "unat ty \<le> 23 \<or> unat ty = 24 \<or> unat ty = 25" by (simp add: word_le_nat_alt) arith
  then show ?thesis by (auto simp: word_le_nat_alt word_unat_eq_iff)
qed

text \<open>
  C16. What a successful move to a segment register in protected mode guarantees, for SS and
  the data segments. Either a data segment is made null (all of its cached fields are zero), or the
  register's selector lies within its descriptor table and the cached base, limit and access are those of
  the descriptor read there, which is marked present and is a code or data descriptor. For SS it is a writable
  data segment whose privilege level and the selector's are the current one. For the others it is, as the
  architecture asks, a data segment whose privilege level is not below the current and the requested one, or a readable
  conforming code segment; or, and here the source deviates, a readable code segment that is not conforming, for which
  it makes no check of the privilege levels at all, or an execute-only one, which it accepts with that check.
  No other segment, general register, flag nor the privilege level changes; the width of the stack pointer follows
  the descriptor of SS and only SS.
\<close>

theorem segment_load_protection:
  assumes "protected_mode s" "i \<in> {0, 2, 3, 4, 5}" "cpu_load_seg_value_mov i sel s = Ok () t"
  shows "sel AND 0xFFFC = 0 \<and> i \<noteq> 2 \<and> t = s\<lparr>m_seg := (m_seg s)(i := sel), m_seg_base := (m_seg_base s)(i := 0),
        m_seg_limit := (m_seg_limit s)(i := 0), m_seg_access := (m_seg_access s)(i := 0)\<rparr>
    \<or> (\<exists>d u. cpu_seg_load_descriptor (ucast sel) (Some 13) (ucast (sel AND 0xFFFC)) s = Ok (Some d) u
        \<and> ucast sel OR 7 \<le> m_seg_limit s (if (ucast sel :: u32) AND 4 \<noteq> 0 then 8 else 7)
        \<and> segment_fields i sel d s t \<and> bit (desc_access d) 7
        \<and> (let ty = desc_access d AND 0x1F; dpl = drop_bit 5 (desc_access d) AND 3; rpl = ucast (sel AND 3) in
            (i = 2 \<and> ty \<in> {0x12, 0x13, 0x16, 0x17} \<and> dpl = m_cpl s \<and> rpl = m_cpl s)
            \<or> (i \<noteq> 2 \<and> (0x10 \<le> ty \<and> ty \<le> 0x17 \<and> m_cpl s \<le> dpl \<and> rpl \<le> dpl
                \<or> ty \<in> {0x1E, 0x1F}
                \<or> ty \<in> {0x1A, 0x1B}
                \<or> ty \<in> {0x18, 0x19} \<and> m_cpl s \<le> dpl \<and> rpl \<le> dpl))))"
proof (cases "i = 2")
  case True
  then have "load_stack_segment sel s = Ok () t" using assms by (simp add: cpu_load_seg_value_mov_def)
  then obtain d u where d: "cpu_seg_load_descriptor (ucast sel) (Some 13) (ucast (sel AND 0xFFFC)) s = Ok (Some d) u" "same_arch s u"
    "\<not> m_seg_limit s (if (ucast sel :: u32) AND 4 \<noteq> 0 then 8 else 7) < ucast sel OR 7"
    and f: "m_cpl u = ucast (sel AND 3)" "m_cpl u = drop_bit 5 (desc_access d) AND 3"
    "desc_access d AND 0x1F \<in> {0x12, 0x13, 0x16, 0x17}" "desc_access d AND 0x80 \<noteq> 0" "load_done 2 sel d u = Ok () t"
    by (rule stack_load_ok)
  have "segment_fields 2 sel d s t"
    using segment_fields_arch [OF d(2)] load_done_fields [OF f(5)] by simp
  moreover have "m_cpl u = m_cpl s" using d(2) by (simp add: same_arch_def)
  ultimately show ?thesis
    using True d f(1-4) by (intro disjI2 exI [of _ d] exI [of _ u]) (auto simp: Let_def and_0x80 not_less)
next
  case False
  then have c: "load_data_segment i sel s = Ok () t" using assms by (auto simp: cpu_load_seg_value_mov_def)
  show ?thesis
  proof (cases "sel AND 0xFFFC = 0")
    case True
    then show ?thesis using c False by (simp add: load_data_segment_def Let_def) 
  next
    case off: False
    with c obtain d u where d: "cpu_seg_load_descriptor (ucast sel) (Some 13) (ucast (sel AND 0xFFFC)) s = Ok (Some d) u" "same_arch s u"
      "\<not> m_seg_limit s (if (ucast sel :: u32) AND 4 \<noteq> 0 then 8 else 7) < ucast sel OR 7"
      and f: "desc_access d AND 0x1F \<in> {0x1A, 0x1B, 0x1E, 0x1F} \<or> 0x10 \<le> desc_access d AND 0x1F
        \<and> desc_access d AND 0x1F \<le> 0x19 \<and> \<not> (drop_bit 5 (desc_access d) AND 3 < m_cpl u \<or> drop_bit 5 (desc_access d) AND 3 < ucast (sel AND 3))"
        "desc_access d AND 0x80 \<noteq> 0" "load_done i sel d u = Ok () t"
      by (rule data_load_ok)
    have "segment_fields i sel d s t"
      using False assms(2) segment_fields_arch [OF d(2)] load_done_fields [OF f(3)] by auto
    moreover have "m_cpl u = m_cpl s" using d(2) by (simp add: same_arch_def)
    ultimately show ?thesis
      using False d f(1,2) code_types [of "desc_access d AND 0x1F"]
      by (intro disjI2 exI [of _ d] exI [of _ u]) (auto simp: Let_def and_0x80 not_less)
  qed
qed

lemma load_done_flat:
  assumes "flat s" "m_memory_size s = 0x200000" "m_seg_limit s 7 = 0xFFFF" "m_seg_base s 7 = 0"
  shows "\<exists>t. load_done 3 0x10 d s = Ok () t"
proof -
  define r where "r = s\<lparr>m_seg := (m_seg s)(3 := 0x10), m_seg_base := (m_seg_base s)(3 := cpu_seg_get_base d),
      m_seg_limit := (m_seg_limit s)(3 := cpu_seg_get_limit d), m_seg_access := (m_seg_access s)(3 := desc_access d)\<rparr>"
  have f: "flat r" "in_ram 0x15 r" using assms(1,2) by (simp_all add: r_def flat_def mem_ok_def entry_ok_def sys_ok_def in_ram_def)
  have a: "cpu_seg_descriptor_address None 0x10 r = 0x10"
    using assms(3,4) by (simp add: cpu_seg_descriptor_address_def r_def)
  show ?thesis
    using mem_write8_flat [OF f, of 2 "drop_bit 8 (raw1 d OR 0x100) AND 0xFF"] a
    by (auto simp: load_done_def cpu_seg_load_protected_def Let_def r_def [symmetric] writes_flat_def)
qed

text \<open>A writable data segment at 0x12340000, loaded into DS.\<close>

lemma load_flat_segment:
  assumes "flat s" "m_memory_size s = 0x200000"
  obtains t u where "store_desc 0x10 (make_desc 0x12340000 0x5432 0x92 4) (flat_segments s) = Ok () t" "protected_mode t"
    "cpu_load_seg_value_mov 3 0x10 t = Ok () u"
    "\<And>d v. cpu_seg_load_descriptor 0x10 (Some 13) 0x10 t = Ok (Some d) v \<Longrightarrow> d = make_desc 0x12340000 0x5432 0x92 4"
proof -
  let ?d = "make_desc 0x12340000 0x5432 0x92 4"
  have f: "flat (flat_segments s)" "ram_span 8 0x10 (flat_segments s)"
    using assms by (auto intro!: span_low)
  obtain t where t: "store_desc 0x10 ?d (flat_segments s) = Ok () t" "flat t" "same_core (flat_segments s) t"
    "same_arch (flat_segments s) t" "ram_get32 0x10 t = raw0 ?d" "ram_get32 0x14 t = raw1 ?d"
    using store_desc_flat [OF f] by auto
  have k: "m_seg_base t = (\<lambda>_. 0)" "m_seg_limit t = (\<lambda>_. 0xFFFF)" "m_cpl t = 0" "m_memory_size t = 0x200000" "m_cr t 0 = 0x11" "m_eflags t = 2"
    using t(3,4) assms(2) by (simp_all add: same_arch_def same_core_def flat_segments_def)
  obtain u where u: "cpu_seg_load_descriptor 0x10 (Some 13) 0x10 t = Ok (Some ?d) u" "flat u" "same_core t u"
    using load_desc_flat [OF t(2), of "0x10" "0x10" "Some 13" "0x10"] k(1,2) t(5,6) span_low [of t "0x10" 8] k(4) by auto
  have ku: "m_cpl u = 0" "m_seg_limit u = (\<lambda>_. 0xFFFF)" "m_seg_base u = (\<lambda>_. 0)" "m_memory_size u = 0x200000"
    using Ok_keeps [OF keeps_descriptor(2) u(1)] u(3) k by (simp_all add: same_arch_def same_core_def)
  obtain v where v: "load_done 3 0x10 ?d u = Ok () v"
    using load_done_flat [OF u(2), of ?d] ku by auto
  have ac: "desc_access ?d = 0x4092" by (simp add: desc_access_def make_desc_def word_cat_eq)
  have "cpu_load_seg_value_mov 3 0x10 t = Ok () v"
    using u(1) v k(5,6) ku(1) by (simp add: cpu_load_seg_value_mov_def protected_mode_def load_data_segment_def Let_def ac)
  moreover have "protected_mode t" using k(5,6) by (simp add: protected_mode_def)
  moreover have "d = ?d" if "cpu_seg_load_descriptor 0x10 (Some 13) 0x10 t = Ok (Some d) w" for d w
    using that u(1) by simp
  ultimately show ?thesis using that t(1) by blast
qed

theorem segment_load_protection_witness:
  "\<exists>(io :: unit io_bus) s t u. booted 0x200000 False io = Some s
    \<and> store_desc 0x10 (make_desc 0x12340000 0x5432 0x92 4) (flat_segments s) = Ok () t
    \<and> cpu_load_seg_value_mov 3 0x10 t = Ok () u \<and> m_seg_base u 3 = 0x12340000 \<and> m_esp_mask u = m_esp_mask t"
proof -
  obtain io :: "unit io_bus" and s where s: "booted 0x200000 False io = Some s" "flat s" "m_memory_size s = 0x200000"
    using booted_flat by blast
  obtain t u where t: "store_desc 0x10 (make_desc 0x12340000 0x5432 0x92 4) (flat_segments s) = Ok () t" "protected_mode t"
    "cpu_load_seg_value_mov 3 0x10 t = Ok () u"
    "\<And>d v. cpu_seg_load_descriptor 0x10 (Some 13) 0x10 t = Ok (Some d) v \<Longrightarrow> d = make_desc 0x12340000 0x5432 0x92 4"
    using load_flat_segment [OF s(2,3)] by blast
  have i: "(3 :: nat) \<in> {0, 2, 3, 4, 5}" by simp_all
  obtain d v where d: "cpu_seg_load_descriptor (ucast (0x10 :: u16)) (Some 13) (ucast ((0x10 :: u16) AND 0xFFFC)) t = Ok (Some d) v"
    "segment_fields 3 0x10 d t u"
    by (rule disjE [OF segment_load_protection [OF t(2) i t(3)]]) (simp, elim exE conjE, blast)
  have "m_seg_base u 3 = 0x12340000 \<and> m_esp_mask u = m_esp_mask t"
    using t(4) [of d v] d by (simp add: segment_fields_def desc_base)
  then show ?thesis using s(1) t(1,3) by blast
qed

end
