(* ===== verification/Misc_Laws.thy ===== *)
theory Misc_Laws
  imports Seg_Laws
begin

text \<open>
  Properties of src/src/cpu/misc.cpp and src/src/cpu/io.cpp: the model-specific registers, the
  protection of the flags, and the I/O permission bitmap.
\<close>

section \<open>Model-specific registers\<close>

definition sysenter_msr :: "u32 \<Rightarrow> bool" where
  "sysenter_msr i \<longleftrightarrow> 0x174 \<le> i \<and> i \<le> 0x176"

definition msr_writable :: "u32 \<Rightarrow> bool" where
  "msr_writable i \<longleftrightarrow> i \<in> {0x10, 0x1B, 0x277, 0x2FF, 0xC0000080} \<or> sysenter_msr i
     \<or> (0x250 \<le> i \<and> i \<le> 0x26F) \<or> (0x200 \<le> i \<and> i \<le> 0x20F)"

lemma wide_halves: "ucast (drop_bit 32 (push_bit 32 (ucast h) OR ucast l :: u64)) = h"
  "ucast (push_bit 32 (ucast h) OR ucast l :: u64) = l" "ucast (drop_bit 32 (ucast l :: u64)) = (0 :: u32)"
  "ucast (ucast l :: u64) = l" for h l :: u32
  by (rule bit_word_eqI, auto simp: bit_simps dest: bit_imp_le_length)+

lemma index_inj: "unat (j XOR a) = unat (i XOR a) \<longleftrightarrow> j = i" "unat (j - a) = unat (i - a) \<longleftrightarrow> j = i" for i j a :: u32
proof -
  have "j = i" if "j XOR a = i XOR a"
  proof -
    have "(j XOR a) XOR a = (i XOR a) XOR a" using that by simp
    then show ?thesis by (simp add: xor.assoc)
  qed
  then show "unat (j XOR a) = unat (i XOR a) \<longleftrightarrow> j = i" by (metis word_unat_eq_iff)
  show "unat (j - a) = unat (i - a) \<longleftrightarrow> j = i" by (simp flip: word_unat_eq_iff)
qed

definition wide :: "u32 \<Rightarrow> u32 \<Rightarrow> u64" where
  "wide h l = push_bit 32 (ucast h) OR ucast l"

text \<open>The registers that a write changes, one by one.\<close>

lemma wrmsr_cases:
  assumes "msr_writable i"
  obtains "i = 0x1B" "wrmsr i h l s = s\<lparr>m_apic_base := wide h l\<rparr>"
  | "sysenter_msr i" "wrmsr i h l s = s\<lparr>m_sysenter := (m_sysenter s)(unat (i - 0x174) := l)\<rparr>"
  | "0x250 \<le> i" "i \<le> 0x26F" "wrmsr i h l s = s\<lparr>m_mtrr_fixed := (m_mtrr_fixed s)(unat (i - 0x250) := wide h l)\<rparr>"
  | "0x200 \<le> i" "i \<le> 0x20F"
    "wrmsr i h l s = s\<lparr>m_mtrr_variable_addr_mask := (m_mtrr_variable_addr_mask s)(unat (i XOR 0x200) := wide h l)\<rparr>"
  | "i = 0x277" "wrmsr i h l s = s\<lparr>m_page_attribute_tables := wide h l\<rparr>"
  | "i = 0x2FF" "wrmsr i h l s = s\<lparr>m_mtrr_deftype := wide h l\<rparr>"
  | "i = 0x10" "wrmsr i h l s = s\<lparr>m_tsc_fudge := cpu_get_cycles s - wide h l\<rparr>"
  | "i = 0xC0000080" "wrmsr i h l s = s\<lparr>m_ia32_efer := wide h l\<rparr>"
proof -
  note d = wrmsr_def Let_def wide_def
  consider "i = 0x1B" | "sysenter_msr i" | "0x250 \<le> i \<and> i \<le> 0x26F" | "0x200 \<le> i \<and> i \<le> 0x20F"
    | "i = 0x277" | "i = 0x2FF" | "i = 0x10" | "i = 0xC0000080"
    using assms unfolding msr_writable_def by blast
  then show ?thesis
  proof cases
    case 1 then show ?thesis using that(1) by (simp add: d)
  next
    case 2
    then have "i \<noteq> 0x1B" by (auto simp: sysenter_msr_def)
    then show ?thesis using that(2) 2 by (simp add: d sysenter_msr_def)
  next
    case 3
    then have "i \<noteq> 0x1B" "\<not> i \<le> 0x176" by (auto simp: word_le_nat_alt)
    then show ?thesis using that(3) 3 by (simp add: d)
  next
    case 4
    then have "i \<noteq> 0x1B" "\<not> i \<le> 0x176" "\<not> 0x250 \<le> i" by (auto simp: word_le_nat_alt)
    then show ?thesis using that(4) 4 by (simp add: d)
  next
    case 5 then show ?thesis using that(5) by (simp add: d)
  next
    case 6 then show ?thesis using that(6) by (simp add: d)
  next
    case 7 then show ?thesis using that(7) by (simp add: d)
  next
    case 8 then show ?thesis using that(8) by (simp add: d)
  qed
qed

lemma msr_same:
  assumes "msr_writable i"
  shows "msr_value i (wrmsr i h l s) = (if sysenter_msr i then ucast l else wide h l)"
  using assms
proof (cases rule: wrmsr_cases [of i h l s])
  case 2
  then have "i \<noteq> 0x1B" "\<not> 0x250 \<le> i" "\<not> 0x200 \<le> i" "i \<noteq> 0x277" "i \<noteq> 0x2FF"
    by (auto simp: sysenter_msr_def word_le_nat_alt)
  then show ?thesis using 2 by (simp add: msr_value_def sysenter_msr_def)
next
  case 3
  then have "i \<noteq> 0x1B" "\<not> i \<le> 0x176" by (auto simp: word_le_nat_alt)
  then show ?thesis using 3 by (simp add: msr_value_def sysenter_msr_def)
next
  case 4
  then have "i \<noteq> 0x1B" "\<not> i \<le> 0x176" "\<not> 0x250 \<le> i" by (auto simp: word_le_nat_alt)
  then show ?thesis using 4 by (simp add: msr_value_def sysenter_msr_def)
qed (simp_all add: msr_value_def sysenter_msr_def cpu_get_cycles_def)

lemma msr_ignored: "\<not> msr_writable i \<Longrightarrow> wrmsr i h l s = s"
proof -
  assume "\<not> msr_writable i"
  then have n: "(i = 0x1B) = False" "(0x174 \<le> i \<and> i \<le> 0x176) = False" "(0x250 \<le> i \<and> i \<le> 0x26F) = False"
    "(0x200 \<le> i \<and> i \<le> 0x20F) = False" "(i = 0x277) = False" "(i = 0x2FF) = False" "(i = 0x10) = False"
    "(i = 0xC0000080) = False"
    unfolding msr_writable_def sysenter_msr_def by blast+
  show ?thesis unfolding wrmsr_def Let_def n if_False by (rule refl)
qed

lemma msr_other:
  assumes "j \<noteq> i"
  shows "msr_value j (wrmsr i h l s) = msr_value j s"
proof (cases "msr_writable i")
  case True
  then show ?thesis using assms
    by (cases rule: wrmsr_cases [of i h l s]) (simp_all add: msr_value_def cpu_get_cycles_def index_inj)
next
  case False
  then show ?thesis by (simp add: msr_ignored)
qed

text \<open>
  C40. Model-specific registers: what is written to a writable register is what a read returns, in both
  halves (only the low half for the SYSENTER registers, and the time stamp counter restarts at the written
  value); all other registers read as before; a write of any other index does nothing. The APIC base is readable
  just when the written value connects an enabled APIC; otherwise the read faults with vector 13.
\<close>

theorem msr_round_trip:
  "(msr_writable i \<longrightarrow> rdmsr apic_enabled i (wrmsr i h l s) =
      (if i = 0x1B \<and> \<not> (apic_enabled \<and> bit l 8) then Fault 13 0x10000 (wrmsr i h l s)
       else Ok (if sysenter_msr i then 0 else h, l) (wrmsr i h l s)))
   \<and> (j \<noteq> i \<longrightarrow> msr_value j (wrmsr i h l s) = msr_value j s)
   \<and> (\<not> msr_writable i \<longrightarrow> wrmsr i h l s = s)"
proof (intro conjI impI)
  assume i: "msr_writable i"
  have "bit (wide h l) 8 = bit l 8" by (simp add: wide_def bit_simps)
  then have "i = 0x1B \<Longrightarrow> cpu_apic_connected apic_enabled (wrmsr i h l s) = (apic_enabled \<and> bit l 8)"
    by (simp add: cpu_apic_connected_def wrmsr_def Let_def wide_def bit_iff_and_push_bit_not_eq_0)
  then show "rdmsr apic_enabled i (wrmsr i h l s) =
      (if i = 0x1B \<and> \<not> (apic_enabled \<and> bit l 8) then Fault 13 0x10000 (wrmsr i h l s)
       else Ok (if sysenter_msr i then 0 else h, l) (wrmsr i h l s))"
    using msr_same [OF i, of h l s] wide_halves(1,2) [of h l] wide_halves(3,4) [of l]
    by (auto simp: rdmsr_def raise_code_def Let_def wide_def)
next
  assume "j \<noteq> i" then show "msr_value j (wrmsr i h l s) = msr_value j s" by (rule msr_other)
next
  assume "\<not> msr_writable i" then show "wrmsr i h l s = s" by (rule msr_ignored)
qed

theorem msr_round_trip_witness:
  "rdmsr False 0x10 (wrmsr 0x10 1 2 (power_on (zero_bus ()))) = Ok (1, 2) (wrmsr 0x10 1 2 (power_on (zero_bus ())))"
  using msr_round_trip [of "0x10" False 1 2 "power_on (zero_bus ())" 0] by (simp add: msr_writable_def sysenter_msr_def)

section \<open>Protection of the flags\<close>

lemma set_eflags_bits:
  "m_eflags (cpu_set_eflags f s) = (m_eflags s AND NOT eflags_mask) OR (f AND eflags_mask)"
  by (simp add: cpu_set_eflags_def Let_def)

lemma bits_kept:
  assumes "f AND k = m_eflags s AND k"
  shows "m_eflags (cpu_set_eflags f s) AND k = m_eflags s AND k"
proof (rule bit_word_eqI)
  fix n
  have "bit f n \<and> bit k n \<longleftrightarrow> bit (m_eflags s) n \<and> bit k n" using assms by (metis bit_and_iff)
  then show "bit (m_eflags (cpu_set_eflags f s) AND k) n = bit (m_eflags s AND k) n"
    by (auto simp: set_eflags_bits bit_and_iff bit_or_iff bit_not_iff dest: bit_imp_le_length)
qed

lemma keeps_pop: "cpu_pop16 s = Ok x t \<Longrightarrow> m_eflags t = m_eflags s \<and> m_cpl t = m_cpl s"
  "cpu_pop32 s = Ok y t \<Longrightarrow> m_eflags t = m_eflags s \<and> m_cpl t = m_cpl s"
proof -
  assume "cpu_pop16 s = Ok x t"
  then obtain v u where "mem_read16 (m_tlb_shift_read s) (stack_addr (get_reg32 4 s AND m_esp_mask s) s) s = Ok v u"
    and t: "\<exists>w. t = set_reg32 4 w u"
    by (auto simp: cpu_pop16_def Let_def seq_Ok_iff)
  then have "same_arch s u" by (auto intro: Ok_keeps [OF keeps_mem16])
  then show "m_eflags t = m_eflags s \<and> m_cpl t = m_cpl s" using t by (auto simp: same_arch_def set_reg32_def)
next
  assume "cpu_pop32 s = Ok y t"
  then obtain v u where "mem_read32 (m_tlb_shift_read s) (stack_addr (get_reg32 4 s AND m_esp_mask s) s) s = Ok v u"
    and t: "\<exists>w. t = set_reg32 4 w u"
    by (auto simp: cpu_pop32_def Let_def seq_Ok_iff)
  then have "same_arch s u" by (auto intro: Ok_keeps [OF keeps_mem(3)])
  then show "m_eflags t = m_eflags s \<and> m_cpl t = m_cpl s" using t by (auto simp: same_arch_def set_reg32_def)
qed

text \<open>Bits that a return of POPF or POPFD keeps: those of the mask it keeps from the old flags.\<close>

lemma kept_and: "((f AND NOT k) OR (e AND k)) AND m = e AND m" if "m AND k = m" for f e k m :: u32
proof (rule bit_word_eqI)
  fix n
  have "bit m n \<longrightarrow> bit k n" using that by (metis bit_and_iff)
  then show "bit (((f AND NOT k) OR (e AND k)) AND m) n = bit (e AND m) n"
    by (auto simp: bit_and_iff bit_or_iff bit_not_iff)
qed

lemma pop_keeps_mask:
  assumes "seq (cpu_pop32 s) (\<lambda>f s. flags_return ((g f AND NOT (k s)) OR (m_eflags s AND k s)) s) = Ok () t"
    "\<And>u. m_eflags u = m_eflags s \<Longrightarrow> m_cpl u = m_cpl s \<Longrightarrow> m AND k u = m"
  shows "m_eflags t AND m = m_eflags s AND m"
proof -
  obtain f u where u: "cpu_pop32 s = Ok f u" "t = cpu_set_eflags ((g f AND NOT (k u)) OR (m_eflags u AND k u)) u"
    using assms(1) unfolding seq_Ok_iff flags_return_def by auto
  then have e: "m_eflags u = m_eflags s" "m_cpl u = m_cpl s" using keeps_pop(2) by blast+
  then have "m AND k u = m" by (rule assms(2))
  then show ?thesis using bits_kept [OF kept_and [of m "k u" "g f" "m_eflags u"]] u(2) e(1) by simp
qed

lemma high_mask: "bit (0xFFFF0000 OR 0x3000 :: u32) n \<longleftrightarrow> (16 \<le> n \<and> n < 32) \<or> (12 \<le> n \<and> n < 14)"
  "bit (0x3000 :: u32) n \<longleftrightarrow> 12 \<le> n \<and> n < 14"
proof -
  have m: "(0x3000 :: u32) = push_bit 12 (mask 2)" "(0xFFFF0000 :: u32) = push_bit 16 (mask 16)"
    by (simp_all add: mask_eq_exp_minus_1 push_bit_eq_mult)
  show "bit (0xFFFF0000 OR 0x3000 :: u32) n \<longleftrightarrow> (16 \<le> n \<and> n < 32) \<or> (12 \<le> n \<and> n < 14)"
    "bit (0x3000 :: u32) n \<longleftrightarrow> 12 \<le> n \<and> n < 14"
    unfolding m by (auto simp: bit_or_iff bit_push_bit_iff bit_mask_iff)
qed

lemma zext_low: "ucast f AND NOT 0x3000 = ucast f AND NOT (0xFFFF0000 OR 0x3000 :: u32)" for f :: u16
proof (rule bit_word_eqI)
  fix n
  have "n < 16" if "bit f n" using bit_imp_le_length [OF that] by simp
  then show "bit (ucast f AND NOT 0x3000 :: u32) n = bit (ucast f AND NOT (0xFFFF0000 OR 0x3000 :: u32)) n"
    unfolding bit_and_iff bit_not_iff high_mask bit_ucast_iff by auto
qed

lemma popf_user_flags:
  assumes "popf_user s = Ok () t"
  shows "m_eflags t AND 0x23000 = m_eflags s AND 0x23000"
    and "\<exists>f u. cpu_pop16 s = Ok f u \<and> bit (m_eflags t) 9 = bit f 9"
proof -
  let ?k = "0xFFFF0000 OR 0x3000 :: u32"
  obtain f u where u: "cpu_pop16 s = Ok f u" "t = cpu_set_eflags ((ucast f AND NOT ?k) OR (m_eflags u AND ?k)) u"
    using assms unfolding popf_user_def seq_Ok_iff flags_return_def zext_low by auto
  then have e: "m_eflags u = m_eflags s" using keeps_pop(1) by blast
  have "0x23000 AND ?k = 0x23000" by simp
  then show "m_eflags t AND 0x23000 = m_eflags s AND 0x23000"
    using bits_kept [OF kept_and [of "0x23000" ?k "ucast f" "m_eflags u"]] u(2) e by simp
  have "bit eflags_mask 9" by (simp add: eflags_mask_def)
  then have "bit (m_eflags t) 9 = bit f 9"
    using u(2) by (simp add: set_eflags_bits bit_or_iff bit_and_iff bit_not_iff bit_ucast_iff)
  then show "\<exists>f u. cpu_pop16 s = Ok f u \<and> bit (m_eflags t) 9 = bit f 9" using u(1) by blast
qed

lemma popfd_v86:
  assumes "popfd s = Ok () t" "v86 s"
  shows "m_eflags t AND 0x23000 = m_eflags s AND 0x23000" "iopl s = 3"
proof -
  show io: "iopl s = 3" using assms by (auto simp: popfd_def raise_code_def split: if_splits)
  have "seq (cpu_pop32 s) (\<lambda>f s. flags_return ((f AND NOT (0x3000 OR 0x100000 OR 0x80000 OR 0x20000 OR 0x10000))
      OR (m_eflags s AND (0x3000 OR 0x100000 OR 0x80000 OR 0x20000 OR 0x10000))) s) = Ok () t"
    using assms io unfolding popfd_def Let_def by (simp only: if_True simp_thms)
  then show "m_eflags t AND 0x23000 = m_eflags s AND 0x23000"
    by (rule pop_keeps_mask [where g = "\<lambda>f. f"]) simp
qed

lemma popfd_user:
  assumes "popfd s = Ok () t" "\<not> v86 s" "bit (m_cr s 0) 0" "m_cpl s \<noteq> 0"
  shows "m_eflags t AND 0x23000 = m_eflags s AND 0x23000" "iopl s < m_cpl s \<Longrightarrow> m_eflags t AND 0x200 = m_eflags s AND 0x200"
proof -
  let ?k = "\<lambda>s :: 'a cpu_mem. (0x3000 OR 0x100000 OR 0x80000 OR 0x20000) OR (if iopl s < m_cpl s then 0x200 else 0)"
  have m: "seq (cpu_pop32 s) (\<lambda>f s. flags_return (((f AND NOT 0x10000) AND NOT (?k s)) OR (m_eflags s AND ?k s)) s) = Ok () t"
    using assms unfolding popfd_def Let_def by (simp only: if_False simp_thms)
  show "m_eflags t AND 0x23000 = m_eflags s AND 0x23000"
    using m by (rule pop_keeps_mask [where g = "\<lambda>f. f AND NOT 0x10000"]) simp
  show "m_eflags t AND 0x200 = m_eflags s AND 0x200" if "iopl s < m_cpl s"
    using m by (rule pop_keeps_mask [where g = "\<lambda>f. f AND NOT 0x10000"]) (use that in \<open>simp add: iopl_def\<close>)
qed

lemma vif_only: "((e AND NOT k) OR (if c then k else 0)) AND m = e AND m" if "k AND m = 0" for e k m :: u32
proof (rule bit_word_eqI)
  fix n
  have "\<not> (bit k n \<and> bit m n)" using that by (metis bit_and_iff bit_0_eq bot_apply bot_bool_def)
  then show "bit (((e AND NOT k) OR (if c then k else 0)) AND m) n = bit (e AND m) n"
    by (auto simp: bit_and_iff bit_or_iff bit_not_iff dest: bit_imp_le_length)
qed

lemma popf_vme:
  assumes "popf s = Ok () t" "v86 s" "iopl s \<noteq> 3"
  shows "m_eflags t AND 0x23000 = m_eflags s AND 0x23000"
proof -
  define k :: u32 where "k = NOT (0xFFFF XOR (0x200 OR 0x3000))"
  define w where "w f u = u\<lparr>m_eflags := (m_eflags u AND NOT 0x80000)
    OR (if ucast (f :: u16) AND 0x200 \<noteq> (0 :: u32) then 0x80000 else 0)\<rparr>" for f and u :: "'a cpu_mem"
  have i: "(iopl s = 3) = False" using assms(3) by simp
  have c: "bit (m_cr s 4) 0 = True" using assms by (cases "bit (m_cr s 4) 0") (simp_all add: popf_def raise_code_def)
  have e: "seq (cpu_pop16 s) (\<lambda>f u.
      if \<not> (m_eflags u AND 0x100000 \<noteq> 0 \<and> ucast f AND 0x200 \<noteq> (0 :: u32) \<or> ucast f AND 0x100 \<noteq> (0 :: u32)) then
        Ok () (cpu_set_eflags ((ucast f AND NOT k) OR (m_eflags (w f u) AND k)) (w f u))
      else raise_code 13 0 u) = Ok () t"
    using assms(1,2) unfolding popf_def k_def w_def flags_return_def Let_def bit.double_compl i c
    by (simp only: if_True if_False)
  obtain f u where u: "cpu_pop16 s = Ok f u" and t: "t = cpu_set_eflags ((ucast f AND NOT k) OR (m_eflags (w f u) AND k)) (w f u)"
    using e unfolding seq_Ok_iff raise_code_def by (auto split: if_splits)
  have "0x23000 AND k = 0x23000" by (simp add: k_def)
  then have "m_eflags t AND 0x23000 = m_eflags (w f u) AND 0x23000"
    unfolding t by (intro bits_kept kept_and)
  also have "m_eflags (w f u) = (m_eflags u AND NOT 0x80000) OR (if ucast f AND 0x200 \<noteq> (0 :: u32) then 0x80000 else 0)"
    by (simp add: w_def)
  also have "\<dots> AND 0x23000 = m_eflags u AND 0x23000" by (rule vif_only) simp
  finally show ?thesis using keeps_pop(1) [OF u] by simp
qed

text \<open>
  C17. Unprivileged code cannot raise its privilege through the flags: in protected mode, at a level other
  than 0 or in virtual-8086 mode, a POPFD that returns leaves the I/O privilege level and the VM flag as they were, and so does
  a POPF that returns; POPFD below the I/O privilege level leaves the interrupt flag alone, and in virtual-8086 mode
  it returns only at I/O privilege level 3. POPF, however, outside virtual-8086 mode takes the interrupt
  flag from the stack whatever the I/O privilege level.
\<close>

theorem flag_protection:
  assumes "bit (m_cr s 0) 0" "v86 s \<or> m_cpl s \<noteq> 0"
  shows "(popfd s = Ok () t \<longrightarrow> m_eflags t AND 0x23000 = m_eflags s AND 0x23000
      \<and> (\<not> v86 s \<and> iopl s < m_cpl s \<longrightarrow> m_eflags t AND 0x200 = m_eflags s AND 0x200) \<and> (v86 s \<longrightarrow> iopl s = 3))
    \<and> (popf s = Ok () t \<and> \<not> v86 s \<longrightarrow> m_eflags t AND 0x23000 = m_eflags s AND 0x23000
      \<and> (\<exists>f u. cpu_pop16 s = Ok f u \<and> bit (m_eflags t) 9 = bit f 9))
    \<and> (popf s = Ok () t \<and> v86 s \<longrightarrow> m_eflags t AND 0x23000 = m_eflags s AND 0x23000)"
proof (cases "v86 s")
  case True
  have "m_eflags t AND 0x23000 = m_eflags s AND 0x23000" if p: "popf s = Ok () t"
  proof (cases "iopl s = 3")
    case True
    then show ?thesis using p \<open>v86 s\<close> popf_user_flags(1) by (simp add: popf_def)
  next
    case False
    then show ?thesis using p \<open>v86 s\<close> by (intro popf_vme) 
  qed
  then show ?thesis using True popfd_v86 by blast
next
  case False
  then have "popf s = popf_user s" using assms by (simp add: popf_def)
  then show ?thesis using False assms popf_user_flags [of s t] popfd_user [of s t] by auto
qed

text \<open>User code at level 3 with I/O privilege level 0 pops a cleared interrupt flag.\<close>

definition user_mode :: "'d cpu_mem \<Rightarrow> 'd cpu_mem" where
  "user_mode s = (flat_segments s)\<lparr>m_cpl := 3, m_eflags := 0x202, m_reg32 := (m_reg32 s)(4 := 0x8000), m_esp_mask := - 1\<rparr>"

lemma user_mode [simp]:
  "flat s \<Longrightarrow> flat (user_mode s)" "m_cpl (user_mode s) = 3" "m_eflags (user_mode s) = 0x202" "m_cr (user_mode s) 0 = 0x11"
  "m_memory_size (user_mode s) = m_memory_size s" "get_reg32 4 (user_mode s) = 0x8000" "m_esp_mask (user_mode s) = - 1"
  "m_seg_base (user_mode s) i = 0" "m_mem (user_mode s) = m_mem s" "m_seg_limit (user_mode s) i = 0xFFFF"
  by (simp_all add: user_mode_def flat_segments_def flat_def mem_ok_def entry_ok_def sys_ok_def get_reg32_def)

theorem flag_protection_witness:
  "\<exists>(io :: unit io_bus) s t. booted 0x200000 False io = Some s \<and> popfd (user_mode s) = Ok () t
    \<and> m_eflags t AND 0x23000 = 0 \<and> m_eflags t AND 0x200 = 0x200"
proof -
  obtain io :: "unit io_bus" and s where s: "booted 0x200000 False io = Some s" "flat s" "m_memory_size s = 0x200000"
    using booted_flat by blast
  let ?s = "user_mode s"
  have "mem_ok ?s" using user_mode(1) [OF s(2)] by (simp only: flat_def)
  then have sh: "m_tlb_shift_read ?s \<in> {0, 2, 4, 6}" by (rule shifts_ok)
  have sp: "ram_span 4 0x8000 ?s" using s(3) by (intro span_low) simp_all
  obtain x u where u: "mem_read32 (m_tlb_shift_read ?s) 0x8000 ?s = Ok x u" "same_core ?s u"
    using mem_read32_flat [OF user_mode(1) [OF s(2)] sp sh] by (auto simp: reads_flat_def)
  have nv: "\<not> v86 ?s" "iopl ?s = 0" by (simp_all add: v86_def iopl_def)
  obtain v where p: "popfd ?s = Ok () v"
    using u(1) nv by (simp add: popfd_def cpu_pop32_def stack_addr_def flags_return_def Let_def)
  have "bit (0x11 :: u32) 0" by simp
  then have "m_eflags v AND 0x23000 = m_eflags ?s AND 0x23000 \<and> m_eflags v AND 0x200 = m_eflags ?s AND 0x200"
    using flag_protection [of ?s v] p nv by simp
  then show ?thesis using s(1) p by auto
qed

section \<open>The I/O permission bitmap\<close>

text \<open>The bit of a port in the bitmap of the current task.\<close>

definition io_map_base :: "'d cpu_mem \<Rightarrow> u32" where
  "io_map_base s = m_seg_base s 6 + ucast (ram_get16 (m_seg_base s 6 + 0x66) s)"

definition port_allowed :: "'d cpu_mem \<Rightarrow> nat \<Rightarrow> bool" where
  "port_allowed s q \<longleftrightarrow> \<not> bit (m_mem s (io_map_base s + of_nat (q div 8))) (q mod 8)"

text \<open>The task register holds a 386 task state segment in RAM whose limit reaches the bits of the ports.\<close>

definition tss_in_ram :: "'d cpu_mem \<Rightarrow> nat \<Rightarrow> u32 \<Rightarrow> bool" where
  "tss_in_ram s p n \<longleftrightarrow>
     (let sel = ucast (m_seg s 6); table = (if sel AND 4 \<noteq> 0 then 8 else 7); a = (sel AND NOT 7) + m_seg_base s table in
      ram_span 8 a s \<and> \<not> m_seg_limit s table < sel OR 7
      \<and> drop_bit 8 (ram_get32 (a + 4) s) AND 0x1F \<in> {9, 11}
      \<and> \<not> m_seg_limit s 6 < 0x67 \<and> ram_span 2 (m_seg_base s 6 + 0x66) s
      \<and> \<not> m_seg_limit s 6 < ucast (ram_get16 (m_seg_base s 6 + 0x66) s) + drop_bit 3 (of_nat p + n)
      \<and> ram_span 2 (io_map_base s + of_nat (p div 8)) s)"

lemma get16_bit: "bit (ram_get16 a s) k \<longleftrightarrow> k < 16 \<and> (if k < 8 then bit (m_mem s a) k else bit (m_mem s (a + 1)) (k - 8))"
  by (simp add: ram_get16_def cat8)

lemma octet_split: "i < 8 \<Longrightarrow> (8 * q + i) div 8 = q \<and> (8 * q + i) mod 8 = i" for q i :: nat
  by simp

lemma bitmap_word:
  assumes "i < 9"
  shows "bit (ram_get16 (io_map_base s + of_nat (p div 8)) s) (p mod 8 + i) \<longleftrightarrow> \<not> port_allowed s (p + i)"
proof -
  define q r where "q = p div 8" and "r = p mod 8"
  have p: "p = 8 * q + r" and r: "r < 8" by (simp_all add: q_def r_def)
  have "bit (ram_get16 (io_map_base s + of_nat q) s) (r + i) \<longleftrightarrow> \<not> port_allowed s (8 * q + r + i)"
  proof (cases "r + i < 8")
    case True
    then have "(8 * q + r + i) div 8 = q \<and> (8 * q + r + i) mod 8 = r + i"
      using octet_split [of "r + i" q] by (simp add: add.assoc)
    then show ?thesis using True by (simp add: get16_bit port_allowed_def)
  next
    case False
    define j where "j = r + i - 8"
    have j: "j < 8" "8 * q + r + i = 8 * (q + 1) + j" "r + i = 8 + j" using False assms r by (simp_all add: j_def)
    have "(8 * q + r + i) div 8 = q + 1 \<and> (8 * q + r + i) mod 8 = j"
      unfolding j(2) using j(1) by (rule octet_split)
    then have d: "(8 * q + r + i) div 8 = q + 1" "(8 * q + r + i) mod 8 = j" by blast+
    have k: "8 + j < 16" "\<not> 8 + j < 8" "8 + j - 8 = j" using j(1) by presburger+
    have a: "io_map_base s + of_nat (q + 1) = io_map_base s + of_nat q + 1" by (simp only: of_nat_add of_nat_1 add.assoc)
    show ?thesis unfolding j(3) get16_bit port_allowed_def d a by (simp only: k if_False simp_thms)
  qed
  then show ?thesis unfolding p [symmetric] unfolding q_def r_def .
qed

lemma bitmap_mask:
  assumes "n \<in> {1, 2, 4}"
  shows "push_bit 1 n - 1 = (mask (min (unat n) 3) :: u32)"
  using assms by (auto simp: mask_eq_exp_minus_1)

lemma masked_zero: "ucast x AND push_bit j (mask m :: u32) = 0 \<longleftrightarrow> (\<forall>i < m. \<not> bit x (j + i))" if "j + m \<le> 16" for x :: u16
proof
  assume z: "ucast x AND push_bit j (mask m :: u32) = 0"
  show "\<forall>i < m. \<not> bit x (j + i)"
  proof (intro allI impI)
    fix i assume "i < m"
    moreover have "\<not> bit (ucast x AND push_bit j (mask m :: u32)) (j + i)" unfolding z by simp
    ultimately show "\<not> bit x (j + i)" using that by (simp add: bit_and_iff bit_ucast_iff bit_push_bit_iff bit_mask_iff)
  qed
next
  assume h: "\<forall>i < m. \<not> bit x (j + i)"
  show "ucast x AND push_bit j (mask m :: u32) = 0"
  proof (rule bit_word_eqI)
    fix k
    have "\<not> bit x k" if "j \<le> k" "k - j < m" using h that by (auto dest: spec [of _ "k - j"])
    then show "bit (ucast x AND push_bit j (mask m :: u32)) k = bit 0 k"
      by (auto simp: bit_and_iff bit_ucast_iff bit_push_bit_iff bit_mask_iff)
  qed
qed

lemma of_nat_drop: "p < 0x10000 \<Longrightarrow> drop_bit 3 (of_nat p :: u32) = of_nat (p div 8)"
  by (rule word_unat_eq_iff [THEN iffD2]) (simp add: unat_drop_bit_eq unat_of_nat drop_bit_eq_div unat_div)

lemma of_nat_low: "p < 0x10000 \<Longrightarrow> unat ((of_nat p :: u32) AND 7) = p mod 8"
proof -
  assume "p < 0x10000"
  moreover have "(of_nat p :: u32) AND 7 = take_bit 3 (of_nat p)" by (simp add: take_bit_eq_mask mask_eq_exp_minus_1)
  ultimately show ?thesis by (simp add: take_bit_eq_mod unat_mod unat_of_nat)
qed

text \<open>
  C38. The I/O permission bitmap, on a machine without paging whose task register holds a 386 task
  state segment in RAM: an access of one or two bytes by code below the I/O privilege level is let through exactly
  if the bitmap bits of all its ports are clear, and faults with vector 13 and error code 0 otherwise, leaving the
  registers as they were. An access of four bytes, however, is decided by its first three ports alone.
\<close>

theorem io_permission_bitmap:
  assumes "flat s" "io_unprivileged s" "n \<in> {1, 2, 4}" "p < 0x10000" "tss_in_ram s p n"
  shows "\<exists>t. same_arch s t \<and> m_mem t = m_mem s \<and> cpu_io_check_access (of_nat p) n s =
    (if \<forall>i < min (unat n) 3. port_allowed s (p + i) then Ok () t else Fault 13 0x10000 t)"
proof -
  define sel :: u32 where "sel = ucast (m_seg s 6)"
  define table :: nat where "table = (if sel AND 4 \<noteq> 0 then 8 else 7)"
  define a where "a = (sel AND NOT 7) + m_seg_base s table"
  define w where "w = ram_get16 (m_seg_base s 6 + 0x66) s"
  define q where "q = io_map_base s + of_nat (p div 8)"
  have t: "ram_span 8 a s" "\<not> m_seg_limit s table < sel OR 7" "drop_bit 8 (ram_get32 (a + 4) s) AND 0x1F \<in> {9, 11}"
    "\<not> m_seg_limit s 6 < 0x67" "ram_span 2 (m_seg_base s 6 + 0x66) s"
    "\<not> m_seg_limit s 6 < ucast w + drop_bit 3 (of_nat p + n)" "ram_span 2 q s"
    using assms(5) unfolding tss_in_ram_def Let_def sel_def [symmetric] table_def [symmetric] a_def [symmetric] w_def [symmetric] q_def [symmetric]
    by simp_all
  obtain s1 where s1: "cpu_seg_load_descriptor sel (Some 13) 0 s = Ok (Some \<lparr>raw0 = ram_get32 a s, raw1 = ram_get32 (a + 4) s\<rparr>) s1"
    "flat s1" "same_core s s1" "m_mem s1 = m_mem s"
    using load_desc_flat [OF assms(1), of a sel "Some 13" 0] t(1,2) by (auto simp: a_def table_def)
  have k1: "same_arch s s1" using s1(1) by (rule Ok_keeps [OF keeps_descriptor(2)])
  have g1: "ram_get16 x s1 = ram_get16 x s" for x by (rule get_cong) (simp_all add: s1(4))
  obtain s2 where s2: "mem_read16_raw 0 (m_seg_base s 6 + 0x66) s1 = Ok (ucast w) s2" "flat s2" "same_core s1 s2" "m_mem s2 = m_mem s1"
    using mem_read16_raw_flat [OF s1(2), of "m_seg_base s 6 + 0x66" 0] t(5) ram_span_core [OF s1(3)] g1
    by (auto simp: reads_flat_def w_def)
  have k2: "same_arch s1 s2" using s2(1) by (rule Ok_keeps [OF keeps_mem(2)])
  have "ram_span 2 q s2" using t(7) ram_span_core same_core_trans [OF s1(3) s2(3)] by blast
  moreover have "ram_get16 q s2 = ram_get16 q s" by (rule get_cong) (simp_all add: s1(4) s2(4))
  ultimately obtain s3 where s3: "mem_read16 0 q s2 = Ok (ram_get16 q s) s3" "m_mem s3 = m_mem s2"
    using mem_read16_flat [OF s2(2), of q 0] by (auto simp: reads_flat_def)
  have k3: "same_arch s2 s3" using s3(1) by (rule Ok_keeps [OF keeps_mem16])
  have p8: "drop_bit 3 (of_nat p :: u32) = of_nat (p div 8)" "unat ((of_nat p :: u32) AND 7) = p mod 8"
    using assms(4) by (simp_all add: of_nat_drop of_nat_low)
  have qe: "m_seg_base s 6 + ucast w + of_nat (p div 8) = q"
    by (simp add: q_def io_map_base_def w_def)
  have "p mod 8 + min (unat n) 3 \<le> 16" by (simp add: trans_le_add1 mod_less_divisor less_imp_le_nat)
  then have z: "ucast (ram_get16 q s) AND push_bit (p mod 8) (mask (min (unat n) 3) :: u32) = 0
      \<longleftrightarrow> (\<forall>i < min (unat n) 3. port_allowed s (p + i))"
    using bitmap_word [of _ s p] by (auto simp: masked_zero q_def)
  have b: "m_seg_base s1 6 = m_seg_base s 6" "m_seg_limit s1 6 = m_seg_limit s 6" "same_arch s s3" "m_mem s3 = m_mem s"
    using k1 k2 k3 s1(4) s2(4) s3(2) by (simp_all add: same_arch_def)
  have acc: "desc_access \<lparr>raw0 = x, raw1 = y\<rparr> AND 0x1F = drop_bit 8 y AND 0x1F" for x y
  proof -
    have m: "(0xFFFF :: u32) AND 0x1F = 0x1F" by simp
    show ?thesis by (simp add: desc_access_def and.assoc m)
  qed
  have "cpu_io_check_access (of_nat p) n s =
      (if ucast (ram_get16 q s) AND push_bit (p mod 8) (mask (min (unat n) 3) :: u32) = 0 then Ok () s3 else raise_code 13 0 s3)"
    unfolding cpu_io_check_access_def Let_def sel_def [symmetric] s1(1) seq.simps option.case acc b p8
      bitmap_mask [OF assms(3)] s2(1) qe s3(1)
    using assms(2) t(3,4,6) by (simp only: s2(1) s3(1) seq.simps if_True if_False not_not simp_thms qe)
  then show ?thesis using z b(3,4) by (auto simp: raise_code_def)
qed

text \<open>A task state segment at 0 with its bitmap at 0x2000, in which port 0x3F8 is closed.\<close>

definition tss_machine :: "'d cpu_mem \<Rightarrow> 'd cpu_mem" where
  "tss_machine s = (user_mode s)\<lparr>m_seg := (\<lambda>_. 0x18), m_mem := (\<lambda>_. 0)(0x1D := 0x89, 0x67 := 0x20, 0x207F := 1)\<rparr>"

lemma tss_machine:
  assumes "flat s" "m_memory_size s = 0x200000"
  shows "flat (tss_machine s)" "io_unprivileged (tss_machine s)" "p < 0x4000 \<Longrightarrow> tss_in_ram (tss_machine s) p 1"
    "port_allowed (tss_machine s) q \<longleftrightarrow> \<not> bit (m_mem (tss_machine s) (0x2000 + of_nat (q div 8))) (q mod 8)"
proof -
  let ?s = "tss_machine s"
  show "flat ?s" using user_mode(1) [OF assms(1)] by (simp add: tss_machine_def flat_def mem_ok_def entry_ok_def sys_ok_def)
  have f: "m_cpl ?s = 3" "m_eflags ?s = 0x202" "m_cr ?s 0 = 0x11" "m_seg_base ?s i = 0" "m_seg_limit ?s i = 0xFFFF"
    "m_seg ?s 6 = 0x18" "m_memory_size ?s = 0x200000" for i
    using assms(2) by (simp_all add: tss_machine_def)
  then show "io_unprivileged ?s" by (simp add: io_unprivileged_def v86_def iopl_def)
  have g: "ram_get16 0x66 ?s = 0x2000" "ram_get32 0x1C ?s = 0x8900"
    by (simp_all add: ram_get16_def ram_get32_def tss_machine_def word_cat_eq)
  then show "port_allowed ?s q \<longleftrightarrow> \<not> bit (m_mem ?s (0x2000 + of_nat (q div 8))) (q mod 8)"
    using f(4) by (simp add: port_allowed_def io_map_base_def)
  show "tss_in_ram ?s p 1" if p: "p < 0x4000"
  proof -
    have d: "drop_bit 3 (of_nat p + 1 :: u32) \<le> 0x800"
    proof -
      have "drop_bit 3 (of_nat (Suc p) :: u32) = of_nat (Suc p div 8)" using p by (intro of_nat_drop) simp
      then have "drop_bit 3 (of_nat p + 1 :: u32) = of_nat (Suc p div 8)" by (simp add: add.commute)
      then show ?thesis using p by (simp add: word_le_nat_alt unat_of_nat)
    qed
    have "0x2000 + drop_bit 3 (of_nat p + 1 :: u32) \<le> 0xFFFF"
      using word_plus_mono_right [OF d, of "0x2000"] order_trans [of _ "0x2800" "0xFFFF :: u32"] by simp
    moreover have "unat (0x2000 + of_nat (p div 8) :: u32) + 2 \<le> 0xA0000"
      using p by (simp add: unat_word_ariths unat_of_nat)
    ultimately show ?thesis
      using f(4-7) g by (simp add: tss_in_ram_def io_map_base_def Let_def span_low not_less)
  qed
qed

theorem io_permission_bitmap_witness:
  "\<exists>(io :: unit io_bus) s t u. booted 0x200000 False io = Some s
    \<and> cpu_io_check_access 0x3F8 1 (tss_machine s) = Fault 13 0x10000 t \<and> cpu_io_check_access 0x3F9 1 (tss_machine s) = Ok () u"
proof -
  obtain io :: "unit io_bus" and s where s: "booted 0x200000 False io = Some s" "flat s" "m_memory_size s = 0x200000"
    using booted_flat by blast
  note m = tss_machine [OF s(2,3)]
  have p: "\<not> port_allowed (tss_machine s) 0x3F8" "port_allowed (tss_machine s) 0x3F9"
    unfolding m(4) by (simp_all add: tss_machine_def)
  then have q: "(\<forall>i < min (unat (1 :: u32)) 3. port_allowed (tss_machine s) (0x3F8 + i)) = False"
    "(\<forall>i < min (unat (1 :: u32)) 3. port_allowed (tss_machine s) (0x3F9 + i)) = True" by auto
  have "\<exists>t. cpu_io_check_access (of_nat 0x3F8) 1 (tss_machine s) = Fault 13 0x10000 t"
    using io_permission_bitmap [OF m(1,2) _ _ m(3), where p = "0x3F8"] unfolding q if_False by simp blast
  moreover have "\<exists>u. cpu_io_check_access (of_nat 0x3F9) 1 (tss_machine s) = Ok () u"
    using io_permission_bitmap [OF m(1,2) _ _ m(3), where p = "0x3F9"] unfolding q if_True by simp blast
  ultimately show ?thesis using s(1) by simp blast
qed

end
