(* ===== verification/Ctrl_Flat.thy ===== *)
theory Ctrl_Flat
  imports Ctrl_Mode Misc_Laws
begin

text \<open>
  The control transfers on the flat machine: every access of a stack frame in RAM succeeds and does
  what the array of bytes does.
\<close>

section \<open>Accesses on the flat machine\<close>

definition calm :: "'d cpu_mem \<Rightarrow> 'd cpu_mem \<Rightarrow> bool" where
  "calm s t \<longleftrightarrow> flat t \<and> same_core s t \<and> same_arch s t"

lemma calm_trans: "calm s t \<Longrightarrow> calm t u \<Longrightarrow> calm s u"
  by (auto simp: calm_def intro: same_core_trans same_arch_trans)

lemma span_calm: "calm s t \<Longrightarrow> ram_span n a t = ram_span n a s"
  using in_ram_core [of s t] by (simp add: calm_def ram_span_def)

lemma get_mem: "m_mem t = m_mem s \<Longrightarrow> ram_get16 a t = ram_get16 a s" "m_mem t = m_mem s \<Longrightarrow> ram_get32 a t = ram_get32 a s"
  by (simp_all add: ram_get16_def ram_get32_def)

definition peek :: "bool \<Rightarrow> u32 \<Rightarrow> 'd cpu_mem \<Rightarrow> u32" where
  "peek w32 a s = (if w32 then ram_get32 a s else ucast (ram_get16 a s))"

definition width :: "bool \<Rightarrow> nat" where
  "width w32 = (if w32 then 4 else 2)"

lemma read_calm:
  assumes "flat s" "ram_span (width w32) a s" "shift \<in> {0, 2, 4, 6}"
  shows "\<exists>t. (if w32 then mem_read32 shift a s else mem_read16_raw shift a s) = Ok (peek w32 a s) t \<and> calm s t \<and> m_mem t = m_mem s"
proof (cases w32)
  case True
  then obtain t where "mem_read32 shift a s = Ok (ram_get32 a s) t" "flat t" "same_core s t" "m_mem t = m_mem s"
    using mem_read32_flat [of s a shift] assms by (auto simp: reads_flat_def width_def)
  then show ?thesis using True Ok_keeps [OF keeps_mem(3)] by (auto simp: calm_def peek_def)
next
  case False
  then obtain t where "mem_read16_raw shift a s = Ok (ucast (ram_get16 a s)) t" "flat t" "same_core s t" "m_mem t = m_mem s"
    using mem_read16_raw_flat [of s a shift] assms by (auto simp: reads_flat_def width_def)
  then show ?thesis using False Ok_keeps [OF keeps_mem(2)] by (auto simp: calm_def peek_def)
qed

lemma write16_calm:
  assumes "flat s" "ram_span 2 a s" "shift \<in> {0, 2, 4, 6}"
  shows "\<exists>t. mem_write16 shift a v s = Ok () t \<and> calm s t \<and> m_mem t = m_mem (ram_put16 a (ucast v) s)"
proof -
  obtain t where "mem_write16 shift a v s = Ok () t" "flat t" "same_core s t" "m_mem t = m_mem (ram_put16 a (ucast v) s)"
    using mem_write16_flat [OF assms, of v] by (auto simp: writes_flat_def put16_mem32)
  then show ?thesis using Ok_keeps [OF keeps_mem(5)] by (auto simp: calm_def)
qed

section \<open>Frames\<close>

lemma pop_calm:
  assumes "flat s" "ram_span (width w32) (fr_esp fr + fr_base fr) s" "fr_shift fr \<in> {0, 2, 4, 6}"
  shows "\<exists>t. frame_pop w32 fr s = Ok (peek w32 (fr_esp fr + fr_base fr) s, frame_skip (of_nat (width w32)) fr) t
    \<and> calm s t \<and> m_mem t = m_mem s"
proof -
  obtain t where t: "(if w32 then mem_read32 (fr_shift fr) (fr_esp fr + fr_base fr) s
      else mem_read16_raw (fr_shift fr) (fr_esp fr + fr_base fr) s) = Ok (peek w32 (fr_esp fr + fr_base fr) s) t"
    "calm s t" "m_mem t = m_mem s" using read_calm [OF assms] by blast
  have w: "(if w32 then 4 else 2) = (of_nat (width w32) :: u32)" by (simp add: width_def)
  show ?thesis using t(2,3) unfolding frame_pop_def Let_def t(1) w by (simp add: frame_skip_def)
qed

fun slots :: "bool \<Rightarrow> nat \<Rightarrow> frame \<Rightarrow> u32 list" where
  "slots w32 0 fr = []"
| "slots w32 (Suc n) fr = (fr_esp fr + fr_base fr) # slots w32 n (frame_skip (of_nat (width w32)) fr)"

lemma skip_more [simp]: "fr_base (frame_skip n fr) = fr_base fr" "fr_shift (frame_skip n fr) = fr_shift fr"
  "fr_mask (frame_skip n fr) = fr_mask fr" "fr_orig (frame_skip n fr) = fr_orig fr"
  "fr_esp (frame_skip n fr) = (fr_esp fr + n) AND fr_mask fr"
  by (simp_all add: frame_skip_def)

lemma pop_all_calm:
  assumes "flat s" "\<forall>a \<in> set (slots w32 n fr). ram_span (width w32) a s" "fr_shift fr \<in> {0, 2, 4, 6}"
  shows "\<exists>t. frame_pop_all w32 n fr s = Ok (map (\<lambda>a. peek w32 a s) (slots w32 n fr), (frame_skip (of_nat (width w32)) ^^ n) fr) t
    \<and> calm s t \<and> m_mem t = m_mem s"
  using assms
proof (induction n arbitrary: fr s)
  case 0
  then show ?case by (simp add: calm_def)
next
  case (Suc n)
  let ?fr = "frame_skip (of_nat (width w32)) fr"
  obtain t where t: "frame_pop w32 fr s = Ok (peek w32 (fr_esp fr + fr_base fr) s, ?fr) t" "calm s t" "m_mem t = m_mem s"
    using pop_calm [of s w32 fr] Suc.prems by auto
  have "flat t" "\<forall>a \<in> set (slots w32 n ?fr). ram_span (width w32) a t"
    using t(2) Suc.prems(2) by (simp_all add: calm_def span_calm [OF t(2)])
  then obtain u where u: "frame_pop_all w32 n ?fr t = Ok (map (\<lambda>a. peek w32 a t) (slots w32 n ?fr),
      (frame_skip (of_nat (width w32)) ^^ n) ?fr) u" "calm t u" "m_mem u = m_mem t"
    using Suc.IH [of t ?fr] Suc.prems(3) by auto
  have p: "(\<lambda>a. peek w32 a t) = (\<lambda>a. peek w32 a s)" using t(3) by (simp add: peek_def get_mem fun_eq_iff)
  have "frame_pop_all w32 (Suc n) fr s = Ok (map (\<lambda>a. peek w32 a s) (slots w32 (Suc n) fr),
      (frame_skip (of_nat (width w32)) ^^ Suc n) fr) u"
    unfolding frame_pop_all.simps t(1) seq.simps prod.case u(1) p funpow_Suc_right by simp
  then show ?case using calm_trans [OF t(2) u(2)] t(3) u(3) by simp
qed

lemma push_calm:
  assumes "flat s" "ram_span 2 (((fr_esp fr - 2) AND fr_mask fr) + fr_base fr) s" "fr_shift fr \<in> {0, 2, 4, 6}"
  shows "\<exists>t. frame_push False v fr s = Ok (fr\<lparr>fr_esp := (fr_esp fr - 2) AND fr_mask fr\<rparr>) t
    \<and> calm s t \<and> m_mem t = m_mem (ram_put16 (((fr_esp fr - 2) AND fr_mask fr) + fr_base fr) (ucast v) s)"
  using write16_calm [OF assms, of v] by (auto simp: frame_push_def Let_def)

section \<open>Loading CS:EIP in real mode\<close>

lemma reload_ok:
  assumes "mem_ok s"
  shows "\<exists>p l b. reload_cs_base s = Ok () (s\<lparr>m_phys_eip := p, m_last_phys_eip := l, m_eip_phys_bias := b\<rparr>) \<and> p + b = virt_eip s"
proof (cases "tag_at (virt_eip s + m_seg_base s 1) (m_tlb_shift_read s) s AND 2 \<noteq> 0")
  case True
  then have "reload_cs_base s = Ok () (s\<lparr>m_phys_eip := m_phys_eip s, m_last_phys_eip := m_phys_eip s + 0x1000,
      m_eip_phys_bias := m_eip_phys_bias s\<rparr>)" by (simp add: reload_cs_base_def Let_def)
  then show ?thesis by (metis virt_eip_def)
next
  case False
  let ?e = "drop_bit 12 (virt_eip s + m_seg_base s 1)"
  have sh: "m_tlb_shift_read s = 0 \<or> m_tlb_shift_read s = 4" using assms by (auto simp: mem_ok_def sys_ok_def)
  have "m_tlb_tags s ?e \<noteq> 0xFF" using False sh by (auto simp: tag_at_def)
  then have "m_tlb s ?e \<noteq> None"
    using assms by (cases "m_tlb s ?e") (auto simp: mem_ok_def entry_ok_def dest!: spec [of _ ?e])
  then obtain p where "host_at (virt_eip s + m_seg_base s 1) s = Some p" by (auto simp: host_at_def)
  then have "reload_cs_base s = Ok () (s\<lparr>m_phys_eip := p, m_last_phys_eip := p AND NOT 0xFFF, m_eip_phys_bias := virt_eip s - p\<rparr>)"
    using False by (simp add: reload_cs_base_def Let_def)
  moreover have "p + (virt_eip s - p) = virt_eip s" by simp
  ultimately show ?thesis by blast
qed

definition at_real :: "u16 \<Rightarrow> u32 \<Rightarrow> 'd cpu_mem \<Rightarrow> 'd cpu_mem \<Rightarrow> bool" where
  "at_real cs ip s t \<longleftrightarrow> virt_eip t = ip \<and> m_seg t = (m_seg s)(1 := cs)
     \<and> m_seg_base t = (m_seg_base s)(1 := push_bit 4 (ucast cs)) \<and> m_reg32 t = m_reg32 s \<and> m_eflags t = m_eflags s
     \<and> m_esp_mask t = m_esp_mask s \<and> m_mem t = m_mem s \<and> m_cr t = m_cr s \<and> m_tlb_shift_write t = m_tlb_shift_write s
     \<and> m_memory_size t = m_memory_size s \<and> (flat s \<longrightarrow> flat t)"

lemma csip_real_ok:
  assumes "mem_ok s"
  shows "\<exists>t. cpu_load_csip_real cs ip s = Ok () t \<and> at_real cs ip s t"
proof -
  let ?r = "cpu_seg_load_real 1 cs (set_virt_eip ip s)"
  have r: "?r = s\<lparr>m_phys_eip := m_phys_eip s + (ip - virt_eip s), m_seg := (m_seg s)(1 := cs),
      m_seg_base := (m_seg_base s)(1 := push_bit 4 (ucast cs)), m_seg_limit := (m_seg_limit s)(1 := 0xFFFF),
      m_seg_access := (m_seg_access s)(1 := m_seg_access s 1 AND NOT (0x60 OR 0x4000)), m_state_hash := 3\<rparr>"
    by (simp add: cpu_seg_load_real_def real_segment_def set_virt_eip_def Let_def)
  have m: "mem_ok ?r" using assms unfolding r by (simp add: mem_ok_def entry_ok_def sys_ok_def)
  have v: "virt_eip ?r = ip" unfolding r by (simp add: virt_eip_def)
  obtain p l b where t: "reload_cs_base ?r = Ok () (?r\<lparr>m_phys_eip := p, m_last_phys_eip := l, m_eip_phys_bias := b\<rparr>)" "p + b = ip"
    using reload_ok [OF m] v by auto
  have "at_real cs ip s (?r\<lparr>m_phys_eip := p, m_last_phys_eip := l, m_eip_phys_bias := b\<rparr>)"
    unfolding r at_real_def using t(2) by (simp add: virt_eip_def flat_def mem_ok_def entry_ok_def sys_ok_def)
  then show ?thesis using t(1) by (simp add: cpu_load_csip_real_def)
qed

section \<open>Sixteen-bit stack arithmetic\<close>

lemma low16_small: "x < 0x10000 \<Longrightarrow> x AND 0xFFFF = x" for x :: u32
proof -
  assume "x < 0x10000"
  then have "unat (take_bit 16 x) = unat x"
    by (simp add: unsigned_take_bit_eq take_bit_nat_eq_self word_less_nat_alt)
  then have "take_bit 16 x = x" by (simp only: word_unat_eq_iff)
  moreover have "(0xFFFF :: u32) = mask 16" by (simp add: mask_eq_exp_minus_1)
  ultimately show ?thesis by (simp add: take_bit_eq_mask)
qed

lemma sp_step: "k \<le> x \<Longrightarrow> x < 0x10000 \<Longrightarrow> (x - k) AND 0xFFFF = x - k" for x k :: u32
  by (rule low16_small) (meson le_less_trans word_sub_le)

lemma low16_less: "x AND 0xFFFF < 0x10000" for x :: u32
  by (rule le_less_trans [OF and_le [of "0xFFFF" x, simplified and.commute]]) simp

text \<open>Three words on a 16-bit stack that does not wrap.\<close>

lemma sp_down:
  fixes x :: u32
  assumes "6 \<le> x" "x < 0x10000"
  shows "(x - 2) AND 0xFFFF = x - 2" "(x - 2 - 2) AND 0xFFFF = x - 4" "(x - 4 - 2) AND 0xFFFF = x - 6"
    "(x - 6 + 2) AND 0xFFFF = x - 4" "(x - 4 + 2) AND 0xFFFF = x - 2" "(x - 2 + 2) AND 0xFFFF = x" "(x - 6) AND 0xFFFF = x - 6"
proof -
  have l: "2 \<le> x" "4 \<le> x" using assms(1) by (auto intro: order_trans [of _ 6 x])
  have e: "x - 2 - 2 = x - 4" "x - 4 - 2 = x - 6" "x - 6 + 2 = x - 4" "x - 4 + 2 = x - 2" "x - 2 + 2 = x" by simp_all
  show "(x - 2) AND 0xFFFF = x - 2" "(x - 2 - 2) AND 0xFFFF = x - 4" "(x - 4 - 2) AND 0xFFFF = x - 6"
    "(x - 6 + 2) AND 0xFFFF = x - 4" "(x - 4 + 2) AND 0xFFFF = x - 2" "(x - 2 + 2) AND 0xFFFF = x" "(x - 6) AND 0xFFFF = x - 6"
    unfolding e using sp_step [OF l(1) assms(2)] sp_step [OF l(2) assms(2)] sp_step [OF assms] low16_small [OF assms(2)] by simp_all
qed

lemma get16_other: "ram_get16 (a + 2) (ram_put16 a v s) = ram_get16 (a + 2) s" "ram_get16 (a + 4) (ram_put16 a v s) = ram_get16 (a + 4) s"
  by (simp_all add: ram_get16_def put16_mem)

lemma span_part:
  assumes "ram_span n a s" "k + m \<le> n"
  shows "ram_span m (a + of_nat k) s"
  unfolding ram_span_def
proof (intro allI impI)
  fix i assume "i < m"
  then have "k + i < n" using assms(2) by simp
  then have "in_ram (a + of_nat (k + i)) s" using assms(1) unfolding ram_span_def by blast
  then show "in_ram (a + of_nat k + of_nat i) s" by (simp only: of_nat_add add.assoc)
qed

definition poke16 :: "u32 \<Rightarrow> u16 \<Rightarrow> (u32 \<Rightarrow> u8) \<Rightarrow> u32 \<Rightarrow> u8" where
  "poke16 p v m = m(p := ucast v, p + 1 := ucast (drop_bit 8 v))"

lemma push_step:
  assumes "flat s" "ram_span 2 (e + b) s" "(x - 2) AND 0xFFFF = e"
  shows "\<exists>t. frame_push False v \<lparr>fr_esp = x, fr_base = b, fr_mask = 0xFFFF, fr_shift = 2, fr_orig = r\<rparr> s
      = Ok \<lparr>fr_esp = e, fr_base = b, fr_mask = 0xFFFF, fr_shift = 2, fr_orig = r\<rparr> t
    \<and> calm s t \<and> m_mem t = poke16 (e + b) (ucast v) (m_mem s)"
  using push_calm [of s "\<lparr>fr_esp = x, fr_base = b, fr_mask = 0xFFFF, fr_shift = 2, fr_orig = r\<rparr>" v] assms
  by (simp add: poke16_def put16_mem)

lemma push_three:
  assumes s: "flat s" and sp: "6 \<le> x" "x < 0x10000" and span: "ram_span 6 (x - 6 + b) s"
  shows "\<exists>t. frame_push_all False [v1, v2, v3] \<lparr>fr_esp = x, fr_base = b, fr_mask = 0xFFFF, fr_shift = 2, fr_orig = r\<rparr> s
      = Ok \<lparr>fr_esp = x - 6, fr_base = b, fr_mask = 0xFFFF, fr_shift = 2, fr_orig = r\<rparr> t
    \<and> calm s t \<and> m_mem t = poke16 (x - 6 + b) (ucast v3) (poke16 (x - 4 + b) (ucast v2) (poke16 (x - 2 + b) (ucast v1) (m_mem s)))"
proof -
  note d = sp_down [OF sp]
  have e: "x - 6 + b + 2 = x - 4 + b" "x - 6 + b + 4 = x - 2 + b" by simp_all
  have sp: "ram_span 2 (x - 2 + b) s" "ram_span 2 (x - 4 + b) s" "ram_span 2 (x - 6 + b) s"
    using span_part [OF span, of 4 2] span_part [OF span, of 2 2] span_part [OF span, of 0 2] by (simp_all add: e)
  obtain t where t: "frame_push False v1 \<lparr>fr_esp = x, fr_base = b, fr_mask = 0xFFFF, fr_shift = 2, fr_orig = r\<rparr> s
      = Ok \<lparr>fr_esp = x - 2, fr_base = b, fr_mask = 0xFFFF, fr_shift = 2, fr_orig = r\<rparr> t"
    "calm s t" "m_mem t = poke16 (x - 2 + b) (ucast v1) (m_mem s)" using push_step [OF s sp(1) d(1)] by blast
  have ft: "flat t" "ram_span 2 (x - 4 + b) t" using t(2) sp(2) by (simp_all add: calm_def span_calm [OF t(2)])
  obtain u where u: "frame_push False v2 \<lparr>fr_esp = x - 2, fr_base = b, fr_mask = 0xFFFF, fr_shift = 2, fr_orig = r\<rparr> t
      = Ok \<lparr>fr_esp = x - 4, fr_base = b, fr_mask = 0xFFFF, fr_shift = 2, fr_orig = r\<rparr> u"
    "calm t u" "m_mem u = poke16 (x - 4 + b) (ucast v2) (m_mem t)" using push_step [OF ft d(2)] by blast
  have su: "calm s u" using t(2) u(2) by (rule calm_trans)
  have fu: "flat u" "ram_span 2 (x - 6 + b) u" using su sp(3) by (simp_all add: calm_def span_calm [OF su])
  obtain w where w: "frame_push False v3 \<lparr>fr_esp = x - 4, fr_base = b, fr_mask = 0xFFFF, fr_shift = 2, fr_orig = r\<rparr> u
      = Ok \<lparr>fr_esp = x - 6, fr_base = b, fr_mask = 0xFFFF, fr_shift = 2, fr_orig = r\<rparr> w"
    "calm u w" "m_mem w = poke16 (x - 6 + b) (ucast v3) (m_mem u)" using push_step [OF fu d(3)] by blast
  show ?thesis using t(1,3) u(1,3) w calm_trans [OF su w(2)] by simp
qed

lemma pop_three:
  assumes s: "flat s" and sp: "6 \<le> x" "x < 0x10000" and span: "ram_span 6 (x - 6 + b) s" and k: "k \<in> {0, 2, 4, 6}"
  shows "\<exists>t. frame_pop_all False 3 \<lparr>fr_esp = x - 6, fr_base = b, fr_mask = 0xFFFF, fr_shift = k, fr_orig = r\<rparr> s
      = Ok ([ucast (ram_get16 (x - 6 + b) s), ucast (ram_get16 (x - 4 + b) s), ucast (ram_get16 (x - 2 + b) s)],
          \<lparr>fr_esp = x, fr_base = b, fr_mask = 0xFFFF, fr_shift = k, fr_orig = r\<rparr>) t
    \<and> calm s t \<and> m_mem t = m_mem s"
proof -
  note d = sp_down [OF sp]
  have e: "x - 6 + b + 2 = x - 4 + b" "x - 6 + b + 4 = x - 2 + b" by simp_all
  have sp: "ram_span 2 (x - 2 + b) s" "ram_span 2 (x - 4 + b) s" "ram_span 2 (x - 6 + b) s"
    using span_part [OF span, of 4 2] span_part [OF span, of 2 2] span_part [OF span, of 0 2] by (simp_all add: e)
  let ?fr = "\<lparr>fr_esp = x - 6, fr_base = b, fr_mask = 0xFFFF, fr_shift = k, fr_orig = r\<rparr>"
  have sl: "slots False 3 ?fr = [x - 6 + b, x - 4 + b, x - 2 + b]"
    unfolding numeral_3_eq_3 using d by (simp add: width_def)
  have en: "(frame_skip (of_nat (width False)) ^^ 3) ?fr = \<lparr>fr_esp = x, fr_base = b, fr_mask = 0xFFFF, fr_shift = k, fr_orig = r\<rparr>"
    unfolding numeral_3_eq_3 using d by (simp add: width_def frame_skip_def)
  show ?thesis
    using pop_all_calm [of s False 3 ?fr] s k sp unfolding sl en by (simp add: width_def peek_def)
qed

section \<open>The flags of an interrupted program\<close>

lemma get_eflags_upper: "cpu_get_eflags s = Some fl \<Longrightarrow> fl AND NOT 0x8D5 = m_eflags s AND NOT 0x8D5"
proof -
  assume "cpu_get_eflags s = Some fl"
  then obtain f where f: "fl = (m_eflags s AND NOT 0x8D5) OR status_bits f" by (auto simp: get_eflags_flags_of)
  have k: "(of_bool b * c) AND NOT 0x8D5 = 0" if "c AND NOT 0x8D5 = 0" for b and c :: u32 using that by simp
  have "status_bits f AND NOT 0x8D5 = 0"
    unfolding status_bits_def bit.conj_disj_distrib2 by (simp add: k del: of_bool_eq_iff)
  then show ?thesis unfolding f by (simp add: bit.conj_disj_distrib2 and.assoc)
qed

lemma same_bit:
  fixes x y m :: u32
  assumes "x AND NOT m = y AND NOT m" "\<not> bit m i" "i < 32"
  shows "bit x i = bit y i"
  using arg_cong [OF assms(1), of "\<lambda>z. bit z i"] assms(2,3) by (simp add: bit_and_iff bit_not_iff)

lemma flags_back:
  fixes fl e :: u32
  assumes "fl AND NOT 0x8D5 = e AND NOT 0x8D5"
  shows "((e AND NOT 0x40300) AND NOT eflags_mask)
    OR (((fl AND 0xFFFF) OR ((e AND NOT 0x40300) AND NOT 0xFFFF)) AND eflags_mask) = fl AND NOT 0x40000"
proof -
  have b: "bit fl i = bit e i" if "\<not> bit (0x8D5 :: u32) i" "i < 32" for i
    using assms that by (rule same_bit)
  have m: "eflags_mask = 0x3F7FD5" by (simp add: eflags_mask_def)
  have "bit (((e AND NOT 0x40300) AND NOT eflags_mask)
    OR (((fl AND 0xFFFF) OR ((e AND NOT 0x40300) AND NOT 0xFFFF)) AND eflags_mask)) i = bit (fl AND NOT 0x40000) i" if i: "i < 32" for i
  proof -
    have "i \<in> {0,1,2,3,4,5,6,7,8,9,10,11,12,13,14,15,16,17,18,19,20,21,22,23,24,25,26,27,28,29,30,31}"
      using i by (simp only: insert_iff empty_iff) arith
    then show ?thesis using b [of i] unfolding m
      by (elim insertE emptyE) (simp_all add: bit_and_iff bit_or_iff bit_not_iff)
  qed
  then show ?thesis by (intro bit_word_eqI) simp
qed

section \<open>Interrupt and return in real mode\<close>

text \<open>A machine in real mode with room for three words on its stack.\<close>

definition real_stack :: "'d cpu_mem \<Rightarrow> bool" where
  "real_stack s \<longleftrightarrow> flat s \<and> \<not> bit (m_cr s 0) 0 \<and> m_esp_mask s = 0xFFFF
     \<and> 6 \<le> get_reg32 4 s AND 0xFFFF \<and> ram_span 6 ((get_reg32 4 s AND 0xFFFF) - 6 + m_seg_base s 2) s"

definition frame_base :: "'d cpu_mem \<Rightarrow> u32" where
  "frame_base s = (get_reg32 4 s AND 0xFFFF) - 6 + m_seg_base s 2"

definition interrupted :: "u32 \<Rightarrow> u32 \<Rightarrow> u32 \<Rightarrow> 'd cpu_mem \<Rightarrow> 'd cpu_mem \<Rightarrow> bool" where
  "interrupted vector ip fl s t \<longleftrightarrow> flat t
     \<and> m_mem t = poke16 (frame_base s) (ucast ip) (poke16 (frame_base s + 2) (m_seg s 1) (poke16 (frame_base s + 4) (ucast fl) (m_mem s)))
     \<and> virt_eip t = ucast (snd (vector_entry vector t)) \<and> m_seg t = (m_seg s)(1 := fst (vector_entry vector t))
     \<and> m_seg_base t = (m_seg_base s)(1 := push_bit 4 (ucast (fst (vector_entry vector t))))
     \<and> m_eflags t = m_eflags s AND NOT 0x40300 \<and> m_cr t = m_cr s \<and> m_esp_mask t = 0xFFFF
     \<and> m_reg32 t = (m_reg32 s)(4 := ((get_reg32 4 s AND 0xFFFF) - 6) OR (get_reg32 4 s AND NOT 0xFFFF))
     \<and> m_memory_size t = m_memory_size s \<and> m_tlb_shift_write t = m_tlb_shift_write s"

lemma vector_in_ram: "real_stack s \<Longrightarrow> vector < 0x100 \<Longrightarrow> ram_ok 4 (push_bit 2 vector) s"
proof -
  assume s: "real_stack s" and v: "vector < 0x100"
  have "in_ram (frame_base s) s" unfolding frame_base_def by (rule span_first [of 6]) (use s in \<open>simp_all add: real_stack_def\<close>)
  then have "0 < unat (m_memory_size s)" by (auto simp: in_ram_def word_less_nat_alt)
  moreover have "4096 dvd unat (m_memory_size s)" using s by (simp add: real_stack_def flat_def mem_ok_def sys_ok_def page_dvd)
  ultimately have "4096 \<le> unat (m_memory_size s)" by (simp add: dvd_imp_le)
  moreover have "unat (push_bit 2 vector) = 4 * unat vector"
    using v by (simp add: push_bit_eq_mult unat_word_ariths word_less_nat_alt)
  ultimately show ?thesis using v by (simp add: ram_ok_def word_less_nat_alt)
qed

lemma interrupt_enters:
  assumes s: "real_stack s" and fl: "cpu_get_eflags s = Some fl" and v: "vector < 0x100"
  shows "\<exists>t. cpu_interrupt vector code ty ip s = Ok () t \<and> interrupted vector ip fl s t"
proof -
  let ?e = "get_reg32 4 s"
  let ?x = "?e AND 0xFFFF"
  let ?b = "m_seg_base s 2"
  have f: "flat s" "6 \<le> ?x" "ram_span 6 (?x - 6 + ?b) s" using s by (simp_all add: real_stack_def)
  have fb: "?x - 6 + ?b = frame_base s" "?x - 4 + ?b = frame_base s + 2" "?x - 2 + ?b = frame_base s + 4"
    by (simp_all add: frame_base_def)
  have h: "frame_here 2 s = \<lparr>fr_esp = ?x, fr_base = ?b, fr_mask = 0xFFFF, fr_shift = 2, fr_orig = ?e\<rparr>"
    using s by (simp add: frame_here_def frame_at_def real_stack_def)
  have ff: "(ucast (fl AND 0xFFFF) :: u16) = ucast fl" "(ucast (ucast (m_seg s 1) :: u32) :: u16) = m_seg s 1"
    by (simp_all only: low16_as_cast zext16_low)
  obtain t where t: "frame_push_all False [fl AND 0xFFFF, ucast (m_seg s 1), ip] (frame_here 2 s) s
      = Ok \<lparr>fr_esp = ?x - 6, fr_base = ?b, fr_mask = 0xFFFF, fr_shift = 2, fr_orig = ?e\<rparr> t" "calm s t"
    "m_mem t = poke16 (frame_base s) (ucast ip) (poke16 (frame_base s + 2) (m_seg s 1) (poke16 (frame_base s + 4) (ucast fl) (m_mem s)))"
    using push_three [OF f(1,2) low16_less f(3), of "fl AND 0xFFFF" "ucast (m_seg s 1)" ip ?e] unfolding h fb ff by blast
  define c where "c = frame_commit \<lparr>fr_esp = ?x - 6, fr_base = ?b, fr_mask = 0xFFFF, fr_shift = 2, fr_orig = ?e\<rparr> t"
  have low: "0xFFFF AND (?x - 6) = ?x - 6" using sp_down(7) [OF f(2) low16_less] by (simp only: and.commute)
  have c: "flat c" "m_mem c = m_mem t" "m_reg32 c = (m_reg32 s)(4 := (?x - 6) OR (?e AND NOT 0xFFFF))" "m_seg c = m_seg s"
    "m_seg_base c = m_seg_base s" "m_eflags c = m_eflags s" "m_cr c = m_cr s" "m_esp_mask c = 0xFFFF"
    "m_memory_size c = m_memory_size s" "m_tlb_shift_write c = m_tlb_shift_write s"
    using t(2) s reg_flat [of t 4 "(?x - 6) OR (?e AND NOT 0xFFFF)"]
    by (simp_all add: c_def frame_commit_def low calm_def same_core_def same_arch_def real_stack_def set_reg32_def)
  have r: "ram_ok 4 (push_bit 2 vector) c" using vector_in_ram [OF s v] c(9) by (simp add: ram_ok_def)
  have "mem_ok c" using c(1) by (simp add: flat_def)
  then obtain u where u: "cpu_load_csip_real (fst (vector_entry vector c)) (ucast (snd (vector_entry vector c))) c = Ok () u"
    "at_real (fst (vector_entry vector c)) (ucast (snd (vector_entry vector c))) c u" using csip_real_ok by blast
  define w where "w = u\<lparr>m_eflags := m_eflags u AND NOT (0x200 OR 0x100 OR 0x40000)\<rparr>"
  have "cpu_interrupt vector code ty ip s = Ok () w"
    using s fl t(1) u(1) r
    by (simp add: cpu_interrupt_def real_stack_def real_interrupt_def with_flags_def c_def [symmetric] Let_def case_prod_beta w_def)
  moreover have ve: "vector_entry vector w = vector_entry vector c"
    using u(2) by (simp add: vector_entry_def w_def at_real_def ram_get16_def)
  have "flat w" using u(2) c(1) by (auto simp: w_def at_real_def flat_def mem_ok_def entry_ok_def sys_ok_def)
  then have "interrupted vector ip fl s w"
    using u(2) t(3) unfolding interrupted_def ve by (simp add: w_def at_real_def c virt_eip_def)
  ultimately show ?thesis by blast
qed

lemma poked_words:
  assumes "m_mem t = poke16 a z (poke16 (a + 2) y (poke16 (a + 4) x m))"
  shows "ram_get16 a t = z" "ram_get16 (a + 2) t = y" "ram_get16 (a + 4) t = x"
  using assms by (simp_all add: ram_get16_def poke16_def bytes16)

lemma return_from_interrupt:
  assumes s: "real_stack s" and fl: "cpu_get_eflags s = Some fl" and t: "interrupted vector ip fl s t"
  shows "\<exists>u. iret x False t = Ok () u \<and> m_reg32 u = m_reg32 s \<and> m_seg u = m_seg s
    \<and> m_seg_base u = (m_seg_base s)(1 := push_bit 4 (ucast (m_seg s 1)))
    \<and> virt_eip u = ip AND 0xFFFF \<and> cpu_get_eflags u = Some (fl AND NOT 0x40000) \<and> m_mem u = m_mem t"
proof -
  let ?e = "get_reg32 4 s"
  let ?x = "?e AND 0xFFFF"
  let ?b = "m_seg_base s 2"
  let ?n = "(?x - 6) OR (?e AND NOT 0xFFFF)"
  have f: "6 \<le> ?x" "ram_span 6 (?x - 6 + ?b) s" using s by (simp_all add: real_stack_def)
  have fb: "?x - 6 + ?b = frame_base s" "?x - 4 + ?b = frame_base s + 2" "?x - 2 + ?b = frame_base s + 4"
    by (simp_all add: frame_base_def)
  have low: "(?x - 6) AND 0xFFFF = ?x - 6" by (rule sp_down(7) [OF f(1) low16_less])
  have n: "?n AND 0xFFFF = ?x - 6" "(?x AND 0xFFFF) OR (?n AND NOT 0xFFFF) = ?e"
    using low16_mask [of "?x - 6" ?e] high16_merge [of "?x - 6" ?e] halves_join [of ?e] unfolding low by simp_all
  have tt: "flat t" "m_esp_mask t = 0xFFFF" "get_reg32 4 t = ?n" "m_seg_base t 2 = ?b" "\<not> bit (m_cr t 0) 0"
    "m_tlb_shift_write t \<in> {0, 2, 4, 6}" "m_eflags t = m_eflags s AND NOT 0x40300"
    using t s shifts_ok [of s] by (auto simp: interrupted_def get_reg32_def real_stack_def flat_def)
  have h: "frame_here (m_tlb_shift_write t) t
      = \<lparr>fr_esp = ?x - 6, fr_base = ?b, fr_mask = 0xFFFF, fr_shift = m_tlb_shift_write t, fr_orig = ?n\<rparr>"
    using tt n by (simp add: frame_here_def frame_at_def)
  have sp: "ram_span 6 (?x - 6 + ?b) t" using f(2) t by (simp add: ram_span_def in_ram_def interrupted_def)
  have m: "m_mem t = poke16 (frame_base s) (ucast ip) (poke16 (frame_base s + 2) (m_seg s 1) (poke16 (frame_base s + 4) (ucast fl) (m_mem s)))"
    using t by (simp add: interrupted_def)
  let ?fr = "\<lparr>fr_esp = ?x, fr_base = ?b, fr_mask = 0xFFFF, fr_shift = m_tlb_shift_write t, fr_orig = ?n\<rparr>"
  obtain v where v: "frame_pop_all False 3 (frame_here (m_tlb_shift_write t) t) t
      = Ok ([ip AND 0xFFFF, ucast (m_seg s 1), fl AND 0xFFFF], ?fr) v" "calm t v" "m_mem v = m_mem t"
    using pop_three [OF tt(1) f(1) low16_less sp tt(6), of ?n]
    unfolding h fb poked_words [OF m] low16_as_cast [of ip] low16_as_cast [of fl] by blast
  define c where "c = frame_commit ?fr v"
  have c: "flat c" "m_mem c = m_mem t" "m_reg32 c = m_reg32 s" "m_seg c = m_seg t" "m_seg_base c = m_seg_base t"
    "m_eflags c = m_eflags s AND NOT 0x40300"
    using v(2,3) t tt reg_flat [of v 4 ?e] n(2)
    by (simp_all add: c_def frame_commit_def and.commute calm_def same_core_def same_arch_def set_reg32_def interrupted_def)
      (simp add: get_reg32_def fun_eq_iff)
  have "mem_ok c" using c(1) by (simp add: flat_def)
  then obtain u where u: "cpu_load_csip_real (m_seg s 1) (ip AND 0xFFFF) c = Ok () u" "at_real (m_seg s 1) (ip AND 0xFFFF) c u"
    using csip_real_ok by blast
  define e where "e = (fl AND 0xFFFF) OR (m_eflags u AND NOT 0xFFFF)"
  have "iret_real False t = Ok () (cpu_set_eflags e u)"
    unfolding iret_real_def v(1) seq.simps prod.case c_def [symmetric] Let_def
    using u(1) by (simp add: zext16_low e_def)
  then have "iret x False t = Ok () (cpu_set_eflags e u)" using tt(5) by (simp add: iret_def)
  moreover have "m_reg32 (cpu_set_eflags e u) = m_reg32 s \<and> m_seg (cpu_set_eflags e u) = m_seg s
    \<and> m_seg_base (cpu_set_eflags e u) = (m_seg_base s)(1 := push_bit 4 (ucast (m_seg s 1)))
    \<and> virt_eip (cpu_set_eflags e u) = ip AND 0xFFFF \<and> m_mem (cpu_set_eflags e u) = m_mem t"
    using u(2) t c by (simp add: at_real_def interrupted_def cpu_set_eflags_def Let_def virt_eip_def)
  moreover have "cpu_get_eflags (cpu_set_eflags e u) = Some (fl AND NOT 0x40000)"
    using flags_back [OF get_eflags_upper [OF fl]] u(2) c(6) by (simp only: get_set_eflags e_def at_real_def)
  ultimately show ?thesis by (intro exI [of _ "cpu_set_eflags e u"]) simp
qed

text \<open>
  C6. Round trip of an interrupt in real mode. On a flat machine whose 16-bit stack has
  room for three words in RAM, every interrupt, exception or hardware request with a vector below 256 is delivered: the
  handler's CS:IP come from the vector table, IF, TF and AC are clear, and exactly the six bytes of the frame
  have changed, to the flags, CS and the return offset. The 16-bit IRET from there succeeds and restores
  every general register and segment register, the interrupted offset within 64 KB, and the whole
  flags word except AC; it does not write to memory.
\<close>

theorem interrupt_round_trip:
  assumes "real_stack s" "cpu_get_eflags s = Some fl" "vector < 0x100"
  shows "\<exists>t u. cpu_interrupt vector code ty ip s = Ok () t
    \<and> virt_eip t = ucast (snd (vector_entry vector t)) \<and> m_seg t 1 = fst (vector_entry vector t) \<and> m_eflags t AND 0x40300 = 0
    \<and> ram_get16 (frame_base s) t = ucast ip \<and> ram_get16 (frame_base s + 2) t = m_seg s 1 \<and> ram_get16 (frame_base s + 4) t = ucast fl
    \<and> (\<forall>p. p - frame_base s \<ge> 6 \<longrightarrow> m_mem t p = m_mem s p)
    \<and> iret x False t = Ok () u \<and> m_reg32 u = m_reg32 s \<and> m_seg u = m_seg s \<and> virt_eip u = ip AND 0xFFFF
    \<and> cpu_get_eflags u = Some (fl AND NOT 0x40000) \<and> m_mem u = m_mem t"
proof -
  obtain t where t: "cpu_interrupt vector code ty ip s = Ok () t" "interrupted vector ip fl s t"
    using interrupt_enters [OF assms] by blast
  have m: "m_mem t = poke16 (frame_base s) (ucast ip) (poke16 (frame_base s + 2) (m_seg s 1) (poke16 (frame_base s + 4) (ucast fl) (m_mem s)))"
    using t(2) by (simp add: interrupted_def)
  have "m_mem t p = m_mem s p" if "p - frame_base s \<ge> 6" for p
  proof -
    have "p \<noteq> frame_base s + k" if "k < 6" for k using \<open>p - frame_base s \<ge> 6\<close> that by auto
    from this [of 0] this [of 1] this [of 2] this [of 3] this [of 4] this [of 5]
    have "p \<noteq> frame_base s" "p \<noteq> frame_base s + 1" "p \<noteq> frame_base s + 2" "p \<noteq> frame_base s + 2 + 1"
      "p \<noteq> frame_base s + 4" "p \<noteq> frame_base s + 4 + 1" by (simp_all add: add.assoc)
    then show ?thesis unfolding m poke16_def by (simp only: fun_upd_apply if_False)
  qed
  moreover have "m_eflags t AND 0x40300 = 0" using t(2) by (simp add: interrupted_def and.assoc)
  ultimately show ?thesis
    using return_from_interrupt [OF assms(1,2) t(2), of x] t poked_words [OF m] by (auto simp: interrupted_def)
qed

section \<open>Concrete machines\<close>

definition ready :: "'d cpu_mem \<Rightarrow> 'd cpu_mem" where
  "ready s = cpu_set_eflags 0x202 (set_reg32 4 0x8000 s)"

lemma flags_flat: "flat (cpu_set_eflags fl s) = flat s"
  by (simp add: cpu_set_eflags_def Let_def flat_def mem_ok_def entry_ok_def sys_ok_def)

lemma booted_ready:
  "\<exists>(io :: unit io_bus) s. booted 0x200000 False io = Some s \<and> flat s \<and> m_memory_size s = 0x200000 \<and> real_stack (ready s)
    \<and> \<not> bit (m_cr s 0) 0"
proof -
  obtain io :: "unit io_bus" where "bus_total io" using some_bus by blast
  then obtain s where s: "booted 0x200000 False io = Some s" "mem_ok s" "m_tlb s = (\<lambda>_. None)" "m_a20_mask s = - 1"
    "m_memory_size s = 0x200000" "m_cr s 0 = 0x60000010" "m_esp_mask s = 0xFFFF" "m_seg_base s 2 = 0"
    using booted_state [of io "0x200000" False] by auto
  have b: "\<not> bit (0x60000010 :: u32) 31" "\<not> bit (0x60000010 :: u32) 0" by simp_all
  then have f: "flat s" using s by (simp add: flat_def)
  have r: "get_reg32 4 (ready s) = 0x8000" "m_seg_base (ready s) 2 = 0" "m_cr (ready s) 0 = 0x60000010" "m_esp_mask (ready s) = 0xFFFF"
    "m_memory_size (ready s) = 0x200000"
    using s by (simp_all add: ready_def cpu_set_eflags_def Let_def set_reg32_def get_reg32_def)
  have "ram_span 6 0x7FFA (ready s)" using r(5) by (intro span_low) simp_all
  then have "real_stack (ready s)" using reg_flat [OF f] b(2) by (simp add: real_stack_def r) (simp add: ready_def flags_flat)
  moreover have "\<not> bit (m_cr s 0) 0" unfolding s(6) by (rule b(2))
  ultimately show ?thesis using s f by blast
qed

theorem interrupt_round_trip_witness:
  "\<exists>(io :: unit io_bus) s t u. booted 0x200000 False io = Some s \<and> cpu_interrupt 0x21 0 Intr_software 0x7C12 (ready s) = Ok () t
    \<and> iret 0 False t = Ok () u \<and> virt_eip u = 0x7C12 \<and> m_reg32 u = m_reg32 (ready s)"
proof -
  obtain io :: "unit io_bus" and s where s: "booted 0x200000 False io = Some s" "real_stack (ready s)"
    using booted_ready by blast
  obtain fl where fl: "cpu_get_eflags (ready s) = Some fl" by (simp add: ready_def get_set_eflags)
  have v: "(0x21 :: u32) < 0x100" "(0x7C12 :: u32) AND 0xFFFF = 0x7C12" by simp_all
  obtain t u where "cpu_interrupt 0x21 0 Intr_software 0x7C12 (ready s) = Ok () t" "iret 0 False t = Ok () u"
    "virt_eip u = 0x7C12 AND 0xFFFF" "m_reg32 u = m_reg32 (ready s)"
    using interrupt_round_trip [OF s(2) fl v(1), of 0 Intr_software "0x7C12" 0] by blast
  then show ?thesis using s(1) v(2) by metis
qed

end
