(* ===== verification/Ctrl_Top.thy ===== *)
theory Ctrl_Top
  imports Ctrl_Flat
begin

text \<open>The properties of control transfers that rest on the laws of the other theories, with their examples.\<close>

section \<open>Delivery of exceptions\<close>

text \<open>One attempt to deliver the double fault; there is no second chance.\<close>

definition deliver_double_fault :: "'d cpu_mem \<Rightarrow> 'd cpu_mem option" where
  "deliver_double_fault s =
     (case cpu_interrupt 8 0x10000 Intr_exception (virt_eip s) s of Ok _ t \<Rightarrow> Some t | _ \<Rightarrow> None)"

lemma run_8 [simp]: "exception_run (Some 8) v c s = None"
  by (subst exception_run.simps) simp

lemma run_marked: "w \<noteq> 8 \<Longrightarrow> exception_run (Some w) v c s = deliver_double_fault s"
  by (subst exception_run.simps) (simp add: deliver_double_fault_def split: outcome.split)

text \<open>
  C5. The delivery of an exception always ends, after at most three attempts, whatever the
  descriptor tables hold. The first attempt is the exception itself; if it succeeds, that is all. If it raises a
  fault, the double fault is delivered instead, and then a second time on the state this leaves, with the
  interrupted address of that state; a fault of either attempt, or of the delivery of a double fault asked for in the
  first place, stops the emulator, as does an undefined access. The vector and the error code of the second fault have no influence.
\<close>

theorem exception_delivery:
  "cpu_exception v c s = (case cpu_interrupt v c Intr_exception (virt_eip s) s of
       Ok _ t \<Rightarrow> Some t
     | Abort \<Rightarrow> None
     | Fault v' c' t \<Rightarrow>
         if v = 8 then None else Option.bind (deliver_double_fault t) deliver_double_fault)"
proof -
  have r: "exception_run None v c s = (case cpu_interrupt v c Intr_exception (virt_eip s) s of
       Ok _ t \<Rightarrow> Some t
     | Abort \<Rightarrow> None
     | Fault v' c' t \<Rightarrow>
         (case exception_run (Some v) v' c' t of None \<Rightarrow> None | Some u \<Rightarrow> exception_run (Some v) v c u))"
    by (subst exception_run.simps) simp
  show ?thesis
    unfolding cpu_exception_def r by (cases "v = 8") (simp_all add: run_marked split: outcome.split option.split)
qed

section \<open>The processor mode\<close>

text \<open>
  C3. Well-formedness of the processor mode. Let the privilege level be at most 3, the two access kinds
  of the TLB be those of the level (user exactly at level 3) and the width of the stack pointer be the one
  the cached descriptor of SS says. Then the same holds after every control transfer that completes: an interrupt or
  exception through any gate or in any mode, a far jump, call or return, an IRET in any mode, a task switch, SYSENTER and
  SYSEXIT. (It is a statement about the state between transfers; within one, the parameters of a call gate are read
  with the level of the target.)
\<close>

theorem transfers_keep_mode:
  assumes "mode_ok s" "transfer_step x s = Ok () t"
  shows "m_cpl t \<le> 3 \<and> m_tlb_shift_read t = (if m_cpl t = 3 then 4 else 0) \<and> m_tlb_shift_write t = (if m_cpl t = 3 then 6 else 2)
    \<and> m_esp_mask t = (if m_seg_access t 2 AND 0x4000 \<noteq> 0 then - 1 else 0xFFFF)"
  using transfer_modes_all [OF assms(1), of x] assms(2) by (simp add: modes_def post_def mode_ok_def level_ok_def stack_ok_def)

lemma booted_mode: "booted 0x200000 False io = Some s \<Longrightarrow> mode_ok s"
proof -
  assume b: "booted 0x200000 False io = Some s"
  define r where "r = fold reset_registers [0..<8] (cpu_set_a20 True (power_on io))"
  have a: "m_seg_access r 2 = 0" "m_esp_mask r = 0xFFFF"
    by (simp_all add: r_def cpu_set_a20_def cpu_mmu_tlb_flush_def power_on_def
        reset_registers_def cpu_seg_load_real_def real_segment_def Let_def upt_rec)
  define t where "t = cpu_reset False (cpu_set_a20 True (power_on io))"
  have keep: "m_cpl (tlb_flush_from is u) = m_cpl u" "m_seg_access (tlb_flush_from is u) = m_seg_access u" for "is" and u :: "'a cpu_mem"
    by (induction "is" arbitrary: u) (simp_all add: tlb_drop_def Let_def)
  have t: "m_cpl t = 0" "m_seg_access t 2 = 0" "m_esp_mask t = 0xFFFF" "m_tlb_shift_read t = 0" "m_tlb_shift_write t = 2"
    using a unfolding t_def cpu_reset_def Let_def r_def [symmetric]
    by (simp_all add: cpu_mmu_tlb_flush_def keep flush_keeps flush_keeps_more cpu_update_mxcsr_def cpu_prot_update_cpl_def set_virt_eip_def)
  then show ?thesis using b unfolding booted_def t_def [symmetric]
    by (auto simp: cpu_init_mem_def mode_ok_def level_ok_def stack_ok_def split: if_splits)
qed

theorem transfers_keep_mode_witness:
  "\<exists>(io :: unit io_bus) s t. booted 0x200000 False io = Some s \<and> transfer_step (Jump 0x7C00 0 0) s = Ok () t \<and> virt_eip t = 0x7C00
    \<and> m_tlb_shift_write t = (if m_cpl t = 3 then 6 else 2)"
proof -
  obtain io :: "unit io_bus" and s where s: "booted 0x200000 False io = Some s" "flat s" "\<not> bit (m_cr s 0) 0"
    using booted_ready by blast
  have m: "mem_ok s" "real_or_v86 s" using s(2,3) by (simp_all add: flat_def real_or_v86_def)
  obtain t where "cpu_load_csip_real 0 0x7C00 s = Ok () t" "virt_eip t = 0x7C00"
    using csip_real_ok [OF m(1), of 0 "0x7C00"] by (auto simp: at_real_def)
  then have t: "transfer_step (Jump 0x7C00 0 0) s = Ok () t" "virt_eip t = 0x7C00" using m(2) by (simp_all add: jmpf_def)
  show ?thesis using s(1) t transfers_keep_mode [OF booted_mode [OF s(1)] t(1)] by blast
qed

section \<open>Privilege of returns\<close>

text \<open>
  C4. A return in protected mode never gains privilege. A far return that completes ends at a level that is
  numerically not below the one it started from. So does an IRET that does not leave a nested task; moreover it cannot
  change the I/O privilege level unless it started at level 0, nor the interrupt flag unless the level it started from was allowed to,
  and if it moved to an outer level (outside virtual-8086 mode), each of ES, DS, FS and GS that holds a data segment
  holds one that the new level may use, or is null: no inner data segment remains loaded. The same does not hold of code
  segments, and the last part says so: the source keeps an inner code segment that is not conforming, which the
  new level may not use, where the architecture unloads it.
\<close>

theorem returns_never_gain_privilege:
  assumes "\<not> real_or_v86 s" "m_cpl s \<le> 3"
  shows "(retf adjust w32 s = Ok () t \<longrightarrow> m_cpl s \<le> m_cpl t)
    \<and> (iret ip w32 s = Ok () u \<and> m_eflags s AND 0x4000 = 0 \<longrightarrow> m_cpl s \<le> m_cpl u
        \<and> (m_cpl s \<noteq> 0 \<longrightarrow> m_eflags u AND 0x3000 = m_eflags s AND 0x3000)
        \<and> (iopl s < m_cpl s \<longrightarrow> m_eflags u AND 0x200 = m_eflags s AND 0x200)
        \<and> (m_cpl u \<noteq> m_cpl s \<and> \<not> v86 u \<longrightarrow> (\<forall>x \<in> {0, 3, 4, 5}. data_segment x u \<longrightarrow> usable x u)))
    \<and> (m_seg s x AND 0xFFFC \<noteq> 0 \<and> inner_code x s \<longrightarrow> iret_handle_seg x s = s \<and> \<not> usable x s)"
  using retf_level [OF assms(1), of adjust w32] iret_level [OF assms(1) _ assms(2), of ip w32]
    handled_code [of s x]
  by (simp add: post_def iret_post_def flags_from_def)

text \<open>
  A kernel about to return to a user program: the descriptors 0x18 and 0x20 of the table are flat user code and data, and the
  stack at 0x1000 holds the frame of an outer return.
\<close>

definition kernel_machine :: "'d cpu_mem \<Rightarrow> 'd cpu_mem" where
  "kernel_machine s = fold (\<lambda>(a, v) s. ram_put32 a v s)
     [(0x18, raw0 (make_desc 0 0xFFFFF 0xFA 0xC)), (0x1C, raw1 (make_desc 0 0xFFFFF 0xFA 0xC)),
      (0x20, raw0 (make_desc 0 0xFFFFF 0xF2 0xC)), (0x24, raw1 (make_desc 0 0xFFFFF 0xF2 0xC)),
      (0x1000, 0x5000), (0x1004, 0x1B), (0x1008, 0x202), (0x100C, 0x9000), (0x1010, 0x23)]
     ((set_reg32 4 0x1000 (flat_segments s))\<lparr>m_esp_mask := 0xFFFF\<rparr>)"

lemma kernel_words:
  "ram_get32 0x18 (kernel_machine s) = raw0 (make_desc 0 0xFFFFF 0xFA 0xC)" "ram_get32 0x1C (kernel_machine s) = raw1 (make_desc 0 0xFFFFF 0xFA 0xC)"
  "ram_get32 0x20 (kernel_machine s) = raw0 (make_desc 0 0xFFFFF 0xF2 0xC)" "ram_get32 0x24 (kernel_machine s) = raw1 (make_desc 0 0xFFFFF 0xF2 0xC)"
  "ram_get32 0x1000 (kernel_machine s) = 0x5000" "ram_get32 0x1004 (kernel_machine s) = 0x1B" "ram_get32 0x1008 (kernel_machine s) = 0x202"
  "ram_get32 0x100C (kernel_machine s) = 0x9000" "ram_get32 0x1010 (kernel_machine s) = 0x23"
  by (simp_all add: kernel_machine_def get_put_other)

text \<open>The example machine: its tables are at address 0 and its memory has two megabytes.\<close>

definition tables_ok :: "'d cpu_mem \<Rightarrow> bool" where
  "tables_ok s \<longleftrightarrow> flat s \<and> m_memory_size s = 0x200000 \<and> m_seg_base s 7 = 0 \<and> m_seg_limit s 7 = 0xFFFF"

lemma tables_calm: "tables_ok s \<Longrightarrow> calm s t \<Longrightarrow> tables_ok t"
  by (simp add: tables_ok_def calm_def same_core_def same_arch_def)

lemma fetch_calm:
  assumes "tables_ok s" "sel AND 4 = 0" "unat (sel AND NOT 7) + 8 \<le> 0xA0000" "\<not> 0xFFFF < sel OR 7"
  shows "\<exists>t. fetch_descriptor sel v c s = Ok \<lparr>raw0 = ram_get32 (sel AND NOT 7) s, raw1 = ram_get32 ((sel AND NOT 7) + 4) s\<rparr> t
    \<and> calm s t \<and> m_mem t = m_mem s"
proof -
  have "ram_span 8 (sel AND NOT 7) s" using assms by (intro span_low) (simp_all add: tables_ok_def)
  then obtain t where t: "cpu_seg_load_descriptor sel (Some v) c s
      = Ok (Some \<lparr>raw0 = ram_get32 (sel AND NOT 7) s, raw1 = ram_get32 ((sel AND NOT 7) + 4) s\<rparr>) t" "flat t" "same_core s t" "m_mem t = m_mem s"
    using load_desc_flat [of s "sel AND NOT 7" sel "Some v" c] assms by (auto simp: tables_ok_def)
  then have "calm s t" using Ok_keeps [OF keeps_descriptor(2) t(1)] by (simp add: calm_def)
  then show ?thesis using t(1,4) by (auto simp: fetch_descriptor_def got_descriptor_def)
qed

lemma load_protected_flat:
  assumes "tables_ok s" "sel AND 4 = 0" "i \<in> {1, 2}" "unat (ucast (sel AND NOT 7) :: u32) + 8 \<le> 0xA0000"
  shows "\<exists>d t. cpu_seg_load_protected i sel info s = Ok d t \<and> tables_ok t \<and> m_reg32 t = m_reg32 s"
proof -
  define r where "r = s\<lparr>m_seg := (m_seg s)(i := sel), m_seg_base := (m_seg_base s)(i := cpu_seg_get_base info),
      m_seg_limit := (m_seg_limit s)(i := cpu_seg_get_limit info), m_seg_access := (m_seg_access s)(i := desc_access info)\<rparr>"
  let ?a = "ucast (sel AND NOT 7) :: u32"
  have r: "tables_ok r" "m_reg32 r = m_reg32 s" using assms(1,3)
    by (auto simp: r_def tables_ok_def flat_def mem_ok_def entry_ok_def sys_ok_def)
  have "(ucast (sel OR 7) :: u32) = 0xFFFF AND ucast (sel OR 7)" by (simp only: and.commute [of "0xFFFF"] low16_as_cast zext16_low)
  then have ns: "\<not> (0xFFFF :: u32) < ucast (sel OR 7)" using and_le [of "0xFFFF" "ucast (sel OR 7)"] by (simp add: not_less)
  have a: "cpu_seg_descriptor_address None sel r = ?a"
    using r(1) assms(2) ns by (simp add: cpu_seg_descriptor_address_def tables_ok_def)
  have "unat (- 1 :: u32) = 4294967295" by (simp add: unsigned_minus_1_eq_mask mask_eq_exp_minus_1)
  then have n1: "?a \<noteq> - 1" using assms(4) by (intro notI) simp
  have "ram_span 8 ?a r" using r(1) assms(4) by (intro span_low) (simp_all add: tables_ok_def)
  then have "in_ram (?a + of_nat 5) r" unfolding ram_span_def by (rule allE [of _ 5]) simp
  then have ir: "in_ram (?a + 5) r" by simp
  obtain t where t: "mem_write8 2 (?a + 5) (drop_bit 8 (raw1 info OR 0x100) AND 0xFF) r = Ok () t" "flat t" "same_core r t"
    using mem_write8_flat [of r "?a + 5" 2] r(1) ir by (auto simp: writes_flat_def tables_ok_def)
  have k: "same_arch r t" using t(1) by (rule Ok_keeps [OF keeps_mem(4)])
  have tt: "tables_ok t" "m_reg32 t = m_reg32 s" using tables_calm [OF r(1), of t] t k r(2) by (simp_all add: calm_def same_arch_def)
  have e: "cpu_seg_load_protected i sel info s = (if i = 1 then
        Ok (info\<lparr>raw1 := raw1 info OR 0x100\<rparr>) (cpu_prot_update_cpl (t\<lparr>m_state_hash := (if m_seg_access t 1 AND 0x4000 \<noteq> 0 then 0 else 3),
          m_cpl := ucast (sel AND 3)\<rparr>))
      else Ok (info\<lparr>raw1 := raw1 info OR 0x100\<rparr>) (t\<lparr>m_esp_mask := (if m_seg_access t 2 AND 0x4000 \<noteq> 0 then - 1 else 0xFFFF)\<rparr>))"
    unfolding cpu_seg_load_protected_def Let_def r_def [symmetric] a using t(1) n1 assms(3) by auto
  show ?thesis unfolding e using tt assms(3)
    by (auto simp: tables_ok_def cpu_prot_update_cpl_def flat_def mem_ok_def entry_ok_def sys_ok_def)
qed

lemma csip_protected_flat:
  assumes "tables_ok s" "sel AND 4 = 0" "unat (ucast (sel AND NOT 7) :: u32) + 8 \<le> 0xA0000"
  shows "\<exists>t. cpu_load_csip_protected sel info ip s = Ok () t"
proof -
  have "flat (set_virt_eip ip s) = flat s" by (simp add: set_virt_eip_def flat_def mem_ok_def entry_ok_def sys_ok_def)
  then have v: "tables_ok (set_virt_eip ip s)" using assms(1) by (simp add: tables_ok_def) (simp add: set_virt_eip_def)
  obtain d t where t: "cpu_seg_load_protected 1 sel info (set_virt_eip ip s) = Ok d t" "tables_ok t"
    using load_protected_flat [OF v assms(2) _ assms(3), of 1 info] by auto
  then have "mem_ok t" by (simp add: tables_ok_def flat_def)
  then show ?thesis using t(1) reload_ok [of t] by (auto simp: cpu_load_csip_protected_def)
qed

lemma kernel_state:
  assumes "flat s" "m_memory_size s = 0x200000"
  shows "tables_ok (kernel_machine s)" "\<not> real_or_v86 (kernel_machine s)" "m_cpl (kernel_machine s) = 0" "m_eflags (kernel_machine s) = 2"
    "m_esp_mask (kernel_machine s) = 0xFFFF" "get_reg32 4 (kernel_machine s) = 0x1000" "m_seg_base (kernel_machine s) 2 = 0" "bit (m_cr (kernel_machine s) 0) 0"
    "m_tlb_shift_write (kernel_machine s) \<in> {0, 2, 4, 6}"
proof -
  define k where "k = (set_reg32 4 0x1000 (flat_segments s))\<lparr>m_esp_mask := 0xFFFF\<rparr>"
  have "flat (set_reg32 4 0x1000 (flat_segments s))" using assms(1) by (intro reg_flat) simp
  then have f: "flat k" by (simp add: k_def flat_def mem_ok_def entry_ok_def sys_ok_def)
  have p: "flat (kernel_machine s)" "same_core k (kernel_machine s)" "m_seg_limit (kernel_machine s) = m_seg_limit k" "m_cpl (kernel_machine s) = m_cpl k"
    unfolding kernel_machine_def k_def [symmetric]
    using f by (simp add: put_flat) (simp_all add: same_core_def ram_put32_def ram_put16_def ram_put8_def)
  have kk: "m_memory_size k = 0x200000" "m_seg_base k = (\<lambda>_. 0)" "m_seg_limit k = (\<lambda>_. 0xFFFF)" "m_cpl k = 0" "m_eflags k = 2"
    "m_esp_mask k = 0xFFFF" "get_reg32 4 k = 0x1000" "m_cr k 0 = 0x11" "m_tlb_shift_write k = m_tlb_shift_write s"
    using assms(2) by (simp_all add: k_def flat_segments_def set_reg32_def get_reg32_def)
  have "m_tlb_shift_write s \<in> {0, 2, 4, 6}" using shifts_ok [of s] assms(1) by (simp add: flat_def)
  then show "tables_ok (kernel_machine s)" "\<not> real_or_v86 (kernel_machine s)" "m_cpl (kernel_machine s) = 0" "m_eflags (kernel_machine s) = 2"
    "m_esp_mask (kernel_machine s) = 0xFFFF" "get_reg32 4 (kernel_machine s) = 0x1000" "m_seg_base (kernel_machine s) 2 = 0" "bit (m_cr (kernel_machine s) 0) 0"
    "m_tlb_shift_write (kernel_machine s) \<in> {0, 2, 4, 6}"
    using p kk by (simp_all add: tables_ok_def same_core_def real_or_v86_def v86_def get_reg32_def)
qed

lemma user_descs:
  "desc_type (make_desc 0 0xFFFFF 0xFA 0xC) = 0x1A" "desc_dpl (make_desc 0 0xFFFFF 0xFA 0xC) = 3" "desc_present (make_desc 0 0xFFFFF 0xFA 0xC)"
  "writable_data (make_desc 0 0xFFFFF 0xF2 0xC)" "desc_dpl (make_desc 0 0xFFFFF 0xF2 0xC) = 3" "desc_present (make_desc 0 0xFFFFF 0xF2 0xC)"
  by (simp_all add: desc_type_def desc_dpl_def desc_present_def writable_data_def desc_access_def make_desc_def word_cat_eq)

lemma kernel_fetch:
  assumes "tables_ok t" "m_mem t = m_mem (kernel_machine s)"
  shows "\<exists>u. fetch_descriptor 0x1B v c t = Ok (make_desc 0 0xFFFFF 0xFA 0xC) u \<and> calm t u \<and> m_mem u = m_mem t"
    and "\<exists>u. fetch_descriptor 0x23 v c t = Ok (make_desc 0 0xFFFFF 0xF2 0xC) u \<and> calm t u \<and> m_mem u = m_mem t"
  using fetch_calm [OF assms(1), of "0x1B" v c] fetch_calm [OF assms(1), of "0x23" v c] get_mem(2) [OF assms(2)] kernel_words [of s]
  by (auto simp: make_desc_def)

lemma kernel_outer:
  assumes t: "tables_ok t" "m_mem t = m_mem (kernel_machine s)" and k: "k \<in> {0, 2, 4, 6}"
  shows "\<exists>u. iret_outer ip 0x1B info True \<lparr>fr_esp = 0x100C, fr_base = 0, fr_mask = 0xFFFF, fr_shift = k, fr_orig = r\<rparr> t = Ok () u"
proof -
  let ?fr = "\<lparr>fr_esp = 0x100C, fr_base = 0, fr_mask = 0xFFFF, fr_shift = k, fr_orig = r\<rparr>"
  have sl: "slots True 2 ?fr = [0x100C, 0x1010]" by (simp add: numeral_2_eq_2 width_def)
  have "ram_span 4 0x100C t" "ram_span 4 0x1010 t" using t(1) by (auto intro!: span_low simp: tables_ok_def)
  then obtain fr a where a: "frame_pop_all True 2 ?fr t = Ok ([0x9000, 0x23], fr) a" "calm t a" "m_mem a = m_mem t"
    using pop_all_calm [of t True 2 ?fr] k t unfolding sl
    by (auto simp: width_def peek_def get_mem(2) [OF t(2)] kernel_words tables_ok_def)
  obtain b where b: "fetch_descriptor 0x23 13 0x20 a = Ok (make_desc 0 0xFFFFF 0xF2 0xC) b" "calm a b"
    using kernel_fetch(2) [OF tables_calm [OF t(1) a(2)] trans [OF a(3) t(2)]] by blast
  have tb: "tables_ok b" using tables_calm [OF tables_calm [OF t(1) a(2)] b(2)] .
  obtain d c where c: "cpu_seg_load_protected 2 0x23 (make_desc 0 0xFFFFF 0xF2 0xC) b = Ok d c" "tables_ok c"
    using load_protected_flat [OF tb, of "0x23" 2 "make_desc 0 0xFFFFF 0xF2 0xC"] by auto
  obtain e where e: "cpu_load_csip_protected 0x1B info ip c = Ok () e"
    using csip_protected_flat [OF c(2), of "0x1B" info ip] by auto
  have ss: "iret_stack_segment 0x23 3 0x18 a = Ok (make_desc 0 0xFFFFF 0xF2 0xC) b"
    using b(1) by (simp add: iret_stack_segment_def check_def user_descs)
  show ?thesis unfolding iret_outer_def Let_def a(1) using ss c(1) e by (simp add: load_segment_def)
qed

lemma kernel_returns:
  assumes "flat s" "m_memory_size s = 0x200000"
  shows "\<exists>u. iret 0 True (kernel_machine s) = Ok () u \<and> m_cpl u = 3"
proof -
  note k = kernel_state [OF assms]
  let ?s = "kernel_machine s"
  let ?fr = "\<lparr>fr_esp = 0x1000, fr_base = 0, fr_mask = 0xFFFF, fr_shift = m_tlb_shift_write ?s, fr_orig = 0x1000\<rparr>"
  let ?fr2 = "\<lparr>fr_esp = 0x100C, fr_base = 0, fr_mask = 0xFFFF, fr_shift = m_tlb_shift_write ?s, fr_orig = 0x1000\<rparr>"
  have h: "frame_here (m_tlb_shift_write ?s) ?s = ?fr" using k by (simp add: frame_here_def frame_at_def)
  have sl: "slots True 3 ?fr = [0x1000, 0x1004, 0x1008]" by (simp add: numeral_3_eq_3 width_def)
  have en: "(frame_skip (of_nat (width True)) ^^ 3) ?fr = ?fr2" by (simp add: numeral_3_eq_3 width_def frame_skip_def)
  have "ram_span 4 0x1000 ?s" "ram_span 4 0x1004 ?s" "ram_span 4 0x1008 ?s" using k(1) by (auto intro!: span_low simp: tables_ok_def)
  then obtain a where a: "frame_pop_all True 3 (frame_here (m_tlb_shift_write ?s) ?s) ?s = Ok ([0x5000, 0x1B, 0x202], ?fr2) a"
    "calm ?s a" "m_mem a = m_mem ?s"
    using pop_all_calm [of ?s True 3 ?fr] k unfolding sl en h by (auto simp: width_def peek_def kernel_words tables_ok_def)
  have ta: "tables_ok a" using tables_calm [OF k(1) a(2)] .
  obtain b where b: "fetch_descriptor 0x1B 13 0x18 a = Ok (make_desc 0 0xFFFFF 0xFA 0xC) b" "calm a b" "m_mem b = m_mem a"
    using kernel_fetch(1) [OF ta a(3)] by blast
  have tb: "tables_ok b" using tables_calm [OF ta b(2)] .
  have cpl: "m_cpl a = 0" "m_cpl b = 0" using k(3) a(2) b(2) by (simp_all add: calm_def same_arch_def)
  have cs: "return_code_segment 0x1B a = Ok (make_desc 0 0xFFFFF 0xFA 0xC) b"
    using b(1) cpl(2) by (simp add: return_code_segment_def check_def user_descs is_code_def)
  obtain u where u: "iret_outer 0x5000 0x1B (make_desc 0 0xFFFFF 0xFA 0xC) True ?fr2 b = Ok () u"
    using kernel_outer [OF tb trans [OF b(3) a(3)] k(9)] by blast
  then have "m_cpl u = 3" using iret_outer_post [of "0x1B" 3] by (simp add: post_def) blast
  moreover have "iret_protected True ?s = Ok () (iret_flags 0x202 0 True u)"
    unfolding iret_protected_def Let_def a(1) seq.simps prod.case using cs u cpl k(3) by simp
  ultimately show ?thesis using k(2,4,8) by (auto simp: iret_def real_or_v86_def usable_flags)
qed

theorem returns_never_gain_privilege_witness:
  "\<exists>(io :: unit io_bus) s u. booted 0x200000 False io = Some s \<and> iret 0 True (kernel_machine s) = Ok () u
    \<and> m_cpl (kernel_machine s) = 0 \<and> m_cpl u = 3 \<and> (\<not> v86 u \<and> data_segment 3 u \<longrightarrow> usable 3 u)"
proof -
  obtain io :: "unit io_bus" and s where s: "booted 0x200000 False io = Some s" "flat s" "m_memory_size s = 0x200000"
    using booted_flat by blast
  note k = kernel_state [OF s(2,3)]
  obtain u where u: "iret 0 True (kernel_machine s) = Ok () u" "m_cpl u = 3" using kernel_returns [OF s(2,3)] by blast
  have "\<not> v86 u \<and> data_segment 3 u \<longrightarrow> usable 3 u"
    using returns_never_gain_privilege [OF k(2), of 0 True u 0 u] u k(3,4) by auto
  then show ?thesis using s(1) u k(3) by blast
qed

end
