(* ===== verification/String_Ops.thy ===== *)
theory String_Ops
  imports Misc
begin

text \<open>
  Model of src/src/cpu/string.cpp: MOVS, STOS, LODS, SCAS, CMPS, INS and OUTS. The file writes every
  routine out six times, for three operand widths and two address widths, with the same text up to the
  names of the registers; here the two widths are arguments. The result is whether the instruction has
  to be executed again, because a repetition stops after 65536 elements.
\<close>

section \<open>Operands and index registers\<close>

datatype op_size = S8 | S16 | S32

fun size_bytes :: "op_size \<Rightarrow> u32" where
  "size_bytes S8 = 1"
| "size_bytes S16 = 2"
| "size_bytes S32 = 4"

text \<open>The 32-bit variable that an 8-bit read fills.\<close>

definition string_read8 :: "nat \<Rightarrow> u32 \<Rightarrow> 'd cpu_mem \<Rightarrow> (u32, 'd cpu_mem) outcome" where
  "string_read8 shift addr s =
     (let tag = tag_at addr shift s in
      if bit tag 0 then seq (cpu_access_read8 addr tag shift s) (\<lambda>_ s. Ok (m_read_result s) s)
      else case host_at addr s of
        None \<Rightarrow> Abort
      | Some p \<Rightarrow> if ram_ok 1 p s then Ok (ucast (m_mem s p)) s else Abort)"

fun read_el :: "op_size \<Rightarrow> u32 \<Rightarrow> 'd cpu_mem \<Rightarrow> (u32, 'd cpu_mem) outcome" where
  "read_el S8 addr s = string_read8 (m_tlb_shift_read s) addr s"
| "read_el S16 addr s = mem_read16_raw (m_tlb_shift_read s) addr s"
| "read_el S32 addr s = mem_read32 (m_tlb_shift_read s) addr s"

fun write_el :: "op_size \<Rightarrow> u32 \<Rightarrow> u32 \<Rightarrow> 'd cpu_mem \<Rightarrow> (unit, 'd cpu_mem) outcome" where
  "write_el S8 addr v s = mem_write8 (m_tlb_shift_write s) addr v s"
| "write_el S16 addr v s = mem_write16 (m_tlb_shift_write s) addr v s"
| "write_el S32 addr v s = mem_write32 (m_tlb_shift_write s) addr v s"

text \<open>The accumulator, and a value at the operand width: cut off, or sign-extended.\<close>

fun get_acc :: "op_size \<Rightarrow> 'd cpu_mem \<Rightarrow> u32" where
  "get_acc S8 s = ucast (get_reg8 0 s)"
| "get_acc S16 s = ucast (get_reg16 0 s)"
| "get_acc S32 s = get_reg32 0 s"

fun set_acc :: "op_size \<Rightarrow> u32 \<Rightarrow> 'd cpu_mem \<Rightarrow> 'd cpu_mem" where
  "set_acc S8 v s = set_reg8 0 (ucast v) s"
| "set_acc S16 v s = set_reg16 0 (ucast v) s"
| "set_acc S32 v s = set_reg32 0 v s"

fun cut :: "op_size \<Rightarrow> u32 \<Rightarrow> u32" where
  "cut S8 v = ucast (ucast v :: u8)"
| "cut S16 v = ucast (ucast v :: u16)"
| "cut S32 v = v"

fun sext :: "op_size \<Rightarrow> u32 \<Rightarrow> u32" where
  "sext S8 v = scast (ucast v :: u8)"
| "sext S16 v = scast (ucast v :: u16)"
| "sext S32 v = v"

fun sub_tag :: "op_size \<Rightarrow> flag_op" where
  "sub_tag S8 = SUB8"
| "sub_tag S16 = SUB16"
| "sub_tag S32 = SUB32"

text \<open>The counter is register 1, the source index register 6, the destination index register 7.\<close>

definition get_index :: "bool \<Rightarrow> nat \<Rightarrow> 'd cpu_mem \<Rightarrow> u32" where
  "get_index a32 i s = (if a32 then get_reg32 i s else ucast (get_reg16 (2 * i) s))"

definition add_index :: "bool \<Rightarrow> nat \<Rightarrow> u32 \<Rightarrow> 'd cpu_mem \<Rightarrow> 'd cpu_mem" where
  "add_index a32 i d s =
     (if a32 then set_reg32 i (get_reg32 i s + d) s else set_reg16 (2 * i) (get_reg16 (2 * i) s + ucast d) s)"

definition string_step :: "op_size \<Rightarrow> 'd cpu_mem \<Rightarrow> u32" where
  "string_step sz s = (if m_eflags s AND 0x400 \<noteq> 0 then - size_bytes sz else size_bytes sz)"

definition string_base :: "u32 \<Rightarrow> 'd cpu_mem \<Rightarrow> u32" where
  "string_base flags s = m_seg_base s (unat (drop_bit 22 flags AND 7))"

definition repeated :: "u32 \<Rightarrow> bool" where
  "repeated flags \<longleftrightarrow> flags AND 0xC0 \<noteq> 0"

definition string_count :: "bool \<Rightarrow> 'd cpu_mem \<Rightarrow> nat" where
  "string_count a32 s = min (unat (get_index a32 1 s)) 65536"

text \<open>The loop: the element, then the counter.\<close>

fun rep_loop :: "('d cpu_mem \<Rightarrow> (unit, 'd cpu_mem) outcome) \<Rightarrow> bool \<Rightarrow> nat \<Rightarrow> 'd cpu_mem \<Rightarrow> (bool, 'd cpu_mem) outcome" where
  "rep_loop el a32 0 s = Ok (get_index a32 1 s \<noteq> 0) s"
| "rep_loop el a32 (Suc n) s = seq (el s) (\<lambda>_ s. rep_loop el a32 n (add_index a32 1 (- 1) s))"

definition string_op ::
  "('d cpu_mem \<Rightarrow> (unit, 'd cpu_mem) outcome) \<Rightarrow> bool \<Rightarrow> u32 \<Rightarrow> 'd cpu_mem \<Rightarrow> (bool, 'd cpu_mem) outcome" where
  "string_op el a32 flags s =
     (if \<not> repeated flags then seq (el s) (\<lambda>_ s. Ok False s) else rep_loop el a32 (string_count a32 s) s)"

section \<open>Moves\<close>

definition movs_el :: "op_size \<Rightarrow> bool \<Rightarrow> u32 \<Rightarrow> u32 \<Rightarrow> 'd cpu_mem \<Rightarrow> (unit, 'd cpu_mem) outcome" where
  "movs_el sz a32 base d s =
     seq (read_el sz (base + get_index a32 6 s) s) (\<lambda>v s.
     seq (write_el sz (m_seg_base s 0 + get_index a32 7 s) v s) (\<lambda>_ s.
     Ok () (add_index a32 7 d (add_index a32 6 d s))))"

definition movs :: "op_size \<Rightarrow> bool \<Rightarrow> u32 \<Rightarrow> 'd cpu_mem \<Rightarrow> (bool, 'd cpu_mem) outcome" where
  "movs sz a32 flags s = string_op (movs_el sz a32 (string_base flags s) (string_step sz s)) a32 flags s"

definition stos_el :: "op_size \<Rightarrow> bool \<Rightarrow> u32 \<Rightarrow> u32 \<Rightarrow> 'd cpu_mem \<Rightarrow> (unit, 'd cpu_mem) outcome" where
  "stos_el sz a32 v d s =
     seq (write_el sz (m_seg_base s 0 + get_index a32 7 s) v s) (\<lambda>_ s. Ok () (add_index a32 7 d s))"

definition stos :: "op_size \<Rightarrow> bool \<Rightarrow> u32 \<Rightarrow> 'd cpu_mem \<Rightarrow> (bool, 'd cpu_mem) outcome" where
  "stos sz a32 flags s = string_op (stos_el sz a32 (get_acc sz s) (string_step sz s)) a32 flags s"

definition lods_el :: "op_size \<Rightarrow> bool \<Rightarrow> u32 \<Rightarrow> u32 \<Rightarrow> 'd cpu_mem \<Rightarrow> (unit, 'd cpu_mem) outcome" where
  "lods_el sz a32 base d s =
     seq (read_el sz (base + get_index a32 6 s) s) (\<lambda>v s. Ok () (add_index a32 6 d (set_acc sz v s)))"

definition lods :: "op_size \<Rightarrow> bool \<Rightarrow> u32 \<Rightarrow> 'd cpu_mem \<Rightarrow> (bool, 'd cpu_mem) outcome" where
  "lods sz a32 flags s = string_op (lods_el sz a32 (string_base flags s) (string_step sz s)) a32 flags s"

section \<open>Ports\<close>

fun port_in :: "op_size \<Rightarrow> u32 \<Rightarrow> 'd cpu_mem \<Rightarrow> (u32, 'd cpu_mem) outcome" where
  "port_in S8 p s = cpu_inb p s"
| "port_in S16 p s = cpu_inw p s"
| "port_in S32 p s = cpu_ind p s"

fun port_out :: "op_size \<Rightarrow> u32 \<Rightarrow> u32 \<Rightarrow> 'd cpu_mem \<Rightarrow> (unit, 'd cpu_mem) outcome" where
  "port_out S8 p v s = cpu_outb p v s"
| "port_out S16 p v s = cpu_outw p v s"
| "port_out S32 p v s = cpu_outd p v s"

definition get_dx :: "'d cpu_mem \<Rightarrow> u32" where
  "get_dx s = ucast (get_reg16 4 s)"

definition ins_el :: "op_size \<Rightarrow> bool \<Rightarrow> u32 \<Rightarrow> 'd cpu_mem \<Rightarrow> (unit, 'd cpu_mem) outcome" where
  "ins_el sz a32 d s =
     seq (port_in sz (get_dx s) s) (\<lambda>v s.
     seq (write_el sz (m_seg_base s 0 + get_index a32 7 s) v s) (\<lambda>_ s. Ok () (add_index a32 7 d s)))"

definition outs_el :: "op_size \<Rightarrow> bool \<Rightarrow> u32 \<Rightarrow> u32 \<Rightarrow> 'd cpu_mem \<Rightarrow> (unit, 'd cpu_mem) outcome" where
  "outs_el sz a32 base d s =
     seq (read_el sz (base + get_index a32 6 s) s) (\<lambda>v s.
     seq (port_out sz (get_dx s) v s) (\<lambda>_ s. Ok () (add_index a32 6 d s)))"

text \<open>The permission of the port is checked once, also for a count of zero.\<close>

definition ins_str :: "op_size \<Rightarrow> bool \<Rightarrow> u32 \<Rightarrow> 'd cpu_mem \<Rightarrow> (bool, 'd cpu_mem) outcome" where
  "ins_str sz a32 flags s =
     (let n = string_count a32 s; d = string_step sz s in
      seq (cpu_io_check_access (get_dx s) (size_bytes sz) s) (\<lambda>_ s.
      if \<not> repeated flags then seq (ins_el sz a32 d s) (\<lambda>_ s. Ok False s)
      else rep_loop (ins_el sz a32 d) a32 n s))"

definition outs_str :: "op_size \<Rightarrow> bool \<Rightarrow> u32 \<Rightarrow> 'd cpu_mem \<Rightarrow> (bool, 'd cpu_mem) outcome" where
  "outs_str sz a32 flags s =
     (let n = string_count a32 s; d = string_step sz s; base = string_base flags s in
      seq (cpu_io_check_access (get_dx s) (size_bytes sz) s) (\<lambda>_ s.
      if \<not> repeated flags then seq (outs_el sz a32 base d s) (\<lambda>_ s. Ok False s)
      else rep_loop (outs_el sz a32 base d) a32 n s))"

section \<open>Comparisons\<close>

text \<open>The flags of a subtraction; the counter is not yet updated. The value is whether the elements agree.\<close>

definition compare_el :: "op_size \<Rightarrow> u32 \<Rightarrow> u32 \<Rightarrow> 'd cpu_mem \<Rightarrow> (bool, 'd cpu_mem) outcome" where
  "compare_el sz dest src s =
     Ok (src = dest) (s\<lparr>m_lr := sext sz (dest - src), m_lop2 := src, m_laux := op_code (sub_tag sz)\<rparr>)"

definition scas_el :: "op_size \<Rightarrow> bool \<Rightarrow> u32 \<Rightarrow> u32 \<Rightarrow> bool \<Rightarrow> 'd cpu_mem \<Rightarrow> (bool, 'd cpu_mem) outcome" where
  "scas_el sz a32 dest d rep s =
     seq (read_el sz (m_seg_base s 0 + get_index a32 7 s) s) (\<lambda>v s.
     let s = add_index a32 7 d s; s = (if rep then add_index a32 1 (- 1) s else s)
     in compare_el sz dest (cut sz v) s)"

definition cmps_el :: "op_size \<Rightarrow> bool \<Rightarrow> u32 \<Rightarrow> u32 \<Rightarrow> bool \<Rightarrow> 'd cpu_mem \<Rightarrow> (bool, 'd cpu_mem) outcome" where
  "cmps_el sz a32 base d rep s =
     seq (read_el sz (base + get_index a32 6 s) s) (\<lambda>u s.
     seq (read_el sz (m_seg_base s 0 + get_index a32 7 s) s) (\<lambda>v s.
     let s = add_index a32 6 d (add_index a32 7 d s); s = (if rep then add_index a32 1 (- 1) s else s)
     in compare_el sz (cut sz u) (cut sz v) s))"

text \<open>The loop stops early when the elements agree as \<open>stop\<close> says.\<close>

fun scan_loop :: "('d cpu_mem \<Rightarrow> (bool, 'd cpu_mem) outcome) \<Rightarrow> bool \<Rightarrow> bool \<Rightarrow> nat \<Rightarrow> 'd cpu_mem \<Rightarrow> (bool, 'd cpu_mem) outcome" where
  "scan_loop el stop a32 0 s = Ok (get_index a32 1 s \<noteq> 0) s"
| "scan_loop el stop a32 (Suc n) s = seq (el s) (\<lambda>same s. if same = stop then Ok False s else scan_loop el stop a32 n s)"

definition scan_op ::
  "(bool \<Rightarrow> 'd cpu_mem \<Rightarrow> (bool, 'd cpu_mem) outcome) \<Rightarrow> bool \<Rightarrow> u32 \<Rightarrow> 'd cpu_mem \<Rightarrow> (bool, 'd cpu_mem) outcome" where
  "scan_op el a32 flags s =
     (let mode = drop_bit 6 flags AND 3 in
      if mode = 0 then seq (el False s) (\<lambda>_ s. Ok False s)
      else if mode = 1 then scan_loop (el True) False a32 (string_count a32 s) s
      else if mode = 2 then scan_loop (el True) True a32 (string_count a32 s) s
      else Abort)"

definition scas :: "op_size \<Rightarrow> bool \<Rightarrow> u32 \<Rightarrow> 'd cpu_mem \<Rightarrow> (bool, 'd cpu_mem) outcome" where
  "scas sz a32 flags s = scan_op (scas_el sz a32 (get_acc sz s) (string_step sz s)) a32 flags s"

definition cmps :: "op_size \<Rightarrow> bool \<Rightarrow> u32 \<Rightarrow> 'd cpu_mem \<Rightarrow> (bool, 'd cpu_mem) outcome" where
  "cmps sz a32 flags s = scan_op (cmps_el sz a32 (string_base flags s) (string_step sz s)) a32 flags s"

section \<open>The routines of the source\<close>

definition movsb16 :: "u32 \<Rightarrow> 'd cpu_mem \<Rightarrow> (bool, 'd cpu_mem) outcome" where
  "movsb16 = movs S8 False"

definition movsb32 :: "u32 \<Rightarrow> 'd cpu_mem \<Rightarrow> (bool, 'd cpu_mem) outcome" where
  "movsb32 = movs S8 True"

definition movsw16 :: "u32 \<Rightarrow> 'd cpu_mem \<Rightarrow> (bool, 'd cpu_mem) outcome" where
  "movsw16 = movs S16 False"

definition movsw32 :: "u32 \<Rightarrow> 'd cpu_mem \<Rightarrow> (bool, 'd cpu_mem) outcome" where
  "movsw32 = movs S16 True"

definition movsd16 :: "u32 \<Rightarrow> 'd cpu_mem \<Rightarrow> (bool, 'd cpu_mem) outcome" where
  "movsd16 = movs S32 False"

definition movsd32 :: "u32 \<Rightarrow> 'd cpu_mem \<Rightarrow> (bool, 'd cpu_mem) outcome" where
  "movsd32 = movs S32 True"

definition stosb16 :: "u32 \<Rightarrow> 'd cpu_mem \<Rightarrow> (bool, 'd cpu_mem) outcome" where
  "stosb16 = stos S8 False"

definition stosb32 :: "u32 \<Rightarrow> 'd cpu_mem \<Rightarrow> (bool, 'd cpu_mem) outcome" where
  "stosb32 = stos S8 True"

definition stosw16 :: "u32 \<Rightarrow> 'd cpu_mem \<Rightarrow> (bool, 'd cpu_mem) outcome" where
  "stosw16 = stos S16 False"

definition stosw32 :: "u32 \<Rightarrow> 'd cpu_mem \<Rightarrow> (bool, 'd cpu_mem) outcome" where
  "stosw32 = stos S16 True"

definition stosd16 :: "u32 \<Rightarrow> 'd cpu_mem \<Rightarrow> (bool, 'd cpu_mem) outcome" where
  "stosd16 = stos S32 False"

definition stosd32 :: "u32 \<Rightarrow> 'd cpu_mem \<Rightarrow> (bool, 'd cpu_mem) outcome" where
  "stosd32 = stos S32 True"

definition scasb16 :: "u32 \<Rightarrow> 'd cpu_mem \<Rightarrow> (bool, 'd cpu_mem) outcome" where
  "scasb16 = scas S8 False"

definition scasb32 :: "u32 \<Rightarrow> 'd cpu_mem \<Rightarrow> (bool, 'd cpu_mem) outcome" where
  "scasb32 = scas S8 True"

definition scasw16 :: "u32 \<Rightarrow> 'd cpu_mem \<Rightarrow> (bool, 'd cpu_mem) outcome" where
  "scasw16 = scas S16 False"

definition scasw32 :: "u32 \<Rightarrow> 'd cpu_mem \<Rightarrow> (bool, 'd cpu_mem) outcome" where
  "scasw32 = scas S16 True"

definition scasd16 :: "u32 \<Rightarrow> 'd cpu_mem \<Rightarrow> (bool, 'd cpu_mem) outcome" where
  "scasd16 = scas S32 False"

definition scasd32 :: "u32 \<Rightarrow> 'd cpu_mem \<Rightarrow> (bool, 'd cpu_mem) outcome" where
  "scasd32 = scas S32 True"

definition insb16 :: "u32 \<Rightarrow> 'd cpu_mem \<Rightarrow> (bool, 'd cpu_mem) outcome" where
  "insb16 = ins_str S8 False"

definition insb32 :: "u32 \<Rightarrow> 'd cpu_mem \<Rightarrow> (bool, 'd cpu_mem) outcome" where
  "insb32 = ins_str S8 True"

definition insw16 :: "u32 \<Rightarrow> 'd cpu_mem \<Rightarrow> (bool, 'd cpu_mem) outcome" where
  "insw16 = ins_str S16 False"

definition insw32 :: "u32 \<Rightarrow> 'd cpu_mem \<Rightarrow> (bool, 'd cpu_mem) outcome" where
  "insw32 = ins_str S16 True"

definition insd16 :: "u32 \<Rightarrow> 'd cpu_mem \<Rightarrow> (bool, 'd cpu_mem) outcome" where
  "insd16 = ins_str S32 False"

definition insd32 :: "u32 \<Rightarrow> 'd cpu_mem \<Rightarrow> (bool, 'd cpu_mem) outcome" where
  "insd32 = ins_str S32 True"

definition outsb16 :: "u32 \<Rightarrow> 'd cpu_mem \<Rightarrow> (bool, 'd cpu_mem) outcome" where
  "outsb16 = outs_str S8 False"

definition outsb32 :: "u32 \<Rightarrow> 'd cpu_mem \<Rightarrow> (bool, 'd cpu_mem) outcome" where
  "outsb32 = outs_str S8 True"

definition outsw16 :: "u32 \<Rightarrow> 'd cpu_mem \<Rightarrow> (bool, 'd cpu_mem) outcome" where
  "outsw16 = outs_str S16 False"

definition outsw32 :: "u32 \<Rightarrow> 'd cpu_mem \<Rightarrow> (bool, 'd cpu_mem) outcome" where
  "outsw32 = outs_str S16 True"

definition outsd16 :: "u32 \<Rightarrow> 'd cpu_mem \<Rightarrow> (bool, 'd cpu_mem) outcome" where
  "outsd16 = outs_str S32 False"

definition outsd32 :: "u32 \<Rightarrow> 'd cpu_mem \<Rightarrow> (bool, 'd cpu_mem) outcome" where
  "outsd32 = outs_str S32 True"

definition cmpsb16 :: "u32 \<Rightarrow> 'd cpu_mem \<Rightarrow> (bool, 'd cpu_mem) outcome" where
  "cmpsb16 = cmps S8 False"

definition cmpsb32 :: "u32 \<Rightarrow> 'd cpu_mem \<Rightarrow> (bool, 'd cpu_mem) outcome" where
  "cmpsb32 = cmps S8 True"

definition cmpsw16 :: "u32 \<Rightarrow> 'd cpu_mem \<Rightarrow> (bool, 'd cpu_mem) outcome" where
  "cmpsw16 = cmps S16 False"

definition cmpsw32 :: "u32 \<Rightarrow> 'd cpu_mem \<Rightarrow> (bool, 'd cpu_mem) outcome" where
  "cmpsw32 = cmps S16 True"

definition cmpsd16 :: "u32 \<Rightarrow> 'd cpu_mem \<Rightarrow> (bool, 'd cpu_mem) outcome" where
  "cmpsd16 = cmps S32 False"

definition cmpsd32 :: "u32 \<Rightarrow> 'd cpu_mem \<Rightarrow> (bool, 'd cpu_mem) outcome" where
  "cmpsd32 = cmps S32 True"

definition lodsb16 :: "u32 \<Rightarrow> 'd cpu_mem \<Rightarrow> (bool, 'd cpu_mem) outcome" where
  "lodsb16 = lods S8 False"

definition lodsb32 :: "u32 \<Rightarrow> 'd cpu_mem \<Rightarrow> (bool, 'd cpu_mem) outcome" where
  "lodsb32 = lods S8 True"

definition lodsw16 :: "u32 \<Rightarrow> 'd cpu_mem \<Rightarrow> (bool, 'd cpu_mem) outcome" where
  "lodsw16 = lods S16 False"

definition lodsw32 :: "u32 \<Rightarrow> 'd cpu_mem \<Rightarrow> (bool, 'd cpu_mem) outcome" where
  "lodsw32 = lods S16 True"

definition lodsd16 :: "u32 \<Rightarrow> 'd cpu_mem \<Rightarrow> (bool, 'd cpu_mem) outcome" where
  "lodsd16 = lods S32 False"

definition lodsd32 :: "u32 \<Rightarrow> 'd cpu_mem \<Rightarrow> (bool, 'd cpu_mem) outcome" where
  "lodsd32 = lods S32 True"

text \<open>
  The handlers (\<open>op_movsb16\<close> and its like in src/src/cpu/opcodes.cpp): the instruction pointer moves on when the
  routine is done; otherwise, also after an exception, a cycle is given back and execution goes on at the
  instruction pointer.
\<close>

definition give_cycle :: "'d cpu_mem \<Rightarrow> 'd cpu_mem" where
  "give_cycle s = s\<lparr>m_cycles_to_run := m_cycles_to_run s + 1\<rparr>"

definition op_string :: "(u32 \<Rightarrow> 'd cpu_mem \<Rightarrow> (bool, 'd cpu_mem) outcome) \<Rightarrow> u32 \<Rightarrow> 'd cpu_mem \<Rightarrow> (bool, 'd cpu_mem) outcome" where
  "op_string f flags s =
     (case f flags s of
        Ok again s \<Rightarrow> if again then Ok True (give_cycle s) else Ok False (s\<lparr>m_phys_eip := m_phys_eip s + (flags AND 15)\<rparr>)
      | Fault v c s \<Rightarrow> Fault v c (give_cycle s)
      | Abort \<Rightarrow> Abort)"

end
