(* ===== verification/String_Laws.thy ===== *)
theory String_Laws
  imports String_Ops Ctrl_Flat
begin

text \<open>
  Block transfers: the registers after any number of elements, the memory after a repetition on the flat
  machine, and where a fault leaves an interrupted repetition.
\<close>

section \<open>Index registers\<close>

definition bump :: "bool \<Rightarrow> u32 \<Rightarrow> u32 \<Rightarrow> u32" where
  "bump a32 d x = (if a32 then x + d else put16 0 (ucast x + ucast d) x)"

definition bumped :: "bool \<Rightarrow> nat set \<Rightarrow> u32 \<Rightarrow> 'd cpu_mem \<Rightarrow> 'd cpu_mem" where
  "bumped a32 I d s = s\<lparr>m_reg32 := (\<lambda>i. if i \<in> I then bump a32 d (m_reg32 s i) else m_reg32 s i)\<rparr>"

text \<open>The registers after \<open>k\<close> elements: the counter is \<open>k\<close> lower, the index registers have moved by \<open>k\<close> steps.\<close>

definition string_progress :: "bool \<Rightarrow> nat set \<Rightarrow> u32 \<Rightarrow> nat \<Rightarrow> 'd cpu_mem \<Rightarrow> 'd cpu_mem" where
  "string_progress a32 I d k s = s\<lparr>m_reg32 := (\<lambda>i. if i = 1 then bump a32 (- of_nat k) (m_reg32 s 1)
     else if i \<in> I then bump a32 (of_nat k * d) (m_reg32 s i) else m_reg32 s i)\<rparr>"

lemma low_put16: "(ucast (put16 0 v x) :: u16) = v"
  by (rule bit_eqI) (auto simp: bit_ucast_iff bit_put16)

lemma put16_put16: "put16 0 v (put16 0 w x) = put16 0 v x"
  by (rule bit_eqI) (auto simp: bit_put16)

lemma put16_same: "put16 0 (ucast x) x = x"
  by (rule bit_eqI) (auto simp: bit_put16 bit_ucast_iff)

lemma bump_zero [simp]: "bump a32 0 x = x"
  by (simp add: bump_def put16_same)

lemma bump_bump: "bump a32 d (bump a32 e x) = bump a32 (e + d) x"
proof -
  have "(ucast (e + d) :: u16) = ucast e + ucast d" by (rule ucast_down_add) simp
  then show ?thesis by (simp add: bump_def low_put16 put16_put16 add.assoc)
qed

lemma add_index_bump: "add_index a32 i d s = s\<lparr>m_reg32 := (m_reg32 s)(i := bump a32 d (m_reg32 s i))\<rparr>"
  by (simp add: add_index_def bump_def set_reg32_def get_reg32_def set_reg16_def get_reg16_def)

lemma add_indices: "i \<noteq> j \<Longrightarrow> add_index a32 j d (add_index a32 i d s) = bumped a32 {i, j} d s" "add_index a32 i d s = bumped a32 {i} d s"
  by (auto simp: add_index_bump bumped_def fun_eq_iff intro!: arg_cong [of _ _ "\<lambda>f. s\<lparr>m_reg32 := f\<rparr>"])

lemma progress_zero [simp]: "string_progress a32 I d 0 s = s"
proof -
  have "(\<lambda>i. if i = 1 then m_reg32 s 1 else m_reg32 s i) = m_reg32 s" by auto
  then show ?thesis by (simp add: string_progress_def cong: if_cong)
qed

lemma progress_step:
  assumes "1 \<notin> I"
  shows "add_index a32 1 (- 1) (bumped a32 I d (string_progress a32 I d k s)) = string_progress a32 I d (Suc k) s"
proof -
  have d: "of_nat k * d + d = of_nat (Suc k) * d" "- of_nat k + - 1 = (- of_nat (Suc k) :: u32)" by (simp_all add: algebra_simps)
  let ?f = "m_reg32 (add_index a32 1 (- 1) (bumped a32 I d (string_progress a32 I d k s)))"
  have "?f i = m_reg32 (string_progress a32 I d (Suc k) s) i" for i
    using assms unfolding d [symmetric] by (simp add: add_index_bump bumped_def string_progress_def d [symmetric] bump_bump del: of_nat_Suc)
  then have "?f = m_reg32 (string_progress a32 I d (Suc k) s)" by blast
  then show ?thesis by (simp add: add_index_bump bumped_def string_progress_def)
qed

lemma index_progress:
  assumes "i \<noteq> 1" "i \<in> I"
  shows "get_index a32 i (string_progress a32 I d k s) =
     (if a32 then get_index a32 i s + of_nat k * d else ucast (ucast (get_index a32 i s) + ucast (of_nat k * d) :: u16))"
proof -
  have "(ucast (ucast (x :: u16) :: u32) :: u16) = x" for x by (rule bit_eqI) (auto simp: bit_ucast_iff)
  then show ?thesis using assms by (simp add: get_index_def string_progress_def bump_def get_reg32_def get_reg16_def low_put16)
qed

lemma calm_regs: "calm s t \<Longrightarrow> calm (s\<lparr>m_reg32 := g (m_reg32 s)\<rparr>) (t\<lparr>m_reg32 := g (m_reg32 t)\<rparr>)"
proof -
  assume c: "calm s t"
  have "flat (t\<lparr>m_reg32 := f\<rparr>) = flat t" for f by (simp add: flat_def mem_ok_def entry_ok_def sys_ok_def)
  then show ?thesis using c by (simp add: calm_def same_core_def same_arch_def)
qed

lemma calm_bumped: "calm s t \<Longrightarrow> calm (bumped a32 I d s) (bumped a32 I d t)" "calm s t \<Longrightarrow> calm (add_index a32 i d s) (add_index a32 i d t)"
  unfolding bumped_def add_index_bump by (erule calm_regs)+

lemma arch_regs: "same_arch s t \<Longrightarrow> same_arch (s\<lparr>m_reg32 := g (m_reg32 s)\<rparr>) (t\<lparr>m_reg32 := g (m_reg32 t)\<rparr>)"
  by (simp add: same_arch_def)

lemma arch_bumped: "same_arch s t \<Longrightarrow> same_arch (bumped a32 I d s) (bumped a32 I d t)" "same_arch s t \<Longrightarrow> same_arch (add_index a32 i d s) (add_index a32 i d t)"
  unfolding bumped_def add_index_bump by (erule arch_regs)+

lemma regs_mem [simp]: "m_mem (bumped a32 I d s) = m_mem s" "m_mem (add_index a32 i d s) = m_mem s"
  "m_mem (string_progress a32 I d k s) = m_mem s"
  by (simp_all add: bumped_def add_index_bump string_progress_def)

section \<open>The loop\<close>

lemma rep_loop_calm:
  assumes el: "\<And>j t. j < n \<Longrightarrow> calm (string_progress a32 I d j s) t \<Longrightarrow> m_mem t = M j \<Longrightarrow>
      \<exists>u. el t = Ok () u \<and> calm (bumped a32 I d (string_progress a32 I d j s)) u \<and> m_mem u = M (Suc j)"
    and i: "1 \<notin> I" and t: "k + m = n" "calm (string_progress a32 I d k s) t" "m_mem t = M k"
  shows "\<exists>u. rep_loop el a32 m t = Ok (get_index a32 1 u \<noteq> 0) u \<and> calm (string_progress a32 I d n s) u \<and> m_mem u = M n"
  using t
proof (induction m arbitrary: k t)
  case (Suc m)
  obtain u where u: "el t = Ok () u" "calm (bumped a32 I d (string_progress a32 I d k s)) u" "m_mem u = M (Suc k)"
    using el [of k t] Suc.prems by auto
  have "calm (string_progress a32 I d (Suc k) s) (add_index a32 1 (- 1) u)"
    using calm_bumped(2) [OF u(2), of a32 1 "- 1"] unfolding progress_step [OF i] .
  then show ?case using Suc.IH [of "Suc k" "add_index a32 1 (- 1) u"] Suc.prems(1) u by simp
qed auto

lemma rep_loop_fault:
  assumes el: "\<And>t u. el t = Ok () u \<Longrightarrow> same_arch (bumped a32 I d t) u" "\<And>t u. el t = Fault v c u \<Longrightarrow> same_arch t u"
    and i: "1 \<notin> I" and f: "same_arch (string_progress a32 I d k s) t" "rep_loop el a32 n t = Fault v c u"
  shows "\<exists>j < n. same_arch (string_progress a32 I d (k + j) s) u"
  using f
proof (induction n arbitrary: k t)
  case (Suc n)
  show ?case
  proof (cases "el t")
    case (Ok x w)
    have "same_arch (bumped a32 I d (string_progress a32 I d k s)) w"
      using Ok by (intro same_arch_trans [OF arch_bumped(1) [OF Suc.prems(1)] el(1)]) simp
    then have "same_arch (string_progress a32 I d (Suc k) s) (add_index a32 1 (- 1) w)"
      unfolding progress_step [OF i, symmetric] by (rule arch_bumped(2))
    moreover have "rep_loop el a32 n (add_index a32 1 (- 1) w) = Fault v c u" using Suc.prems(2) Ok by simp
    ultimately obtain j where "j < n" "same_arch (string_progress a32 I d (Suc k + j) s) u" using Suc.IH by blast
    then show ?thesis by (intro exI [of _ "Suc j"]) simp
  next
    case (Fault v' c' w)
    then have "same_arch t u" using Suc.prems(2) el(2) by simp
    then show ?thesis using same_arch_trans [OF Suc.prems(1)] by (intro exI [of _ 0]) simp
  next
    case Abort
    then show ?thesis using Suc.prems(2) by simp
  qed
qed simp

section \<open>Memory\<close>

text \<open>The memory after a move of \<open>n\<close> bytes from \<open>q\<close> to \<open>p\<close>, all read before any is written.\<close>

definition copy_bytes :: "nat \<Rightarrow> u32 \<Rightarrow> u32 \<Rightarrow> (u32 \<Rightarrow> u8) \<Rightarrow> u32 \<Rightarrow> u8" where
  "copy_bytes n q p m a = (if unat (a - p) < n then m (q + (a - p)) else m a)"

text \<open>Neither the source is overwritten before it is read.\<close>

lemma unat_back: "unat (x - y) = (if unat y \<le> unat x then unat x - unat y else unat x + 0x100000000 - unat y)" for x y :: u32
  by (simp add: unat_sub_if_size word_size)

lemma window:
  fixes a p :: u32
  assumes "k + j < 0x100000000"
  shows "unat (a - (p + of_nat k)) < j \<longleftrightarrow> k \<le> unat (a - p) \<and> unat (a - p) < k + j"
    and "k \<le> unat (a - p) \<Longrightarrow> unat (a - (p + of_nat k)) = unat (a - p) - k"
proof -
  have k: "unat (of_nat k :: u32) = k" using assms by (simp add: unat_of_nat take_bit_nat_eq_self)
  have y: "a - (p + of_nat k) = (a - p) - of_nat k" by simp
  have lt: "unat (a - p) < 0x100000000" using unsigned_less [of "a - p"] by simp
  show "unat (a - (p + of_nat k)) < j \<longleftrightarrow> k \<le> unat (a - p) \<and> unat (a - p) < k + j"
    unfolding y unat_back [of "a - p"] k using assms lt by auto
  show "k \<le> unat (a - p) \<Longrightarrow> unat (a - (p + of_nat k)) = unat (a - p) - k"
    unfolding y unat_back [of "a - p"] k by simp
qed

lemma copy_extend:
  assumes "p = q \<or> k + j \<le> unat (p - q)" "k + j < 0x100000000"
  shows "copy_bytes j (q + of_nat k) (p + of_nat k) (copy_bytes k q p m) = copy_bytes (k + j) q p m"
proof
  fix a
  have r: "q + of_nat k + (a - (p + of_nat k)) = q + (a - p)" "q + (a - p) - p = (a - p) - (p - q)" by simp_all
  have lt: "unat (a - p) < 0x100000000" "unat (p - q) < 0x100000000" using unsigned_less [of "a - p"] unsigned_less [of "p - q"] by simp_all
  show "copy_bytes j (q + of_nat k) (p + of_nat k) (copy_bytes k q p m) a = copy_bytes (k + j) q p m a"
  proof (cases "k \<le> unat (a - p) \<and> unat (a - p) < k + j")
    case True
    then have "\<not> unat ((a - p) - (p - q)) < k" unfolding unat_back [of "a - p" "p - q"] using assms(1) lt by auto
    then have "copy_bytes k q p m (q + (a - p)) = m (q + (a - p))" unfolding copy_bytes_def r(2) by simp
    then show ?thesis using True window(1) [OF assms(2), of a p] unfolding copy_bytes_def [of j] copy_bytes_def [of "k + j"] r(1) by simp
  next
    case False
    then show ?thesis using window(1) [OF assms(2), of a p] by (auto simp: copy_bytes_def)
  qed
qed

text \<open>The elements moved one after the other; when no source byte is overwritten before its turn, this is \<open>copy_bytes\<close>.\<close>

fun copy_elements :: "nat \<Rightarrow> nat \<Rightarrow> u32 \<Rightarrow> u32 \<Rightarrow> (u32 \<Rightarrow> u8) \<Rightarrow> u32 \<Rightarrow> u8" where
  "copy_elements w 0 q p m = m"
| "copy_elements w (Suc k) q p m = copy_bytes w (q + of_nat (k * w)) (p + of_nat (k * w)) (copy_elements w k q p m)"

lemma copy_elements_bytes:
  assumes "p = q \<or> k * w \<le> unat (p - q)" "k * w < 0x100000000"
  shows "copy_elements w k q p m = copy_bytes (k * w) q p m"
  using assms
proof (induction k)
  case (Suc k)
  then have "copy_elements w (Suc k) q p m = copy_bytes w (q + of_nat (k * w)) (p + of_nat (k * w)) (copy_bytes (k * w) q p m)" by auto
  also have "\<dots> = copy_bytes (k * w + w) q p m" by (rule copy_extend) (use Suc.prems in auto)
  finally show ?case by (simp add: add.commute)
qed (simp add: copy_bytes_def fun_eq_iff)

text \<open>The memory after a fill of \<open>n\<close> bytes at \<open>p\<close> with the low \<open>w\<close> bytes of \<open>v\<close>.\<close>

definition fill_bytes :: "nat \<Rightarrow> nat \<Rightarrow> u32 \<Rightarrow> u32 \<Rightarrow> (u32 \<Rightarrow> u8) \<Rightarrow> u32 \<Rightarrow> u8" where
  "fill_bytes w n p v m a = (if unat (a - p) < n then ucast (drop_bit (8 * (unat (a - p) mod w)) v) else m a)"

definition spread :: "nat \<Rightarrow> u32 \<Rightarrow> u32 \<Rightarrow> (u32 \<Rightarrow> u8) \<Rightarrow> u32 \<Rightarrow> u8" where
  "spread n a v m b = (if unat (b - a) < n then ucast (drop_bit (8 * unat (b - a)) v) else m b)"

lemma fill_nothing: "fill_bytes w 0 p v m = m"
  by (simp add: fill_bytes_def fun_eq_iff)

lemma fill_extend:
  assumes "k * w + w < 0x100000000"
  shows "spread w (p + of_nat (k * w)) v (fill_bytes w (k * w) p v m) = fill_bytes w (Suc k * w) p v m"
proof
  fix a
  have r: "unat (a - p) - k * w = unat (a - p) mod w" if "k * w \<le> unat (a - p)" "unat (a - p) < k * w + w"
  proof -
    have "unat (a - p) = (unat (a - p) - k * w) + k * w" "unat (a - p) - k * w < w" using that by simp_all
    then show ?thesis by (metis mod_less mod_mult_self1)
  qed
  show "spread w (p + of_nat (k * w)) v (fill_bytes w (k * w) p v m) a = fill_bytes w (Suc k * w) p v m a"
    using window [OF assms, of a p] r by (auto simp: spread_def fill_bytes_def simp del: of_nat_mult of_nat_Suc)
qed

section \<open>Elements on the flat machine\<close>

fun el_bytes :: "op_size \<Rightarrow> nat" where
  "el_bytes S8 = 1"
| "el_bytes S16 = 2"
| "el_bytes S32 = 4"

fun peek_el :: "op_size \<Rightarrow> u32 \<Rightarrow> 'd cpu_mem \<Rightarrow> u32" where
  "peek_el S8 a s = ucast (m_mem s a)"
| "peek_el S16 a s = ucast (ram_get16 a s)"
| "peek_el S32 a s = ram_get32 a s"

lemma size_el_bytes: "size_bytes sz = of_nat (el_bytes sz)"
  by (cases sz) simp_all

lemma read_el_keeps: "keeps s (read_el sz a s)"
  by (cases sz) (auto simp: string_read8_def Let_def intro!: keeps_mem keeps_seq keeps_access8 split: option.split)

lemma write_el_keeps: "keeps s (write_el sz a v s)"
  by (cases sz) (simp_all add: keeps_mem)

lemma shifts_flat: "flat s \<Longrightarrow> m_tlb_shift_read s \<in> {0, 2, 4, 6} \<and> m_tlb_shift_write s \<in> {0, 2, 4, 6}"
  by (auto simp: flat_def mem_ok_def sys_ok_def)

lemma read_el_calm:
  assumes s: "flat s" and a: "ram_span (el_bytes sz) a s"
  shows "\<exists>t. read_el sz a s = Ok (peek_el sz a s) t \<and> calm s t \<and> m_mem t = m_mem s"
proof -
  have sh: "m_tlb_shift_read s \<in> {0, 2, 4, 6}" using shifts_flat [OF s] ..
  have "\<exists>t. read_el sz a s = Ok (peek_el sz a s) t \<and> flat t \<and> same_core s t \<and> m_mem t = m_mem s"
  proof (cases sz)
    case S8
    have r: "in_ram a s" using a S8 span_first [of 1] by simp
    show ?thesis using access_read8_flat [OF s r sh] fast_flat(1) [OF s r sh] s S8
      by (auto simp: string_read8_def Let_def)
  qed (use mem_read16_raw_flat [OF s _ sh, of a] mem_read32_flat [OF s _ sh, of a] a in \<open>auto simp: reads_flat_def\<close>)
  then show ?thesis using Ok_keeps [OF read_el_keeps] by (auto simp: calm_def)
qed

lemma unat_near: "k < 0x100000000 \<Longrightarrow> unat (b - a) = k \<longleftrightarrow> b = a + of_nat k" for a b :: u32
proof -
  assume k: "k < 0x100000000"
  have "unat (of_nat k :: u32) = k" using k by (simp add: unat_of_nat take_bit_nat_eq_self)
  have "unat (b - a) = k \<longleftrightarrow> b - a = of_nat k" unfolding word_unat_eq_iff using \<open>unat (of_nat k :: u32) = k\<close> by simp
  then show ?thesis by (simp add: diff_eq_eq add.commute)
qed

lemma fold_poke: "n < 0x100000000 \<Longrightarrow> fold (poke a v) [0..<n] m = spread n a v m"
proof (induction n)
  case (Suc n)
  have "poke a v n (spread n a v m) b = spread (Suc n) a v m b" for b
    using unat_near [of n b a] Suc.prems by (auto simp: poke_def spread_def less_Suc_eq)
  then show ?case using Suc by auto
qed (auto simp: spread_def)

lemma write_el_calm:
  assumes s: "flat s" and a: "ram_span (el_bytes sz) a s"
  shows "\<exists>t. write_el sz a v s = Ok () t \<and> calm s t \<and> m_mem t = spread (el_bytes sz) a v (m_mem s)"
proof -
  have sh: "m_tlb_shift_write s \<in> {0, 2, 4, 6}" using shifts_flat [OF s] ..
  have "\<exists>t. write_el sz a v s = Ok () t \<and> flat t \<and> same_core s t \<and> m_mem t = fold (poke a v) [0..<el_bytes sz] (m_mem s)"
  proof (cases sz)
    case S8
    have r: "in_ram a s" using a S8 span_first [of 1] by simp
    show ?thesis using mem_write8_flat [OF s r sh, of v] S8 by (simp add: writes_flat_def poke_def)
  next
    case S16
    show ?thesis using mem_write16_flat [OF s _ sh, of a v] a S16 by (simp add: writes_flat_def poke_def numeral_2_eq_2)
  next
    case S32
    show ?thesis using mem_write32_flat [OF s _ sh, of a v] a S32 by (simp add: writes_flat_def poke4)
  qed
  moreover have "el_bytes sz < 0x100000000" by (cases sz) simp_all
  ultimately show ?thesis using Ok_keeps [OF write_el_keeps] by (auto simp: calm_def fold_poke)
qed

text \<open>An element read at one place and written at another is a copy of its bytes.\<close>

lemma spread_peek: "spread (el_bytes sz) p (peek_el sz q s) m b =
  (if unat (b - p) < el_bytes sz then m_mem s (q + (b - p)) else m b)"
proof (cases "unat (b - p) < el_bytes sz")
  case True
  have "ucast (drop_bit (8 * k) (peek_el sz q s)) = m_mem s (q + of_nat k)" if k: "k < el_bytes sz" for k
  proof -
    consider "k = 0" | "k = 1" "sz \<noteq> S8" | "k = 2" "sz = S32" | "k = 3" "sz = S32" using k by (cases sz) (auto simp: less_Suc_eq numeral_2_eq_2 numeral_3_eq_3 numeral_eq_Suc)
    then show ?thesis
      by cases (rule bit_eqI; cases sz; simp add: ram_get16_def ram_get32_def bit_ucast_iff bit_drop_bit_eq bit_word_cat_iff add.commute)+
  qed
  from this [of "unat (b - p)"] show ?thesis using True by (simp add: spread_def)
qed (simp add: spread_def)

section \<open>Moves and fills\<close>

text \<open>
  Where the \<open>k\<close>-th element lies: in RAM, and with 16-bit addresses the index does not wrap within the
  block.
\<close>

definition block_in_ram :: "bool \<Rightarrow> nat \<Rightarrow> u32 \<Rightarrow> nat \<Rightarrow> 'd cpu_mem \<Rightarrow> bool" where
  "block_in_ram a32 i base n s \<longleftrightarrow> ram_span n (base + get_index a32 i s) s \<and> (a32 \<or> unat (get_index a32 i s) + n \<le> 0x10000)"

lemma block_index:
  assumes b: "block_in_ram a32 i base n s" and k: "k * m < n" and i: "i \<noteq> 1" "i \<in> I"
  shows "get_index a32 i (string_progress a32 I (of_nat m) k s) = get_index a32 i s + of_nat (k * m)"
proof (cases a32)
  case False
  let ?x = "get_index a32 i s"
  define c where "c = k * m"
  have lt: "unat ?x + c < 0x10000" using b k False by (simp add: block_in_ram_def c_def)
  have c: "of_nat k * of_nat m = (of_nat c :: u32)" "of_nat (k * m) = (of_nat c :: u32)" by (simp_all add: c_def)
  have "unat (of_nat c :: u32) = c" using lt by (simp add: unat_of_nat take_bit_nat_eq_self)
  then have "unat (ucast (ucast ?x + ucast (of_nat c :: u32) :: u16) :: u32) = unat ?x + c" "unat (?x + of_nat c) = unat ?x + c"
    using lt by (simp_all add: unat_word_ariths unsigned_ucast_eq take_bit_nat_eq_self)
  then show ?thesis using index_progress [OF i, of a32 "of_nat m" k s] False unfolding c by (simp add: word_unat_eq_iff)
qed (simp add: index_progress [OF i])

lemma block_element:
  assumes "block_in_ram a32 i base n s" "k * m + m \<le> n"
  shows "ram_span m (base + get_index a32 i s + of_nat (k * m)) s"
  using assms span_part [of n "base + get_index a32 i s" s "k * m" m] by (simp add: block_in_ram_def)

lemma progress_core: "flat (string_progress a32 I d k s) = flat s" "ram_span n a (string_progress a32 I d k s) = ram_span n a s"
  "m_seg_base (string_progress a32 I d k s) = m_seg_base s"
  by (simp_all add: string_progress_def flat_def mem_ok_def entry_ok_def sys_ok_def ram_span_def in_ram_def)

lemma calm_index: "calm s t \<Longrightarrow> get_index a32 i t = get_index a32 i s" "calm s t \<Longrightarrow> m_seg_base t = m_seg_base s" "calm s t \<Longrightarrow> flat t"
  by (simp_all add: calm_def same_core_def get_index_def get_reg32_def get_reg16_def)

lemma movs_el_calm:
  fixes s :: "'d cpu_mem" and a32 :: bool and base :: u32
  defines "src \<equiv> base + get_index a32 6 s" and "dst \<equiv> m_seg_base s 0 + get_index a32 7 s"
  assumes b: "block_in_ram a32 6 base n s" "block_in_ram a32 7 (m_seg_base s 0) n s" "k * el_bytes sz + el_bytes sz \<le> n"
    and t: "calm (string_progress a32 {6, 7} (of_nat (el_bytes sz)) k s) t" "m_mem t = copy_elements (el_bytes sz) k src dst (m_mem s)"
  shows "\<exists>u. movs_el sz a32 base (of_nat (el_bytes sz)) t = Ok () u
    \<and> calm (bumped a32 {6, 7} (of_nat (el_bytes sz)) (string_progress a32 {6, 7} (of_nat (el_bytes sz)) k s)) u
    \<and> m_mem u = copy_elements (el_bytes sz) (Suc k) src dst (m_mem s)"
proof -
  let ?m = "el_bytes sz" and ?p = "string_progress a32 {6, 7} (of_nat (el_bytes sz)) k s"
  have lt: "k * ?m < n" using b(3) by (cases sz) simp_all
  have a: "base + get_index a32 6 t = src + of_nat (k * ?m)" "m_seg_base t 0 + get_index a32 7 t = dst + of_nat (k * ?m)"
    using block_index [OF b(1) lt, of "{6, 7}"] block_index [OF b(2) lt, of "{6, 7}"] t(1)
    by (simp_all add: calm_index [OF t(1)] progress_core src_def dst_def add.assoc)
  have sp: "ram_span ?m (src + of_nat (k * ?m)) t" "ram_span ?m (dst + of_nat (k * ?m)) t"
    using block_element [OF b(1,3)] block_element [OF b(2,3)] by (simp_all add: span_calm [OF t(1)] progress_core src_def dst_def)
  have ft: "flat t" using calm_index(3) [OF t(1)] .
  obtain t1 where t1: "read_el sz (src + of_nat (k * ?m)) t = Ok (peek_el sz (src + of_nat (k * ?m)) t) t1" "calm t t1" "m_mem t1 = m_mem t"
    using read_el_calm [OF ft sp(1)] by blast
  have f1: "flat t1" "ram_span ?m (dst + of_nat (k * ?m)) t1" using sp(2) by (simp_all add: span_calm [OF t1(2)] calm_index [OF t1(2)])
  obtain t2 where t2: "write_el sz (dst + of_nat (k * ?m)) (peek_el sz (src + of_nat (k * ?m)) t) t1 = Ok () t2" "calm t1 t2"
    "m_mem t2 = spread ?m (dst + of_nat (k * ?m)) (peek_el sz (src + of_nat (k * ?m)) t) (m_mem t1)"
    using write_el_calm [OF f1] by blast
  have "m_mem t2 = copy_bytes ?m (src + of_nat (k * ?m)) (dst + of_nat (k * ?m)) (m_mem t)"
    unfolding t2(3) t1(3) by (rule ext) (simp only: spread_peek copy_bytes_def)
  then have m: "m_mem t2 = copy_elements ?m (Suc k) src dst (m_mem s)" using t(2) by simp
  have "calm ?p t2" using calm_trans [OF calm_trans [OF t(1) t1(2)] t2(2)] .
  then have "calm (bumped a32 {6, 7} (of_nat ?m) ?p) (bumped a32 {6, 7} (of_nat ?m) t2)" by (rule calm_bumped)
  moreover have "m_seg_base t1 0 + get_index a32 7 t1 = dst + of_nat (k * ?m)"
    using a(2) by (simp add: calm_index [OF t1(2)])
  ultimately show ?thesis using t1(1) t2(1) m by (simp add: movs_el_def a(1) add_indices(1))
qed

lemma stos_el_calm:
  fixes s :: "'d cpu_mem" and a32 :: bool
  defines "dst \<equiv> m_seg_base s 0 + get_index a32 7 s"
  assumes b: "block_in_ram a32 7 (m_seg_base s 0) n s" "k * el_bytes sz + el_bytes sz \<le> n" "n < 0x100000000"
    and t: "calm (string_progress a32 {7} (of_nat (el_bytes sz)) k s) t" "m_mem t = fill_bytes (el_bytes sz) (k * el_bytes sz) dst v (m_mem s)"
  shows "\<exists>u. stos_el sz a32 v (of_nat (el_bytes sz)) t = Ok () u
    \<and> calm (bumped a32 {7} (of_nat (el_bytes sz)) (string_progress a32 {7} (of_nat (el_bytes sz)) k s)) u
    \<and> m_mem u = fill_bytes (el_bytes sz) (Suc k * el_bytes sz) dst v (m_mem s)"
proof -
  let ?m = "el_bytes sz" and ?p = "string_progress a32 {7} (of_nat (el_bytes sz)) k s"
  have lt: "k * ?m < n" using b(2) by (cases sz) simp_all
  have a: "m_seg_base t 0 + get_index a32 7 t = dst + of_nat (k * ?m)"
    using block_index [OF b(1) lt, of "{7}"] by (simp add: calm_index [OF t(1)] progress_core dst_def add.assoc)
  have sp: "ram_span ?m (dst + of_nat (k * ?m)) t"
    using block_element [OF b(1,2)] by (simp add: span_calm [OF t(1)] progress_core dst_def)
  obtain u where u: "write_el sz (dst + of_nat (k * ?m)) v t = Ok () u" "calm t u"
    "m_mem u = spread ?m (dst + of_nat (k * ?m)) v (m_mem t)"
    using write_el_calm [OF calm_index(3) [OF t(1)] sp] by blast
  have "m_mem u = fill_bytes ?m (Suc k * ?m) dst v (m_mem s)"
    unfolding u(3) t(2) by (rule fill_extend) (use b(2,3) in simp)
  moreover have "calm (bumped a32 {7} (of_nat ?m) ?p) (bumped a32 {7} (of_nat ?m) u)"
    using calm_trans [OF t(1) u(2)] by (rule calm_bumped)
  ultimately show ?thesis using u(1) by (simp add: stos_el_def a add_indices(2))
qed

text \<open>A fault in an element: nothing of the element has happened to the registers.\<close>

lemma seq_Fault_iff: "seq m f = Fault e c t \<longleftrightarrow> m = Fault e c t \<or> (\<exists>x s. m = Ok x s \<and> f x s = Fault e c t)"
  by (cases m) auto

lemmas el_facts = Ok_keeps [OF read_el_keeps] Ok_keeps [OF write_el_keeps]

lemma keeps_Fault: "keeps s m \<Longrightarrow> m = Fault e c t \<Longrightarrow> same_arch s t"
  by simp

lemma movs_el_arch:
  "movs_el sz a32 base d t = Ok () u \<Longrightarrow> same_arch (bumped a32 {6, 7} d t) u"
  "movs_el sz a32 base d t = Fault e c u \<Longrightarrow> same_arch t u"
proof -
  show "same_arch (bumped a32 {6, 7} d t) u" if m: "movs_el sz a32 base d t = Ok () u"
  proof -
    obtain v t1 t2 where "read_el sz (base + get_index a32 6 t) t = Ok v t1" "write_el sz (m_seg_base t1 0 + get_index a32 7 t1) v t1 = Ok () t2"
      and u: "u = add_index a32 7 d (add_index a32 6 d t2)"
      using m by (auto simp: movs_el_def seq_Ok_iff)
    then have "same_arch t t2" using el_facts same_arch_trans by metis
    then show ?thesis unfolding u add_indices(1) [of 6 7, simplified] by (rule arch_bumped(1))
  qed
  show "same_arch t u" if m: "movs_el sz a32 base d t = Fault e c u"
  proof -
    consider "read_el sz (base + get_index a32 6 t) t = Fault e c u"
      | v t1 where "read_el sz (base + get_index a32 6 t) t = Ok v t1" "write_el sz (m_seg_base t1 0 + get_index a32 7 t1) v t1 = Fault e c u"
      using m by (auto simp: movs_el_def seq_Fault_iff)
    then show ?thesis
    proof cases
      case 1
      then show ?thesis by (rule keeps_Fault [OF read_el_keeps])
    next
      case 2
      then show ?thesis using same_arch_trans [OF el_facts(1) keeps_Fault [OF write_el_keeps]] by blast
    qed
  qed
qed

lemma stos_el_arch:
  "stos_el sz a32 v d t = Ok () u \<Longrightarrow> same_arch (bumped a32 {7} d t) u"
  "stos_el sz a32 v d t = Fault e c u \<Longrightarrow> same_arch t u"
proof -
  show "same_arch (bumped a32 {7} d t) u" if m: "stos_el sz a32 v d t = Ok () u"
  proof -
    obtain t2 where "write_el sz (m_seg_base t 0 + get_index a32 7 t) v t = Ok () t2" and u: "u = add_index a32 7 d t2"
      using m by (auto simp: stos_el_def seq_Ok_iff)
    then have "same_arch t t2" using el_facts(2) by blast
    then show ?thesis unfolding u add_indices(2) by (rule arch_bumped(1))
  qed
  show "same_arch t u" if m: "stos_el sz a32 v d t = Fault e c u"
    by (rule keeps_Fault [OF write_el_keeps]) (use m in \<open>auto simp: stos_el_def seq_Fault_iff\<close>)
qed

lemma string_op_fault:
  assumes el: "\<And>t u. el t = Ok () u \<Longrightarrow> same_arch (bumped a32 I d t) u" "\<And>t u. el t = Fault v c u \<Longrightarrow> same_arch t u"
    and i: "1 \<notin> I" and f: "string_op el a32 flags s = Fault v c u"
  shows "\<exists>k < (if repeated flags then string_count a32 s else 1). same_arch (string_progress a32 I d k s) u"
proof (cases "repeated flags")
  case True
  then show ?thesis using rep_loop_fault [OF el i, where k = 0 and s = s and t = s and u = u and n = "string_count a32 s"] f by (simp add: string_op_def)
next
  case False
  then have "el s = Fault v c u" using f by (cases "el s") (simp_all add: string_op_def)
  then show ?thesis using False el(2) by auto
qed

section \<open>Repetitions\<close>

lemma count_left:
  assumes "calm (string_progress a32 I d (string_count a32 s) s) u"
  shows "get_index a32 1 u \<noteq> 0 \<longleftrightarrow> 65536 < unat (get_index a32 1 s)"
proof -
  let ?n = "string_count a32 s"
  have n: "?n \<le> unat (get_index a32 1 s)" "?n \<le> 65536" by (simp_all add: string_count_def)
  have z: "x - of_nat ?n \<noteq> 0 \<longleftrightarrow> 65536 < unat x" if "x = get_index a32 1 s" for x
  proof -
    have "unat (of_nat ?n :: u32) = ?n" using n(2) by (simp add: unat_of_nat take_bit_nat_eq_self)
    then have "x = of_nat ?n \<longleftrightarrow> unat x = ?n" by (simp add: word_unat_eq_iff)
    then show ?thesis using that by (auto simp: string_count_def min_def)
  qed
  have h: "get_index a32 1 u = get_index a32 1 (string_progress a32 I d ?n s)" using calm_index(1) [OF assms] .
  show ?thesis
  proof (cases a32)
    case True
    then have "get_index a32 1 u = get_index a32 1 s - of_nat ?n"
      unfolding h by (simp add: get_index_def string_progress_def bump_def get_reg32_def)
    then show ?thesis using z by simp
  next
    case False
    let ?x = "get_reg16 2 s"
    have g: "get_index a32 1 s = ucast ?x" using False by (simp add: get_index_def)
    have lt: "unat ?x < 65536" by (rule less_le_trans [OF unsigned_less]) simp
    then have up: "unat (ucast ?x :: u32) = unat ?x" by (simp add: unsigned_ucast_eq take_bit_nat_eq_self)
    have small: "unat (get_index a32 1 s) < 65536" and e: "?n = unat ?x" unfolding string_count_def g up using lt by simp_all
    have "(ucast (- y + y :: u32) :: u16) = ucast (- y) + ucast y" for y :: u32 by (rule ucast_down_add) simp
    then have "(ucast (- y) :: u16) = - ucast y" for y :: u32 by (simp add: eq_neg_iff_add_eq_0)
    moreover have "(ucast (of_nat (unat ?x) :: u32) :: u16) = ?x" by (rule bit_eqI) (simp add: bit_ucast_iff flip: up)
    ultimately have "(ucast (- of_nat (unat ?x) :: u32) :: u16) = - ?x" by simp
    then have "ucast (m_reg32 s 1) + ucast (- of_nat ?n :: u32) = (0 :: u16)" unfolding e by (simp add: get_reg16_def)
    then have "get_reg16 2 (string_progress a32 I d ?n s) = 0"
      using False by (simp add: string_progress_def bump_def get_reg16_def low_put16)
    then show ?thesis using False small unfolding h by (simp add: get_index_def)
  qed
qed

lemma forward_step: "m_eflags s AND 0x400 = 0 \<Longrightarrow> string_step sz s = of_nat (el_bytes sz)"
  by (simp add: string_step_def size_el_bytes)

lemma count_small: "string_count a32 s * el_bytes sz < 0x100000000"
proof -
  have "string_count a32 s * el_bytes sz \<le> 65536 * 4" by (rule mult_le_mono) (simp_all add: string_count_def, cases sz, simp_all)
  then show ?thesis by simp
qed

lemma block_more: "j < string_count a32 s \<Longrightarrow> j * el_bytes sz + el_bytes sz \<le> string_count a32 s * el_bytes sz"
  using mult_le_mono1 [of "Suc j" "string_count a32 s" "el_bytes sz"] by (simp add: add.commute)

lemma rep_movs:
  fixes s :: "'d cpu_mem" and a32 :: bool and flags :: u32
  defines "src \<equiv> string_base flags s + get_index a32 6 s" and "dst \<equiv> m_seg_base s 0 + get_index a32 7 s"
    and "n \<equiv> string_count a32 s"
  assumes r: "repeated flags" and s: "flat s" "m_eflags s AND 0x400 = 0"
    and b: "block_in_ram a32 6 (string_base flags s) (n * el_bytes sz) s" "block_in_ram a32 7 (m_seg_base s 0) (n * el_bytes sz) s"
  shows "\<exists>t. movs sz a32 flags s = Ok (65536 < unat (get_index a32 1 s)) t
    \<and> same_arch (string_progress a32 {6, 7} (string_step sz s) n s) t \<and> m_mem t = copy_elements (el_bytes sz) n src dst (m_mem s)"
proof -
  let ?m = "el_bytes sz" and ?p = "string_progress a32 {6, 7} (string_step sz s)"
  let ?el = "movs_el sz a32 (string_base flags s) (string_step sz s)"
  have "\<exists>u. ?el t = Ok () u \<and> calm (bumped a32 {6, 7} (string_step sz s) (?p j s)) u
      \<and> m_mem u = copy_elements ?m (Suc j) src dst (m_mem s)"
    if "j < n" "calm (?p j s) t" "m_mem t = copy_elements ?m j src dst (m_mem s)" for j t
    using movs_el_calm [OF b, of j sz t] block_more that unfolding forward_step [OF s(2)] src_def dst_def n_def by blast
  then obtain u where "rep_loop ?el a32 n s = Ok (get_index a32 1 u \<noteq> 0) u" "calm (?p n s) u"
    "m_mem u = copy_elements ?m n src dst (m_mem s)"
    using rep_loop_calm [where el = ?el and n = n and s = s and M = "\<lambda>j. copy_elements ?m j src dst (m_mem s)" and I = "{6, 7}"
      and d = "string_step sz s" and k = 0 and m = n and t = s and ?a32.0 = a32] s(1) by (auto simp: calm_def)
  then show ?thesis using r count_left [of a32 "{6, 7}" "string_step sz s" s u]
    by (auto simp: movs_def string_op_def n_def calm_def)
qed

lemma rep_stos:
  fixes s :: "'d cpu_mem" and a32 :: bool
  defines "dst \<equiv> m_seg_base s 0 + get_index a32 7 s" and "n \<equiv> string_count a32 s"
  assumes r: "repeated flags" and s: "flat s" "m_eflags s AND 0x400 = 0" and b: "block_in_ram a32 7 (m_seg_base s 0) (n * el_bytes sz) s"
  shows "\<exists>t. stos sz a32 flags s = Ok (65536 < unat (get_index a32 1 s)) t
    \<and> same_arch (string_progress a32 {7} (string_step sz s) n s) t
    \<and> m_mem t = fill_bytes (el_bytes sz) (n * el_bytes sz) dst (get_acc sz s) (m_mem s)"
proof -
  let ?m = "el_bytes sz" and ?p = "string_progress a32 {7} (string_step sz s)"
  let ?el = "stos_el sz a32 (get_acc sz s) (string_step sz s)" and ?M = "\<lambda>j. fill_bytes (el_bytes sz) (j * el_bytes sz) dst (get_acc sz s) (m_mem s)"
  have "\<exists>u. ?el t = Ok () u \<and> calm (bumped a32 {7} (string_step sz s) (?p j s)) u \<and> m_mem u = ?M (Suc j)"
    if "j < n" "calm (?p j s) t" "m_mem t = ?M j" for j t
    using stos_el_calm [OF b, of j sz t "get_acc sz s"] block_more count_small that
    unfolding forward_step [OF s(2)] dst_def n_def by blast
  then obtain u where "rep_loop ?el a32 n s = Ok (get_index a32 1 u \<noteq> 0) u" "calm (?p n s) u" "m_mem u = ?M n"
    using rep_loop_calm [where el = ?el and n = n and s = s and M = ?M and I = "{7}"
      and d = "string_step sz s" and k = 0 and m = n and t = s and ?a32.0 = a32] s(1) by (auto simp: calm_def fill_nothing)
  then show ?thesis using r count_left [of a32 "{7}" "string_step sz s" s u]
    by (auto simp: stos_def string_op_def n_def calm_def)
qed

text \<open>
  C39. Repeated MOVS and STOS at every operand and address width. On the flat machine (paging off, address
  line 20 open) with the direction flag clear, and with blocks that lie in RAM and, under 16-bit addresses, do not
  wrap: \<open>n\<close> elements are transferred, where \<open>n\<close> is the counter but at most 65536; the counter is \<open>n\<close> lower and the
  index registers are \<open>n\<close> elements further, every other register and flag is as before, and the instruction asks to
  be executed again exactly if the counter was above 65536. MOVS leaves the memory as moving the elements one after
  the other does, which is the copy of the whole source block when the destination does not start inside the source
  block behind its first byte; STOS fills the block with the accumulator and changes no other byte. Without any of
  these conditions, for both directions, repeated or not: when MOVS or STOS faults, the registers are those after
  \<open>k\<close> elements for some \<open>k\<close> below \<open>n\<close> (none if it is not repeated), so that the handler can restart it there.
\<close>

theorem string_transfer:
  assumes "n = string_count a32 s" "src = string_base flags s + get_index a32 6 s" "dst = m_seg_base s 0 + get_index a32 7 s"
  shows "(flat s \<and> m_eflags s AND 0x400 = 0 \<and> repeated flags \<and> block_in_ram a32 7 (m_seg_base s 0) (n * el_bytes sz) s \<longrightarrow>
      (block_in_ram a32 6 (string_base flags s) (n * el_bytes sz) s \<longrightarrow>
        (\<exists>t. movs sz a32 flags s = Ok (65536 < unat (get_index a32 1 s)) t
          \<and> same_arch (string_progress a32 {6, 7} (size_bytes sz) n s) t
          \<and> m_mem t = copy_elements (el_bytes sz) n src dst (m_mem s)
          \<and> (dst = src \<or> n * el_bytes sz \<le> unat (dst - src) \<longrightarrow> m_mem t = copy_bytes (n * el_bytes sz) src dst (m_mem s))))
      \<and> (\<exists>t. stos sz a32 flags s = Ok (65536 < unat (get_index a32 1 s)) t
          \<and> same_arch (string_progress a32 {7} (size_bytes sz) n s) t
          \<and> m_mem t = fill_bytes (el_bytes sz) (n * el_bytes sz) dst (get_acc sz s) (m_mem s)))
    \<and> (movs sz a32 flags s = Fault e c u \<longrightarrow>
        (\<exists>k < (if repeated flags then n else 1). same_arch (string_progress a32 {6, 7} (string_step sz s) k s) u))
    \<and> (stos sz a32 flags s = Fault e c u \<longrightarrow>
        (\<exists>k < (if repeated flags then n else 1). same_arch (string_progress a32 {7} (string_step sz s) k s) u))"
proof (intro conjI impI; (elim conjE)?)
  assume h: "flat s" "m_eflags s AND 0x400 = 0" "repeated flags" "block_in_ram a32 7 (m_seg_base s 0) (n * el_bytes sz) s"
  have d: "string_step sz s = size_bytes sz" using h(2) by (simp add: string_step_def)
  show "\<exists>t. stos sz a32 flags s = Ok (65536 < unat (get_index a32 1 s)) t
      \<and> same_arch (string_progress a32 {7} (size_bytes sz) n s) t
      \<and> m_mem t = fill_bytes (el_bytes sz) (n * el_bytes sz) dst (get_acc sz s) (m_mem s)"
    using rep_stos [OF h(3,1,2), of a32 sz] h(4) unfolding d assms by blast
  assume b: "block_in_ram a32 6 (string_base flags s) (n * el_bytes sz) s"
  have "copy_elements (el_bytes sz) n src dst (m_mem s) = copy_bytes (n * el_bytes sz) src dst (m_mem s)"
    if "dst = src \<or> n * el_bytes sz \<le> unat (dst - src)"
    using that count_small [of a32 s sz] by (intro copy_elements_bytes) (simp_all add: assms(1))
  then show "\<exists>t. movs sz a32 flags s = Ok (65536 < unat (get_index a32 1 s)) t
      \<and> same_arch (string_progress a32 {6, 7} (size_bytes sz) n s) t
      \<and> m_mem t = copy_elements (el_bytes sz) n src dst (m_mem s)
      \<and> (dst = src \<or> n * el_bytes sz \<le> unat (dst - src) \<longrightarrow> m_mem t = copy_bytes (n * el_bytes sz) src dst (m_mem s))"
    using rep_movs [OF h(3,1,2), of a32 sz] b h(4) unfolding d assms by auto
next
  assume "movs sz a32 flags s = Fault e c u"
  then show "\<exists>k < (if repeated flags then n else 1). same_arch (string_progress a32 {6, 7} (string_step sz s) k s) u"
    unfolding movs_def assms(1) by (intro string_op_fault [OF movs_el_arch]) auto
next
  assume "stos sz a32 flags s = Fault e c u"
  then show "\<exists>k < (if repeated flags then n else 1). same_arch (string_progress a32 {7} (string_step sz s) k s) u"
    unfolding stos_def assms(1) by (intro string_op_fault [OF stos_el_arch]) auto
qed

lemma low_span:
  assumes "unat a + n \<le> 0xA0000" "0xA0000 \<le> m_memory_size s"
  shows "ram_span n a s"
  unfolding ram_span_def
proof (intro allI impI)
  fix i assume i: "i < n"
  then have "unat (a + of_nat i) = unat a + i"
    using assms(1) by (simp add: unat_word_ariths unat_of_nat take_bit_nat_eq_self)
  then have "a + of_nat i < 0xA0000" using i assms(1) by (simp add: word_less_nat_alt)
  then show "in_ram (a + of_nat i) s" using assms(2) less_le_trans by (auto simp: in_ram_def)
qed

text \<open>Four double words from 0x1000 to 0x2000.\<close>

definition block_ready :: "'d cpu_mem \<Rightarrow> 'd cpu_mem" where
  "block_ready s = set_reg32 1 4 (set_reg32 6 0x1000 (set_reg32 7 0x2000 (flat_segments s)))"

theorem string_transfer_witness:
  "\<exists>(io :: unit io_bus) s t. booted 0x200000 False io = Some s \<and> movs S32 True 0x40 (block_ready s) = Ok False t
    \<and> m_mem t 0x200F = m_mem s 0x100F \<and> get_reg32 1 t = 0 \<and> get_reg32 7 t = 0x2010"
proof -
  obtain io :: "unit io_bus" and s where s: "booted 0x200000 False io = Some s" "flat s" "m_memory_size s = 0x200000"
    using booted_flat by blast
  define r where "r = block_ready s"
  have f: "flat r" unfolding r_def block_ready_def using s(2) by (intro reg_flat) simp
  have g: "get_index True 1 r = 4" "get_index True 6 r = 0x1000" "get_index True 7 r = 0x2000" "m_seg_base r = (\<lambda>_. 0)" "m_eflags r AND 0x400 = 0"
    "m_memory_size r = 0x200000" "m_mem r = m_mem s"
    using s(3) by (simp_all add: r_def block_ready_def flat_segments_def get_index_def get_reg32_def set_reg32_def)
  have n: "string_count True r = 4" using g(1) by (simp add: string_count_def)
  have "ram_span 16 0x1000 r" "ram_span 16 0x2000 r"
    by (rule low_span; simp add: g(6))+
  then have b: "block_in_ram True 6 (string_base 0x40 r) (4 * el_bytes S32) r" "block_in_ram True 7 (m_seg_base r 0) (4 * el_bytes S32) r"
    by (simp_all add: block_in_ram_def string_base_def g)
  obtain t where "movs S32 True 0x40 r = Ok (65536 < unat (get_index True 1 r)) t"
    "same_arch (string_progress True {6, 7} (size_bytes S32) 4 r) t"
    "m_mem t = copy_bytes (4 * el_bytes S32) 0x1000 0x2000 (m_mem r)"
    using string_transfer [of 4 True r "0x1000" "0x40" "0x2000" S32 0 0 r] f g b n by (auto simp: repeated_def string_base_def)
  then show ?thesis using s(1) g unfolding r_def [symmetric]
    by (intro exI [of _ io] exI [of _ s] exI [of _ t]) (simp add: copy_bytes_def same_arch_def string_progress_def bump_def get_index_def get_reg32_def flip: r_def)
qed

end
