(* ===== verification/Spec2Isabelle.thy ===== *)
theory Spec2Isabelle
  imports Pic_Init Alu_Bit Alu_MulDiv_Laws Tlb_Inv Ctrl_Top String_Laws
begin

text \<open>
  A verification development for an emulator of an IA-32 personal computer (src/src, a C++ program
  around the classes \<open>CPU\<close>, the interrupt controllers and the I/O bus).

  \<^bold>\<open>The program.\<close> \<open>CPU\<close> (src/src/cpu/cpu.h) holds the registers, the segment registers with their
  cached descriptors, the control registers, guest RAM, a TLB of host pointers with access tags, and the table
  of translated traces. Guest instructions are decoded into traces of handlers (cpu/decoder.cpp,
  cpu/opcodes.cpp). A handler calls the routines of cpu/arith.cpp and cpu/bit.cpp for its
  arithmetic, which leave the status flags unevaluated for cpu/eflags.cpp; it reaches memory by an
  inlined fast path through the TLB, or by the slow path in cpu/access.cpp, which walks the page tables
  (cpu/mmu.cpp), goes to a device (io.cpp) and drops translated code that is overwritten (cpu/smc.cpp).
  Segments, privilege and transfers of control are cpu/seg.cpp, cpu/prot.cpp and
  cpu/ctrlflow.cpp. Devices register port and memory handlers with io.cpp and raise interrupt lines,
  which pic.cpp, ioapic.cpp and apic.cpp turn into the vector the processor acknowledges. An
  exception is a return value of 1 after the vector has been stored, which every caller passes on.

  \<^bold>\<open>Conventions.\<close> Integers have the width of the source (\<open>u8\<close> to \<open>u64\<close> in Machine_Prelude) and
  wrap as there. A fixed-size array is a function of its index; where an index can leave the array, the
  model has the end as a value. The state is a record that is passed and returned: \<open>cpu_flags\<close> (Cpu_State)
  with the clock and the flag words, extended by \<open>cpu_regs\<close> (Cpu_Regs) and by \<open>cpu_mem\<close> (Cpu_Mem) with memory, TLB,
  segments and traces; and \<open>intr_board\<close> (Intr_State) for the controllers. A routine that can only abort the emulator returns an option, \<open>None\<close>
  being \<open>abort()\<close>, a \<open>FATAL\<close> macro, or an operation C++ leaves undefined (a shift outside the
  width, a division by zero, an access outside guest RAM). A routine that can fault returns an \<open>outcome\<close>
  (Cpu_Mem): \<open>Ok\<close> with value and state, \<open>Fault\<close> with vector, error code and state, or \<open>Abort\<close>;
  \<open>seq\<close> composes them as the macros of the source do. Signed overflow is the one exception to this rule: where an operand
  is promoted to \<open>int\<close> and the result overflows (the product in \<open>cpu_imul8\<close>, a left shift of a promoted operand in \<open>cpu_shift8\<close> and \<open>cpu_shift16\<close>,
  \<open>endmask - 1\<close> in \<open>cpu_smc_invalidate\<close> for the last chunk), the model takes the two's complement
  result. Devices are a state of type \<open>'d\<close> behind the handlers of the bus, an argument of the
  definitions; the hypothesis \<open>bus_total\<close> says that no handler aborts.

  \<^bold>\<open>Theories and sources.\<close>
  \<^item> Machine_Prelude, Word_Carry: types, shifts, the option monad, carries of word addition; the collections
    \<open>machine_simps\<close> and \<open>width_simps\<close>.
  \<^item> Cpu_State, Eflags, Eflags_Laws (cpu/eflags.cpp): the lazy flags. \<open>flags_of\<close> reads the six status flags of a
    state; the locales \<open>flag_setter\<close> and \<open>flag_setter_pair\<close> are the contract of the setters and are interpreted on
    \<open>cpu_set_cf\<close> and its like.
  \<^item> Alu_Arith, Alu_Shift, Alu_MulDiv, Bit_Scan, Alu_Bit (cpu/arith.cpp, cpu/bit.cpp) with the laws in
    Alu_Spec, Alu_Laws, Rotate_Laws, Shift_Laws, Alu_MulDiv_Laws and Alu_Bit: each routine at each width against an
    integer or one-bit-step reference, flags and frame included. Cpu_Regs has the overlapping views of the
    general registers, with the locale \<open>reg_view\<close> and its three interpretations.
  \<^item> Intr_State, Apic (apic.cpp), Pic_Fabric (pic.cpp, ioapic.cpp), Apic_Laws, Pic_Laws, Pic_Init,
    Fabric_Inv: the interrupt controllers. The locale \<open>vector_map\<close> (sets of vectors with a maximum) is interpreted on the
    bitmaps of the local APIC. Fabric_Inv has the step relation of the board, \<open>fabric_step\<close>, over all entry points
    of devices, guest and processor, from the board its initialisation gives with any of the APICs switched on or off.
  \<^item> Io_Bus, Io_Laws (io.cpp): ports, memory-mapped regions, registration.
  \<^item> Cpu_Mem, Mmu (cpu/mmu.cpp, cpu/prot.cpp, the address line 20 of cpu/cpu.cpp), Access
    (cpu/access.cpp, cpu/stack.cpp, cpu/smc.cpp, the table of cpu/trace.cpp): memory.
    Mem_Inv states the invariant \<open>mem_ok\<close> of the TLB, Mem_Safety proves it of each operation, Guest_Run has
    the operations of a guest as one datatype and their runs. Ram_Laws, Flat_Mem and Tlb_Inv show that, with paging
    off, all this is a flat array of bytes; Paging_Laws is about the page walk, Tlb_Smc_Laws about flushes,
    invalidation and translated code, Frame_Laws about what accesses and faults leave alone.
  \<^item> Seg, Seg_Laws (cpu/seg.cpp); Misc, Misc_Laws (cpu/misc.cpp, cpu/io.cpp).
  \<^item> Ctrl_Base, Ctrl_Int, Ctrl_Far (cpu/ctrlflow.cpp): interrupts, task switches, far transfers. Ctrl_Laws and
    Ctrl_Mode prove what holds of every transfer, Ctrl_Flat the stack frames on the flat machine, Ctrl_Top the
    properties.
  \<^item> String_Ops, String_Laws (cpu/string.cpp): the string instructions, and the block transfers on the flat
    machine.

  \<^bold>\<open>What is shown.\<close> Safety of memory: in every run of \<open>guest_step\<close> from start-up no access leaves guest RAM or the
  tables (\<open>guest_memory_safety\<close>). Refinement: memory without paging is an array of bytes, after any
  such run (\<open>flat_memory_refinement\<close>); stack and descriptor round trips, block moves and the frames of
  interrupts rest on it. Correctness of the walk, of the flushes and of code invalidation. Control transfers: the processor
  mode stays well-formed, a return does not gain privilege, exceptions are delivered after at most two
  attempts or the emulator stops, faults are precise. Arithmetic: results and flags. The interrupt fabric: an
  invariant under which no step aborts, the resolver, delivery and end of interrupt. Several properties
  state a deviation of the code from the architecture exactly as it is (a flag after a long shift, POPF, large pages, the
  last chunk of a page, the data segments after a return, loads of code segments); the manifest lists them as findings.

  \<^bold>\<open>Bounds.\<close> Loops of the source over arrays are folds over the list of indices, or structural recursion on it, so that no fuel is used
  there. \<open>exception_run\<close> is the mutual recursion of exception and interrupt delivery as a recursion on the vector being
  delivered, with a termination proof; \<open>rep_loop\<close> and \<open>scan_loop\<close> recurse on the counter, which the source
  bounds by 65536. The PC's sizes of RAM, from 1 MiB to 2 GiB in whole pages, are hypotheses where they matter.

  \<^bold>\<open>Not modelled.\<close> The decoder and the handlers of cpu/opcodes.cpp (each is a call of the modelled routines around an inlined
  access), so also the fetch of instructions and the execution loop; floating point and SIMD; the timers, DMA, keyboard,
  disk, network, video and PCI devices, which appear only as the state behind the bus; configuration, save files and the
  windows of the host. The transfers of DMA and of the disk controller into guest RAM are among the devices: they
  use an address of the guest without a bound (a finding), and \<open>guest_step\<close> has no such step. Of DMA only the
  notification \<open>cpu_init_dma\<close> is modelled. LAR, LSL, VERR and VERW are left out, and the field \<open>m_seg_valid\<close>,
  which nothing reads.
\<close>

end
